(* ===== verification/Go_Prelude.thy ===== *)
theory Go_Prelude
  imports Main "HOL-Library.AList" "HOL-Library.Char_ord" "HOL-Library.List_Lexorder"
    "HOL-Library.Sublist"
begin

text \<open>
  What the components share: the parts of the Go language and of its standard library that
  the modelled packages use, with the lemmas about them.

  A Go \<^verbatim>\<open>string\<close> is a byte string, so it is a HOL \<^typ>\<open>string\<close>; strings are ordered byte by
  byte, which is the order the library gives \<^typ>\<open>char list\<close>. A Go \<^verbatim>\<open>int\<close> is 64 bits wide on
  the platforms the Go tools are built for; it is an \<^typ>\<open>int\<close> here and the places where a
  value enters from text (\<open>Atoi\<close>) carry the range check. A Go \<^verbatim>\<open>map\<close> is an association
  list with distinct keys, so that iterating over it is executable; Go leaves the iteration
  order open, and the list's own order stands for whichever order a run takes.
\<close>

named_theorems go_str \<open>unfolding rules of the string routines\<close>
named_theorems go_map \<open>lookup after an update of a Go map\<close>

section \<open>Maps\<close>

type_synonym ('k, 'v) gomap = "('k \<times> 'v) list"

abbreviation mget :: "('k, 'v) gomap \<Rightarrow> 'k \<Rightarrow> 'v option" where
  "mget m k \<equiv> map_of m k"

abbreviation mput :: "'k \<Rightarrow> 'v \<Rightarrow> ('k, 'v) gomap \<Rightarrow> ('k, 'v) gomap" where
  "mput k v m \<equiv> AList.update k v m"

abbreviation mdel :: "'k \<Rightarrow> ('k, 'v) gomap \<Rightarrow> ('k, 'v) gomap" where
  "mdel k m \<equiv> AList.delete k m"

abbreviation mkeys :: "('k, 'v) gomap \<Rightarrow> 'k list" where
  "mkeys m \<equiv> map fst m"

definition mhas :: "('k, 'v) gomap \<Rightarrow> 'k \<Rightarrow> bool" where
  "mhas m k \<longleftrightarrow> mget m k \<noteq> None"

section \<open>Strings\<close>

text \<open>
  The encodings of the code points \<^verbatim>\<open>unicode.IsSpace\<close> accepts: the six ASCII ones, then
  U+0085, U+00A0, U+1680, U+2000 to U+200A, U+2028, U+2029, U+202F, U+205F and U+3000 in
  UTF-8. A lead byte never occurs inside another code point's encoding, so a space starts at
  a byte position exactly when one of these is a prefix there.
\<close>

definition go_spaces :: "string list" where
  "go_spaces =
     [[CHR 0x09], [CHR 0x0A], [CHR 0x0B], [CHR 0x0C], [CHR 0x0D], [CHR 0x20],
      [CHR 0xC2, CHR 0x85], [CHR 0xC2, CHR 0xA0], [CHR 0xE1, CHR 0x9A, CHR 0x80],
      [CHR 0xE2, CHR 0x80, CHR 0x80], [CHR 0xE2, CHR 0x80, CHR 0x81],
      [CHR 0xE2, CHR 0x80, CHR 0x82], [CHR 0xE2, CHR 0x80, CHR 0x83],
      [CHR 0xE2, CHR 0x80, CHR 0x84], [CHR 0xE2, CHR 0x80, CHR 0x85],
      [CHR 0xE2, CHR 0x80, CHR 0x86], [CHR 0xE2, CHR 0x80, CHR 0x87],
      [CHR 0xE2, CHR 0x80, CHR 0x88], [CHR 0xE2, CHR 0x80, CHR 0x89],
      [CHR 0xE2, CHR 0x80, CHR 0x8A], [CHR 0xE2, CHR 0x80, CHR 0xA8],
      [CHR 0xE2, CHR 0x80, CHR 0xA9], [CHR 0xE2, CHR 0x80, CHR 0xAF],
      [CHR 0xE2, CHR 0x81, CHR 0x9F], [CHR 0xE3, CHR 0x80, CHR 0x80]]"

text \<open>The length of the space a string starts with, if it starts with one of \<open>sps\<close>.\<close>

definition space_at :: "string list \<Rightarrow> string \<Rightarrow> nat option" where
  "space_at sps s = map_option length (List.find (\<lambda>sp. sp \<noteq> [] \<and> prefix sp s) sps)"

lemma space_at_bounds:
  assumes "space_at sps s = Some n"
  shows "0 < n" and "n \<le> length s"
  using assms
  by (auto simp: space_at_def find_Some_iff prefix_length_le)

function trim_front :: "string list \<Rightarrow> string \<Rightarrow> string" where
  "trim_front sps s = (case space_at sps s of None \<Rightarrow> s | Some n \<Rightarrow> trim_front sps (drop n s))"
  by pat_completeness auto
termination
proof (relation "measure (\<lambda>(_, s). length s)", goal_cases)
  case 1
  show ?case by simp
next
  case (2 sps s n)
  then show ?case using space_at_bounds [of sps s n] by simp
qed

declare trim_front.simps [simp del]

definition TrimLeftSpace :: "string \<Rightarrow> string" where
  "TrimLeftSpace s = trim_front go_spaces s"

definition TrimRightSpace :: "string \<Rightarrow> string" where
  "TrimRightSpace s = rev (trim_front (map rev go_spaces) (rev s))"

definition TrimSpace :: "string \<Rightarrow> string" where
  "TrimSpace s = TrimRightSpace (TrimLeftSpace s)"

text \<open>\<^verbatim>\<open>strings.Split\<close> with a one-byte separator; never empty.\<close>

fun Split :: "char \<Rightarrow> string \<Rightarrow> string list" where
  "Split c [] = [[]]"
| "Split c (x # xs) =
     (if x = c then [] # Split c xs
      else (case Split c xs of [] \<Rightarrow> [[x]] | w # ws \<Rightarrow> (x # w) # ws))"

text \<open>\<^verbatim>\<open>strings.Cut\<close> with a one-byte separator: before, after and whether it was found.\<close>

definition Cut :: "char \<Rightarrow> string \<Rightarrow> string \<times> string \<times> bool" where
  "Cut c s =
     (if c \<in> set s
      then (takeWhile (\<lambda>x. x \<noteq> c) s, tl (dropWhile (\<lambda>x. x \<noteq> c) s), True)
      else (s, [], False))"

text \<open>\<^verbatim>\<open>strings.Index\<close>: the first position at which \<open>p\<close> occurs.\<close>

fun Index :: "string \<Rightarrow> string \<Rightarrow> nat option" where
  "Index [] p = (if p = [] then Some 0 else None)"
| "Index (x # xs) p =
     (if prefix p (x # xs) then Some 0 else map_option Suc (Index xs p))"

definition isDigit :: "char \<Rightarrow> bool" where
  "isDigit b \<longleftrightarrow> 48 \<le> (of_char b :: nat) \<and> (of_char b :: nat) \<le> 57"

definition digit_val :: "char \<Rightarrow> nat" where
  "digit_val c = of_char c - 48"

definition digit_char :: "nat \<Rightarrow> char" where
  "digit_char d = char_of (48 + d)"

definition digits_val :: "string \<Rightarrow> nat" where
  "digits_val s = foldl (\<lambda>a c. 10 * a + digit_val c) 0 s"

definition int_min :: int where
  "int_min = - (2 ^ 63)"

definition int_max :: int where
  "int_max = 2 ^ 63 - 1"

text \<open>\<^verbatim>\<open>strconv.Atoi\<close>: an optional sign, one digit at least, and a value in range.\<close>

definition Atoi :: "string \<Rightarrow> int option" where
  "Atoi s =
     (let neg = (s \<noteq> [] \<and> hd s = CHR ''-'');
          ds = (if s \<noteq> [] \<and> (hd s = CHR ''-'' \<or> hd s = CHR ''+'') then tl s else s);
          v = (if neg then - int (digits_val ds) else int (digits_val ds))
      in if ds \<noteq> [] \<and> list_all isDigit ds \<and> int_min \<le> v \<and> v \<le> int_max then Some v else None)"

fun nat_dec :: "nat \<Rightarrow> string" where
  "nat_dec n = (if n < 10 then [digit_char n] else nat_dec (n div 10) @ [digit_char (n mod 10)])"

declare nat_dec.simps [simp del]

definition Itoa :: "int \<Rightarrow> string" where
  "Itoa i = (if i < 0 then CHR ''-'' # nat_dec (nat (- i)) else nat_dec (nat i))"

text \<open>\<^verbatim>\<open>strings.Compare\<close>, and the three-way result Go's comparison functions return.\<close>

definition cmp3 :: "'a::linorder \<Rightarrow> 'a \<Rightarrow> int" where
  "cmp3 x y = (if x < y then -1 else if x = y then 0 else 1)"

section \<open>Lemmas\<close>

subsection \<open>Maps\<close>

lemma mget_mput [simp, go_map]: "mget (mput k v m) k' = (if k' = k then Some v else mget m k')"
  by (auto simp: AList.update_conv')

lemma mget_mdel [simp, go_map]: "mget (mdel k m) k' = (if k' = k then None else mget m k')"
  by (auto simp: AList.delete_conv')

lemma mhas_mput [simp, go_map]: "mhas (mput k v m) k' \<longleftrightarrow> k' = k \<or> mhas m k'"
  by (auto simp: mhas_def)

lemma mhas_mdel [simp, go_map]: "mhas (mdel k m) k' \<longleftrightarrow> k' \<noteq> k \<and> mhas m k'"
  by (auto simp: mhas_def)

lemma mhas_Nil [simp]: "\<not> mhas [] k"
  by (simp add: mhas_def)

lemma mhas_keys: "mhas m k \<longleftrightarrow> k \<in> set (mkeys m)"
  by (metis mhas_def map_of_eq_None_iff set_map)

lemma mhas_get: "mget m k = Some v \<Longrightarrow> mhas m k"
  by (simp add: mhas_def)

lemma distinct_mput [simp, intro]: "distinct (mkeys m) \<Longrightarrow> distinct (mkeys (mput k v m))"
  by (rule AList.distinct_update)

lemma distinct_mdel [simp, intro]: "distinct (mkeys m) \<Longrightarrow> distinct (mkeys (mdel k m))"
  by (rule AList.distinct_delete)

lemma mkeys_mdel [simp]: "set (mkeys (mdel k m)) = set (mkeys m) - {k}"
  by (auto simp: mhas_keys [symmetric] simp del: set_map list.set_map)

subsection \<open>Digits and integers\<close>

lemma isDigit_digit_char [simp]: "d < 10 \<Longrightarrow> isDigit (digit_char d)"
  by (simp add: isDigit_def digit_char_def)

lemma digit_val_digit_char [simp]: "d < 10 \<Longrightarrow> digit_val (digit_char d) = d"
  by (simp add: digit_val_def digit_char_def)

lemma digits_val_Nil [simp]: "digits_val [] = 0"
  by (simp add: digits_val_def)

lemma digits_val_snoc [simp]: "digits_val (s @ [c]) = 10 * digits_val s + digit_val c"
  by (simp add: digits_val_def)

lemma nat_dec_nonempty [simp]: "nat_dec n \<noteq> []"
  by (subst nat_dec.simps) simp

lemma nat_dec_digits: "list_all isDigit (nat_dec n)"
proof (induction n rule: nat_dec.induct)
  case (1 n)
  then show ?case by (subst nat_dec.simps) auto
qed

lemma digits_val_nat_dec [simp]: "digits_val (nat_dec n) = n"
proof (induction n rule: nat_dec.induct)
  case (1 n)
  show ?case
  proof (cases "n < 10")
    case True
    then show ?thesis by (subst nat_dec.simps) (simp add: digits_val_def)
  next
    case False
    with 1 show ?thesis by (subst nat_dec.simps) simp
  qed
qed

lemma nat_dec_inject [simp]: "nat_dec m = nat_dec n \<longleftrightarrow> m = n"
  by (metis digits_val_nat_dec)

lemma not_isDigit_sign [simp]: "\<not> isDigit (CHR ''-'')" "\<not> isDigit (CHR ''+'')" "\<not> isDigit (CHR ''.'')"
  "\<not> isDigit (CHR '' '')"
  by (simp_all add: isDigit_def)

lemma hd_nat_dec: "isDigit (hd (nat_dec n))"
  using nat_dec_digits [of n] nat_dec_nonempty [of n]
  by (cases "nat_dec n") simp_all

text \<open>Printing and reading an integer gives it back, for every value the type holds.\<close>

lemma Atoi_Itoa:
  assumes "int_min \<le> i" and "i \<le> int_max"
  shows "Atoi (Itoa i) = Some i"
proof (cases "i < 0")
  case True
  then show ?thesis
    using assms nat_dec_digits [of "nat (- i)"] by (simp add: Atoi_def Itoa_def)
next
  case False
  have "hd (nat_dec (nat i)) \<noteq> CHR ''-''" and "hd (nat_dec (nat i)) \<noteq> CHR ''+''"
    using hd_nat_dec [of "nat i"] by auto
  then show ?thesis
    using False assms nat_dec_digits [of "nat i"] by (simp add: Atoi_def Itoa_def)
qed

lemma Atoi_range: "Atoi s = Some i \<Longrightarrow> int_min \<le> i \<and> i \<le> int_max"
  by (auto simp: Atoi_def Let_def split: if_splits)

subsection \<open>Splitting\<close>

lemma Split_nonempty [simp]: "Split c s \<noteq> []"
  by (induction s) (auto split: list.splits)

lemma Split_append_sep: "Split c (s @ c # t) = Split c s @ Split c t"
  by (induction s) (auto split: list.splits)

lemma Split_no_sep: "c \<notin> set s \<Longrightarrow> Split c s = [s]"
  by (induction s) auto

lemma Cut_append: "c \<notin> set s \<Longrightarrow> Cut c (s @ c # t) = (s, t, True)"
proof -
  assume c: "c \<notin> set s"
  then have "takeWhile (\<lambda>x. x \<noteq> c) (s @ c # t) = s"
    by (subst takeWhile_append2) auto
  moreover have "dropWhile (\<lambda>x. x \<noteq> c) (s @ c # t) = c # t"
    using c by (subst dropWhile_append2) auto
  ultimately show ?thesis by (simp add: Cut_def)
qed

lemma Cut_absent: "c \<notin> set s \<Longrightarrow> Cut c s = (s, [], False)"
  by (simp add: Cut_def)

subsection \<open>Trimming\<close>

lemma trim_front_id: "space_at sps s = None \<Longrightarrow> trim_front sps s = s"
  by (subst trim_front.simps) simp

lemma trim_front_None: "space_at sps (trim_front sps s) = None"
proof (induction sps s rule: trim_front.induct)
  case (1 sps s)
  then show ?case by (subst trim_front.simps) (simp split: option.splits)
qed

lemma trim_front_idem [simp]: "trim_front sps (trim_front sps s) = trim_front sps s"
  by (rule trim_front_id) (rule trim_front_None)

lemma trim_front_suffix: "suffix (trim_front sps s) s"
proof (induction sps s rule: trim_front.induct)
  case (1 sps s)
  then show ?case
    by (subst trim_front.simps)
      (auto split: option.splits intro: suffix_order.trans suffix_drop)
qed

text \<open>A string with no white space at either end, which is what \<^verbatim>\<open>TrimSpace\<close> returns.\<close>

definition trimmed :: "string \<Rightarrow> bool" where
  "trimmed s \<longleftrightarrow> space_at go_spaces s = None \<and> space_at (map rev go_spaces) (rev s) = None"

lemma space_at_None: "space_at sps s = None \<longleftrightarrow> (\<forall>sp \<in> set sps. sp = [] \<or> \<not> prefix sp s)"
  by (auto simp: space_at_def find_None_iff)

lemma space_at_prefix: "space_at sps s = None \<Longrightarrow> prefix t s \<Longrightarrow> space_at sps t = None"
  by (meson prefix_order.trans space_at_None)

lemma prefix_before_sep:
  assumes "c \<notin> set p" and "prefix p (s @ c # t)"
  shows "prefix p s"
proof -
  from assms(2) consider "prefix p s" | u where "p = s @ u" "prefix u (c # t)"
    by (auto simp: prefix_append)
  then show ?thesis
  proof cases
    case 2
    then have "u = []" using assms(1) by (cases u) auto
    with 2 show ?thesis by simp
  qed
qed

lemma space_at_append_sep:
  assumes "space_at sps s = None" and "\<forall>sp \<in> set sps. c \<notin> set sp"
  shows "space_at sps (s @ c # t) = None"
  using assms by (meson prefix_before_sep space_at_None)

lemma space_at_Nil [simp]: "space_at sps [] = None"
  by (auto simp: space_at_None)

lemma trimmed_TrimSpace: "trimmed s \<Longrightarrow> TrimSpace s = s"
  by (simp add: TrimSpace_def TrimLeftSpace_def TrimRightSpace_def trimmed_def trim_front_id)

lemma TrimRightSpace_prefix: "prefix (TrimRightSpace s) s"
  using trim_front_suffix [of "map rev go_spaces" "rev s"]
  by (simp add: TrimRightSpace_def suffix_to_prefix)

lemma trimmed_of_TrimSpace: "trimmed (TrimSpace s)"
proof -
  have "space_at go_spaces (TrimLeftSpace s) = None"
    by (simp add: TrimLeftSpace_def trim_front_None)
  then have "space_at go_spaces (TrimSpace s) = None"
    unfolding TrimSpace_def by (rule space_at_prefix) (rule TrimRightSpace_prefix)
  moreover have "space_at (map rev go_spaces) (rev (TrimSpace s)) = None"
    by (simp add: TrimSpace_def TrimRightSpace_def trim_front_None)
  ultimately show ?thesis by (simp add: trimmed_def)
qed

lemma trimmed_iff: "trimmed s \<longleftrightarrow> TrimSpace s = s"
  by (metis trimmed_TrimSpace trimmed_of_TrimSpace)

lemma trimmed_Nil [simp]: "trimmed []"
  by (simp add: trimmed_def)

lemma TrimSpace_Nil [simp]: "TrimSpace [] = []"
  by (simp add: trimmed_TrimSpace)

text \<open>The bytes that occur in no space, such as a printable ASCII character.\<close>

definition solid :: "char \<Rightarrow> bool" where
  "solid c \<longleftrightarrow> (\<forall>sp \<in> set go_spaces. c \<notin> set sp)"

lemma solid_ascii: "33 \<le> (of_char c :: nat) \<Longrightarrow> (of_char c :: nat) \<le> 126 \<Longrightarrow> solid c"
  by (auto simp: solid_def go_spaces_def)

lemma space_at_solid: "solid c \<Longrightarrow> space_at go_spaces (c # s) = None"
  using space_at_append_sep [of go_spaces "[]" c s] by (simp add: solid_def)

lemma space_at_rev_solid: "solid c \<Longrightarrow> space_at (map rev go_spaces) (c # s) = None"
  using space_at_append_sep [of "map rev go_spaces" "[]" c s] by (simp add: solid_def)

lemma trimmed_join:
  assumes "space_at go_spaces s = None" and "space_at (map rev go_spaces) (rev t) = None" and "solid c"
  shows "trimmed (s @ c # t)"
  using assms space_at_append_sep [of go_spaces s c t]
    space_at_append_sep [of "map rev go_spaces" "rev t" c "rev s"]
  by (simp add: trimmed_def solid_def)

lemma trimmed_solid_ends: "solid a \<Longrightarrow> solid b \<Longrightarrow> trimmed (a # s @ [b])"
  by (simp add: trimmed_def space_at_solid space_at_rev_solid)

lemma trimmed_all_solid: "\<forall>c \<in> set s. solid c \<Longrightarrow> trimmed s"
proof -
  assume solid: "\<forall>c \<in> set s. solid c"
  have "space_at go_spaces s = None"
    using solid by (cases s) (simp_all add: space_at_solid)
  moreover have "space_at (map rev go_spaces) (rev s) = None"
    using solid by (cases s rule: rev_cases) (simp_all add: space_at_rev_solid)
  ultimately show ?thesis by (simp add: trimmed_def)
qed

lemma isDigit_solid: "isDigit c \<Longrightarrow> solid c"
  by (rule solid_ascii) (auto simp: isDigit_def)

end
