(* ===== verification/Three_Way.thy ===== *)
theory Three_Way
  imports Go_Prelude
begin

text \<open>
  The interface of a Go three-way comparison function: it returns -1, 0 or 1, swapping its
  arguments negates the result, and "not greater" is transitive. Together these say that the
  function decides a total preorder. The lemmas here build comparisons out of comparisons
  (through a key, one after the other, lexicographically), and give a client what it uses.
\<close>

locale three_way =
  fixes cmp :: "'a \<Rightarrow> 'a \<Rightarrow> int"
  assumes range: "cmp x y = -1 \<or> cmp x y = 0 \<or> cmp x y = 1"
    and anti: "cmp y x = - cmp x y"
    and trans_le: "cmp x y \<le> 0 \<Longrightarrow> cmp y z \<le> 0 \<Longrightarrow> cmp x z \<le> 0"
begin

lemma same [simp]: "cmp x x = 0"
  using anti [of x x] by simp

lemma trans_ge: "0 \<le> cmp x y \<Longrightarrow> 0 \<le> cmp y z \<Longrightarrow> 0 \<le> cmp x z"
  using trans_le [of z y x] anti [of x y] anti [of y z] anti [of x z] by simp

lemma eq_left:
  assumes "cmp x y = 0"
  shows "cmp x z = cmp y z"
proof -
  have yx: "cmp y x = 0" using anti [of x y] assms by simp
  have "cmp x z \<le> 0 \<longleftrightarrow> cmp y z \<le> 0"
    using trans_le [of x y z] trans_le [of y x z] assms yx by auto
  moreover have "0 \<le> cmp x z \<longleftrightarrow> 0 \<le> cmp y z"
    using trans_ge [of x y z] trans_ge [of y x z] assms yx by auto
  ultimately show ?thesis using range [of x z] range [of y z] by auto
qed

lemma eq_right:
  assumes "cmp y z = 0"
  shows "cmp x y = cmp x z"
  using eq_left [OF assms, of x] anti [of x y] anti [of x z] by simp

lemma less_le_trans:
  assumes "cmp x y < 0" and "cmp y z \<le> 0"
  shows "cmp x z < 0"
proof -
  have le: "cmp x z \<le> 0" using trans_le [of x y z] assms by simp
  have "cmp x z \<noteq> 0"
  proof
    assume "cmp x z = 0"
    then have "cmp z y = cmp x y" by (rule eq_left [symmetric])
    then show False using assms anti [of y z] by simp
  qed
  with le show ?thesis by simp
qed

lemma le_less_trans:
  assumes "cmp x y \<le> 0" and "cmp y z < 0"
  shows "cmp x z < 0"
proof -
  have le: "cmp x z \<le> 0" using trans_le [of x y z] assms by simp
  have "cmp x z \<noteq> 0"
  proof
    assume "cmp x z = 0"
    then have "cmp y x = cmp y z" by (rule eq_right)
    then show False using assms anti [of x y] by simp
  qed
  with le show ?thesis by simp
qed

lemma total: "cmp x y \<le> 0 \<or> cmp y x \<le> 0"
  using anti [of x y] by linarith

lemma keyed: "three_way (\<lambda>x y. cmp (f x) (f y))"
  by unfold_locales (use range anti trans_le in blast)+

end

text \<open>The comparison a linear order gives.\<close>

lemma cmp3_three_way: "three_way (cmp3 :: 'a::linorder \<Rightarrow> 'a \<Rightarrow> int)"
  by unfold_locales (auto simp: cmp3_def split: if_splits)

lemma cmp3_zero [simp]: "cmp3 x y = 0 \<longleftrightarrow> x = y"
  by (simp add: cmp3_def)

section \<open>One comparison after another\<close>

definition then_cmp :: "('a \<Rightarrow> 'a \<Rightarrow> int) \<Rightarrow> ('a \<Rightarrow> 'a \<Rightarrow> int) \<Rightarrow> 'a \<Rightarrow> 'a \<Rightarrow> int" where
  "then_cmp c d x y = (if c x y \<noteq> 0 then c x y else d x y)"

lemma then_cmp_three_way:
  assumes c: "three_way c" and d: "three_way d"
  shows "three_way (then_cmp c d)"
proof
  fix x y z
  show "then_cmp c d x y = -1 \<or> then_cmp c d x y = 0 \<or> then_cmp c d x y = 1"
    using three_way.range [OF c, of x y] three_way.range [OF d, of x y]
    by (auto simp: then_cmp_def)
  show "then_cmp c d y x = - then_cmp c d x y"
    by (simp add: then_cmp_def three_way.anti [OF c, of y x] three_way.anti [OF d, of y x])
  assume le: "then_cmp c d x y \<le> 0" "then_cmp c d y z \<le> 0"
  then have "c x y \<le> 0" "c y z \<le> 0"
    by (auto simp: then_cmp_def split: if_splits)
  then consider "c x y < 0" | "c x y = 0" "c y z < 0" | "c x y = 0" "c y z = 0"
    by linarith
  then show "then_cmp c d x z \<le> 0"
  proof cases
    case 1
    then have "c x z < 0" using \<open>c y z \<le> 0\<close> by (rule three_way.less_le_trans [OF c])
    then show ?thesis by (simp add: then_cmp_def)
  next
    case 2
    then have "c x z < 0" using three_way.eq_left [OF c, of x y z] by simp
    then show ?thesis by (simp add: then_cmp_def)
  next
    case 3
    then have "c x z = 0" using three_way.eq_left [OF c, of x y z] by simp
    then show ?thesis
      using 3 le three_way.trans_le [OF d, of x y z] by (simp add: then_cmp_def)
  qed
qed

section \<open>Lexicographic comparison of lists, a proper prefix first\<close>

fun lex_cmp :: "('a \<Rightarrow> 'a \<Rightarrow> int) \<Rightarrow> 'a list \<Rightarrow> 'a list \<Rightarrow> int" where
  "lex_cmp c [] [] = 0"
| "lex_cmp c [] (y # ys) = -1"
| "lex_cmp c (x # xs) [] = 1"
| "lex_cmp c (x # xs) (y # ys) = (if c x y \<noteq> 0 then c x y else lex_cmp c xs ys)"

context three_way
begin

lemma lex_range: "lex_cmp cmp xs ys = -1 \<or> lex_cmp cmp xs ys = 0 \<or> lex_cmp cmp xs ys = 1"
proof (induction xs arbitrary: ys)
  case Nil
  show ?case by (cases ys) auto
next
  case (Cons x xs)
  then show ?case using range by (cases ys) auto
qed

lemma lex_anti: "lex_cmp cmp ys xs = - lex_cmp cmp xs ys"
proof (induction xs arbitrary: ys)
  case Nil
  show ?case by (cases ys) auto
next
  case (Cons x xs)
  show ?case
    by (cases ys) (auto simp: Cons.IH anti [of _ x])
qed

lemma lex_trans:
  "lex_cmp cmp xs ys \<le> 0 \<Longrightarrow> lex_cmp cmp ys zs \<le> 0 \<Longrightarrow> lex_cmp cmp xs zs \<le> 0"
proof (induction xs arbitrary: ys zs)
  case Nil
  show ?case by (cases zs) auto
next
  case (Cons x xs)
  then obtain y ys' where ys: "ys = y # ys'" by (cases ys) auto
  with Cons.prems obtain z zs' where zs: "zs = z # zs'" by (cases zs) auto
  from Cons.prems have xy: "cmp x y \<le> 0" and yz: "cmp y z \<le> 0"
    by (auto simp: ys zs split: if_splits)
  consider "cmp x y < 0" | "cmp x y = 0" "cmp y z < 0" | "cmp x y = 0" "cmp y z = 0"
    using xy yz by linarith
  then show ?case
  proof cases
    case 1
    then have "cmp x z < 0" using yz by (rule less_le_trans)
    then show ?thesis by (simp add: zs)
  next
    case 2
    then have "cmp x z < 0" using eq_left [of x y z] by simp
    then show ?thesis by (simp add: zs)
  next
    case 3
    then have "cmp x z = 0" using eq_left [of x y z] by simp
    then show ?thesis using 3 Cons by (simp add: ys zs)
  qed
qed

lemma lex: "three_way (lex_cmp cmp)"
  by unfold_locales (rule lex_range, rule lex_anti, rule lex_trans)

end

section \<open>Comparison at the first position that differs\<close>

text \<open>\<open>first_nonzero\<close> is a Go loop that returns the first comparison that is not a tie.\<close>

fun first_nonzero :: "int list \<Rightarrow> int" where
  "first_nonzero [] = 0"
| "first_nonzero (c # cs) = (if c \<noteq> 0 then c else first_nonzero cs)"

definition upto_cmp :: "('a \<Rightarrow> 'a \<Rightarrow> int) \<Rightarrow> nat \<Rightarrow> (nat \<Rightarrow> 'a) \<Rightarrow> (nat \<Rightarrow> 'a) \<Rightarrow> int" where
  "upto_cmp c n f g = first_nonzero (map (\<lambda>i. c (f i) (g i)) [0..<n])"

lemma first_nonzero_append:
  "first_nonzero (xs @ ys) = (if first_nonzero xs \<noteq> 0 then first_nonzero xs else first_nonzero ys)"
  by (induction xs) auto

lemma first_nonzero_zeros: "(\<forall>c \<in> set cs. c = 0) \<Longrightarrow> first_nonzero cs = 0"
  by (induction cs) auto

context three_way
begin

lemma upto: "three_way (upto_cmp cmp n)"
proof (induction n)
  case 0
  show ?case by unfold_locales (simp_all add: upto_cmp_def)
next
  case (Suc n)
  have "upto_cmp cmp (Suc n) = then_cmp (upto_cmp cmp n) (\<lambda>f g. cmp (f n) (g n))"
    by (intro ext) (simp add: upto_cmp_def then_cmp_def first_nonzero_append)
  moreover have "three_way (\<lambda>f g. cmp (f n) (g n))" by (rule keyed)
  ultimately show ?case using Suc then_cmp_three_way by metis
qed

lemma upto_extend:
  assumes "n \<le> m" and "\<And>i. n \<le> i \<Longrightarrow> i < m \<Longrightarrow> cmp (f i) (g i) = 0"
  shows "upto_cmp cmp m f g = upto_cmp cmp n f g"
proof -
  have "[0..<m] = [0..<n] @ [n..<m]" using assms(1) by (metis le_add_diff_inverse upt_add_eq_append zero_le)
  moreover have "first_nonzero (map (\<lambda>i. cmp (f i) (g i)) [n..<m]) = 0"
    using assms(2) by (intro first_nonzero_zeros) auto
  ultimately show ?thesis by (simp add: upto_cmp_def first_nonzero_append)
qed

end

end
