(* ===== verification/Vercmp.thy ===== *)
theory Vercmp
  imports Three_Way
begin

text \<open>
  \<^verbatim>\<open>internal/vercmp\<close>: comparing package version strings. Each Go function is one definition
  here, in the order of the file. The main result is that \<open>Compare\<close> is a three-way
  comparison in the sense of \<^theory_text>\<open>three_way\<close>, that is, that it decides a total preorder: the
  dependency solver relies on nothing else.
\<close>

section \<open>Definitions\<close>

definition takeRun :: "string \<Rightarrow> bool \<Rightarrow> string \<times> string" where
  "takeRun s digits =
     (takeWhile (\<lambda>c. isDigit c = digits) s, dropWhile (\<lambda>c. isDigit c = digits) s)"

text \<open>\<^verbatim>\<open>strings.TrimLeft(x, "0")\<close>.\<close>

definition trim_zeros :: "string \<Rightarrow> string" where
  "trim_zeros s = dropWhile (\<lambda>c. c = CHR ''0'') s"

definition compareNumeric :: "string \<Rightarrow> string \<Rightarrow> int" where
  "compareNumeric x y =
     (let x = trim_zeros x; y = trim_zeros y
      in if length x \<noteq> length y then (if length x < length y then -1 else 1)
         else cmp3 x y)"

text \<open>
  The loop runs while both strings are non-empty and each turn takes a non-empty run off
  both, so it ends; the code after the loop is the last two equations' case distinction.
\<close>

lemma takeRun_shrinks:
  "(r, rest) = takeRun s d \<Longrightarrow> s \<noteq> [] \<Longrightarrow> isDigit (hd s) = d \<Longrightarrow> length rest < length s"
  by (cases s) (auto simp: takeRun_def le_imp_less_Suc length_dropWhile_le)

function naturalCompare :: "string \<Rightarrow> string \<Rightarrow> int" where
  "naturalCompare x y =
     (if x \<noteq> [] \<and> y \<noteq> []
      then (let xDigit = isDigit (hd x); yDigit = isDigit (hd y)
            in if xDigit \<noteq> yDigit then (if xDigit then -1 else 1)
               else (case (takeRun x xDigit, takeRun y yDigit) of
                       ((xc, x'), (yc, y')) \<Rightarrow>
                         (let c = (if xDigit then compareNumeric xc yc else cmp3 xc yc)
                          in if c \<noteq> 0 then c else naturalCompare x' y')))
      else if x = [] \<and> y = [] then 0
      else if x = [] then -1 else 1)"
  by pat_completeness auto
termination
  by (relation "measure (\<lambda>(x, _). length x)") (auto dest: takeRun_shrinks)

declare naturalCompare.simps [simp del]

definition comparePart :: "string \<Rightarrow> string \<Rightarrow> int" where
  "comparePart x y =
     (case (Atoi x, Atoi y) of
        (Some xi, Some yi) \<Rightarrow> (if xi \<noteq> yi then (if xi < yi then -1 else 1) else 0)
      | (Some _, None) \<Rightarrow> -1
      | (None, Some _) \<Rightarrow> 1
      | (None, None) \<Rightarrow> naturalCompare x y)"

text \<open>A missing component is zero.\<close>

definition part_at :: "string list \<Rightarrow> nat \<Rightarrow> string" where
  "part_at a i = (if i < length a then a ! i else ''0'')"

definition compareParts :: "string list \<Rightarrow> string list \<Rightarrow> int" where
  "compareParts a b = upto_cmp comparePart (max (length a) (length b)) (part_at a) (part_at b)"

definition split :: "string \<Rightarrow> string list \<times> string" where
  "split v =
     (let (core, pre, found) = Cut (CHR ''-'') (TrimSpace v);
          pre = (if \<not> found then [] else pre)
      in (Split (CHR ''.'') core, pre))"

definition Compare :: "string \<Rightarrow> string \<Rightarrow> int" where
  "Compare a b =
     (let (aCore, aPre) = split a; (bCore, bPre) = split b; c = compareParts aCore bCore
      in if c \<noteq> 0 then c
         else if aPre = [] \<and> bPre = [] then 0
         else if aPre = [] then 1
         else if bPre = [] then -1
         else compareParts (Split (CHR ''.'') aPre) (Split (CHR ''.'') bPre))"

section \<open>Runs of digits compare as numbers\<close>

lemma digits_val_Cons: "digits_val (c # s) = digit_val c * 10 ^ length s + digits_val s"
proof -
  have "foldl (\<lambda>a c. 10 * a + digit_val c) k s = k * 10 ^ length s + digits_val s" for k
  proof (induction s rule: rev_induct)
    case (snoc x xs)
    then show ?case by (simp add: algebra_simps)
  qed simp
  from this [of "digit_val c"] show ?thesis by (simp add: digits_val_def)
qed

lemma digit_val_bound: "isDigit c \<Longrightarrow> digit_val c \<le> 9"
  by (auto simp: isDigit_def digit_val_def)

lemma digit_val_inject: "isDigit a \<Longrightarrow> isDigit b \<Longrightarrow> digit_val a = digit_val b \<longleftrightarrow> a = b"
  by (auto simp: isDigit_def digit_val_def dest!: eq_diff_iff [THEN iffD1, rotated -1])

lemma digits_val_bound: "list_all isDigit s \<Longrightarrow> digits_val s < 10 ^ length s"
proof (induction s)
  case (Cons c s)
  then have "digit_val c * 10 ^ length s \<le> 9 * 10 ^ length s"
    using digit_val_bound [of c] by simp
  moreover have "digits_val s < 10 ^ length s" using Cons by simp
  ultimately have "digit_val c * 10 ^ length s + digits_val s < 9 * 10 ^ length s + 10 ^ length s"
    by (rule add_le_less_mono)
  then show ?case by (simp add: digits_val_Cons)
qed simp

lemma digits_val_trim_zeros [simp]: "digits_val (trim_zeros s) = digits_val s"
  by (induction s) (simp_all add: trim_zeros_def digits_val_Cons digit_val_def)

lemma trim_zeros_digits: "list_all isDigit s \<Longrightarrow> list_all isDigit (trim_zeros s)"
  by (auto simp: trim_zeros_def list_all_iff dest: set_dropWhileD)

lemma digits_val_lower:
  assumes "list_all isDigit s" and "s \<noteq> []" and "hd s \<noteq> CHR ''0''"
  shows "10 ^ (length s - 1) \<le> digits_val s"
proof -
  obtain c t where s: "s = c # t" using assms by (cases s) auto
  have "digit_val c \<noteq> digit_val (CHR ''0'')"
    using assms by (subst digit_val_inject) (simp_all add: s isDigit_def)
  then obtain k where "digit_val c = Suc k" by (cases "digit_val c") (auto simp: digit_val_def)
  then show ?thesis by (simp add: s digits_val_Cons)
qed

lemma trim_zeros_hd: "trim_zeros s \<noteq> [] \<Longrightarrow> hd (trim_zeros s) \<noteq> CHR ''0''"
  unfolding trim_zeros_def by (rule hd_dropWhile)

lemma cmp_digits_same_length:
  assumes "length x = length y" and "list_all isDigit x" and "list_all isDigit y"
  shows "(x < y \<longleftrightarrow> digits_val x < digits_val y) \<and> (x = y \<longleftrightarrow> digits_val x = digits_val y)"
  using assms
proof (induction x y rule: list_induct2)
  case (Cons a x b y)
  have bx: "digits_val x < 10 ^ length y" and by': "digits_val y < 10 ^ length y"
    using digits_val_bound [of x] digits_val_bound [of y] Cons by auto
  have ord: "a < b \<longleftrightarrow> digit_val a < digit_val b" and eq: "a = b \<longleftrightarrow> digit_val a = digit_val b"
    using Cons.prems digit_val_inject [of a b]
    by (auto simp: less_char_def isDigit_def digit_val_def)
  let ?k = "10 ^ length y :: nat"
  consider "digit_val a < digit_val b" | "digit_val b < digit_val a" | "digit_val a = digit_val b"
    by linarith
  then show ?case
  proof cases
    case 1
    then have "(digit_val a + 1) * ?k \<le> digit_val b * ?k" by (intro mult_le_mono1) simp
    then have "digit_val a * ?k + digits_val x < digit_val b * ?k + digits_val y"
      using bx by (simp add: algebra_simps)
    then show ?thesis using 1 ord eq Cons.hyps by (auto simp: digits_val_Cons)
  next
    case 2
    then have "(digit_val b + 1) * ?k \<le> digit_val a * ?k" by (intro mult_le_mono1) simp
    then have "digit_val b * ?k + digits_val y < digit_val a * ?k + digits_val x"
      using by' by (simp add: algebra_simps)
    then show ?thesis using 2 ord eq Cons.hyps by (auto simp: digits_val_Cons)
  next
    case 3
    then show ?thesis using ord eq Cons by (auto simp: digits_val_Cons)
  qed
qed simp

lemma digits_val_length_less:
  assumes "list_all isDigit x" and "list_all isDigit y" and "length x < length y"
    and "hd y \<noteq> CHR ''0''"
  shows "digits_val x < digits_val y"
proof -
  have "digits_val x < 10 ^ length x" by (rule digits_val_bound) fact
  also have "(10 :: nat) ^ length x \<le> 10 ^ (length y - 1)"
    using assms(3) by (intro power_increasing) auto
  also have "\<dots> \<le> digits_val y" using assms by (intro digits_val_lower) auto
  finally show ?thesis .
qed

lemma compareNumeric_value:
  assumes "list_all isDigit x" and "list_all isDigit y"
  shows "compareNumeric x y = cmp3 (digits_val x) (digits_val y)"
proof -
  let ?x = "trim_zeros x" and ?y = "trim_zeros y"
  have dx: "list_all isDigit ?x" and dy: "list_all isDigit ?y"
    using assms by (simp_all add: trim_zeros_digits)
  consider "length ?x < length ?y" | "length ?y < length ?x" | "length ?x = length ?y"
    by linarith
  then show ?thesis
  proof cases
    case 1
    then have "digits_val ?x < digits_val ?y"
      using dx dy by (intro digits_val_length_less trim_zeros_hd) auto
    then show ?thesis using 1 by (simp add: compareNumeric_def cmp3_def)
  next
    case 2
    then have "digits_val ?y < digits_val ?x"
      using dx dy by (intro digits_val_length_less trim_zeros_hd) auto
    then show ?thesis using 2 by (simp add: compareNumeric_def cmp3_def)
  next
    case 3
    then show ?thesis
      using cmp_digits_same_length [OF 3 dx dy] by (simp add: compareNumeric_def cmp3_def)
  qed
qed

section \<open>The comparisons are total preorders\<close>

lemma compareNumeric_three_way: "three_way compareNumeric"
proof -
  have "compareNumeric = then_cmp (\<lambda>x y. cmp3 (length (trim_zeros x)) (length (trim_zeros y)))
                                  (\<lambda>x y. cmp3 (trim_zeros x) (trim_zeros y))"
    by (intro ext) (auto simp: compareNumeric_def then_cmp_def cmp3_def Let_def)
  then show ?thesis
    using then_cmp_three_way three_way.keyed [OF cmp3_three_way] by metis
qed

text \<open>The runs of a string, each marked with whether it is a run of digits.\<close>

function chunks :: "string \<Rightarrow> (bool \<times> string) list" where
  "chunks s =
     (if s = [] then []
      else (case takeRun s (isDigit (hd s)) of (r, rest) \<Rightarrow> (isDigit (hd s), r) # chunks rest))"
  by pat_completeness auto
termination
  by (relation "measure length") (auto dest: takeRun_shrinks)

declare chunks.simps [simp del]

definition chunk_cmp :: "bool \<times> string \<Rightarrow> bool \<times> string \<Rightarrow> int" where
  "chunk_cmp p q =
     (if fst p \<noteq> fst q then (if fst p then -1 else 1)
      else if fst p then compareNumeric (snd p) (snd q) else cmp3 (snd p) (snd q))"

lemma chunk_cmp_three_way: "three_way chunk_cmp"
proof
  fix p q r
  show "chunk_cmp p q = -1 \<or> chunk_cmp p q = 0 \<or> chunk_cmp p q = 1"
    using three_way.range [OF compareNumeric_three_way] by (auto simp: chunk_cmp_def cmp3_def)
  show "chunk_cmp q p = - chunk_cmp p q"
    by (auto simp: chunk_cmp_def three_way.anti [OF compareNumeric_three_way, of "snd q"]
        three_way.anti [OF cmp3_three_way, of "snd q"])
  assume "chunk_cmp p q \<le> 0" "chunk_cmp q r \<le> 0"
  then show "chunk_cmp p r \<le> 0"
    using three_way.trans_le [OF compareNumeric_three_way, of "snd p" "snd q" "snd r"]
      three_way.trans_le [OF cmp3_three_way, of "snd p" "snd q" "snd r"]
    by (auto simp: chunk_cmp_def split: if_splits)
qed

lemma naturalCompare_chunks: "naturalCompare x y = lex_cmp chunk_cmp (chunks x) (chunks y)"
proof (induction x y rule: naturalCompare.induct)
  case (1 x y)
  show ?case
  proof (cases "x \<noteq> [] \<and> y \<noteq> [] \<and> isDigit (hd x) = isDigit (hd y)")
    case True
    obtain xc x' where tx: "takeRun x (isDigit (hd x)) = (xc, x')" by fastforce
    obtain yc y' where ty: "takeRun y (isDigit (hd y)) = (yc, y')" by fastforce
    show ?thesis
      using "1.IH" True tx ty
      by (simp add: naturalCompare.simps [of x y] chunks.simps [of x] chunks.simps [of y]
          chunk_cmp_def)
  next
    case False
    then show ?thesis
      by (auto simp: naturalCompare.simps [of x y] chunks.simps [of x] chunks.simps [of y]
          chunk_cmp_def split: prod.splits)
  qed
qed

lemma naturalCompare_three_way: "three_way naturalCompare"
  unfolding naturalCompare_chunks [abs_def]
  by (rule three_way.keyed) (rule three_way.lex [OF chunk_cmp_three_way])

lemma comparePart_three_way: "three_way comparePart"
proof
  fix x y z
  note nat = naturalCompare_three_way
  show "comparePart x y = -1 \<or> comparePart x y = 0 \<or> comparePart x y = 1"
    using three_way.range [OF nat, of x y] by (auto simp: comparePart_def split: option.splits)
  show "comparePart y x = - comparePart x y"
    using three_way.anti [OF nat, of x y] by (auto simp: comparePart_def split: option.splits)
  assume "comparePart x y \<le> 0" "comparePart y z \<le> 0"
  then show "comparePart x z \<le> 0"
    using three_way.trans_le [OF nat, of x y z]
    by (auto simp: comparePart_def split: option.splits if_splits)
qed

lemma compareParts_upto:
  assumes "max (length a) (length b) \<le> n"
  shows "compareParts a b = upto_cmp comparePart n (part_at a) (part_at b)"
proof -
  have "upto_cmp comparePart n (part_at a) (part_at b) =
        upto_cmp comparePart (max (length a) (length b)) (part_at a) (part_at b)"
  proof (rule three_way.upto_extend [OF comparePart_three_way assms])
    fix i
    assume "max (length a) (length b) \<le> i"
    then show "comparePart (part_at a i) (part_at b i) = 0"
      by (simp add: part_at_def three_way.same [OF comparePart_three_way])
  qed
  then show ?thesis by (simp add: compareParts_def)
qed

lemma compareParts_three_way: "three_way compareParts"
proof
  fix a b c
  note up = three_way.upto [OF comparePart_three_way]
  show "compareParts a b = -1 \<or> compareParts a b = 0 \<or> compareParts a b = 1"
    unfolding compareParts_def by (rule three_way.range [OF up])
  show "compareParts b a = - compareParts a b"
    unfolding compareParts_def
    by (subst max.commute) (rule three_way.anti [OF up])
  assume le: "compareParts a b \<le> 0" "compareParts b c \<le> 0"
  define n where "n = max (length a) (max (length b) (length c))"
  then have n: "max (length a) (length b) \<le> n" "max (length b) (length c) \<le> n"
    "max (length a) (length c) \<le> n" by auto
  show "compareParts a c \<le> 0"
    using le three_way.trans_le [OF up, of n "part_at a" "part_at b" "part_at c"]
    by (simp add: compareParts_upto [OF n(1)] compareParts_upto [OF n(2)]
        compareParts_upto [OF n(3)])
qed

text \<open>The pre-release part: none at all sorts last, two compare by their components.\<close>

definition pre_cmp :: "string \<Rightarrow> string \<Rightarrow> int" where
  "pre_cmp p q =
     (if p = [] \<and> q = [] then 0 else if p = [] then 1 else if q = [] then -1
      else compareParts (Split (CHR ''.'') p) (Split (CHR ''.'') q))"

lemma pre_cmp_three_way: "three_way pre_cmp"
proof
  fix p q r
  note parts = compareParts_three_way
  show "pre_cmp p q = -1 \<or> pre_cmp p q = 0 \<or> pre_cmp p q = 1"
    using three_way.range [OF parts] by (simp add: pre_cmp_def)
  show "pre_cmp q p = - pre_cmp p q"
    by (simp add: pre_cmp_def three_way.anti [OF parts, of "Split (CHR ''.'') q"])
  assume "pre_cmp p q \<le> 0" "pre_cmp q r \<le> 0"
  then show "pre_cmp p r \<le> 0"
    using three_way.trans_le [OF parts, of "Split (CHR ''.'') p" "Split (CHR ''.'') q"
        "Split (CHR ''.'') r"]
    by (auto simp: pre_cmp_def split: if_splits)
qed

lemma Compare_then_cmp:
  "Compare = then_cmp (\<lambda>a b. compareParts (fst (split a)) (fst (split b)))
                      (\<lambda>a b. pre_cmp (snd (split a)) (snd (split b)))"
  by (intro ext) (simp add: Compare_def then_cmp_def pre_cmp_def Let_def split: prod.splits)

lemma Compare_three_way: "three_way Compare"
  unfolding Compare_then_cmp
  using then_cmp_three_way three_way.keyed [OF compareParts_three_way]
    three_way.keyed [OF pre_cmp_three_way] by metis

interpretation vcmp: three_way Compare
  by (rule Compare_three_way)

section \<open>Properties\<close>

text \<open>C29: \<open>Compare\<close> decides a total preorder on version strings: it answers -1, 0 or 1, it is
  antisymmetric in its sign, and "not newer than" is transitive across numeric, alphabetic,
  mixed and pre-release components.\<close>

theorem Compare_total_preorder:
  "Compare a b \<in> {-1, 0, 1} \<and> Compare b a = - Compare a b \<and>
   (Compare a b \<le> 0 \<longrightarrow> Compare b c \<le> 0 \<longrightarrow> Compare a c \<le> 0)"
  using vcmp.range [of a b] vcmp.anti [of a b] vcmp.trans_le [of a b c] by auto

theorem Compare_total_preorder_witness:
  "Compare ''1.0-rc2'' ''1.0-rc10'' = -1 \<and> Compare ''1.0-rc10'' ''1.0'' = -1 \<and>
   Compare ''1.0-rc2'' ''1.0'' \<le> 0"
proof -
  have h: "Compare ''1.0-rc2'' ''1.0-rc10'' = -1" "Compare ''1.0-rc10'' ''1.0'' = -1"
    by code_simp+
  show ?thesis
    using h Compare_total_preorder [of "''1.0-rc2''" "''1.0-rc10''" "''1.0''"] by simp
qed

text \<open>two digit runs of any length compare as the numbers they write, leading zeros
  ignored: \<open>compareNumeric\<close> gives the sign of the comparison of the unbounded values, so an
  absurdly long component cannot overflow.\<close>

theorem compareNumeric_unbounded:
  assumes "list_all isDigit x" and "list_all isDigit y"
  shows "compareNumeric x y = cmp3 (digits_val x) (digits_val y)"
  using assms by (rule compareNumeric_value)

theorem compareNumeric_unbounded_witness:
  "compareNumeric ''0099999999999999999999999'' ''100000000000000000000000'' =
   cmp3 (digits_val ''0099999999999999999999999'') (digits_val ''100000000000000000000000'')"
  by (rule compareNumeric_unbounded) code_simp+

text \<open>a missing component is zero: a version and the same version with \<open>.0\<close> appended compare
  as equal, and so every other version compares the same with both.\<close>

theorem Compare_missing_component:
  assumes "trimmed v" and "CHR ''-'' \<notin> set v"
  shows "Compare (v @ ''.0'') v = 0 \<and> Compare (v @ ''.0'') w = Compare v w"
proof -
  have "trimmed (v @ CHR ''.'' # ''0'')"
    using assms(1) by (intro trimmed_join) (simp_all add: trimmed_def space_at_rev_solid solid_ascii)
  then have s: "split (v @ ''.0'') = (Split (CHR ''.'') v @ [''0''], [])" "split v = (Split (CHR ''.'') v, [])"
    using assms Split_append_sep [of "CHR ''.''" v "''0''"]
    by (simp_all add: split_def trimmed_TrimSpace Cut_absent)
  have "part_at (Split (CHR ''.'') v @ [''0'']) = part_at (Split (CHR ''.'') v)"
    by (intro ext) (simp add: part_at_def nth_append)
  then have "compareParts (Split (CHR ''.'') v @ [''0'']) (Split (CHR ''.'') v) = 0"
    using three_way.same [OF three_way.upto [OF comparePart_three_way]]
    by (simp add: compareParts_def)
  then have "Compare (v @ ''.0'') v = 0" by (simp add: Compare_def s)
  then show ?thesis using vcmp.eq_left by blast
qed

theorem Compare_missing_component_witness:
  "Compare (''1.2'' @ ''.0'') ''1.2'' = 0 \<and> Compare (''1.2'' @ ''.0'') ''1.10'' = Compare ''1.2'' ''1.10''"
  by (rule Compare_missing_component) code_simp+

text \<open>a pre-release sorts strictly before the release it qualifies, whatever its suffix says.\<close>

theorem Compare_prerelease_before_release:
  assumes "trimmed v" and "CHR ''-'' \<notin> set v" and "trimmed p" and "p \<noteq> []"
  shows "Compare (v @ ''-'' @ p) v = -1"
proof -
  have "trimmed (v @ CHR ''-'' # p)"
    using assms by (intro trimmed_join) (simp_all add: trimmed_def solid_ascii)
  then have "split (v @ CHR ''-'' # p) = (Split (CHR ''.'') v, p)" "split v = (Split (CHR ''.'') v, [])"
    using assms by (simp_all add: split_def trimmed_TrimSpace Cut_absent Cut_append)
  then show ?thesis
    using assms(4) by (simp add: Compare_def three_way.same [OF compareParts_three_way])
qed

theorem Compare_prerelease_before_release_witness: "Compare (''6.16.0'' @ ''-'' @ ''rc1'') ''6.16.0'' = -1"
  by (rule Compare_prerelease_before_release) code_simp+

end
