(* ===== verification/Depsolve.thy ===== *)
theory Depsolve
  imports Vercmp
begin

text \<open>
  \<^verbatim>\<open>internal/depsolve\<close>: from the packages of one build and the names an image asks for to an
  installation order. The recursive closure \<^verbatim>\<open>visit\<close> inside \<^verbatim>\<open>Resolve\<close> is \<open>visit\<close> below, over an
  explicit state of the four variables it captures. Its recursion is bounded by a fuel argument,
  one unit a nested call; a package being visited is never entered again, so one unit for each
  available package and one more are enough, which \<open>Resolve\<close> supplies and
  \<open>Resolve_total\<close> proves.
\<close>

section \<open>Requirements\<close>

record Pkg =
  Name :: string
  Version :: string
  Provides :: "string list"
  Conflicts :: "string list"
  Depends :: "string list"

record Requirement =
  RName :: string
  Op :: string
  RVersion :: string

datatype dep_error =
    EmptyDependency
  | MissingPackageName string
  | OpWithoutVersion string string
  | NotANameOrConstraint string
  | DuplicatePackage string string string
  | NoProvider string string
  | AmbiguousProvider string string "string list"
  | NotSatisfied string Requirement string string
  | DependencyCycle "string list" string
  | InPackage string dep_error
  | ProvidedTwice string string string
  | ConflictsWith string string string

definition Requirement_String :: "Requirement \<Rightarrow> string" where
  "Requirement_String r =
     (if Op r = [] then RName r else RName r @ '' '' @ Op r @ '' '' @ RVersion r)"

definition operators :: "string list" where
  "operators = [''>='', ''<='', ''=='', ''!='', ''>'', ''<'']"

text \<open>The body of the loop over \<open>operators\<close>: the first operator found after position 0 decides.\<close>

fun parse_ops :: "string list \<Rightarrow> string \<Rightarrow> (dep_error + Requirement) option" where
  "parse_ops [] s = None"
| "parse_ops (op # ops) s =
     (case Index s op of
        Some i \<Rightarrow>
          (if 0 < i then
             (let nm = TrimSpace (take i s); ver = TrimSpace (drop (i + length op) s)
              in Some (if nm = [] then Inl (MissingPackageName s)
                       else if ver = [] then Inl (OpWithoutVersion s op)
                       else Inr \<lparr>RName = nm, Op = op, RVersion = ver\<rparr>))
           else parse_ops ops s)
      | None \<Rightarrow> parse_ops ops s)"

definition ParseRequirement :: "string \<Rightarrow> dep_error + Requirement" where
  "ParseRequirement s0 =
     (let s = TrimSpace s0
      in if s = [] then Inl EmptyDependency
         else case parse_ops operators s of
                Some r \<Rightarrow> r
              | None \<Rightarrow>
                  (if CHR '' '' \<in> set s \<or> CHR 0x09 \<in> set s then Inl (NotANameOrConstraint s)
                   else Inr \<lparr>RName = s, Op = [], RVersion = []\<rparr>))"

definition Satisfied :: "Requirement \<Rightarrow> string \<Rightarrow> bool" where
  "Satisfied r v =
     (if Op r = [] then True
      else let c = Compare v (RVersion r)
           in if Op r = ''>='' then 0 \<le> c
              else if Op r = ''>'' then 0 < c
              else if Op r = ''<='' then c \<le> 0
              else if Op r = ''<'' then c < 0
              else if Op r = ''=='' then c = 0
              else if Op r = ''!='' then c \<noteq> 0
              else False)"

section \<open>The catalogue\<close>

type_synonym by_name = "(string, Pkg) gomap"
type_synonym provider_map = "(string, string list) gomap"

text \<open>The first loop of \<open>Resolve\<close>, with its error for a name that is there already.\<close>

fun index_packages :: "Pkg list \<Rightarrow> by_name \<Rightarrow> dep_error + by_name" where
  "index_packages [] m = Inr m"
| "index_packages (p # ps) m =
     (case mget m (Name p) of
        Some prev \<Rightarrow> Inl (DuplicatePackage (Name p) (Version prev) (Version p))
      | None \<Rightarrow> index_packages ps (mput (Name p) p m))"

text \<open>The second loop: each virtual name, with its providers in the order they were listed.\<close>

definition providers_of :: "Pkg list \<Rightarrow> provider_map" where
  "providers_of available =
     fold (\<lambda>p m. fold (\<lambda>v m. mput v ((case mget m v of None \<Rightarrow> [] | Some l \<Rightarrow> l) @ [Name p]) m)
                      (Provides p) m)
          available []"

definition zero_pkg :: Pkg where
  "zero_pkg = \<lparr>Name = [], Version = [], Provides = [], Conflicts = [], Depends = []\<rparr>"

text \<open>A Go map read: the zero value for a key that is not there.\<close>

definition pkg_at :: "by_name \<Rightarrow> string \<Rightarrow> Pkg" where
  "pkg_at m n = (case mget m n of None \<Rightarrow> zero_pkg | Some p \<Rightarrow> p)"

definition describeFrom :: "string \<Rightarrow> string" where
  "describeFrom f = (if f = [] then ''the image'' else f)"

definition resolveName ::
  "Requirement \<Rightarrow> by_name \<Rightarrow> provider_map \<Rightarrow> string \<Rightarrow> dep_error + string" where
  "resolveName req byName providers frm =
     (if mhas byName (RName req) then Inr (RName req)
      else case (case mget providers (RName req) of None \<Rightarrow> [] | Some ps \<Rightarrow> ps) of
             [p] \<Rightarrow> Inr p
           | [] \<Rightarrow> Inl (NoProvider (describeFrom frm) (RName req))
           | ps \<Rightarrow> Inl (AmbiguousProvider (describeFrom frm) (RName req) (sort ps)))"

section \<open>Resolution\<close>

record rstate =
  selected :: "(string, bool) gomap"
  order :: "Pkg list"
  visiting :: "(string, bool) gomap"
  stack :: "string list"

definition init_rstate :: rstate where
  "init_rstate = \<lparr>selected = [], order = [], visiting = [], stack = []\<rparr>"

definition is_set :: "(string, bool) gomap \<Rightarrow> string \<Rightarrow> bool" where
  "is_set m k \<longleftrightarrow> mget m k = Some True"

type_synonym 'a fueled = "(dep_error + 'a) option"

text \<open>A loop whose body may return early with an error or run out of fuel.\<close>

fun each :: "(string \<Rightarrow> rstate \<Rightarrow> rstate fueled) \<Rightarrow> string list \<Rightarrow> rstate \<Rightarrow> rstate fueled" where
  "each f [] st = Some (Inr st)"
| "each f (d # ds) st =
     (case f d st of
        None \<Rightarrow> None
      | Some (Inl e) \<Rightarrow> Some (Inl e)
      | Some (Inr st') \<Rightarrow> each f ds st')"

text \<open>The body of both loops over dependency strings: parse one, wrap its error, go there.\<close>

definition req_step ::
  "(Requirement \<Rightarrow> rstate \<Rightarrow> rstate fueled) \<Rightarrow> (dep_error \<Rightarrow> dep_error) \<Rightarrow> string \<Rightarrow> rstate \<Rightarrow> rstate fueled"
  where
  "req_step go wrap d st =
     (case ParseRequirement d of Inl e \<Rightarrow> Some (Inl (wrap e)) | Inr dr \<Rightarrow> go dr st)"

text \<open>\<open>visit\<close> before its loop over the dependencies, and after it.\<close>

definition enter :: "string \<Rightarrow> rstate \<Rightarrow> rstate" where
  "enter nm st = st\<lparr>visiting := mput nm True (visiting st), stack := stack st @ [nm]\<rparr>"

definition leave :: "string \<Rightarrow> Pkg \<Rightarrow> rstate \<Rightarrow> rstate" where
  "leave nm p st =
     st\<lparr>stack := butlast (stack st), visiting := mput nm False (visiting st),
        selected := mput nm True (selected st), order := order st @ [p]\<rparr>"

primrec visit ::
  "nat \<Rightarrow> by_name \<Rightarrow> provider_map \<Rightarrow> Requirement \<Rightarrow> string \<Rightarrow> rstate \<Rightarrow> rstate fueled" where
  "visit 0 byName providers req frm st = None"
| "visit (Suc fuel) byName providers req frm st =
     (case resolveName req byName providers frm of
        Inl e \<Rightarrow> Some (Inl e)
      | Inr nm \<Rightarrow>
          (let p = pkg_at byName nm
           in if \<not> Satisfied req (Version p)
              then Some (Inl (NotSatisfied (describeFrom frm) req nm (Version p)))
              else if is_set (selected st) nm then Some (Inr st)
              else if is_set (visiting st) nm
              then Some (Inl (DependencyCycle (stack st @ [nm]) nm))
              else
                (case each (req_step (\<lambda>dr. visit fuel byName providers dr nm) (InPackage nm))
                           (sort (Depends p)) (enter nm st) of
                   None \<Rightarrow> None
                 | Some (Inl e) \<Rightarrow> Some (Inl e)
                 | Some (Inr st') \<Rightarrow> Some (Inr (leave nm p st')))))"

section \<open>Conflicts\<close>

type_synonym present = "(string, string) gomap"

fun claim_virtuals :: "string \<Rightarrow> string list \<Rightarrow> present \<Rightarrow> dep_error + present" where
  "claim_virtuals nm [] m = Inr m"
| "claim_virtuals nm (v # vs) m =
     (case mget m v of
        Some prev \<Rightarrow>
          (if prev \<noteq> nm \<and> prev \<noteq> v then Inl (ProvidedTwice prev nm v)
           else claim_virtuals nm vs (mput v nm m))
      | None \<Rightarrow> claim_virtuals nm vs (mput v nm m))"

fun claim_all :: "Pkg list \<Rightarrow> present \<Rightarrow> dep_error + present" where
  "claim_all [] m = Inr m"
| "claim_all (p # ps) m =
     (case claim_virtuals (Name p) (Provides p) m of Inl e \<Rightarrow> Inl e | Inr m' \<Rightarrow> claim_all ps m')"

fun conflicts_of :: "string \<Rightarrow> string list \<Rightarrow> present \<Rightarrow> dep_error + unit" where
  "conflicts_of nm [] m = Inr ()"
| "conflicts_of nm (c # cs) m =
     (case mget m c of
        None \<Rightarrow> conflicts_of nm cs m
      | Some holder \<Rightarrow>
          (if holder = nm then conflicts_of nm cs m else Inl (ConflictsWith nm c holder)))"

fun conflicts_all :: "Pkg list \<Rightarrow> present \<Rightarrow> dep_error + unit" where
  "conflicts_all [] m = Inr ()"
| "conflicts_all (p # ps) m =
     (case conflicts_of (Name p) (Conflicts p) m of Inl e \<Rightarrow> Inl e | Inr _ \<Rightarrow> conflicts_all ps m)"

definition checkConflicts :: "Pkg list \<Rightarrow> dep_error + unit" where
  "checkConflicts pkgs =
     (case claim_all pkgs (fold (\<lambda>p m. mput (Name p) (Name p) m) pkgs []) of
        Inl e \<Rightarrow> Inl e
      | Inr present \<Rightarrow> conflicts_all pkgs present)"

definition Resolve :: "Pkg list \<Rightarrow> string list \<Rightarrow> Pkg list fueled" where
  "Resolve available roots =
     (case index_packages available [] of
        Inl e \<Rightarrow> Some (Inl e)
      | Inr byName \<Rightarrow>
          (let providers = providers_of available
           in case each (req_step (\<lambda>req. visit (Suc (length available)) byName providers req [])
                                  (\<lambda>e. e))
                        roots init_rstate of
                None \<Rightarrow> None
              | Some (Inl e) \<Rightarrow> Some (Inl e)
              | Some (Inr st) \<Rightarrow>
                  (case checkConflicts (order st) of
                     Inl e \<Rightarrow> Some (Inl e)
                   | Inr _ \<Rightarrow> Some (Inr (order st)))))"

section \<open>What the search relies on\<close>

text \<open>
  The interface of a catalogue: what is filed under a name has that name, and whatever is listed
  as a provider is filed. The search is verified against these laws alone; the interpretation
  below discharges them for the two maps \<open>Resolve\<close> builds.
\<close>

definition active :: "rstate \<Rightarrow> string set" where
  "active st = {n. is_set (visiting st) n}"

definition chosen :: "rstate \<Rightarrow> string set" where
  "chosen st = {n. is_set (selected st) n}"

text \<open>One package needs another: a dependency of the first resolves to the second.\<close>

definition needs :: "by_name \<Rightarrow> provider_map \<Rightarrow> (string \<times> string) set" where
  "needs byName providers =
     {(a, b). \<exists>d \<in> set (Depends (pkg_at byName a)). \<exists>dr.
        ParseRequirement d = Inr dr \<and> resolveName dr byName providers a = Inr b}"

text \<open>A dependency string is met by a set of packages.\<close>

definition met :: "by_name \<Rightarrow> provider_map \<Rightarrow> string \<Rightarrow> string set \<Rightarrow> string \<Rightarrow> bool" where
  "met byName providers frm S d \<longleftrightarrow>
     (\<exists>dr n. ParseRequirement d = Inr dr \<and> resolveName dr byName providers frm = Inr n \<and>
        n \<in> S \<and> Satisfied dr (Version (pkg_at byName n)))"

definition targets :: "by_name \<Rightarrow> provider_map \<Rightarrow> string \<Rightarrow> string \<Rightarrow> string set" where
  "targets byName providers frm d =
     {n. \<exists>dr. ParseRequirement d = Inr dr \<and> resolveName dr byName providers frm = Inr n}"

definition deps_met :: "by_name \<Rightarrow> provider_map \<Rightarrow> Pkg \<Rightarrow> string set \<Rightarrow> bool" where
  "deps_met byName providers p S \<longleftrightarrow> (\<forall>d \<in> set (Depends p). met byName providers (Name p) S d)"

text \<open>Every package stands after everything it depends on.\<close>

definition installable :: "by_name \<Rightarrow> provider_map \<Rightarrow> Pkg list \<Rightarrow> bool" where
  "installable byName providers ps \<longleftrightarrow>
     (\<forall>i < length ps. deps_met byName providers (ps ! i) (Name ` set (take i ps)))"

lemma installable_Nil [simp]: "installable B P []"
  by (simp add: installable_def)

lemma installable_snoc [simp]:
  "installable B P (ps @ [p]) \<longleftrightarrow> installable B P ps \<and> deps_met B P p (Name ` set ps)"
  by (auto simp: installable_def nth_append less_Suc_eq)

lemma met_code [code]:
  "met B P frm S d \<longleftrightarrow>
     (case ParseRequirement d of Inl _ \<Rightarrow> False
      | Inr dr \<Rightarrow> (case resolveName dr B P frm of Inl _ \<Rightarrow> False
                  | Inr n \<Rightarrow> n \<in> S \<and> Satisfied dr (Version (pkg_at B n))))"
  by (auto simp: met_def split: sum.splits)

lemma met_mono: "met B P f S d \<Longrightarrow> S \<subseteq> T \<Longrightarrow> met B P f T d"
  unfolding met_def by blast

lemma is_set_simps [simp]:
  "is_set (mput k b m) n \<longleftrightarrow> (if n = k then b else is_set m n)" "\<not> is_set [] n"
  by (auto simp: is_set_def)

lemma active_simps [simp]:
  "active (enter n st) = insert n (active st)" "active (leave n p st) = active st - {n}"
  "active init_rstate = {}"
  by (auto simp: active_def enter_def leave_def init_rstate_def)

lemma chosen_simps [simp]:
  "chosen (enter n st) = chosen st" "chosen (leave n p st) = insert n (chosen st)"
  "chosen init_rstate = {}"
  by (auto simp: chosen_def enter_def leave_def init_rstate_def)

lemma order_simps [simp]:
  "order (enter n st) = order st" "order (leave n p st) = order st @ [p]"
  "order init_rstate = []"
  by (simp_all add: enter_def leave_def init_rstate_def)

lemma stack_simps [simp]:
  "stack (enter n st) = stack st @ [n]" "stack (leave n p st) = butlast (stack st)"
  by (simp_all add: enter_def leave_def)

text \<open>What holds between two steps of the search.\<close>

definition search_inv :: "by_name \<Rightarrow> provider_map \<Rightarrow> rstate \<Rightarrow> bool" where
  "search_inv B P st \<longleftrightarrow>
     installable B P (order st) \<and> distinct (map Name (order st)) \<and>
     chosen st = Name ` set (order st) \<and> (\<forall>p \<in> set (order st). mget B (Name p) = Some p) \<and>
     active st \<inter> chosen st = {}"

text \<open>What a successful part of the search, from the names \<open>tgts\<close>, has done.\<close>

definition search_post :: "by_name \<Rightarrow> provider_map \<Rightarrow> string set \<Rightarrow> rstate \<Rightarrow> rstate \<Rightarrow> bool" where
  "search_post B P tgts st st' \<longleftrightarrow>
     search_inv B P st' \<and> active st' = active st \<and> stack st' = stack st \<and>
     chosen st \<subseteq> chosen st' \<and> tgts \<subseteq> chosen st' \<and>
     chosen st' - chosen st \<subseteq> (needs B P)\<^sup>* `` tgts"

lemma search_post_refl:
  "search_inv B P st \<Longrightarrow> tgts \<subseteq> chosen st \<Longrightarrow> search_post B P tgts st st"
  by (simp add: search_post_def)

lemma search_post_trans:
  "search_post B P S st st' \<Longrightarrow> search_post B P T st' st'' \<Longrightarrow> search_post B P (S \<union> T) st st''"
  unfolding search_post_def by (auto simp: Image_Un)

text \<open>The reasons a search may fail: a requirement that cannot be met, a filed package with such a
  dependency, or a cycle.\<close>

definition bad_req :: "by_name \<Rightarrow> provider_map \<Rightarrow> string \<Rightarrow> Requirement \<Rightarrow> bool" where
  "bad_req B P frm req \<longleftrightarrow>
     \<not> (\<exists>n. resolveName req B P frm = Inr n \<and> Satisfied req (Version (pkg_at B n)))"

definition bad_pkg :: "by_name \<Rightarrow> provider_map \<Rightarrow> bool" where
  "bad_pkg B P \<longleftrightarrow> (\<exists>a p. mget B a = Some p \<and> (\<exists>d \<in> set (Depends p). \<not> met B P a UNIV d))"

fun is_cycle :: "dep_error \<Rightarrow> bool" where
  "is_cycle (DependencyCycle _ _) \<longleftrightarrow> True"
| "is_cycle _ \<longleftrightarrow> False"

definition fault :: "by_name \<Rightarrow> provider_map \<Rightarrow> bool \<Rightarrow> dep_error \<Rightarrow> bool" where
  "fault B P bad e \<longleftrightarrow>
     (if is_cycle e then \<exists>n. (n, n) \<in> (needs B P)\<^sup>+ else bad \<or> bad_pkg B P)"

lemma parse_ops_not_cycle: "parse_ops ops s = Some (Inl e) \<Longrightarrow> \<not> is_cycle e"
  by (induction ops) (auto simp: Let_def split: option.splits if_splits)

lemma ParseRequirement_not_cycle: "ParseRequirement d = Inl e \<Longrightarrow> \<not> is_cycle e"
  by (auto simp: ParseRequirement_def Let_def split: option.splits if_splits
      dest: parse_ops_not_cycle)

lemma not_met_bad_req: "bad_req B P f dr \<Longrightarrow> ParseRequirement d = Inr dr \<Longrightarrow> \<not> met B P f UNIV d"
  by (auto simp: bad_req_def met_def)

text \<open>Running to an end, with the set of names being visited as it was.\<close>

definition sound_total :: "string set \<Rightarrow> (rstate \<Rightarrow> rstate fueled) \<Rightarrow> bool" where
  "sound_total A go \<longleftrightarrow>
     (\<forall>st. active st = A \<longrightarrow> (\<exists>r. go st = Some r \<and> (\<forall>st'. r = Inr st' \<longrightarrow> active st' = A)))"

lemma sound_totalD:
  assumes "sound_total A go" and "active st = A"
  obtains e where "go st = Some (Inl e)" | st' where "go st = Some (Inr st')" "active st' = A"
  using assms unfolding sound_total_def by (metis sum.exhaust)

lemma sound_totalI:
  assumes "\<And>st. active st = A \<Longrightarrow> (\<exists>e. go st = Some (Inl e)) \<or> (\<exists>st'. go st = Some (Inr st') \<and> active st' = A)"
  shows "sound_total A go"
  using assms unfolding sound_total_def by fastforce

lemma each_total: "(\<And>d. sound_total A (f d)) \<Longrightarrow> sound_total A (each f ds)"
proof (induction ds)
  case Nil
  show ?case by (rule sound_totalI) simp
next
  case (Cons d ds)
  show ?case
  proof (rule sound_totalI)
    fix st
    assume st: "active st = A"
    from Cons.prems [of d] st
    show "(\<exists>e. each f (d # ds) st = Some (Inl e)) \<or>
          (\<exists>st'. each f (d # ds) st = Some (Inr st') \<and> active st' = A)"
    proof (cases rule: sound_totalD)
      case (2 st')
      from Cons.IH [OF Cons.prems] 2(2) show ?thesis
        by (cases rule: sound_totalD) (simp_all add: 2)
    qed simp
  qed
qed

lemma req_step_total: "(\<And>dr. sound_total A (go dr)) \<Longrightarrow> sound_total A (req_step go wrap d)"
  by (cases "ParseRequirement d") (simp_all add: sound_total_def req_step_def)

locale catalogue =
  fixes byName :: by_name and providers :: provider_map
  assumes filed_name: "mget byName n = Some p \<Longrightarrow> Name p = n"
    and provider_filed: "mget providers v = Some ps \<Longrightarrow> n \<in> set ps \<Longrightarrow> mhas byName n"
begin

lemma resolved_filed:
  assumes "resolveName req byName providers frm = Inr n"
  shows "\<exists>p. mget byName n = Some p \<and> Name p = n \<and> pkg_at byName n = p"
proof -
  have "mhas byName n"
    using assms provider_filed
    by (auto simp: resolveName_def split: if_splits list.splits option.splits)
  then show ?thesis by (auto simp: mhas_def pkg_at_def dest: filed_name)
qed

lemma resolve_from: "resolveName req byName providers a = Inr n \<Longrightarrow>
    resolveName req byName providers b = Inr n"
  by (auto simp: resolveName_def split: if_splits list.splits)

text \<open>Enough fuel: one unit more than the names that are not being visited.\<close>

lemma visit_total:
  "card (set (mkeys byName) - A) < fuel \<Longrightarrow> sound_total A (visit fuel byName providers req frm)"
proof (induction fuel arbitrary: A req frm)
  case (Suc fuel)
  show ?case
  proof (rule sound_totalI)
    fix st
    assume st: "active st = A"
    let ?goal = "\<lambda>r. (\<exists>e. r = Some (Inl e)) \<or> (\<exists>st'. r = Some (Inr st') \<and> active st' = A)"
    show "?goal (visit (Suc fuel) byName providers req frm st)"
    proof (cases "resolveName req byName providers frm")
      case (Inr n)
      let ?p = "pkg_at byName n"
      let ?loop = "each (req_step (\<lambda>dr. visit fuel byName providers dr n) (InPackage n))
                     (sort (Depends ?p))"
      have n: "n \<in> set (mkeys byName)"
        using resolved_filed [OF Inr] by (auto simp: mhas_keys [symmetric] mhas_def simp del: set_map)
      show ?thesis
      proof (cases "n \<in> A")
        case True
        then have "is_set (visiting st) n" using st by (auto simp: active_def)
        then show ?thesis using Inr st by (simp add: Let_def)
      next
        case False
        then have less: "card (set (mkeys byName) - insert n A) < card (set (mkeys byName) - A)"
          using n by (intro psubset_card_mono) auto
        have "sound_total (insert n A) ?loop"
          using less Suc.prems by (intro each_total req_step_total Suc.IH) simp
        moreover have "active (enter n st) = insert n A" using st by simp
        ultimately have "?goal (case ?loop (enter n st) of None \<Rightarrow> None | Some (Inl e) \<Rightarrow> Some (Inl e)
                            | Some (Inr st') \<Rightarrow> Some (Inr (leave n ?p st')))"
          using False by (cases rule: sound_totalD) auto
        then show ?thesis using Inr st by (simp add: Let_def)
      qed
    qed simp
  qed
qed simp

text \<open>What a visit that succeeds has done, by induction on the fuel.\<close>

lemma each_post:
  assumes step: "\<And>d st st'. search_inv byName providers st \<Longrightarrow> f d st = Some (Inr st') \<Longrightarrow>
      search_post byName providers (targets byName providers frm d) st st' \<and>
      met byName providers frm (chosen st') d"
    and "search_inv byName providers st" and "each f ds st = Some (Inr st')"
  shows "search_post byName providers (\<Union>d \<in> set ds. targets byName providers frm d) st st' \<and>
         (\<forall>d \<in> set ds. met byName providers frm (chosen st') d)"
  using assms(2,3)
proof (induction ds arbitrary: st)
  case Nil
  then show ?case by (simp add: search_post_refl)
next
  case (Cons d ds)
  obtain st1 where st1: "f d st = Some (Inr st1)" "each f ds st1 = Some (Inr st')"
    using Cons.prems(2) by (auto split: option.splits sum.splits)
  note one = step [OF Cons.prems(1) st1(1)]
  then have "search_inv byName providers st1" by (simp add: search_post_def)
  note rest = Cons.IH [OF this st1(2)]
  have "chosen st1 \<subseteq> chosen st'" using rest by (simp add: search_post_def)
  then have "met byName providers frm (chosen st') d" using one met_mono by blast
  moreover have "search_post byName providers (targets byName providers frm d \<union>
      (\<Union>d \<in> set ds. targets byName providers frm d)) st st'"
    using one rest search_post_trans by blast
  ultimately show ?case using rest by simp
qed

lemma req_step_post:
  assumes go: "\<And>req st st'. search_inv byName providers st \<Longrightarrow> go req st = Some (Inr st') \<Longrightarrow>
      \<exists>n. resolveName req byName providers frm = Inr n \<and> Satisfied req (Version (pkg_at byName n)) \<and>
          search_post byName providers {n} st st'"
    and "search_inv byName providers st" and "req_step go wrap d st = Some (Inr st')"
  shows "search_post byName providers (targets byName providers frm d) st st' \<and>
         met byName providers frm (chosen st') d"
proof -
  obtain dr where dr: "ParseRequirement d = Inr dr" "go dr st = Some (Inr st')"
    using assms(3) by (auto simp: req_step_def split: sum.splits)
  then obtain n where n: "resolveName dr byName providers frm = Inr n"
    "Satisfied dr (Version (pkg_at byName n))" "search_post byName providers {n} st st'"
    using go assms(2) by blast
  have "targets byName providers frm d = {n}" using dr n by (auto simp: targets_def)
  moreover have "met byName providers frm (chosen st') d"
    using dr n by (auto simp: met_def search_post_def)
  ultimately show ?thesis using n by simp
qed

lemma search_inv_enter:
  "search_inv byName providers st \<Longrightarrow> n \<notin> chosen st \<Longrightarrow> search_inv byName providers (enter n st)"
  by (auto simp: search_inv_def)

lemma leave_post:
  assumes p: "mget byName n = Some p" "Name p = n" "pkg_at byName n = p"
    and n: "n \<notin> chosen st" "n \<notin> active st"
    and loop: "search_post byName providers (\<Union>d \<in> set (Depends p). targets byName providers n d)
                 (enter n st) st'"
    and met: "\<forall>d \<in> set (Depends p). met byName providers n (chosen st') d"
  shows "search_post byName providers {n} st (leave n p st')"
proof -
  let ?T = "\<Union>d \<in> set (Depends p). targets byName providers n d"
  from loop have inv: "search_inv byName providers st'" and act: "active st' = insert n (active st)"
    and stk: "stack st' = stack st @ [n]" and mono: "chosen st \<subseteq> chosen st'"
    and new: "chosen st' - chosen st \<subseteq> (needs byName providers)\<^sup>* `` ?T"
    by (simp_all add: search_post_def)
  have "n \<notin> chosen st'" using inv act by (auto simp: search_inv_def)
  then have "search_inv byName providers (leave n p st')"
    using inv p met by (auto simp: search_inv_def deps_met_def)
  moreover have "?T \<subseteq> needs byName providers `` {n}"
    using p by (auto simp: targets_def needs_def)
  then have "(needs byName providers)\<^sup>* `` ?T \<subseteq> (needs byName providers)\<^sup>* `` {n}"
    by (auto intro: converse_rtrancl_into_rtrancl)
  with new have "insert n (chosen st') - chosen st \<subseteq> (needs byName providers)\<^sup>* `` {n}" by auto
  moreover have "active (leave n p st') = active st" using act n by auto
  ultimately show ?thesis using stk mono by (auto simp: search_post_def)
qed

lemma visit_post:
  "search_inv byName providers st \<Longrightarrow> visit fuel byName providers req frm st = Some (Inr st') \<Longrightarrow>
   \<exists>n. resolveName req byName providers frm = Inr n \<and> Satisfied req (Version (pkg_at byName n)) \<and>
       search_post byName providers {n} st st'"
proof (induction fuel arbitrary: req frm st st')
  case (Suc fuel)
  then obtain n where n: "resolveName req byName providers frm = Inr n"
    by (cases "resolveName req byName providers frm") simp_all
  obtain p where p: "mget byName n = Some p" "Name p = n" "pkg_at byName n = p"
    using resolved_filed [OF n] by blast
  have sat: "Satisfied req (Version p)"
    using Suc.prems(2) n p by (simp add: Let_def split: if_splits)
  have "search_post byName providers {n} st st'"
  proof (cases "n \<in> chosen st")
    case True
    then have "st' = st" using Suc.prems(2) n p sat by (simp add: chosen_def Let_def)
    then show ?thesis using Suc.prems(1) True by (simp add: search_post_refl)
  next
    case False
    then have nv: "n \<notin> active st"
      using Suc.prems(2) n p sat by (auto simp: chosen_def active_def Let_def split: if_splits)
    obtain st2 where st2: "each (req_step (\<lambda>dr. visit fuel byName providers dr n) (InPackage n))
        (sort (Depends p)) (enter n st) = Some (Inr st2)" "st' = leave n p st2"
      using Suc.prems(2) n p sat False nv
      by (auto simp: chosen_def active_def Let_def split: option.splits sum.splits)
    have "search_post byName providers (\<Union>d \<in> set (sort (Depends p)). targets byName providers n d)
            (enter n st) st2 \<and> (\<forall>d \<in> set (sort (Depends p)). met byName providers n (chosen st2) d)"
      by (rule each_post [OF req_step_post search_inv_enter [OF Suc.prems(1) False] st2(1)])
        (rule Suc.IH)
    then show ?thesis using leave_post [OF p False nv] st2(2) by simp
  qed
  then show ?case using n p sat by simp
qed simp

lemma visit_step_post:
  assumes "search_inv byName providers st"
    and "req_step (\<lambda>dr. visit fuel byName providers dr frm) wrap d st = Some (Inr st')"
  shows "search_post byName providers (targets byName providers frm d) st st' \<and>
         met byName providers frm (chosen st') d"
  by (rule req_step_post [OF _ assms]) (rule visit_post)

text \<open>A search that fails has a reason to.\<close>

lemma each_fault:
  assumes step: "\<And>d st st'. search_inv byName providers st \<Longrightarrow> f d st = Some (Inr st') \<Longrightarrow>
      search_post byName providers (targets byName providers frm d) st st'"
    and bad: "\<And>d st e. d \<in> set ds \<Longrightarrow> search_inv byName providers st \<Longrightarrow> active st = A \<Longrightarrow>
      f d st = Some (Inl e) \<Longrightarrow> Q e"
    and "search_inv byName providers st" and "active st = A" and "each f ds st = Some (Inl e)"
  shows "Q e"
  using assms(2-5)
proof (induction ds arbitrary: st)
  case (Cons d ds)
  show ?case
  proof (cases "f d st")
    case None
    then show ?thesis using Cons.prems by simp
  next
    case (Some r)
    show ?thesis
    proof (cases r)
      case (Inl e')
      then show ?thesis
        using Cons.prems(4) Some Cons.prems(1) [OF _ Cons.prems(2,3), of d e'] by simp
    next
      case (Inr st1)
      have "search_inv byName providers st1" "active st1 = A"
        using step [OF Cons.prems(2), of d st1] Some Inr Cons.prems(3)
        by (simp_all add: search_post_def)
      then show ?thesis
        using Cons.prems(4) Some Inr by (intro Cons.IH [of st1] Cons.prems(1)) simp_all
    qed
  qed
qed simp

lemma visit_fault:
  "search_inv byName providers st \<Longrightarrow> visit fuel byName providers req frm st = Some (Inl e) \<Longrightarrow>
   (\<And>n v. resolveName req byName providers frm = Inr n \<Longrightarrow> v \<in> active st \<Longrightarrow>
           (v, n) \<in> (needs byName providers)\<^sup>+) \<Longrightarrow>
   fault byName providers (bad_req byName providers frm req) e"
proof (induction fuel arbitrary: req frm st e)
  case (Suc fuel)
  show ?case
  proof (cases "bad_req byName providers frm req")
    case True
    then show ?thesis
      using Suc.prems(2)
      by (auto simp: fault_def bad_req_def resolveName_def Let_def
          split: sum.splits if_splits list.splits option.splits)
  next
    case False
    then obtain n where n: "resolveName req byName providers frm = Inr n"
      and sat: "Satisfied req (Version (pkg_at byName n))" by (auto simp: bad_req_def)
    obtain p where p: "mget byName n = Some p" "Name p = n" "pkg_at byName n = p"
      using resolved_filed [OF n] by blast
    have nc: "n \<notin> chosen st" using Suc.prems(2) n p sat by (auto simp: chosen_def Let_def)
    show ?thesis
    proof (cases "n \<in> active st")
      case True
      then have "is_cycle e" using Suc.prems(2) n p sat nc
        by (auto simp: chosen_def active_def Let_def)
      then show ?thesis using True Suc.prems(3) [OF n True] by (auto simp: fault_def)
    next
      case nv: False
      let ?f = "req_step (\<lambda>dr. visit fuel byName providers dr n) (InPackage n)"
      have loop: "each ?f (sort (Depends p)) (enter n st) = Some (Inl e)"
        using Suc.prems(2) n p sat nc nv
        by (auto simp: chosen_def active_def Let_def split: option.splits sum.splits)
      have reach: "(v, m) \<in> (needs byName providers)\<^sup>+"
        if "d \<in> set (Depends p)" "m \<in> targets byName providers n d" "v \<in> insert n (active st)" for d m v
      proof -
        have "(n, m) \<in> needs byName providers" using that p by (auto simp: needs_def targets_def)
        then show ?thesis using that Suc.prems(3) [OF n] by (auto intro: trancl_into_trancl)
      qed
      show ?thesis
      proof (rule each_fault [where Q = "fault byName providers (bad_req byName providers frm req)",
            OF _ _ search_inv_enter [OF Suc.prems(1) nc] _ loop])
        fix d st1 st2
        assume "search_inv byName providers st1" "?f d st1 = Some (Inr st2)"
        then show "search_post byName providers (targets byName providers n d) st1 st2"
          using visit_step_post by blast
      next
        fix d st1 e1
        assume a: "d \<in> set (sort (Depends p))" "search_inv byName providers st1"
          "active st1 = insert n (active st)" "?f d st1 = Some (Inl e1)"
        show "fault byName providers (bad_req byName providers frm req) e1"
        proof (cases "ParseRequirement d")
          case (Inl e2)
          then have "\<not> met byName providers n UNIV d" by (simp add: met_def)
          then have "bad_pkg byName providers" using p a(1) by (auto simp: bad_pkg_def)
          then show ?thesis using a(4) Inl by (auto simp: req_step_def fault_def)
        next
          case (Inr dr)
          have "fault byName providers (bad_req byName providers n dr) e1"
            using a Inr reach [of d] by (intro Suc.IH [of st1]) (auto simp: req_step_def targets_def)
          moreover have "bad_req byName providers n dr \<Longrightarrow> bad_pkg byName providers"
            using p a(1) not_met_bad_req [OF _ Inr, of byName providers n]
            by (auto simp: bad_pkg_def)
          ultimately show ?thesis by (auto simp: fault_def)
        qed
      qed simp
    qed
  qed
qed simp

text \<open>The loop over what the image asks for.\<close>

lemma roots_post:
  assumes "each (req_step (\<lambda>req. visit fuel byName providers req []) wrap) roots init_rstate = Some (Inr st)"
  shows "search_inv byName providers st \<and> (\<forall>r \<in> set roots. met byName providers [] (chosen st) r) \<and>
         chosen st \<subseteq> (needs byName providers)\<^sup>* `` (\<Union>r \<in> set roots. targets byName providers [] r)"
proof -
  have "search_inv byName providers init_rstate" by (simp add: search_inv_def)
  from each_post [OF visit_step_post this assms] show ?thesis by (simp add: search_post_def)
qed

lemma roots_fault:
  assumes "each (req_step (\<lambda>req. visit fuel byName providers req []) wrap) roots init_rstate = Some (Inl e)"
    and wrap: "\<And>e. is_cycle (wrap e) = is_cycle e"
  shows "fault byName providers (\<exists>r \<in> set roots. \<not> met byName providers [] UNIV r) e"
proof (rule each_fault [where Q = "fault byName providers (\<exists>r \<in> set roots. \<not> met byName providers [] UNIV r)",
      OF _ _ _ _ assms(1), where A = "{}"])
  fix d st st'
  assume "search_inv byName providers st"
    "req_step (\<lambda>req. visit fuel byName providers req []) wrap d st = Some (Inr st')"
  then show "search_post byName providers (targets byName providers [] d) st st'"
    using visit_step_post by blast
next
  fix d st e
  assume a: "d \<in> set roots" "search_inv byName providers st" "active st = {}"
    "req_step (\<lambda>req. visit fuel byName providers req []) wrap d st = Some (Inl e)"
  show "fault byName providers (\<exists>r \<in> set roots. \<not> met byName providers [] UNIV r) e"
  proof (cases "ParseRequirement d")
    case (Inl e2)
    moreover have "\<not> is_cycle e2" using Inl by (rule ParseRequirement_not_cycle)
    moreover have "\<not> met byName providers [] UNIV d" using Inl by (simp add: met_def)
    ultimately show ?thesis using a wrap by (auto simp: fault_def req_step_def)
  next
    case (Inr dr)
    then have "fault byName providers (bad_req byName providers [] dr) e"
      using a by (intro visit_fault) (auto simp: req_step_def)
    moreover have "bad_req byName providers [] dr \<Longrightarrow> \<not> met byName providers [] UNIV d"
      using Inr by (auto simp: bad_req_def met_def)
    ultimately show ?thesis using a(1) by (auto simp: fault_def)
  qed
qed (simp_all add: search_inv_def)

end

section \<open>The catalogue \<open>Resolve\<close> builds\<close>

definition filed :: "Pkg list \<Rightarrow> by_name" where
  "filed available = fold (\<lambda>p m. mput (Name p) p m) available []"

lemma index_packages_filed:
  assumes "index_packages ps m = Inr B"
  shows "B = fold (\<lambda>p m. mput (Name p) p m) ps m \<and> distinct (map Name ps) \<and>
         (\<forall>p \<in> set ps. \<not> mhas m (Name p))"
  using assms
proof (induction ps arbitrary: m)
  case (Cons p ps)
  then show ?case by (fastforce simp: mhas_def split: option.splits if_splits)
qed simp

lemma index_packages_ok:
  assumes "distinct (map Name ps)" and "\<forall>p \<in> set ps. \<not> mhas m (Name p)"
  shows "index_packages ps m = Inr (fold (\<lambda>p m. mput (Name p) p m) ps m)"
  using assms
proof (induction ps arbitrary: m)
  case (Cons p ps)
  have "mget m (Name p) = None" using Cons.prems by (simp add: mhas_def)
  moreover have "index_packages ps (mput (Name p) p m) =
      Inr (fold (\<lambda>p m. mput (Name p) p m) ps (mput (Name p) p m))"
    using Cons.prems by (intro Cons.IH) (auto simp: image_iff)
  ultimately show ?case by simp
qed simp

lemma index_packages_eq:
  "index_packages ps [] = Inr B \<longleftrightarrow> B = filed ps \<and> distinct (map Name ps)"
  using index_packages_filed [of ps "[]" B] index_packages_ok [of ps "[]"] by (auto simp: filed_def)

lemma mget_fold_file:
  "mget (fold (\<lambda>p m. mput (Name p) p m) ps m) n = Some p \<Longrightarrow>
   mget m n = Some p \<or> (p \<in> set ps \<and> Name p = n)"
  by (induction ps arbitrary: m) (fastforce split: if_splits)+

lemma mhas_fold_file:
  "mhas (fold (\<lambda>p m. mput (Name p) p m) ps m) n \<longleftrightarrow> mhas m n \<or> n \<in> Name ` set ps"
  by (induction ps arbitrary: m) auto

lemma length_filed: "card (set (mkeys (filed ps))) \<le> length ps"
proof -
  have "set (mkeys (filed ps)) = Name ` set ps"
    using mhas_fold_file [of ps "[]"] by (auto simp: filed_def mhas_keys [symmetric] simp del: set_map)
  then show ?thesis by (metis card_image_le card_length finite_set le_trans)
qed

lemma providers_are_names:
  assumes "mget (providers_of ps) v = Some l" and "n \<in> set l"
  shows "n \<in> Name ` set ps"
proof -
  define ok where "ok N m \<longleftrightarrow> (\<forall>v l. mget m v = Some l \<longrightarrow> set l \<subseteq> N)" for N and m :: provider_map
  have one: "ok (insert (Name p) N)
      (fold (\<lambda>v m. mput v ((case mget m v of None \<Rightarrow> [] | Some l \<Rightarrow> l) @ [Name p]) m) vs m)"
    if "ok (insert (Name p) N) m" for p vs N m
    using that
  proof (induction vs arbitrary: m)
    case (Cons v vs)
    have "ok (insert (Name p) N) (mput v ((case mget m v of None \<Rightarrow> [] | Some l \<Rightarrow> l) @ [Name p]) m)"
      using Cons.prems by (cases "mget m v") (fastforce simp: ok_def)+
    from Cons.IH [OF this] show ?case by simp
  qed simp
  have "ok (N \<union> Name ` set ps) (fold (\<lambda>p m. fold (\<lambda>v m.
      mput v ((case mget m v of None \<Rightarrow> [] | Some l \<Rightarrow> l) @ [Name p]) m) (Provides p) m) ps m)"
    if "ok N m" for N m
    using that
  proof (induction ps arbitrary: N m)
    case (Cons p ps)
    have "ok (insert (Name p) N) m" using Cons.prems by (auto simp: ok_def)
    from Cons.IH [OF one [OF this, of "Provides p"]] show ?case by simp
  qed simp
  from this [of "{}" "[]"] have "ok (Name ` set ps) (providers_of ps)"
    by (simp add: ok_def providers_of_def)
  then show ?thesis using assms by (auto simp: ok_def)
qed

interpretation cat: catalogue "filed available" "providers_of available" for available
proof
  show "Name p = n" if "mget (filed available) n = Some p" for n p
    using that mget_fold_file [of available "[]" n p] by (simp add: filed_def)
  show "mhas (filed available) n"
    if "mget (providers_of available) v = Some ps" "n \<in> set ps" for v ps n
    using providers_are_names [OF that] mhas_fold_file [of available "[]" n] by (simp add: filed_def)
qed

lemma Resolve_SomeE:
  assumes "Resolve available roots = Some (Inr ord)"
  obtains st where "order st = ord" "distinct (map Name available)" "checkConflicts ord = Inr ()"
    "each (req_step (\<lambda>req. visit (Suc (length available)) (filed available)
       (providers_of available) req []) (\<lambda>e. e)) roots init_rstate = Some (Inr st)"
  using assms
  by (auto simp: Resolve_def Let_def index_packages_eq split: sum.splits option.splits)

lemma installable_closed:
  assumes ok: "installable B P ps" and own: "\<forall>p \<in> set ps. pkg_at B (Name p) = p"
    and a: "a \<in> Name ` set ps" and ab: "(a, b) \<in> needs B P"
  shows "b \<in> Name ` set ps"
proof -
  obtain i where i: "i < length ps" "Name (ps ! i) = a" using a by (metis imageE in_set_conv_nth)
  then have "pkg_at B a = ps ! i" using own by (metis nth_mem)
  then obtain d dr where d: "d \<in> set (Depends (ps ! i))" "ParseRequirement d = Inr dr"
    "resolveName dr B P a = Inr b" using ab by (auto simp: needs_def)
  moreover have "met B P a (Name ` set (take i ps)) d"
    using ok i d(1) by (auto simp: installable_def deps_met_def)
  ultimately have "b \<in> Name ` set (take i ps)" by (auto simp: met_def)
  then show ?thesis by (meson image_mono set_take_subset subsetD)
qed

lemma Image_closed_trancl:
  assumes "r `` X \<subseteq> X"
  shows "r\<^sup>* `` X = X"
proof -
  have "b \<in> X" if "(a, b) \<in> r\<^sup>*" "a \<in> X" for a b
    using that by (induction rule: rtrancl_induct) (use assms in blast)+
  then show ?thesis by blast
qed

section \<open>Conflicts\<close>

lemma claim_virtuals_get:
  "claim_virtuals nm vs m = Inr m' \<Longrightarrow> mget m' v = (if v \<in> set vs then Some nm else mget m v)"
  by (induction vs arbitrary: m) (auto split: option.splits if_splits)

lemma claim_virtuals_free:
  "claim_virtuals nm vs m = Inr m' \<Longrightarrow> v \<in> set vs \<Longrightarrow> mget m v = Some h \<Longrightarrow> h = nm \<or> h = v"
proof (induction vs arbitrary: m)
  case (Cons w vs)
  show ?case
  proof (cases "v = w")
    case True
    then show ?thesis using Cons.prems by (auto split: if_splits)
  next
    case False
    then have "claim_virtuals nm vs (mput w nm m) = Inr m'" "mget (mput w nm m) v = Some h"
      using Cons.prems by (auto split: option.splits if_splits)
    then show ?thesis using Cons.IH Cons.prems False by auto
  qed
qed simp

lemma claim_all_holder:
  "claim_all ps m = Inr m' \<Longrightarrow> mget m v = Some h \<Longrightarrow>
   h \<noteq> v \<or> (\<forall>p \<in> set ps. v \<in> set (Provides p) \<longrightarrow> Name p = v) \<Longrightarrow> mget m' v = Some h"
proof (induction ps arbitrary: m)
  case (Cons p ps)
  then obtain m1 where m1: "claim_virtuals (Name p) (Provides p) m = Inr m1" "claim_all ps m1 = Inr m'"
    by (auto split: sum.splits)
  have "mget m1 v = Some h"
    using claim_virtuals_get [OF m1(1), of v] claim_virtuals_free [OF m1(1), of v h] Cons.prems(2,3)
    by auto
  then show ?case using Cons.IH [OF m1(2)] Cons.prems(3) by auto
qed simp

lemma claim_all_provides:
  "claim_all ps m = Inr m' \<Longrightarrow> p \<in> set ps \<Longrightarrow> v \<in> set (Provides p) \<Longrightarrow> Name p \<noteq> v \<Longrightarrow>
   mget m' v = Some (Name p)"
proof (induction ps arbitrary: m)
  case (Cons q ps)
  then obtain m1 where m1: "claim_virtuals (Name q) (Provides q) m = Inr m1" "claim_all ps m1 = Inr m'"
    by (auto split: sum.splits)
  show ?case
  proof (cases "p = q")
    case True
    then have "mget m1 v = Some (Name p)" using claim_virtuals_get [OF m1(1)] Cons.prems by simp
    then show ?thesis using claim_all_holder [OF m1(2)] Cons.prems(4) by blast
  next
    case False
    then show ?thesis using Cons.IH [OF m1(2)] Cons.prems by simp
  qed
qed simp

lemma conflicts_of_ok:
  "conflicts_of nm cs m = Inr u \<Longrightarrow> c \<in> set cs \<Longrightarrow> mget m c = Some h \<Longrightarrow> h = nm"
  by (induction cs) (auto split: option.splits if_splits)

lemma conflicts_all_ok:
  "conflicts_all ps m = Inr u \<Longrightarrow> p \<in> set ps \<Longrightarrow> c \<in> set (Conflicts p) \<Longrightarrow> mget m c = Some h \<Longrightarrow>
   h = Name p"
  by (induction ps) (auto split: sum.splits dest: conflicts_of_ok)

lemma present_names:
  "n \<in> Name ` set ps \<or> mget m n = Some n \<Longrightarrow>
   mget (fold (\<lambda>p m. mput (Name p) (Name p) m) ps m) n = Some n"
  by (induction ps arbitrary: m) auto

lemma checkConflicts_present:
  assumes "checkConflicts ps = Inr u"
  obtains m where "claim_all ps (fold (\<lambda>p m. mput (Name p) (Name p) m) ps []) = Inr m"
    "conflicts_all ps m = Inr ()"
  using assms by (auto simp: checkConflicts_def split: sum.splits)

section \<open>Requirements as text\<close>

lemma Index_skip: "p \<noteq> [] \<Longrightarrow> hd p \<notin> set s \<Longrightarrow> Index (s @ t) p = map_option (\<lambda>i. length s + i) (Index t p)"
proof (induction s)
  case Nil
  then show ?case by (simp add: option.map_ident)
next
  case (Cons x s)
  then have "\<not> prefix p (x # s @ t)" by (cases p) auto
  with Cons show ?case by (simp add: option.map_comp comp_def)
qed

lemma Index_absent: "p \<noteq> [] \<Longrightarrow> hd p \<notin> set s \<Longrightarrow> Index s p = None"
  using Index_skip [of p s "[]"] by simp

text \<open>A character of a name or version: printable, not a space, not part of an operator.\<close>

definition word_char :: "char \<Rightarrow> bool" where
  "word_char c \<longleftrightarrow> 33 \<le> (of_char c :: nat) \<and> (of_char c :: nat) \<le> 126 \<and> c \<notin> set ''<>=!''"

definition word :: "string \<Rightarrow> bool" where
  "word s \<longleftrightarrow> s \<noteq> [] \<and> list_all word_char s"

lemma word_absent:
  "word s \<Longrightarrow> c \<in> {CHR ''<'', CHR ''>'', CHR ''='', CHR ''!'', CHR '' '', CHR 0x09} \<Longrightarrow> c \<notin> set s"
  unfolding word_def list_all_iff word_char_def by fastforce

lemma word_trimmed: "word s \<Longrightarrow> trimmed s"
  by (rule trimmed_all_solid) (auto simp: word_def word_char_def list_all_iff intro: solid_ascii)

definition wf_requirement :: "Requirement \<Rightarrow> bool" where
  "wf_requirement r \<longleftrightarrow> word (RName r) \<and>
     (if Op r = [] then RVersion r = [] else Op r \<in> set operators \<and> word (RVersion r))"

lemma word_sandwich_trimmed:
  assumes "word n" and "word v"
  shows "trimmed (n @ t @ v)"
proof -
  obtain a n' where n: "n = a # n'" using assms(1) by (cases n) (auto simp: word_def)
  obtain v' b where v: "v = v' @ [b]" using assms(2) by (cases v rule: rev_cases) (auto simp: word_def)
  have "solid a" "solid b"
    using assms by (auto simp: n v word_def word_char_def intro: solid_ascii)
  then show ?thesis using trimmed_solid_ends [of a b "n' @ t @ v'"] by (simp add: n v)
qed

lemma trim_trailing_space: "trimmed n \<Longrightarrow> n \<noteq> [] \<Longrightarrow> TrimSpace (n @ '' '') = n"
proof -
  assume n: "trimmed n" "n \<noteq> []"
  have "space_at go_spaces (n @ '' '') = None"
  proof (rule ccontr)
    assume "space_at go_spaces (n @ '' '') \<noteq> None"
    then obtain sp where sp: "sp \<in> set go_spaces" "sp \<noteq> []" "prefix sp (n @ '' '')"
      by (auto simp: space_at_None)
    then have "\<not> prefix sp n" using n(1) by (auto simp: trimmed_def space_at_None)
    then have "sp = n @ '' ''" using sp(3) by (simp add: prefix_snoc [of _ n "CHR '' ''", simplified])
    then have "CHR '' '' \<in> set sp \<and> sp \<noteq> '' ''" using n(2) by auto
    then show False using sp(1) by (auto simp: go_spaces_def)
  qed
  then have "TrimLeftSpace (n @ '' '') = n @ '' ''"
    by (simp add: TrimLeftSpace_def trim_front_id)
  moreover have "space_at (map rev go_spaces) (CHR '' '' # rev n) = Some 1"
    by (simp add: space_at_def go_spaces_def)
  then have "trim_front (map rev go_spaces) (CHR '' '' # rev n) = trim_front (map rev go_spaces) (rev n)"
    by (subst trim_front.simps) simp
  then have "TrimRightSpace (n @ '' '') = n"
    using n(1) by (simp add: TrimRightSpace_def trim_front_id trimmed_def)
  ultimately show ?thesis by (simp add: TrimSpace_def)
qed

lemma trim_leading_space: "trimmed v \<Longrightarrow> TrimSpace (CHR '' '' # v) = v"
proof -
  assume v: "trimmed v"
  have "space_at go_spaces (CHR '' '' # v) = Some 1" by (simp add: space_at_def go_spaces_def)
  then have "TrimLeftSpace (CHR '' '' # v) = v"
    using v by (subst TrimLeftSpace_def, subst trim_front.simps) (simp add: trim_front_id trimmed_def)
  then show ?thesis using v by (simp add: TrimSpace_def TrimRightSpace_def trim_front_id trimmed_def)
qed

lemma word_no_op:
  "word v \<Longrightarrow> a \<in> {CHR ''<'', CHR ''>'', CHR ''='', CHR ''!''} \<Longrightarrow> Index v (a # p) = None"
  using Index_absent [of "a # p" v] word_absent [of v a] by auto

lemma parse_ops_miss: "word v \<Longrightarrow> parse_ops operators v = None"
  by (simp add: operators_def word_no_op)

lemma parse_ops_hit:
  assumes "word n" and "word v" and op: "op \<in> set operators"
  shows "parse_ops operators (n @ '' '' @ op @ '' '' @ v) =
           Some (Inr \<lparr>RName = n, Op = op, RVersion = v\<rparr>)"
proof -
  have skip: "Index (n @ CHR '' '' # t) (a # p) = map_option (\<lambda>i. Suc (length n) + i) (Index t (a # p))"
    if "a \<in> {CHR ''<'', CHR ''>'', CHR ''='', CHR ''!''}" for a p t
    using that Index_skip [of "a # p" "n @ '' ''" t] word_absent [OF assms(1), of a] by auto
  note none = word_no_op [OF assms(2)]
  have trims: "TrimSpace (n @ '' '') = n" "TrimSpace (CHR '' '' # v) = v"
    using assms by (auto simp: word_def intro!: trim_trailing_space trim_leading_space word_trimmed)
  have ne: "n \<noteq> []" "v \<noteq> []" using assms by (auto simp: word_def)
  from op consider "op = ''>=''" | "op = ''<=''" | "op = ''==''" | "op = ''!=''" | "op = ''>''" | "op = ''<''"
    by (auto simp: operators_def)
  then show ?thesis
    by cases (simp_all add: operators_def skip none trims ne)
qed

section \<open>Properties\<close>

lemma Resolve_ends: "\<exists>r. Resolve available roots = Some r"
proof (cases "index_packages available []")
  case (Inr B)
  then have B: "B = filed available" by (simp add: index_packages_eq)
  have "card (set (mkeys (filed available)) - {}) < Suc (length available)"
    using length_filed [of available] by simp
  then have "sound_total {} (each (req_step (\<lambda>req. visit (Suc (length available)) (filed available)
      (providers_of available) req []) (\<lambda>e. e)) roots)"
    by (intro each_total req_step_total cat.visit_total)
  moreover have "active init_rstate = {}" by simp
  ultimately show ?thesis
    by (cases rule: sound_totalD)
      (auto simp: Resolve_def Inr B Let_def split: sum.splits)
qed (simp add: Resolve_def)

text \<open>C30: resolution always ends: whatever the packages and roots, cyclic ones included, \<open>Resolve\<close>
  returns an order or an error with the fuel it supplies to its own recursion.\<close>

theorem Resolve_total: "\<exists>r. Resolve available roots = Some r"
  by (rule Resolve_ends)

text \<open>C8: what \<open>Resolve\<close> returns is an installation order: every package stands after packages that
  meet each of its dependencies, version constraint included; no name occurs twice; every
  package is one of those available; and every root is met by a package in the order.\<close>

theorem Resolve_order:
  assumes "Resolve available roots = Some (Inr ord)"
  shows "installable (filed available) (providers_of available) ord \<and> distinct (map Name ord) \<and>
         set ord \<subseteq> set available \<and>
         (\<forall>r \<in> set roots. met (filed available) (providers_of available) [] (Name ` set ord) r)"
proof -
  from assms obtain st where st: "order st = ord" and run: "each (req_step (\<lambda>req. visit
      (Suc (length available)) (filed available) (providers_of available) req []) (\<lambda>e. e))
      roots init_rstate = Some (Inr st)" by (rule Resolve_SomeE)
  note post = cat.roots_post [OF run]
  have "p \<in> set available" if "p \<in> set ord" for p
    using post that st mget_fold_file [of available "[]" "Name p" p]
    by (auto simp: search_inv_def filed_def)
  then show ?thesis using post st by (auto simp: search_inv_def)
qed

definition demo :: "Pkg list" where
  "demo =
     [\<lparr>Name = ''frr'', Version = ''10.2'', Provides = [], Conflicts = [], Depends = [''json-c >= 0.17'', ''nosd'']\<rparr>,
      \<lparr>Name = ''json-c'', Version = ''0.18'', Provides = [], Conflicts = [], Depends = []\<rparr>,
      \<lparr>Name = ''nosd-td2'', Version = ''1'', Provides = [''nosd''], Conflicts = [''nosd''], Depends = []\<rparr>]"

lemma demo_resolves:
  "Resolve demo [''frr''] = Some (Inr [demo ! 1, demo ! 2, demo ! 0])"
  by code_simp

theorem Resolve_order_witness:
  "installable (filed demo) (providers_of demo) [demo ! 1, demo ! 2, demo ! 0]"
  using Resolve_order [OF demo_resolves] by simp

text \<open>The order holds exactly the transitive closure of the roots: a name is in it if and only
  if it is reached from what a root resolves to by following dependencies.\<close>

theorem Resolve_closure:
  assumes "Resolve available roots = Some (Inr ord)"
  shows "Name ` set ord =
         (needs (filed available) (providers_of available))\<^sup>* ``
           (\<Union>r \<in> set roots. targets (filed available) (providers_of available) [] r)"
    (is "_ = ?N\<^sup>* `` ?T")
proof -
  from assms obtain st where st: "order st = ord" and run: "each (req_step (\<lambda>req. visit
      (Suc (length available)) (filed available) (providers_of available) req []) (\<lambda>e. e))
      roots init_rstate = Some (Inr st)" by (rule Resolve_SomeE)
  note post = cat.roots_post [OF run]
  have inst: "installable (filed available) (providers_of available) ord"
    and ch: "chosen st = Name ` set ord" and own: "\<forall>p \<in> set ord. pkg_at (filed available) (Name p) = p"
    using post st by (auto simp: search_inv_def pkg_at_def)
  have "?N `` (Name ` set ord) \<subseteq> Name ` set ord"
    using installable_closed [OF inst own] by blast
  then have "?N\<^sup>* `` (Name ` set ord) = Name ` set ord" by (rule Image_closed_trancl)
  moreover have "?T \<subseteq> Name ` set ord"
  proof
    fix n
    assume "n \<in> ?T"
    then obtain r where r: "r \<in> set roots" "n \<in> targets (filed available) (providers_of available) [] r"
      by blast
    then have "met (filed available) (providers_of available) [] (Name ` set ord) r"
      using post ch by simp
    then show "n \<in> Name ` set ord" using r(2) by (auto simp: met_def targets_def)
  qed
  ultimately have "?N\<^sup>* `` ?T \<subseteq> Name ` set ord" by (metis Image_mono subset_refl)
  moreover have "Name ` set ord \<subseteq> ?N\<^sup>* `` ?T" using post ch by simp
  ultimately show ?thesis by (rule equalityI [rotated])
qed

theorem Resolve_closure_witness:
  "{''json-c'', ''nosd-td2'', ''frr''} =
   (needs (filed demo) (providers_of demo))\<^sup>* `` targets (filed demo) (providers_of demo) [] ''frr''"
  using Resolve_closure [OF demo_resolves] by (simp add: demo_def)


lemma bad_pkg_code:
  "\<not> bad_pkg B P \<longleftrightarrow>
   (\<forall>a p. mget B a = Some p \<longrightarrow> list_all (met B P a UNIV) (Depends p))"
  by (auto simp: bad_pkg_def list_all_iff)

lemma met_UNIV:
  "met B P a UNIV d \<longleftrightarrow>
     (case ParseRequirement d of Inl _ \<Rightarrow> False
      | Inr dr \<Rightarrow> (case resolveName dr B P a of Inl _ \<Rightarrow> False
                  | Inr n \<Rightarrow> Satisfied dr (Version (pkg_at B n))))"
  by (simp add: met_code cong: sum.case_cong)

lemma demo_good: "\<not> bad_pkg (filed demo) (providers_of demo)"
proof -
  have "list_all (\<lambda>(a, p). list_all (\<lambda>d. case ParseRequirement d of Inl _ \<Rightarrow> False
      | Inr dr \<Rightarrow> (case resolveName dr (filed demo) (providers_of demo) a of Inl _ \<Rightarrow> False
                  | Inr n \<Rightarrow> Satisfied dr (Version (pkg_at (filed demo) n)))) (Depends p)) (filed demo)"
    by code_simp
  then have "list_all (\<lambda>(a, p). list_all (met (filed demo) (providers_of demo) a UNIV) (Depends p))
      (filed demo)"
    unfolding met_UNIV [abs_def] .
  then have "list_all (met (filed demo) (providers_of demo) a UNIV) (Depends p)"
    if "mget (filed demo) a = Some p" for a p
    using map_of_SomeD [OF that] unfolding list_all_iff [of _ "filed demo"] by fastforce
  then show ?thesis unfolding bad_pkg_code by blast
qed


text \<open>An accepted selection has no conflict, as long as no selected package provides the real
  name of another: no virtual name has two providers, and nothing selected is in the way of a
  package that conflicts with it, by its name or by a name it provides.\<close>

theorem checkConflicts_sound:
  assumes ok: "checkConflicts ps = Inr ()"
    and own: "\<forall>p \<in> set ps. \<forall>q \<in> set ps. Name q \<in> set (Provides p) \<longrightarrow> Name p = Name q"
    and p: "p \<in> set ps" and q: "q \<in> set ps"
  shows "(\<forall>v \<in> set (Provides p) \<inter> set (Provides q). Name p = Name q) \<and>
         (\<forall>c \<in> set (Conflicts p). c = Name q \<or> c \<in> set (Provides q) \<longrightarrow> Name p = Name q)"
proof -
  let ?init = "fold (\<lambda>p m. mput (Name p) (Name p) m) ps [] :: present"
  obtain m where m: "claim_all ps ?init = Inr m" "conflicts_all ps m = Inr ()"
    using ok by (rule checkConflicts_present)
  have name: "mget m n = Some n" if "n \<in> Name ` set ps" for n
  proof (rule claim_all_holder [OF m(1)])
    show "mget ?init n = Some n" using that by (intro present_names) simp
    show "n \<noteq> n \<or> (\<forall>p \<in> set ps. n \<in> set (Provides p) \<longrightarrow> Name p = n)" using own that by blast
  qed
  have prov: "mget m v = Some (Name r)" if r: "r \<in> set ps" "v \<in> set (Provides r)" for r v
  proof (cases "Name r = v")
    case True
    then show ?thesis using name [of v] r(1) by blast
  next
    case False
    with r show ?thesis by (rule claim_all_provides [OF m(1)])
  qed
  have share: "Name p = Name q" if "v \<in> set (Provides p)" "v \<in> set (Provides q)" for v
    using prov [OF p that(1)] prov [OF q that(2)] by simp
  have holder: "mget m c = Some (Name q)" if "c = Name q \<or> c \<in> set (Provides q)" for c
    using that name [of "Name q"] prov [OF q, of c] q by blast
  have conf: "Name p = Name q" if "c \<in> set (Conflicts p)" "c = Name q \<or> c \<in> set (Provides q)" for c
    using conflicts_all_ok [OF m(2) p that(1) holder [OF that(2)]] by (rule sym)
  show ?thesis
  proof (intro conjI ballI impI)
    fix v
    assume "v \<in> set (Provides p) \<inter> set (Provides q)"
    then show "Name p = Name q" using share by blast
  next
    fix c
    assume "c \<in> set (Conflicts p)" "c = Name q \<or> c \<in> set (Provides q)"
    then show "Name p = Name q" by (rule conf)
  qed
qed

theorem checkConflicts_sound_witness:
  "Name (demo ! 2) \<noteq> Name (demo ! 1) \<and> Name (demo ! 1) \<notin> set (Conflicts (demo ! 2)) \<and>
   set (Provides (demo ! 2)) \<inter> set (Provides (demo ! 1)) = {}"
proof -
  have ok: "checkConflicts demo = Inr ()" by code_simp
  have own: "\<forall>p \<in> set demo. \<forall>q \<in> set demo. Name q \<in> set (Provides p) \<longrightarrow> Name p = Name q"
    by code_simp
  have p: "demo ! 2 \<in> set demo" and q: "demo ! 1 \<in> set demo" by code_simp+
  have ne: "Name (demo ! 2) \<noteq> Name (demo ! 1)" by code_simp
  then show ?thesis using checkConflicts_sound [OF ok own p q] by blast
qed

text \<open>the condition that no package provides another's real name is needed: a package that provides and conflicts
  with the real name of another is accepted beside it, because its own claim to the name
  overwrites the record that the other one holds it.\<close>

theorem checkConflicts_misses_provided_name:
  assumes "Name p \<noteq> Name q" and "Provides p = [Name q]" and "Conflicts p = [Name q]"
    and "Provides q = []" and "Conflicts q = []"
  shows "checkConflicts [q, p] = Inr ()"
  using assms by (simp add: checkConflicts_def)

theorem checkConflicts_misses_provided_name_witness:
  "checkConflicts
     [\<lparr>Name = ''nosd'', Version = ''1'', Provides = [], Conflicts = [], Depends = []\<rparr>,
      \<lparr>Name = ''nosd-td2'', Version = ''1'', Provides = [''nosd''], Conflicts = [''nosd''], Depends = []\<rparr>]
   = Inr ()"
  by (rule checkConflicts_misses_provided_name) simp_all

text \<open>a requirement printed the way a recipe writes it parses back to itself, for every operator
  and for a bare name: no operator is mistaken for a shorter or an earlier one.\<close>

theorem ParseRequirement_String:
  assumes "wf_requirement r"
  shows "ParseRequirement (Requirement_String r) = Inr r"
proof (cases "Op r = []")
  case True
  then have w: "word (RName r)" "RVersion r = []" using assms by (auto simp: wf_requirement_def)
  have "parse_ops operators (RName r) = None" using w(1) by (rule parse_ops_miss)
  moreover have "CHR '' '' \<notin> set (RName r)" "CHR 0x09 \<notin> set (RName r)"
    using word_absent [OF w(1), of "CHR '' ''"] word_absent [OF w(1), of "CHR 0x09"] by simp_all
  ultimately show ?thesis
    using True w by (simp add: Requirement_String_def ParseRequirement_def Let_def word_def
        trimmed_TrimSpace [OF word_trimmed [OF w(1)]])
next
  case False
  then have w: "word (RName r)" "word (RVersion r)" "Op r \<in> set operators"
    using assms by (auto simp: wf_requirement_def)
  have "TrimSpace (Requirement_String r) = RName r @ '' '' @ Op r @ '' '' @ RVersion r"
    using False word_sandwich_trimmed [OF w(1,2), of "'' '' @ Op r @ '' ''"]
    by (simp add: Requirement_String_def trimmed_TrimSpace)
  then show ?thesis
    using parse_ops_hit [OF w] w(1) by (simp add: ParseRequirement_def word_def)
qed

theorem ParseRequirement_String_witness:
  "ParseRequirement (Requirement_String \<lparr>RName = ''json-c'', Op = ''<='', RVersion = ''0.17-rc1''\<rparr>) =
   Inr \<lparr>RName = ''json-c'', Op = ''<='', RVersion = ''0.17-rc1''\<rparr>"
  by (rule ParseRequirement_String) code_simp

text \<open>a lower bound stays met as versions grow and an upper bound as they shrink, because the
  comparison behind both is a total preorder; and the six operators are consistent with it.\<close>

theorem Satisfied_monotone:
  assumes "Compare v w \<le> 0" and "Satisfied \<lparr>RName = n, Op = op, RVersion = x\<rparr> v"
    and "op \<in> {''>='', ''>''}"
  shows "Satisfied \<lparr>RName = n, Op = op, RVersion = x\<rparr> w \<and>
         \<not> Satisfied \<lparr>RName = n, Op = (if op = ''>='' then ''<'' else ''<=''), RVersion = x\<rparr> w"
  using assms vcmp.trans_ge [of w v x] vcmp.less_le_trans [of x v w] vcmp.anti [of v w]
    vcmp.anti [of v x] vcmp.anti [of w x]
  by (auto simp: Satisfied_def)

theorem Satisfied_monotone_witness:
  "Satisfied \<lparr>RName = ''json-c'', Op = ''>='', RVersion = ''0.17''\<rparr> ''0.18.0''"
proof -
  have "Compare ''0.17'' ''0.18.0'' \<le> 0" by code_simp
  moreover have "Satisfied \<lparr>RName = ''json-c'', Op = ''>='', RVersion = ''0.17''\<rparr> ''0.17''" by code_simp
  ultimately show ?thesis using Satisfied_monotone by blast
qed

end
