(* ===== verification/Filesystem.thy ===== *)
theory Filesystem
  imports Go_Prelude
begin

text \<open>
  Programs that change a disk and may be interrupted. A file system is a map from clean paths to
  files and directories; a program reads and changes it through the operations of Go's \<^verbatim>\<open>os\<close> and
  \<^verbatim>\<open>io\<close> packages, each of which may fail: \<open>faults\<close> says which do, in the order they are made, and
  after how many bytes. Every content the disk goes through is kept in \<open>past\<close>, so what a power cut
  can leave behind is one of them; \<open>crash_wp\<close> is the weakest precondition under which an invariant
  holds of them all and a postcondition of a successful end.

  Writes reach the disk in the order they are made and a file grows byte by byte; a rename is
  atomic. The contents a directory has half way through \<^verbatim>\<open>RemoveAll\<close> are not listed.
\<close>

section \<open>Paths\<close>

definition slash :: char where
  "slash = CHR ''/''"

text \<open>One component of \<^verbatim>\<open>filepath.Clean\<close>: the components kept so far, last first.\<close>

definition clean_step :: "bool \<Rightarrow> string \<Rightarrow> string list \<Rightarrow> string list" where
  "clean_step rooted c st =
     (if c = [] \<or> c = ''.'' then st
      else if c = ''..'' then (if st \<noteq> [] \<and> hd st \<noteq> ''..'' then tl st else if rooted then st else c # st)
      else c # st)"

fun join_path :: "string list \<Rightarrow> string" where
  "join_path [] = []"
| "join_path [c] = c"
| "join_path (c # cs) = c @ slash # join_path cs"

definition Clean :: "string \<Rightarrow> string" where
  "Clean p =
     (let rooted = (p \<noteq> [] \<and> hd p = slash);
          out = join_path (rev (fold (clean_step rooted) (Split slash p) []))
      in if rooted then slash # out else if out = [] then ''.'' else out)"

text \<open>\<^verbatim>\<open>filepath.Join\<close> of two elements; an empty one is left out.\<close>

definition Join :: "string \<Rightarrow> string \<Rightarrow> string" where
  "Join a b = (if a = [] then (if b = [] then [] else Clean b) else if b = [] then Clean a else Clean (a @ slash # b))"

definition Dirname :: "string \<Rightarrow> string" where
  "Dirname p = Clean (rev (dropWhile (\<lambda>c. c \<noteq> slash) (rev p)))"

definition is_below :: "string \<Rightarrow> string \<Rightarrow> bool" where
  "is_below p q = prefix (p @ [slash]) q"

section \<open>The world\<close>

datatype node = Directory | File string

type_synonym fsys = "(string, node) gomap"

datatype io_arg = Text string | Count int

datatype io_error = NotExist string | IOFault string | Refused string "io_arg list"

record world =
  fs :: fsys
  faults :: "nat option list"
  past :: "fsys list"

type_synonym 'a io = "world \<Rightarrow> (io_error + 'a) \<times> world"

definition return_io :: "'a \<Rightarrow> 'a io" where
  "return_io x w = (Inr x, w)"

definition fail_io :: "io_error \<Rightarrow> 'a io" where
  "fail_io e w = (Inl e, w)"

definition bind_io :: "'a io \<Rightarrow> ('a \<Rightarrow> 'b io) \<Rightarrow> 'b io" where
  "bind_io m k w = (case m w of (Inl e, w') \<Rightarrow> (Inl e, w') | (Inr x, w') \<Rightarrow> k x w')"

definition then_io :: "'a io \<Rightarrow> 'b io \<Rightarrow> 'b io" where
  "then_io m k = bind_io m (\<lambda>_. k)"

lemma bind_return [simp]: "bind_io (return_io x) k = k x"
  by (simp add: fun_eq_iff bind_io_def return_io_def)

lemma bind_fail [simp]: "bind_io (fail_io e) k = fail_io e" "then_io (fail_io e) m = fail_io e"
  by (simp_all add: fun_eq_iff bind_io_def then_io_def fail_io_def)

text \<open>The error as a value, for the code that looks at it.\<close>

definition attempt :: "'a io \<Rightarrow> (io_error + 'a) io" where
  "attempt m w = (case m w of (r, w') \<Rightarrow> (Inr r, w'))"

text \<open>A deferred call whose own error is dropped.\<close>

definition deferred :: "'b io \<Rightarrow> 'a io \<Rightarrow> 'a io" where
  "deferred c m w = (case m w of (r, w') \<Rightarrow> (r, snd (c w')))"

fun each_io :: "('a \<Rightarrow> unit io) \<Rightarrow> 'a list \<Rightarrow> unit io" where
  "each_io f [] = return_io ()"
| "each_io f (x # xs) = then_io (f x) (each_io f xs)"

section \<open>Operations\<close>

text \<open>An operation that may fail before it does anything.\<close>

definition fallible :: "string \<Rightarrow> 'a io \<Rightarrow> 'a io" where
  "fallible op m w =
     (case faults w of
        [] \<Rightarrow> m w
      | None # fl \<Rightarrow> m (w\<lparr>faults := fl\<rparr>)
      | Some _ # fl \<Rightarrow> (Inl (IOFault op), w\<lparr>faults := fl\<rparr>))"

definition put_fs :: "fsys \<Rightarrow> world \<Rightarrow> world" where
  "put_fs f w = w\<lparr>fs := f, past := fs w # past w\<rparr>"

definition Stat :: "string \<Rightarrow> node io" where
  "Stat p = fallible ''stat'' (\<lambda>w. (case mget (fs w) p of None \<Rightarrow> Inl (NotExist p) | Some n \<Rightarrow> Inr n, w))"

definition Open :: "string \<Rightarrow> unit io" where
  "Open p = fallible ''open'' (\<lambda>w. (case mget (fs w) p of None \<Rightarrow> Inl (NotExist p) | Some n \<Rightarrow> Inr (), w))"

definition ReadFile :: "string \<Rightarrow> string io" where
  "ReadFile p = fallible ''read'' (\<lambda>w.
     (case mget (fs w) p of
        None \<Rightarrow> Inl (NotExist p)
      | Some Directory \<Rightarrow> Inl (IOFault ''read'')
      | Some (File c) \<Rightarrow> Inr c, w))"

definition parent_ok :: "fsys \<Rightarrow> string \<Rightarrow> bool" where
  "parent_ok f p \<longleftrightarrow> mget f (Dirname p) = Some Directory"

text \<open>Opening for writing: \<^verbatim>\<open>O_CREATE|O_TRUNC\<close>.\<close>

definition Truncate :: "string \<Rightarrow> unit io" where
  "Truncate p = fallible ''open'' (\<lambda>w.
     if mget (fs w) p = Some Directory \<or> \<not> parent_ok (fs w) p then (Inl (IOFault ''open''), w)
     else (Inr (), put_fs (mput p (File []) (fs w)) w))"

text \<open>Bytes written over those at an offset, zeros filling a gap.\<close>

definition overwrite :: "nat \<Rightarrow> string \<Rightarrow> string \<Rightarrow> string" where
  "overwrite off data old =
     take off (old @ replicate (off - length old) (CHR 0x00)) @ data @ drop (off + length data) old"

fun grow :: "string \<Rightarrow> nat \<Rightarrow> string \<Rightarrow> string \<Rightarrow> nat \<Rightarrow> world \<Rightarrow> world" where
  "grow p off old data 0 w = w"
| "grow p off old data (Suc k) w =
     (let w' = grow p off old data k w
      in put_fs (mput p (File (overwrite off (take (Suc k) data) old)) (fs w')) w')"

text \<open>Writing at an offset of an open file; a fault stops it after some bytes.\<close>

definition WriteAt :: "string \<Rightarrow> nat \<Rightarrow> string \<Rightarrow> unit io" where
  "WriteAt p off data w =
     (case mget (fs w) p of
        Some (File old) \<Rightarrow>
          (case faults w of
             Some k # fl \<Rightarrow> (Inl (IOFault ''write''), grow p off old data (min k (length data)) (w\<lparr>faults := fl\<rparr>))
           | None # fl \<Rightarrow> (Inr (), grow p off old data (length data) (w\<lparr>faults := fl\<rparr>))
           | [] \<Rightarrow> (Inr (), grow p off old data (length data) w))
      | _ \<Rightarrow> (Inl (IOFault ''write''), w))"

definition WriteFile :: "string \<Rightarrow> string \<Rightarrow> unit io" where
  "WriteFile p c = then_io (Truncate p) (WriteAt p 0 c)"

definition Sync :: "unit io" where
  "Sync = fallible ''sync'' (return_io ())"

definition CloseFile :: "unit io" where
  "CloseFile = fallible ''close'' (return_io ())"

definition Remove :: "string \<Rightarrow> unit io" where
  "Remove p = fallible ''remove'' (\<lambda>w.
     case mget (fs w) p of
       None \<Rightarrow> (Inl (NotExist p), w)
     | Some n \<Rightarrow>
         (if n = Directory \<and> list_ex (is_below p) (mkeys (fs w)) then (Inl (IOFault ''remove''), w)
          else (Inr (), put_fs (mdel p (fs w)) w)))"

definition RemoveAll :: "string \<Rightarrow> unit io" where
  "RemoveAll p = fallible ''remove'' (\<lambda>w.
     (Inr (), put_fs (filter (\<lambda>(q, _). q \<noteq> p \<and> \<not> is_below p q) (fs w)) w))"

definition Rename :: "string \<Rightarrow> string \<Rightarrow> unit io" where
  "Rename a b = fallible ''rename'' (\<lambda>w.
     case mget (fs w) a of
       None \<Rightarrow> (Inl (NotExist a), w)
     | Some n \<Rightarrow>
         (if mget (fs w) b = Some Directory \<or> n = Directory \<or> \<not> parent_ok (fs w) b then (Inl (IOFault ''rename''), w)
          else (Inr (), put_fs (mput b n (mdel a (fs w))) w)))"

text \<open>\<^verbatim>\<open>MkdirAll\<close>: every directory on the way, from the top.\<close>

definition Mkdir :: "string \<Rightarrow> unit io" where
  "Mkdir p = fallible ''mkdir'' (\<lambda>w.
     case mget (fs w) p of
       Some Directory \<Rightarrow> (Inr (), w)
     | Some (File _) \<Rightarrow> (Inl (IOFault ''mkdir''), w)
     | None \<Rightarrow> (Inr (), put_fs (mput p Directory (fs w)) w))"

definition dirs_to :: "string \<Rightarrow> string list" where
  "dirs_to p = map (\<lambda>i. take i p) (filter (\<lambda>i. i = length p \<or> 0 < i \<and> p ! i = slash) [0..<Suc (length p)])"

definition MkdirAll :: "string \<Rightarrow> unit io" where
  "MkdirAll p = each_io Mkdir (dirs_to p)"

section \<open>Weakest preconditions with crashes\<close>

text \<open>What a power cut may leave, once a program has run.\<close>

definition crash_states :: "world \<Rightarrow> fsys list" where
  "crash_states w = fs w # past w"

definition crash_wp :: "(fsys \<Rightarrow> bool) \<Rightarrow> 'a io \<Rightarrow> ('a \<Rightarrow> fsys \<Rightarrow> bool) \<Rightarrow> fsys \<Rightarrow> bool" where
  "crash_wp C m Q f \<longleftrightarrow>
     (\<forall>w. fs w = f \<longrightarrow> list_all C (crash_states w) \<longrightarrow>
        list_all C (crash_states (snd (m w))) \<and> (\<forall>x. fst (m w) = Inr x \<longrightarrow> Q x (fs (snd (m w)))))"

named_theorems wp \<open>rules that compute the weakest precondition of a program\<close>

lemma crash_wpI:
  "(\<And>w. fs w = f \<Longrightarrow> list_all C (crash_states w) \<Longrightarrow>
      list_all C (crash_states (snd (m w))) \<and> (\<forall>x. fst (m w) = Inr x \<longrightarrow> Q x (fs (snd (m w))))) \<Longrightarrow> crash_wp C m Q f"
  by (simp add: crash_wp_def)

lemma crash_wpD:
  assumes "crash_wp C m Q (fs w)" "C (fs w)" "past w = []"
  shows "list_all C (crash_states (snd (m w)))" and "fst (m w) = Inr x \<Longrightarrow> Q x (fs (snd (m w)))"
  using assms by (auto simp: crash_wp_def crash_states_def)

lemma crash_wp_mono:
  assumes "crash_wp C m Q f" "\<And>x g. Q x g \<Longrightarrow> C g \<Longrightarrow> R x g"
  shows "crash_wp C m R f"
  using assms by (simp add: crash_wp_def crash_states_def)

lemma wp_return [wp]: "Q x f \<Longrightarrow> crash_wp C (return_io x) Q f"
  by (simp add: crash_wp_def return_io_def)

lemma wp_fail [wp]: "crash_wp C (fail_io e) Q f"
  by (simp add: crash_wp_def fail_io_def)

lemma wp_bind [wp]: "crash_wp C m (\<lambda>x. crash_wp C (k x) Q) f \<Longrightarrow> crash_wp C (bind_io m k) Q f"
proof (rule crash_wpI)
  fix w assume wp: "crash_wp C m (\<lambda>x. crash_wp C (k x) Q) f" and w: "fs w = f" "list_all C (crash_states w)"
  obtain r w' where m: "m w = (r, w')" by (cases "m w")
  show "list_all C (crash_states (snd (bind_io m k w))) \<and>
      (\<forall>x. fst (bind_io m k w) = Inr x \<longrightarrow> Q x (fs (snd (bind_io m k w))))"
    using wp [unfolded crash_wp_def, rule_format, OF w] by (cases r) (simp_all add: m bind_io_def crash_wp_def)
qed

lemma wp_then [wp]: "crash_wp C m (\<lambda>_. crash_wp C k Q) f \<Longrightarrow> crash_wp C (then_io m k) Q f"
  by (simp add: then_io_def wp_bind)

lemma wp_if [wp]: "(b \<Longrightarrow> crash_wp C m Q f) \<Longrightarrow> (\<not> b \<Longrightarrow> crash_wp C k Q f) \<Longrightarrow> crash_wp C (if b then m else k) Q f"
  by simp

lemma fallible_cases:
  obtains fl e where "fallible op m w = (Inl e, w\<lparr>faults := fl\<rparr>)"
  | fl where "fallible op m w = m (w\<lparr>faults := fl\<rparr>)"
proof (cases "faults w")
  case Nil
  then have "w\<lparr>faults := []\<rparr> = w" by (cases w) simp
  moreover have "fallible op m w = m w" using Nil by (simp add: fallible_def)
  ultimately show ?thesis using that(2) [of "[]"] by metis
next
  case (Cons a fl)
  then show ?thesis using that by (cases a) (simp_all add: fallible_def)
qed

lemma crash_states_faults [simp]: "crash_states (w\<lparr>faults := fl\<rparr>) = crash_states w"
  by (simp add: crash_states_def)

lemma wp_fallible [wp]: "crash_wp C m Q f \<Longrightarrow> crash_wp C (fallible op m) Q f"
proof (rule crash_wpI)
  fix w assume wp: "crash_wp C m Q f" and w: "fs w = f" "list_all C (crash_states w)"
  show "list_all C (crash_states (snd (fallible op m w))) \<and>
      (\<forall>x. fst (fallible op m w) = Inr x \<longrightarrow> Q x (fs (snd (fallible op m w))))"
    by (rule fallible_cases [of op m w]) (use wp w in \<open>simp_all add: crash_wp_def\<close>)
qed

text \<open>A program that only looks.\<close>

definition looks :: "'a io \<Rightarrow> bool" where
  "looks m \<longleftrightarrow> (\<forall>w. fs (snd (m w)) = fs w \<and> past (snd (m w)) = past w)"

named_theorems looking \<open>programs that only look\<close>

lemma looksD: "looks m \<Longrightarrow> fs (snd (m w)) = fs w" "looks m \<Longrightarrow> past (snd (m w)) = past w"
  by (simp_all add: looks_def)

lemma looks_fallible [looking]: "looks m \<Longrightarrow> looks (fallible op m)"
proof -
  assume m: "looks m"
  show ?thesis unfolding looks_def
  proof
    fix w
    show "fs (snd (fallible op m w)) = fs w \<and> past (snd (fallible op m w)) = past w"
      by (rule fallible_cases [of op m w]) (use m in \<open>simp_all add: looks_def\<close>)
  qed
qed

lemma looks_basic [looking]: "looks (return_io x)" "looks (fail_io e)" "looks (\<lambda>w. (r w, w))"
  by (simp_all add: looks_def return_io_def fail_io_def)

lemma looks_bind [looking]: "looks m \<Longrightarrow> (\<And>x. looks (k x)) \<Longrightarrow> looks (bind_io m k)"
  by (simp add: looks_def bind_io_def split: prod.split sum.split) (metis fst_conv snd_conv)

lemma looks_then [looking]: "looks m \<Longrightarrow> looks k \<Longrightarrow> looks (then_io m k)"
  unfolding then_io_def by (rule looks_bind)

lemma looks_attempt [looking]: "looks m \<Longrightarrow> looks (attempt m)"
  by (simp add: looks_def attempt_def split: prod.split) (metis snd_conv)

lemma looks_if [looking]: "(b \<Longrightarrow> looks m) \<Longrightarrow> (\<not> b \<Longrightarrow> looks k) \<Longrightarrow> looks (if b then m else k)"
  by simp

lemma looks_ops [looking]: "looks (Stat p)" "looks (Open p)" "looks (ReadFile p)" "looks Sync" "looks CloseFile"
  unfolding Stat_def Open_def ReadFile_def Sync_def CloseFile_def by (intro looking)+

lemma wp_looks: "looks m \<Longrightarrow> (\<And>x. Q x f) \<Longrightarrow> crash_wp C m Q f"
  by (simp add: crash_wp_def crash_states_def looks_def)

lemmas wp_look = looks_ops(1,2,4,5) [THEN wp_looks]

lemma wp_attempt_looks: "looks m \<Longrightarrow> (\<And>x. Q x f) \<Longrightarrow> crash_wp C (attempt m) Q f"
  by (rule wp_looks [OF looks_attempt])

text \<open>The operations that write.\<close>

lemma list_all_put [simp]: "list_all C (crash_states (put_fs f w)) \<longleftrightarrow> C f \<and> list_all C (crash_states w)"
  by (simp add: put_fs_def crash_states_def)

lemma fs_put [simp]: "fs (put_fs f w) = f"
  by (simp add: put_fs_def)

lemma wp_Truncate [wp]:
  "(C (mput p (File []) f)) \<Longrightarrow> Q () (mput p (File []) f) \<Longrightarrow> crash_wp C (Truncate p) Q f"
  unfolding Truncate_def by (rule wp_fallible) (simp add: crash_wp_def)

definition written :: "string \<Rightarrow> nat \<Rightarrow> string \<Rightarrow> string \<Rightarrow> nat \<Rightarrow> fsys \<Rightarrow> fsys" where
  "written p off old data k f = mput p (File (overwrite off (take k data) old)) f"

lemma grow_states:
  "fs (grow p off old data k w) = (if k = 0 then fs w else written p off old data k (fs w))"
  "(\<And>j. 0 < j \<Longrightarrow> j \<le> k \<Longrightarrow> C (written p off old data j (fs w))) \<Longrightarrow> list_all C (crash_states w) \<Longrightarrow>
   list_all C (crash_states (grow p off old data k w))"
proof (induction k)
  case (Suc k)
  case 1
  show ?case using Suc by (simp add: Let_def written_def)
  case 2
  then show ?case using Suc by (simp add: Let_def written_def)
qed simp_all

lemma wp_WriteAt [wp]:
  assumes "\<And>old j. mget f p = Some (File old) \<Longrightarrow> 0 < j \<Longrightarrow> j \<le> length data \<Longrightarrow> C (written p off old data j f)"
    and "\<And>old. mget f p = Some (File old) \<Longrightarrow> Q () (if data = [] then f else written p off old data (length data) f)"
  shows "crash_wp C (WriteAt p off data) Q f"
proof (rule crash_wpI)
  fix w assume w: "fs w = f" "list_all C (crash_states w)"
  have grows: "list_all C (crash_states (grow p off old data k (w\<lparr>faults := fl\<rparr>)))"
    if "mget f p = Some (File old)" "k \<le> length data" for old k fl
    using grow_states(2) [of k C p off old data "w\<lparr>faults := fl\<rparr>"] assms(1) [OF that(1)] that(2) w by simp
  have last: "list_all C (crash_states (grow p off old data (length data) w))"
    if "mget f p = Some (File old)" "faults w = []" for old
    using grow_states(2) [of "length data" C p off old data w] assms(1) [OF that(1)] w by simp
  show "list_all C (crash_states (snd (WriteAt p off data w))) \<and>
      (\<forall>x. fst (WriteAt p off data w) = Inr x \<longrightarrow> Q x (fs (snd (WriteAt p off data w))))"
    using w assms(2) grows last
    by (auto simp: WriteAt_def grow_states(1) split: node.split option.split list.split)
qed

lemma wp_WriteFile [wp]:
  assumes "\<And>j. j \<le> length c \<Longrightarrow> C (mput p (File (take j c)) f)" "Q () (mput p (File c) f)"
  shows "crash_wp C (WriteFile p c) Q f"
  unfolding WriteFile_def using assms(1) [of 0] assms
  by (intro wp_then wp_Truncate wp_WriteAt) (auto simp: written_def overwrite_def split: if_splits)

lemma wp_Remove [wp]: "(C (mdel p f)) \<Longrightarrow> Q () (mdel p f) \<Longrightarrow> crash_wp C (Remove p) Q f"
  unfolding Remove_def by (rule wp_fallible) (auto simp: crash_wp_def split: option.split)

lemma wp_Rename [wp]:
  "(\<And>n. mget f a = Some n \<Longrightarrow> C (mput b n (mdel a f)) \<and> Q () (mput b n (mdel a f))) \<Longrightarrow> crash_wp C (Rename a b) Q f"
  unfolding Rename_def by (rule wp_fallible) (auto simp: crash_wp_def split: option.split)

definition remove_all :: "string \<Rightarrow> fsys \<Rightarrow> fsys" where
  "remove_all p f = filter (\<lambda>(q, _). q \<noteq> p \<and> \<not> is_below p q) f"

lemma mget_remove_all [simp]:
  "mget (remove_all p f) q = (if q = p \<or> is_below p q then None else mget f q)"
  unfolding remove_all_def by (induction f) auto

lemma wp_RemoveAll [wp]: "(C (remove_all p f)) \<Longrightarrow> Q () (remove_all p f) \<Longrightarrow> crash_wp C (RemoveAll p) Q f"
  unfolding RemoveAll_def by (rule wp_fallible) (simp add: crash_wp_def remove_all_def)

text \<open>A program that leaves the disk as an invariant has it, whatever else it does.\<close>

lemma wp_inv_each:
  assumes "\<And>x g. x \<in> set xs \<Longrightarrow> I g \<Longrightarrow> crash_wp C (f x) (\<lambda>_. I) g" "I g" "\<And>g. I g \<Longrightarrow> Q () g"
  shows "crash_wp C (each_io f xs) Q g"
  using assms
proof (induction xs arbitrary: g)
  case Nil
  then show ?case by (simp add: wp_return)
next
  case (Cons x xs)
  have "crash_wp C (f x) (\<lambda>_. crash_wp C (each_io f xs) Q) g"
    by (rule crash_wp_mono [of C "f x" "\<lambda>_. I"]) (use Cons in simp_all)
  then show ?case by (simp add: wp_then)
qed

lemma wp_Mkdir [wp]:
  "(mget f p = None \<Longrightarrow> C (mput p Directory f) \<and> Q () (mput p Directory f)) \<Longrightarrow>
   (mget f p = Some Directory \<Longrightarrow> Q () f) \<Longrightarrow> crash_wp C (Mkdir p) Q f"
  unfolding Mkdir_def by (rule wp_fallible) (auto simp: crash_wp_def split: option.split node.split)

lemma wp_attempt_Remove:
  assumes "C (mdel p f)" "Q (Inr ()) (mdel p f)" "\<And>e. (\<And>q. e = NotExist q \<Longrightarrow> mget f p = None) \<Longrightarrow> Q (Inl e) f"
  shows "crash_wp C (attempt (Remove p)) Q f"
proof (rule crash_wpI)
  fix w assume w: "fs w = f" "list_all C (crash_states w)"
  show "list_all C (crash_states (snd (attempt (Remove p) w))) \<and>
      (\<forall>x. fst (attempt (Remove p) w) = Inr x \<longrightarrow> Q x (fs (snd (attempt (Remove p) w))))"
    using w assms
    by (auto simp: attempt_def Remove_def fallible_def split: list.split option.split)
qed

section \<open>What the files hold\<close>

definition content :: "fsys \<Rightarrow> string \<Rightarrow> string option" where
  "content f p = (case mget f p of Some (File c) \<Rightarrow> Some c | _ \<Rightarrow> None)"

lemma content_simps [simp]:
  "content (mput p (File c) f) = (content f)(p := Some c)"
  "content (mdel p f) = (content f)(p := None)"
  "content (remove_all p f) = (\<lambda>q. if q = p \<or> is_below p q then None else content f q)"
  by (auto simp: content_def fun_eq_iff)

lemma content_Directory: "content f p = None \<Longrightarrow> content (mput p Directory f) = content f"
  by (auto simp: content_def fun_eq_iff)

text \<open>Making directories leaves every file as it is.\<close>

lemma wp_MkdirAll:
  assumes "\<And>g. content g = content f \<Longrightarrow> C g" "\<And>g. content g = content f \<Longrightarrow> Q () g"
  shows "crash_wp C (MkdirAll p) Q f"
  unfolding MkdirAll_def
proof (rule wp_inv_each [where I = "\<lambda>g. content g = content f"])
  fix x g assume g: "content g = content f"
  show "crash_wp C (Mkdir x) (\<lambda>_ g. content g = content f) g"
  proof (rule wp_Mkdir)
    assume "mget g x = None"
    then have "content g x = None" by (simp add: content_def)
    then have "content (mput x Directory g) = content f" using g content_Directory [of g x] by metis
    then show "C (mput x Directory g) \<and> content (mput x Directory g) = content f" using assms(1) by simp
  qed (rule g)
qed (use assms in simp_all)

lemma wp_ReadFile: "(\<And>c. content f p = Some c \<Longrightarrow> Q c f) \<Longrightarrow> crash_wp C (ReadFile p) Q f"
  unfolding ReadFile_def
  by (rule wp_fallible) (auto simp: crash_wp_def content_def split: option.split node.split)

lemma wp_attempt_ReadFile_absent:
  assumes "\<And>e. (\<And>q. e = NotExist q \<Longrightarrow> content f p = None) \<Longrightarrow> Q (Inl e) f" "\<And>c. content f p = Some c \<Longrightarrow> Q (Inr c) f"
  shows "crash_wp C (attempt (ReadFile p)) Q f"
proof (rule crash_wpI)
  fix w assume w: "fs w = f" "list_all C (crash_states w)"
  show "list_all C (crash_states (snd (attempt (ReadFile p) w))) \<and>
      (\<forall>x. fst (attempt (ReadFile p) w) = Inr x \<longrightarrow> Q x (fs (snd (attempt (ReadFile p) w))))"
    using w assms by (auto simp: attempt_def ReadFile_def fallible_def content_def split: list.split option.split node.split)
qed

lemma wp_attempt_ReadFile:
  "(\<And>e. Q (Inl e) f) \<Longrightarrow> (\<And>c. content f p = Some c \<Longrightarrow> Q (Inr c) f) \<Longrightarrow> crash_wp C (attempt (ReadFile p)) Q f"
  by (rule wp_attempt_ReadFile_absent)

section \<open>Last components\<close>

definition Base :: "string \<Rightarrow> string" where
  "Base p = rev (takeWhile (\<lambda>c. c \<noteq> slash) (rev p))"

definition plain :: "string \<Rightarrow> bool" where
  "plain n \<longleftrightarrow> n \<noteq> [] \<and> n \<noteq> ''.'' \<and> n \<noteq> ''..'' \<and> slash \<notin> set n"

lemma Base_slash: "slash \<notin> set n \<Longrightarrow> Base (p @ slash # n) = n"
  by (simp add: Base_def takeWhile_append)

lemma Base_whole: "slash \<notin> set n \<Longrightarrow> Base n = n"
  unfolding Base_def by (subst takeWhile_eq_all_conv [THEN iffD2]) auto

lemma Base_slash_Cons: "slash \<notin> set n \<Longrightarrow> Base (slash # n) = n"
  using Base_slash [of n "[]"] by simp

lemma join_path_snoc: "cs \<noteq> [] \<Longrightarrow> join_path (cs @ [n]) = join_path cs @ slash # n"
  by (induction cs rule: join_path.induct) simp_all

lemma join_path_nonempty: "n \<noteq> [] \<Longrightarrow> join_path (cs @ [n]) \<noteq> []"
  by (cases "cs = []") (simp_all add: join_path_snoc)

lemma Base_join_path:
  "slash \<notin> set n \<Longrightarrow> Base (join_path (cs @ [n])) = n" "slash \<notin> set n \<Longrightarrow> Base (slash # join_path (cs @ [n])) = n"
  using Base_slash [of n "slash # join_path cs"]
  by (cases "cs = []"; simp add: join_path_snoc Base_whole Base_slash Base_slash_Cons)+

lemma Split_slash_name: "slash \<notin> set n \<Longrightarrow> Split slash (p @ slash # n) = Split slash p @ [n]"
  by (simp add: Split_append_sep Split_no_sep)

lemma Base_Join: "plain n \<Longrightarrow> Base (Join p n) = n"
proof -
  assume n: "plain n"
  then have s: "slash \<notin> set n" "n \<noteq> []" by (simp_all add: plain_def)
  have step: "clean_step r n st = n # st" for r st using n by (simp add: plain_def clean_step_def)
  show ?thesis
  proof (cases "p = []")
    case True
    have "hd n \<noteq> slash" using s by (cases n) auto
    then show ?thesis using True s step by (simp add: Join_def Clean_def Let_def Split_no_sep Base_whole)
  next
    case False
    let ?r = "hd p = slash"
    let ?cs = "rev (fold (clean_step ?r) (Split slash p) [])"
    have "Join p n = (if ?r then slash # join_path (?cs @ [n]) else join_path (?cs @ [n]))"
      using False s step by (simp add: Join_def Clean_def Let_def Split_slash_name join_path_nonempty)
    then show ?thesis
      using s by (simp add: Base_join_path)
  qed
qed

lemma Join_inject: "plain n \<Longrightarrow> plain m \<Longrightarrow> Join p n = Join q m \<Longrightarrow> n = m"
  using Base_Join by metis

lemma Base_append: "slash \<notin> set s \<Longrightarrow> Base (p @ s) = Base p @ s"
  unfolding Base_def by (simp add: takeWhile_append)

text \<open>After a failure the invariant still holds of what is on the disk.\<close>

lemma wp_attempt:
  assumes "crash_wp C m (\<lambda>x. Q (Inr x)) f" "\<And>e g. C g \<Longrightarrow> Q (Inl e) g"
  shows "crash_wp C (attempt m) Q f"
proof (rule crash_wpI)
  fix w assume w: "fs w = f" "list_all C (crash_states w)"
  obtain r w' where m: "m w = (r, w')" by (cases "m w")
  show "list_all C (crash_states (snd (attempt m w))) \<and>
      (\<forall>x. fst (attempt m w) = Inr x \<longrightarrow> Q x (fs (snd (attempt m w))))"
    using assms(1) [unfolded crash_wp_def, rule_format, OF w] assms(2)
    by (cases r) (simp_all add: m attempt_def crash_states_def)
qed

section \<open>Without faults\<close>

text \<open>\<open>sure m Q f\<close>: when no operation fails of itself, \<open>m\<close> succeeds from \<open>f\<close> and \<open>Q\<close> holds at its end.\<close>

definition sure :: "'a io \<Rightarrow> ('a \<Rightarrow> fsys \<Rightarrow> bool) \<Rightarrow> fsys \<Rightarrow> bool" where
  "sure m Q f \<longleftrightarrow>
     (\<forall>w. fs w = f \<longrightarrow> faults w = [] \<longrightarrow>
        (\<exists>x. fst (m w) = Inr x \<and> Q x (fs (snd (m w))) \<and> faults (snd (m w)) = []))"

named_theorems live \<open>rules for programs that succeed without faults\<close>

lemma sureD:
  assumes "sure m Q (fs w)" "faults w = []"
  obtains x where "fst (m w) = Inr x" "Q x (fs (snd (m w)))" "faults (snd (m w)) = []"
  using assms unfolding sure_def by blast

lemma sure_mono: "sure m Q f \<Longrightarrow> (\<And>x g. Q x g \<Longrightarrow> R x g) \<Longrightarrow> sure m R f"
  unfolding sure_def by blast

lemma sure_return [live]: "Q x f \<Longrightarrow> sure (return_io x) Q f"
  by (simp add: sure_def return_io_def)

lemma sure_bind [live]: "sure m (\<lambda>x. sure (k x) Q) f \<Longrightarrow> sure (bind_io m k) Q f"
  unfolding sure_def
proof (intro allI impI)
  fix w :: world assume m: "\<forall>w. fs w = f \<longrightarrow> faults w = [] \<longrightarrow> (\<exists>x. fst (m w) = Inr x \<and>
      (\<forall>w'. fs w' = fs (snd (m w)) \<longrightarrow> faults w' = [] \<longrightarrow>
        (\<exists>y. fst (k x w') = Inr y \<and> Q y (fs (snd (k x w'))) \<and> faults (snd (k x w')) = [])) \<and> faults (snd (m w)) = [])"
    and w: "fs w = f" "faults w = []"
  obtain r w' where r: "m w = (r, w')" by (cases "m w")
  show "\<exists>x. fst (bind_io m k w) = Inr x \<and> Q x (fs (snd (bind_io m k w))) \<and> faults (snd (bind_io m k w)) = []"
    using m [rule_format, OF w] by (auto simp: r bind_io_def)
qed

lemma sure_then [live]: "sure m (\<lambda>_. sure k Q) f \<Longrightarrow> sure (then_io m k) Q f"
  by (simp add: then_io_def sure_bind)

lemma sure_attempt: "sure m (\<lambda>x. Q (Inr x)) f \<Longrightarrow> sure (attempt m) Q f"
  by (simp add: sure_def attempt_def split: prod.split) (metis fst_conv snd_conv)

lemma sure_Sync [live]: "Q () f \<Longrightarrow> sure Sync Q f" "Q () f \<Longrightarrow> sure CloseFile Q f"
  by (simp_all add: sure_def Sync_def CloseFile_def fallible_def return_io_def)

lemma sure_Open [live]: "mget f p = Some n \<Longrightarrow> Q () f \<Longrightarrow> sure (Open p) Q f"
  by (simp add: sure_def Open_def fallible_def)

lemma sure_Stat [live]: "mget f p = Some n \<Longrightarrow> Q n f \<Longrightarrow> sure (Stat p) Q f"
  by (simp add: sure_def Stat_def fallible_def)

lemma sure_attempt_Stat [live]:
  "Q (case mget f p of None \<Rightarrow> Inl (NotExist p) | Some n \<Rightarrow> Inr n) f \<Longrightarrow> sure (attempt (Stat p)) Q f"
  by (simp add: sure_def attempt_def Stat_def fallible_def)

lemma sure_ReadFile [live]: "content f p = Some c \<Longrightarrow> Q c f \<Longrightarrow> sure (ReadFile p) Q f"
  by (auto simp: sure_def ReadFile_def fallible_def content_def split: option.splits node.splits)

lemma sure_attempt_ReadFile:
  assumes "\<And>e. content f p = None \<Longrightarrow> Q (Inl e) f" "\<And>c. content f p = Some c \<Longrightarrow> Q (Inr c) f"
  shows "sure (attempt (ReadFile p)) Q f"
  using assms by (auto simp: sure_def attempt_def ReadFile_def fallible_def content_def split: option.split node.split)

lemma sure_Truncate [live]:
  "mget f p \<noteq> Some Directory \<Longrightarrow> parent_ok f p \<Longrightarrow> Q () (mput p (File []) f) \<Longrightarrow> sure (Truncate p) Q f"
  by (simp add: sure_def Truncate_def fallible_def put_fs_def)

lemma faults_grow [simp]: "faults (grow p off old data k w) = faults w"
  by (induction k) (simp_all add: Let_def put_fs_def)

lemma sure_WriteAt [live]:
  "mget f p = Some (File old) \<Longrightarrow> Q () (if data = [] then f else written p off old data (length data) f) \<Longrightarrow>
   sure (WriteAt p off data) Q f"
  by (simp add: sure_def WriteAt_def grow_states(1) split: if_splits)

lemma sure_WriteFile [live]:
  "mget f p \<noteq> Some Directory \<Longrightarrow> parent_ok f p \<Longrightarrow> Q () (mput p (File c) f) \<Longrightarrow> sure (WriteFile p c) Q f"
  unfolding WriteFile_def
  by (intro live) (auto simp: written_def overwrite_def)

lemma sure_attempt_Remove:
  assumes "mget f p \<noteq> Some Directory" "mget f p = None \<Longrightarrow> Q (Inl (NotExist p)) f" "mget f p \<noteq> None \<Longrightarrow> Q (Inr ()) (mdel p f)"
  shows "sure (attempt (Remove p)) Q f"
  using assms by (auto simp: sure_def attempt_def Remove_def fallible_def put_fs_def split: option.split)

lemma sure_Rename [live]:
  "mget f a = Some (File c) \<Longrightarrow> mget f b \<noteq> Some Directory \<Longrightarrow> parent_ok f b \<Longrightarrow> Q () (mput b (File c) (mdel a f)) \<Longrightarrow>
   sure (Rename a b) Q f"
  by (simp add: sure_def Rename_def fallible_def put_fs_def)

lemma sure_RemoveAll [live]: "Q () (remove_all p f) \<Longrightarrow> sure (RemoveAll p) Q f"
  by (simp add: sure_def RemoveAll_def fallible_def put_fs_def remove_all_def)

lemma sure_MkdirAll: "list_all (\<lambda>q. mget f q = Some Directory) (dirs_to p) \<Longrightarrow> Q () f \<Longrightarrow> sure (MkdirAll p) Q f"
proof -
  have "sure (Mkdir q) R f" if "mget f q = Some Directory" "R () f" for q R
    using that by (simp add: sure_def Mkdir_def fallible_def)
  then have "sure (each_io Mkdir qs) Q f" if "list_all (\<lambda>q. mget f q = Some Directory) qs" "Q () f" for qs
    using that by (induction qs) (simp_all add: live)
  then show "list_all (\<lambda>q. mget f q = Some Directory) (dirs_to p) \<Longrightarrow> Q () f \<Longrightarrow> sure (MkdirAll p) Q f"
    by (simp add: MkdirAll_def)
qed

end
