(* ===== verification/Paths.thy ===== *)
theory Paths
  imports Filesystem "HOL-Library.Sublist"
begin

text \<open>
  What \<^verbatim>\<open>path/filepath\<close> does to paths: a clean path is the components \<^verbatim>\<open>Clean\<close> keeps, its directory drops the
  last of them, and a rooted path joined to a directory lies below it.
\<close>

section \<open>Clean paths\<close>

text \<open>The components \<^verbatim>\<open>filepath.Clean\<close> keeps, last first: each was pushed onto those before it.\<close>

fun normal :: "bool \<Rightarrow> string list \<Rightarrow> bool" where
  "normal rooted [] = True"
| "normal rooted (c # st) \<longleftrightarrow> clean_step rooted c st = c # st \<and> slash \<notin> set c \<and> normal rooted st"

lemma normal_step: "normal rooted st \<Longrightarrow> slash \<notin> set c \<Longrightarrow> normal rooted (clean_step rooted c st)"
  by (cases st) (auto simp: clean_step_def)

lemma normal_fold: "normal rooted st \<Longrightarrow> \<forall>c \<in> set cs. slash \<notin> set c \<Longrightarrow> normal rooted (fold (clean_step rooted) cs st)"
  by (induction cs arbitrary: st) (auto intro: normal_step)

lemma normal_replay: "normal rooted st \<Longrightarrow> fold (clean_step rooted) (rev st) [] = st"
  by (induction st) auto

lemma normal_no_slash: "normal rooted st \<Longrightarrow> c \<in> set st \<Longrightarrow> slash \<notin> set c \<and> c \<noteq> []"
  by (induction st) (auto simp: clean_step_def split: if_splits)

lemma clean_step_push: "clean_step rooted c st = c # st \<longleftrightarrow> c \<noteq> [] \<and> c \<noteq> ''.'' \<and> (c = ''..'' \<longrightarrow> \<not> rooted \<and> (st = [] \<or> hd st = ''..''))"
proof -
  have "tl st \<noteq> c # st" by (auto dest: arg_cong [where f = length])
  moreover have "st \<noteq> c # st" by simp
  ultimately show ?thesis by (auto simp: clean_step_def)
qed

lemma normal_no_dots: "normal True st \<Longrightarrow> ''..'' \<notin> set st"
  by (induction st) (auto simp: clean_step_push)

lemma Split_no_slash: "c \<in> set (Split slash p) \<Longrightarrow> slash \<notin> set c"
  by (induction p arbitrary: c) (auto split: list.splits if_splits)

lemma Split_join_path: "cs \<noteq> [] \<Longrightarrow> \<forall>c \<in> set cs. slash \<notin> set c \<Longrightarrow> Split slash (join_path cs) = cs"
  by (induction cs rule: join_path.induct) (auto simp: Split_append_sep Split_no_sep)

lemma join_path_hd: "cs \<noteq> [] \<Longrightarrow> hd cs \<noteq> [] \<Longrightarrow> slash \<notin> set (hd cs) \<Longrightarrow> join_path cs \<noteq> [] \<and> hd (join_path cs) \<noteq> slash"
  by (cases cs rule: join_path.cases) (use hd_in_set in \<open>fastforce simp: hd_append\<close>)+

text \<open>A clean path is its kept components: rooted, or relative and not empty, or the dot.\<close>

definition spell :: "bool \<Rightarrow> string list \<Rightarrow> string" where
  "spell rooted st = (if rooted then slash # join_path (rev st) else if st = [] then ''.'' else join_path (rev st))"

lemma rev_st_hd:
  assumes "normal rooted st" and "st \<noteq> []"
  shows "join_path (rev st) \<noteq> [] \<and> hd (join_path (rev st)) \<noteq> slash"
proof -
  have "hd (rev st) \<in> set st" using assms(2) by (metis hd_in_set rev_is_Nil_conv set_rev)
  then show ?thesis using normal_no_slash [OF assms(1)] assms(2) by (intro join_path_hd) auto
qed

lemma Clean_spell: "Clean p = (let r = (p \<noteq> [] \<and> hd p = slash) in spell r (fold (clean_step r) (Split slash p) []))"
proof -
  define r where "r = (p \<noteq> [] \<and> hd p = slash)"
  define st where "st = fold (clean_step r) (Split slash p) []"
  have "normal r st" unfolding st_def by (rule normal_fold) (auto simp: Split_no_slash)
  then have "join_path (rev st) = [] \<longleftrightarrow> st = []" using rev_st_hd [of r st] by (cases "st = []") auto
  then show ?thesis unfolding Clean_def Let_def r_def [symmetric] st_def [symmetric] by (simp add: spell_def)
qed

lemma Clean_normal: obtains r st where "Clean p = spell r st" "normal r st"
  using that normal_fold [of _ "[]" "Split slash p"] by (auto simp: Clean_spell Let_def Split_no_slash)


lemma spell_Cons: "st \<noteq> [] \<Longrightarrow> spell r (n # st) = spell r st @ slash # n"
  by (simp add: spell_def join_path_snoc)

lemma Split_spell: "normal r st \<Longrightarrow> st \<noteq> [] \<Longrightarrow> Split slash (spell r st) = (if r then [[]] else []) @ rev st"
  using normal_no_slash [of r st] by (simp add: spell_def Split_join_path)

lemma spell_rooted: "normal r st \<Longrightarrow> st \<noteq> [] \<Longrightarrow> spell r st \<noteq> [] \<and> (hd (spell r st) = slash \<longleftrightarrow> r)"
  using rev_st_hd [of r st] by (simp add: spell_def)

lemma clean_step_Nil [simp]: "clean_step r [] st = st"
  by (simp add: clean_step_def)

lemma Clean_dir:
  assumes "normal r st" and "st \<noteq> []"
  shows "Clean (spell r st @ [slash]) = spell r st"
  using spell_rooted [OF assms] normal_replay [OF assms(1)] assms
  by (cases r) (simp_all add: Clean_spell Let_def Split_slash_name Split_spell hd_append)

lemma Dirname_spell:
  assumes "normal r (n # st)"
  shows "Dirname (spell r (n # st)) = spell r st"
proof -
  have n: "slash \<notin> set n" and st: "normal r st" using assms by auto
  have drop: "dropWhile (\<lambda>c. c \<noteq> slash) (rev (x @ slash # n)) = slash # rev x"
             "dropWhile (\<lambda>c. c \<noteq> slash) (rev n) = []" for x
    using n by (auto simp: dropWhile_append3 dropWhile_eq_Nil_conv)
  show ?thesis
  proof (cases "st = []")
    case True
    then show ?thesis using drop(1) [of "[]"] by (cases r) (simp_all add: Dirname_def spell_def Clean_def Let_def drop(2))
  next
    case False
    then show ?thesis using drop(1) [of "spell r st"] Clean_dir [OF st] by (simp add: Dirname_def spell_Cons)
  qed
qed

text \<open>The directory of a clean path below another is that one or is below it.\<close>

lemma Dirname_below:
  assumes "d \<noteq> []" and "is_below d (Clean p)"
  shows "Dirname (Clean p) = d \<or> is_below d (Dirname (Clean p))"
proof -
  obtain r st where c: "Clean p = spell r st" and st: "normal r st" by (rule Clean_normal)
  have "st \<noteq> []" using assms c by (cases r) (auto simp: is_below_def spell_def slash_def prefix_Cons)
  then obtain n ts where s: "st = n # ts" by (cases st) auto
  have n: "slash \<notin> set n" using st s by simp
  have "ts \<noteq> []"
  proof
    assume "ts = []"
    then have "prefix (d @ [slash]) n \<or> prefix (d @ [slash]) (slash # n)" using assms c s by (auto simp: is_below_def spell_def split: if_splits)
    moreover obtain y ys where "d = y # ys" using assms(1) by (cases d) auto
    ultimately show False using n by (auto dest!: set_mono_prefix)
  qed
  then have "prefix (d @ [slash]) ((spell r ts @ [slash]) @ n)" using assms c s by (simp add: is_below_def spell_Cons)
  then consider "prefix (d @ [slash]) (spell r ts @ [slash])"
    | us where "d @ [slash] = (spell r ts @ [slash]) @ us" "prefix us n"
    unfolding prefix_append by blast
  then have "prefix (d @ [slash]) (spell r ts @ [slash])"
  proof cases
    case (2 us)
    then have "us = []" using n by (cases us rule: rev_cases) (auto dest: set_mono_prefix)
    then show ?thesis using 2 by simp
  qed
  then show ?thesis using Dirname_spell st s c by (auto simp: is_below_def)
qed

text \<open>A path given from the root, joined to a directory, is that path below the directory's clean one.\<close>

lemma fold_plain: "\<forall>c \<in> set cs. c \<noteq> [] \<and> c \<noteq> ''.'' \<and> c \<noteq> ''..'' \<Longrightarrow> fold (clean_step r) cs st = rev cs @ st"
  by (induction cs arbitrary: st) (auto simp: clean_step_def)

lemma normal_plain: "normal True st \<Longrightarrow> c \<in> set st \<Longrightarrow> c \<noteq> [] \<and> c \<noteq> ''.'' \<and> c \<noteq> ''..''"
  by (induction st) (auto simp: clean_step_push)

lemma Join_rooted:
  assumes "dst \<noteq> []" and "Clean dst \<notin> {[slash], ''.''}" and "Clean (slash # q) \<noteq> [slash]"
  shows "Join dst (Clean (slash # q)) = Clean dst @ Clean (slash # q)"
proof -
  define r where "r = (hd dst = slash)"
  define sd where "sd = fold (clean_step r) (Split slash dst) []"
  define sn where "sn = fold (clean_step True) (Split slash (slash # q)) []"
  have d: "Clean dst = spell r sd" using assms(1) by (simp add: Clean_spell Let_def r_def sd_def)
  have q: "Clean (slash # q) = spell True sn" by (simp add: Clean_spell sn_def)
  have sn: "normal True sn" unfolding sn_def by (rule normal_fold) (simp_all add: Split_no_slash del: Split.simps)
  have ne: "sd \<noteq> []" "sn \<noteq> []" using assms d q by (auto simp: spell_def split: if_splits)
  have "Split slash (dst @ slash # spell True sn) = Split slash dst @ [] # rev sn"
    using ne sn by (simp add: Split_append_sep Split_spell)
  then have "fold (clean_step r) (Split slash (dst @ slash # spell True sn)) [] = sn @ sd"
    using normal_plain [OF sn] by (simp add: sd_def [symmetric] fold_plain)
  moreover have "spell True sn \<noteq> []" by (simp add: spell_def)
  ultimately have "Join dst (spell True sn) = spell r (sn @ sd)"
    using assms(1) by (simp add: Join_def Clean_spell Let_def r_def)
  also have "\<dots> = spell r sd @ spell True sn"
    using ne(2) by (induction sn rule: list_nonempty_induct) (use ne(1) in \<open>simp_all add: spell_Cons spell_def [of True "[_]"]\<close>)
  finally show ?thesis using d q by simp
qed

end
