(* ===== verification/Netip.thy ===== *)
theory Netip
  imports Go_Prelude "HOL-Library.Word"
begin

unbundle bit_operations_syntax

text \<open>
  The part of Go's \<^verbatim>\<open>net/netip\<close> and \<^verbatim>\<open>net\<close> that the switch contract uses: addresses and prefixes as
  comparable values, their text forms in both directions, and masking. An IPv4 address is four
  bytes, an IPv6 address eight 16-bit groups and a zone. Parse errors are \<open>None\<close>: every caller
  only asks whether there was one.
\<close>

section \<open>Addresses and prefixes\<close>

datatype Addr =
    NoAddr
  | IP4 "8 word" "8 word" "8 word" "8 word"
  | IP6 "16 word" "16 word" "16 word" "16 word" "16 word" "16 word" "16 word" "16 word" (zone: string)
where
  "zone NoAddr = []"
| "zone (IP4 _ _ _ _) = []"

fun Is4 :: "Addr \<Rightarrow> bool" where
  "Is4 (IP4 _ _ _ _) \<longleftrightarrow> True"
| "Is4 _ \<longleftrightarrow> False"

fun Is6 :: "Addr \<Rightarrow> bool" where
  "Is6 (IP6 _ _ _ _ _ _ _ _ _) \<longleftrightarrow> True"
| "Is6 _ \<longleftrightarrow> False"

fun groups :: "Addr \<Rightarrow> 16 word list" where
  "groups (IP6 a b c d e f g h _) = [a, b, c, d, e, f, g, h]"
| "groups _ = []"

fun of_groups :: "16 word list \<Rightarrow> string \<Rightarrow> Addr option" where
  "of_groups [a, b, c, d, e, f, g, h] z = Some (IP6 a b c d e f g h z)"
| "of_groups _ z = None"

fun withoutZone :: "Addr \<Rightarrow> Addr" where
  "withoutZone (IP6 a b c d e f g h _) = IP6 a b c d e f g h []"
| "withoutZone x = x"

definition Is4In6 :: "Addr \<Rightarrow> bool" where
  "Is4In6 a \<longleftrightarrow> Is6 a \<and> take 6 (groups a) = [0, 0, 0, 0, 0, 0xffff]"

fun BitLen :: "Addr \<Rightarrow> nat" where
  "BitLen NoAddr = 0"
| "BitLen (IP4 _ _ _ _) = 32"
| "BitLen (IP6 _ _ _ _ _ _ _ _ _) = 128"

fun IsLinkLocalUnicast :: "Addr \<Rightarrow> bool" where
  "IsLinkLocalUnicast (IP4 a b _ _) \<longleftrightarrow> a = 169 \<and> b = 254"
| "IsLinkLocalUnicast (IP6 a b c d e f g h _) \<longleftrightarrow>
     (if Is4In6 (IP6 a b c d e f g h []) then g = 0xa9fe else a AND 0xffc0 = 0xfe80)"
| "IsLinkLocalUnicast NoAddr \<longleftrightarrow> False"

fun IsMulticast :: "Addr \<Rightarrow> bool" where
  "IsMulticast (IP4 a _ _ _) \<longleftrightarrow> a AND 0xf0 = 0xe0"
| "IsMulticast (IP6 a b c d e f g h _) \<longleftrightarrow>
     (if Is4In6 (IP6 a b c d e f g h []) then g AND 0xf000 = 0xe000 else a AND 0xff00 = 0xff00)"
| "IsMulticast NoAddr \<longleftrightarrow> False"

text \<open>The zero value of a prefix has no address and -1 for its length, and is not valid.\<close>

record Prefix =
  pAddr :: Addr
  pBits :: int

definition zero_prefix :: Prefix where
  "zero_prefix = \<lparr>pAddr = NoAddr, pBits = -1\<rparr>"

definition IsValid :: "Prefix \<Rightarrow> bool" where
  "IsValid p \<longleftrightarrow> 0 \<le> pBits p"

definition PrefixFrom :: "Addr \<Rightarrow> int \<Rightarrow> Prefix" where
  "PrefixFrom a b =
     \<lparr>pAddr = withoutZone a,
      pBits = (if a \<noteq> NoAddr \<and> 0 \<le> b \<and> b \<le> int (BitLen a) then b else -1)\<rparr>"

text \<open>The values \<open>PrefixFrom\<close> and \<open>ParsePrefix\<close> build.\<close>

definition wf_prefix :: "Prefix \<Rightarrow> bool" where
  "wf_prefix p \<longleftrightarrow> PrefixFrom (pAddr p) (pBits p) = p"

definition keep_high :: "nat \<Rightarrow> nat \<Rightarrow> 'a::len word \<Rightarrow> 'a word" where
  "keep_high w k x = push_bit (w - k) (drop_bit (w - k) x)"

fun mask_addr :: "Addr \<Rightarrow> nat \<Rightarrow> Addr" where
  "mask_addr NoAddr n = NoAddr"
| "mask_addr (IP4 a b c d) n =
     IP4 (keep_high 8 (min 8 n) a) (keep_high 8 (min 8 (n - 8)) b)
         (keep_high 8 (min 8 (n - 16)) c) (keep_high 8 (min 8 (n - 24)) d)"
| "mask_addr (IP6 a b c d e f g h z) n =
     IP6 (keep_high 16 (min 16 n) a) (keep_high 16 (min 16 (n - 16)) b)
         (keep_high 16 (min 16 (n - 32)) c) (keep_high 16 (min 16 (n - 48)) d)
         (keep_high 16 (min 16 (n - 64)) e) (keep_high 16 (min 16 (n - 80)) f)
         (keep_high 16 (min 16 (n - 96)) g) (keep_high 16 (min 16 (n - 112)) h) []"

definition Masked :: "Prefix \<Rightarrow> Prefix" where
  "Masked p =
     (if IsValid p then \<lparr>pAddr = mask_addr (pAddr p) (nat (pBits p)), pBits = pBits p\<rparr>
      else zero_prefix)"

section \<open>Text\<close>

definition isHex :: "char \<Rightarrow> bool" where
  "isHex c \<longleftrightarrow> (let n = (of_char c :: nat)
     in (48 \<le> n \<and> n \<le> 57) \<or> (97 \<le> n \<and> n \<le> 102) \<or> (65 \<le> n \<and> n \<le> 70))"

definition hex_digit_val :: "char \<Rightarrow> nat" where
  "hex_digit_val c = (let n = (of_char c :: nat)
     in if n \<le> 57 then n - 48 else if n \<le> 70 then n - 55 else n - 87)"

definition hex_val :: "string \<Rightarrow> nat" where
  "hex_val s = foldl (\<lambda>a c. 16 * a + hex_digit_val c) 0 s"

definition hex_char :: "nat \<Rightarrow> char" where
  "hex_char d = char_of (if d < 10 then 48 + d else 87 + d)"

fun nat_hex :: "nat \<Rightarrow> string" where
  "nat_hex n = (if n < 16 then [hex_char n] else nat_hex (n div 16) @ [hex_char (n mod 16)])"

declare nat_hex.simps [simp del]

text \<open>\<open>parse4\<close> is the loop of \<^verbatim>\<open>parseIPv4Fields\<close>: the value and digit count of the current field and the
  fields before it.\<close>

fun parse4 :: "nat \<Rightarrow> nat \<Rightarrow> 8 word list \<Rightarrow> string \<Rightarrow> 8 word list option" where
  "parse4 v dl fs [] = (if length fs < 3 then None else Some (fs @ [of_nat v]))"
| "parse4 v dl fs (c # cs) =
     (if isDigit c then
        (if dl = 1 \<and> v = 0 then None
         else let v' = v * 10 + digit_val c
              in if 255 < v' then None else parse4 v' (Suc dl) fs cs)
      else if c = CHR ''.'' then
        (if dl = 0 \<or> cs = [] then None
         else if length fs = 3 then None
         else parse4 0 0 (fs @ [of_nat v]) cs)
      else None)"

definition join8 :: "8 word \<Rightarrow> 8 word \<Rightarrow> 16 word" where
  "join8 a b = of_nat (256 * unat a + unat b)"

definition hi8 :: "16 word \<Rightarrow> 8 word" where
  "hi8 w = of_nat (unat w div 256)"

definition lo8 :: "16 word \<Rightarrow> 8 word" where
  "lo8 w = of_nat (unat w mod 256)"

text \<open>\<open>parse6\<close> is the loop of \<^verbatim>\<open>parseIPv6\<close>: the groups so far, where the \<^verbatim>\<open>::\<close> was, and the rest.\<close>

function parse6 :: "16 word list \<Rightarrow> nat option \<Rightarrow> string \<Rightarrow> (16 word list \<times> nat option \<times> string) option" where
  "parse6 gs ell s =
     (if 8 \<le> length gs then Some (gs, ell, s)
      else let h = takeWhile isHex s; rest = dropWhile isHex s
           in if h = [] \<or> 4 < length h then None
              else if rest \<noteq> [] \<and> hd rest = CHR ''.'' then
                (if (ell = None \<and> length gs \<noteq> 6) \<or> 6 < length gs then None
                 else case parse4 0 0 [] s of
                        Some [a, b, c, d] \<Rightarrow> Some (gs @ [join8 a b, join8 c d], ell, [])
                      | _ \<Rightarrow> None)
              else let gs' = gs @ [of_nat (hex_val h)]
                   in if rest = [] then Some (gs', ell, [])
                      else if hd rest \<noteq> CHR '':'' \<or> tl rest = [] then None
                      else if hd (tl rest) = CHR '':'' then
                        (if ell \<noteq> None then None
                         else if tl (tl rest) = [] then Some (gs', Some (length gs'), [])
                         else parse6 gs' (Some (length gs')) (tl (tl rest)))
                      else parse6 gs' ell (tl rest))"
  by pat_completeness auto
termination
  by (relation "measure (\<lambda>(gs, _, _). 8 - length gs)") auto

declare parse6.simps [simp del]

definition expand6 :: "16 word list \<Rightarrow> nat option \<Rightarrow> 16 word list option" where
  "expand6 gs ell =
     (if length gs < 8
      then (case ell of None \<Rightarrow> None
            | Some e \<Rightarrow> Some (take e gs @ replicate (8 - length gs) 0 @ drop e gs))
      else if ell \<noteq> None then None else Some gs)"

definition parseIPv6 :: "string \<Rightarrow> Addr option" where
  "parseIPv6 inp =
     (let (s, z, found) = Cut (CHR ''%'') inp
      in if found \<and> z = [] then None
         else let (ell, s') = (if take 2 s = ''::'' then (Some 0, drop 2 s) else (None, s))
              in if ell \<noteq> None \<and> s' = [] then Some (IP6 0 0 0 0 0 0 0 0 z)
                 else case parse6 [] ell s' of
                        None \<Rightarrow> None
                      | Some (gs, ell', rest) \<Rightarrow>
                          (if rest \<noteq> [] then None
                           else case expand6 gs ell' of
                                  None \<Rightarrow> None
                                | Some gs' \<Rightarrow> of_groups gs' z))"

definition parseIPv4 :: "string \<Rightarrow> Addr option" where
  "parseIPv4 s = (case parse4 0 0 [] s of Some [a, b, c, d] \<Rightarrow> Some (IP4 a b c d) | _ \<Rightarrow> None)"

definition ParseAddr :: "string \<Rightarrow> Addr option" where
  "ParseAddr s =
     (case List.find (\<lambda>c. c \<in> {CHR ''.'', CHR '':'', CHR ''%''}) s of
        None \<Rightarrow> None
      | Some c \<Rightarrow> (if c = CHR ''.'' then parseIPv4 s
                  else if c = CHR '':'' then parseIPv6 s else None))"

text \<open>Joining with a separator character.\<close>

fun join_with :: "char \<Rightarrow> string list \<Rightarrow> string" where
  "join_with c [] = []"
| "join_with c [w] = w"
| "join_with c (w # ws) = w @ c # join_with c ws"

definition string4 :: "8 word list \<Rightarrow> string" where
  "string4 bs = join_with (CHR ''.'') (map (\<lambda>b. nat_dec (unat b)) bs)"

definition hexes :: "16 word list \<Rightarrow> string" where
  "hexes gs = join_with (CHR '':'') (map (\<lambda>g. nat_hex (unat g)) gs)"

text \<open>The longest run of at least two zero groups, the first of them if several are longest.\<close>

definition zero_run :: "16 word list \<Rightarrow> nat" where
  "zero_run gs = length (takeWhile (\<lambda>g. g = 0) gs)"

definition best_run :: "16 word list \<Rightarrow> (nat \<times> nat) option" where
  "best_run gs =
     fold (\<lambda>i best. let l = zero_run (drop i gs)
                    in if 2 \<le> l \<and> (case best of None \<Rightarrow> True | Some (s, e) \<Rightarrow> e - s < l)
                       then Some (i, i + l) else best)
          [0..<length gs] None"

definition string6 :: "16 word list \<Rightarrow> string" where
  "string6 gs =
     (case best_run gs of
        None \<Rightarrow> hexes gs
      | Some (s, e) \<Rightarrow> hexes (take s gs) @ ''::'' @ hexes (drop e gs))"

definition zone_suffix :: "string \<Rightarrow> string" where
  "zone_suffix z = (if z = [] then [] else CHR ''%'' # z)"

fun Addr_String :: "Addr \<Rightarrow> string" where
  "Addr_String NoAddr = ''invalid IP''"
| "Addr_String (IP4 a b c d) = string4 [a, b, c, d]"
| "Addr_String (IP6 a b c d e f g h z) =
     (if [a, b, c, d, e, f] = [0, 0, 0, 0, 0, 0xffff]
      then ''::ffff:'' @ string4 [hi8 g, lo8 g, hi8 h, lo8 h]
      else string6 [a, b, c, d, e, f, g, h]) @ zone_suffix z"

text \<open>The text before and after the last slash.\<close>

definition cut_last_slash :: "string \<Rightarrow> (string \<times> string) option" where
  "cut_last_slash s =
     (case Cut (CHR ''/'') (rev s) of (a, b, found) \<Rightarrow> if found then Some (rev b, rev a) else None)"

definition ParsePrefix :: "string \<Rightarrow> Prefix option" where
  "ParsePrefix s =
     (case cut_last_slash s of
        None \<Rightarrow> None
      | Some (addr, bitsStr) \<Rightarrow>
          (case ParseAddr addr of
             None \<Rightarrow> None
           | Some a \<Rightarrow>
               (if zone a \<noteq> [] then None
                else if 1 < length bitsStr \<and> \<not> (CHR ''1'' \<le> hd bitsStr \<and> hd bitsStr \<le> CHR ''9'') then None
                else case Atoi bitsStr of
                       None \<Rightarrow> None
                     | Some b \<Rightarrow>
                         (if b < 0 \<or> int (if Is6 a then 128 else 32) < b then None
                          else Some (PrefixFrom a b)))))"

definition Prefix_String :: "Prefix \<Rightarrow> string" where
  "Prefix_String p =
     (if IsValid p then Addr_String (pAddr p) @ ''/'' @ Itoa (pBits p) else ''invalid Prefix'')"


section \<open>Hardware addresses\<close>

text \<open>\<^verbatim>\<open>net.ParseMAC\<close>: two hex digits per octet separated by colons or dashes, or dotted groups of
  four digits; 6, 8 or 20 octets. \<open>xtoi2\<close> reads one octet and checks the character after it.\<close>

definition xtoi2 :: "string \<Rightarrow> char option \<Rightarrow> 8 word option" where
  "xtoi2 s e =
     (if 2 < length s \<and> e \<noteq> Some (s ! 2) \<or> length s < 2 \<or> \<not> list_all isHex (take 2 s) then None
      else Some (of_nat (hex_val (take 2 s))))"

fun all_some :: "'a option list \<Rightarrow> 'a list option" where
  "all_some [] = Some []"
| "all_some (None # xs) = None"
| "all_some (Some x # xs) = map_option ((#) x) (all_some xs)"

definition ParseMAC :: "string \<Rightarrow> 8 word list option" where
  "ParseMAC s =
     (if length s < 14 then None
      else if s ! 2 = CHR '':'' \<or> s ! 2 = CHR ''-'' then
        (let n = (length s + 1) div 3
         in if (length s + 1) mod 3 \<noteq> 0 \<or> n \<notin> {6, 8, 20} then None
            else all_some (map (\<lambda>i. xtoi2 (drop (3 * i) s) (Some (s ! 2))) [0..<n]))
      else if s ! 4 = CHR ''.'' then
        (let n = 2 * (length s + 1) div 5
         in if (length s + 1) mod 5 \<noteq> 0 \<or> n \<notin> {6, 8, 20} then None
            else all_some (concat (map (\<lambda>i. [xtoi2 (take 2 (drop (5 * i) s)) None,
                                              xtoi2 (drop (5 * i + 2) s) (Some (s ! 4))]) [0..<n div 2])))
      else None)"

section \<open>Text round trips\<close>

subsection \<open>Hexadecimal\<close>

lemma isHex_hex_char [simp]: "d < 16 \<Longrightarrow> isHex (hex_char d)"
  by (auto simp: isHex_def hex_char_def Let_def)

lemma hex_digit_val_hex_char [simp]: "d < 16 \<Longrightarrow> hex_digit_val (hex_char d) = d"
  by (auto simp: hex_digit_val_def hex_char_def Let_def)

lemma hex_val_Nil [simp]: "hex_val [] = 0"
  by (simp add: hex_val_def)

lemma hex_val_snoc [simp]: "hex_val (s @ [c]) = 16 * hex_val s + hex_digit_val c"
  by (simp add: hex_val_def)

lemma nat_hex_nonempty [simp]: "nat_hex n \<noteq> []"
  by (subst nat_hex.simps) simp

lemma nat_hex_isHex: "\<forall>c \<in> set (nat_hex n). isHex c"
proof (induction n rule: nat_hex.induct)
  case (1 n)
  then show ?case by (subst nat_hex.simps) auto
qed

lemma hex_val_nat_hex [simp]: "hex_val (nat_hex n) = n"
proof (induction n rule: nat_hex.induct)
  case (1 n)
  show ?case
  proof (cases "n < 16")
    case True
    then show ?thesis by (subst nat_hex.simps) (simp add: hex_val_def)
  next
    case False
    with 1 show ?thesis by (subst nat_hex.simps) simp
  qed
qed

lemma length_nat_hex: "n < 16 ^ Suc k \<Longrightarrow> length (nat_hex n) \<le> Suc k"
proof (induction k arbitrary: n)
  case 0
  then show ?case by (subst nat_hex.simps) simp
next
  case (Suc k)
  have "n div 16 < 16 ^ Suc k"
    using Suc.prems by (simp add: less_mult_imp_div_less mult.commute)
  then show ?case using Suc.IH [of "n div 16"] by (subst nat_hex.simps) simp
qed

lemma of_nat_unat_id: "of_nat (unat w) = w" for w :: "'a::len word"
  by simp

lemma unat_group: "unat (g :: 16 word) < 65536"
  using unsigned_less [of g] by simp

lemma unat_byte: "unat (b :: 8 word) < 256"
  using unsigned_less [of b] by simp

lemma hd_nat_hex: "isHex (hd (nat_hex n))"
  using nat_hex_isHex [of n] hd_in_set [OF nat_hex_nonempty [of n]] by blast

lemma length_nat_hex_group: "length (nat_hex (unat (g :: 16 word))) \<le> 4"
  using unat_group [of g] length_nat_hex [of "unat g" 3] by simp

lemma isDigit_isHex: "isDigit c \<Longrightarrow> isHex c"
  by (simp add: isDigit_def isHex_def)

lemma not_isHex [simp]: "\<not> isHex (CHR '':'')" "\<not> isHex (CHR ''.'')" "\<not> isHex (CHR ''/'')"
  "\<not> isHex (CHR ''%'')" "\<not> isHex (CHR '' '')"
  by (simp_all add: isHex_def)

lemma isHex_solid: "isHex c \<Longrightarrow> solid c"
  by (rule solid_ascii) (auto simp: isHex_def Let_def)

lemma takeWhile_sep [simp]:
  "\<forall>c \<in> set h. P c \<Longrightarrow> \<not> P x \<Longrightarrow> takeWhile P (h @ x # t) = h"
  "\<forall>c \<in> set h. P c \<Longrightarrow> \<not> P x \<Longrightarrow> dropWhile P (h @ x # t) = x # t"
  by (induction h) auto

lemma takeWhile_whole [simp]:
  "\<forall>c \<in> set h. P c \<Longrightarrow> takeWhile P h = h"
  "\<forall>c \<in> set h. P c \<Longrightarrow> dropWhile P h = []"
  by (induction h) auto

subsection \<open>Dotted quads\<close>

lemma nat_dec_1: "n < 10 \<Longrightarrow> nat_dec n = [digit_char n]"
  by (subst nat_dec.simps) simp

lemma nat_dec_2: "10 \<le> n \<Longrightarrow> n < 100 \<Longrightarrow> nat_dec n = [digit_char (n div 10), digit_char (n mod 10)]"
  by (subst nat_dec.simps) (simp add: nat_dec_1)

lemma nat_dec_3: "100 \<le> n \<Longrightarrow> n < 1000 \<Longrightarrow>
    nat_dec n = [digit_char (n div 100), digit_char (n div 10 mod 10), digit_char (n mod 10)]"
  by (subst nat_dec.simps) (simp add: nat_dec_2 div_mult2_eq [symmetric])

lemma parse4_field:
  assumes "n < 256"
  shows "\<exists>dl. 0 < dl \<and> parse4 0 0 fs (nat_dec n @ rest) = parse4 n dl fs rest"
proof -
  consider "n < 10" | "10 \<le> n" "n < 100" | "100 \<le> n" "n < 1000" using assms by linarith
  then show ?thesis
  proof cases
    case 1
    then show ?thesis using assms by (intro exI [of _ 1]) (simp add: nat_dec_1)
  next
    case 2
    then have "n div 10 * 10 + n mod 10 = n" "n div 10 < 10" "0 < n div 10" by simp_all
    then show ?thesis using assms 2 by (intro exI [of _ "Suc (Suc 0)"]) (simp add: nat_dec_2)
  next
    case 3
    then have a: "n div 100 < 10" "0 < n div 100" using assms by simp_all
    have b: "n div 100 * 10 + n div 10 mod 10 = n div 10"
      using div_mult_mod_eq [of "n div 10" 10] by (simp add: div_mult2_eq [symmetric])
    have "n div 10 * 10 + n mod 10 = n" "\<not> 255 < n div 10" using assms by simp_all
    then show ?thesis using assms 3 a b by (intro exI [of _ "Suc (Suc (Suc 0))"]) (simp add: nat_dec_3 Let_def)
  qed
qed

lemma parse4_dot: "0 < dl \<Longrightarrow> length fs < 3 \<Longrightarrow> s \<noteq> [] \<Longrightarrow>
    parse4 v dl fs (CHR ''.'' # s) = parse4 0 0 (fs @ [of_nat v]) s"
  by simp

lemma string4_eq: "string4 [a, b, c, d] =
    nat_dec (unat a) @ CHR ''.'' # nat_dec (unat b) @ CHR ''.'' # nat_dec (unat c) @ CHR ''.'' # nat_dec (unat d) @ []"
  by (simp add: string4_def)

lemma parse4_string4: "parse4 0 0 [] (string4 [a, b, c, d]) = Some [a, b, c, d]"
proof -
  have part: "parse4 0 0 fs (nat_dec (unat x) @ CHR ''.'' # s) = parse4 0 0 (fs @ [x]) s"
    if "length fs < 3" "s \<noteq> []" for fs s and x :: "8 word"
    using parse4_field [OF unat_byte, of fs x "CHR ''.'' # s"] parse4_dot [OF _ that, of _ "unat x"] by auto
  have last: "parse4 0 0 fs (nat_dec (unat x) @ []) = Some (fs @ [x])"
    if "3 \<le> length fs" for fs and x :: "8 word"
    using parse4_field [OF unat_byte, of fs x "[]"] that by auto
  show ?thesis by (simp only: string4_eq) (simp add: part last del: append_Nil2)
qed


subsection \<open>Groups\<close>

lemma hexes_Nil [simp]: "hexes [] = []"
  by (simp add: hexes_def)

lemma hexes_single [simp]: "hexes [g] = nat_hex (unat g)"
  by (simp add: hexes_def)

lemma hexes_Cons [simp]: "gs \<noteq> [] \<Longrightarrow> hexes (g # gs) = nat_hex (unat g) @ CHR '':'' # hexes gs"
  by (cases gs) (simp_all add: hexes_def)

lemma hexes_hd: "gs \<noteq> [] \<Longrightarrow> hexes gs \<noteq> [] \<and> isHex (hd (hexes gs))"
  using hd_nat_hex by (cases gs; cases "tl gs") (auto simp: hd_append)

lemma parse6_group:
  assumes "length done < 8" and "rest = [] \<or> hd rest = CHR '':''"
  shows "parse6 done ell (nat_hex (unat (g :: 16 word)) @ rest) =
    (let gs' = done @ [g]
     in if rest = [] then Some (gs', ell, [])
        else if tl rest = [] then None
        else if hd (tl rest) = CHR '':'' then
          (if ell \<noteq> None then None
           else if tl (tl rest) = [] then Some (gs', Some (length gs'), [])
           else parse6 gs' (Some (length gs')) (tl (tl rest)))
        else parse6 gs' ell (tl rest))"
proof -
  have "takeWhile isHex (nat_hex (unat g) @ rest) = nat_hex (unat g)"
    and "dropWhile isHex (nat_hex (unat g) @ rest) = rest"
    using assms(2) nat_hex_isHex [of "unat g"] by (cases rest; simp)+
  moreover have "\<not> 4 < length (nat_hex (unat g))" using length_nat_hex_group [of g] by simp
  moreover have "(rest \<noteq> [] \<and> hd rest = CHR ''.'') = False" using assms(2) by auto
  moreover have "hd rest = CHR '':''" if "rest \<noteq> []" using assms(2) that by auto
  moreover have "\<not> 8 \<le> length done" using assms(1) by simp
  ultimately show ?thesis
    by (subst parse6.simps) (simp only: Let_def hex_val_nat_hex nat_hex_nonempty of_nat_unat_id if_False simp_thms cong: if_cong)
qed

lemma parse6_hexes:
  assumes "gs \<noteq> []" and "length done + length gs \<le> 8"
  shows "parse6 done ell (hexes gs) = Some (done @ gs, ell, [])"
  using assms
proof (induction gs arbitrary: "done")
  case Nil
  then show ?case by simp
next
  case (Cons g gs)
  show ?case
  proof (cases "gs = []")
    case True
    then show ?thesis using Cons.prems parse6_group [of "done" "[]" ell g] by simp
  next
    case False
    have "hd (hexes gs) \<noteq> CHR '':''" and "hexes gs \<noteq> []" using hexes_hd [OF False] by auto
    then show ?thesis
      using False Cons parse6_group [of "done" "CHR '':'' # hexes gs" ell g] by simp
  qed
qed

lemma parse6_ellipsis:
  assumes "pre \<noteq> []" and "length done + length pre < 8"
  shows "parse6 done None (hexes pre @ ''::'' @ s) =
    (if s = [] then Some (done @ pre, Some (length done + length pre), [])
     else parse6 (done @ pre) (Some (length done + length pre)) s)"
  using assms
proof (induction pre arbitrary: "done")
  case Nil
  then show ?case by simp
next
  case (Cons g gs)
  show ?case
  proof (cases "gs = []")
    case True
    then show ?thesis using Cons.prems parse6_group [of "done" "''::'' @ s" None g] by simp
  next
    case False
    have "hd (hexes gs @ ''::'' @ s) \<noteq> CHR '':''" and "hexes gs \<noteq> []"
      using hexes_hd [OF False] by (auto simp: hd_append)
    then show ?thesis
      using False Cons parse6_group [of "done" "CHR '':'' # hexes gs @ ''::'' @ s" None g] by simp
  qed
qed

definition zero_block :: "16 word list \<Rightarrow> nat \<Rightarrow> nat \<Rightarrow> bool" where
  "zero_block gs s e \<longleftrightarrow> s < e \<and> e \<le> length gs \<and> take s gs @ replicate (e - s) 0 @ drop e gs = gs"

lemma zero_run_block:
  assumes "2 \<le> zero_run (drop i gs)"
  shows "zero_block gs i (i + zero_run (drop i gs))"
proof -
  let ?ds = "drop i gs" let ?l = "zero_run ?ds"
  have "takeWhile (\<lambda>g. g = 0) ?ds = replicate ?l 0"
    unfolding zero_run_def by (rule replicate_eqI) (auto dest: set_takeWhileD)
  moreover have "takeWhile (\<lambda>g. g = 0) ?ds = take ?l ?ds"
    unfolding zero_run_def by (rule takeWhile_eq_take)
  ultimately have "replicate ?l 0 @ drop ?l ?ds = ?ds"
    by (metis append_take_drop_id)
  then have "take i gs @ replicate ?l 0 @ drop (i + ?l) gs = gs"
    by (metis append_take_drop_id drop_drop add.commute)
  moreover have "?l \<le> length ?ds" unfolding zero_run_def by (rule length_takeWhile_le)
  ultimately show ?thesis
    using assms unfolding zero_block_def by (intro conjI) simp_all
qed

lemma best_run_block: "best_run gs = Some (s, e) \<Longrightarrow> zero_block gs s e"
proof -
  let ?step = "\<lambda>i best. let l = zero_run (drop i gs)
                    in if 2 \<le> l \<and> (case best of None \<Rightarrow> True | Some (s, e) \<Rightarrow> e - s < l)
                       then Some (i, i + l) else best"
  have "case fold ?step is best of None \<Rightarrow> True | Some (s, e) \<Rightarrow> zero_block gs s e"
    if "case best of None \<Rightarrow> True | Some (s, e) \<Rightarrow> zero_block gs s e" for "is" best
    using that
  proof (induction "is" arbitrary: best)
    case Nil
    then show ?case by simp
  next
    case (Cons i "is")
    have "case ?step i best of None \<Rightarrow> True | Some (s, e) \<Rightarrow> zero_block gs s e"
      using Cons.prems zero_run_block [of i gs] by (auto simp: Let_def)
    then show ?case using Cons.IH by (simp only: fold_simps)
  qed
  from this [of None "[0..<length gs]"] show "best_run gs = Some (s, e) \<Longrightarrow> zero_block gs s e"
    by (simp add: best_run_def)
qed

lemma expand6_block:
  assumes "zero_block gs s e" and "length gs = 8"
  shows "expand6 (take s gs @ drop e gs) (Some s) = Some gs"
proof -
  have se: "s < e" "e \<le> 8" and gs: "take s gs @ replicate (e - s) 0 @ drop e gs = gs"
    using assms unfolding zero_block_def by simp_all
  have "length (take s gs @ drop e gs) < 8" "8 - length (take s gs @ drop e gs) = e - s"
    using se assms(2) by simp_all
  moreover have "take s (take s gs @ drop e gs) = take s gs" "drop s (take s gs @ drop e gs) = drop e gs"
    using se assms(2) by simp_all
  ultimately show ?thesis using gs by (simp only: expand6_def if_True option.case)
qed


subsection \<open>Addresses\<close>

lemma find_sep:
  "\<forall>c \<in> set h. isHex c \<Longrightarrow> x \<in> {CHR ''.'', CHR '':'', CHR ''%''} \<Longrightarrow>
   List.find (\<lambda>c. c \<in> {CHR ''.'', CHR '':'', CHR ''%''}) (h @ x # t) = Some x"
proof (induction h)
  case (Cons c h)
  then have "c \<notin> {CHR ''.'', CHR '':'', CHR ''%''}" using not_isHex by auto
  with Cons show ?case by simp
qed simp

lemma nat_dec_isHex: "\<forall>c \<in> set (nat_dec n). isHex c"
  using nat_dec_digits [of n] isDigit_isHex by (auto simp: list_all_iff)

lemma ParseAddr_4: "ParseAddr (string4 [a, b, c, d]) = Some (IP4 a b c d)"
proof -
  have "ParseAddr (string4 [a, b, c, d]) = parseIPv4 (string4 [a, b, c, d])"
    unfolding ParseAddr_def string4_eq by (subst find_sep [OF nat_dec_isHex]) simp_all
  then show ?thesis by (simp add: parseIPv4_def parse4_string4)
qed

lemma ParseAddr_colon:
  assumes "\<forall>c \<in> set h. isHex c"
  shows "ParseAddr (h @ CHR '':'' # t) = parseIPv6 (h @ CHR '':'' # t)"
  unfolding ParseAddr_def by (subst find_sep [OF assms]) simp_all

text \<open>The characters of the text of an address without a zone.\<close>

definition addr_char :: "char \<Rightarrow> bool" where
  "addr_char c \<longleftrightarrow> isHex c \<or> c = CHR '':'' \<or> c = CHR ''.''"

lemma addr_char_hex: "\<forall>c \<in> set (nat_hex n). addr_char c" "\<forall>c \<in> set (nat_dec n). addr_char c"
  using nat_hex_isHex [of n] nat_dec_isHex [of n] by (auto simp: addr_char_def)

lemma addr_char_hexes: "\<forall>c \<in> set (hexes gs). addr_char c"
proof (induction gs)
  case (Cons g gs)
  then show ?case using addr_char_hex(1) [of "unat g"] by (cases "gs = []") (auto simp: addr_char_def)
qed simp

lemma addr_char_string6: "\<forall>c \<in> set (string6 gs). addr_char c"
  using addr_char_hexes
  by (auto simp: string6_def addr_char_def [of "CHR '':''"] split: option.splits)

lemma addr_char_string4: "\<forall>c \<in> set (string4 [a, b, c', d]). addr_char c"
  using addr_char_hex(2) by (auto simp: string4_eq addr_char_def [of "CHR ''.''"])

lemma join8_hi_lo [simp]: "join8 (hi8 g) (lo8 g) = g"
proof -
  have "unat g div 256 < 256" and "unat g mod 256 < 256" using unat_group [of g] by auto
  then have "unat (hi8 g) = unat g div 256" and "unat (lo8 g) = unat g mod 256"
    by (simp_all add: hi8_def lo8_def unat_of_nat)
  then have "join8 (hi8 g) (lo8 g) = of_nat (256 * (unat g div 256) + unat g mod 256)"
    by (simp add: join8_def)
  then show ?thesis by simp
qed

text \<open>The three shapes of IPv6 text, read by \<open>parseIPv6\<close> up to the zone.\<close>

definition read6 :: "string \<Rightarrow> 16 word list option" where
  "read6 s =
     (let (ell, s') = (if take 2 s = ''::'' then (Some 0, drop 2 s) else (None, s))
      in if ell \<noteq> None \<and> s' = [] then Some (replicate 8 0)
         else case parse6 [] ell s' of
                None \<Rightarrow> None
              | Some (gs, ell', rest) \<Rightarrow> if rest \<noteq> [] then None else expand6 gs ell')"

lemma parseIPv6_read6:
  assumes "Cut (CHR ''%'') inp = (s, z, found)" and "found \<longrightarrow> z \<noteq> []"
    and "read6 s = Some gs"
  shows "parseIPv6 inp = of_groups gs z"
  using assms
  by (auto simp: parseIPv6_def read6_def Let_def eval_nat_numeral split: if_splits option.splits)

lemma read6_run:
  assumes blk: "zero_block gs s e" and len: "length gs = 8"
  shows "read6 (hexes (take s gs) @ ''::'' @ hexes (drop e gs)) = Some gs"
proof (cases "s = 0")
  case s: True
  show ?thesis
  proof (cases "drop e gs = []")
    case True
    then have "e = 8" using blk len by (simp add: zero_block_def)
    then have "gs = replicate 8 0" using blk len s by (simp add: zero_block_def)
    then show ?thesis using s True by (simp add: read6_def)
  next
    case False
    then have "parse6 [] (Some 0) (hexes (drop e gs)) = Some ([] @ drop e gs, Some 0, [])"
      using len by (intro parse6_hexes) simp_all
    moreover have "expand6 (drop e gs) (Some 0) = Some gs" using expand6_block [OF blk len] s by simp
    ultimately show ?thesis using s False hexes_hd [OF False] by (simp add: read6_def)
  qed
next
  case s: False
  have pre: "take s gs \<noteq> []" "length (take s gs) = s" "s < 8" "length (take s gs @ drop e gs) \<le> 8"
    using s blk len by (auto simp: zero_block_def)
  have hd: "hexes (take s gs) \<noteq> []" "hd (hexes (take s gs)) \<noteq> CHR '':''" using hexes_hd [OF pre(1)] by auto
  then have no: "take 2 (hexes (take s gs) @ ''::'' @ t) \<noteq> ''::''" for t
    by (cases "hexes (take s gs)") auto
  have "parse6 [] None (hexes (take s gs) @ ''::'' @ hexes (drop e gs)) = Some (take s gs @ drop e gs, Some s, [])"
  proof (cases "drop e gs = []")
    case True
    then show ?thesis using parse6_ellipsis [OF pre(1), of "[]" "[]"] pre by simp
  next
    case False
    then show ?thesis
      using parse6_ellipsis [OF pre(1), of "[]" "hexes (drop e gs)"] pre hexes_hd [OF False]
        parse6_hexes [OF False, of "take s gs" "Some s"] by simp
  qed
  then show ?thesis using no expand6_block [OF blk len] by (simp add: read6_def)
qed

lemma read6_string6:
  assumes "length gs = 8"
  shows "read6 (string6 gs) = Some gs"
proof (cases "best_run gs")
  case None
  have ne: "gs \<noteq> []" using assms by auto
  have "take 2 (hexes gs) \<noteq> ''::''" using hexes_hd [OF ne] by (cases "hexes gs") auto
  then show ?thesis
    using None assms parse6_hexes [OF ne, of "[]" None]
    by (simp add: string6_def read6_def expand6_def)
next
  case (Some se)
  then obtain s e where "best_run gs = Some (s, e)" by (cases se) auto
  then show ?thesis
    using read6_run [OF best_run_block assms] by (simp add: string6_def)
qed


lemma parse6_quad:
  assumes s: "s = h @ CHR ''.'' # t" and h: "\<forall>c \<in> set h. isHex c" "h \<noteq> []" "length h \<le> 4"
    and room: "length done \<le> 6" "ell \<noteq> None \<or> length done = 6"
    and quad: "parse4 0 0 [] s = Some [a, b, c, d]"
  shows "parse6 done ell s = Some (done @ [join8 a b, join8 c d], ell, [])"
proof -
  have "takeWhile isHex s = h" and "dropWhile isHex s = CHR ''.'' # t" using h(1) by (simp_all add: s)
  moreover have "\<not> 8 \<le> length done" "\<not> 6 < length done" "(ell = None \<and> length done \<noteq> 6) = False"
    "(4 < length h) = False" using room h(3) by auto
  ultimately show ?thesis
    using h(2) by (subst parse6.simps) (simp only: quad Let_def list.sel list.simps option.simps simp_thms if_True if_False not_False_eq_True)
qed

lemma not_isDigit_colon: "\<not> isDigit (CHR '':'')"
  by (simp add: isDigit_def)

lemma length_nat_dec_byte: "length (nat_dec (unat (b :: 8 word))) \<le> 4"
proof -
  consider "unat b < 10" | "10 \<le> unat b" "unat b < 100" | "100 \<le> unat b" "unat b < 1000"
    using unat_byte [of b] by linarith
  then show ?thesis by cases (simp_all add: nat_dec_1 nat_dec_2 nat_dec_3)
qed

lemma nat_hex_ffff: "nat_hex (unat (0xffff :: 16 word)) = ''ffff''"
proof -
  have "hex_char 15 = CHR ''f''" by code_simp
  then show ?thesis
    by (simp add: nat_hex.simps [of 65535] nat_hex.simps [of 4095] nat_hex.simps [of 255] nat_hex.simps [of 15])
qed

lemma read6_mapped:
  "read6 (''::ffff:'' @ string4 [hi8 g, lo8 g, hi8 h, lo8 h]) = Some [0, 0, 0, 0, 0, 0xffff, g, h]"
proof -
  define q where "q = string4 [hi8 g, lo8 g, hi8 h, lo8 h]"
  obtain t where q: "q = nat_dec (unat (hi8 g)) @ CHR ''.'' # t" by (simp add: q_def string4_eq)
  have "parse4 0 0 [] q = Some [hi8 g, lo8 g, hi8 h, lo8 h]" by (simp only: q_def parse4_string4)
  then have quad: "parse6 [0xffff] (Some 0) q = Some ([0xffff] @ [g, h], Some 0, [])"
    using parse6_quad [OF q nat_dec_isHex nat_dec_nonempty length_nat_dec_byte, of "[0xffff]" "Some 0"]
    by (simp only: join8_hi_lo) simp
  have hd: "hd q \<noteq> CHR '':''" "q \<noteq> []"
    using hd_nat_dec [of "unat (hi8 g)"] not_isDigit_colon by (auto simp: q)
  have "parse6 [] (Some 0) (nat_hex (unat (0xffff :: 16 word)) @ CHR '':'' # q) = parse6 [0xffff] (Some 0) q"
    using hd parse6_group [of "[]" "CHR '':'' # q" "Some 0" "0xffff"] by (simp only: Let_def) simp
  then have "parse6 [] (Some 0) (''ffff:'' @ q) = Some ([0xffff, g, h], Some 0, [])"
    by (simp only: nat_hex_ffff quad) (simp add: quad)
  then have "read6 (''::ffff:'' @ q) = expand6 [0xffff, g, h] (Some 0)"
    by (simp add: read6_def)
  also have "\<dots> = Some [0, 0, 0, 0, 0, 0xffff, g, h]" by (simp add: expand6_def eval_nat_numeral)
  finally show ?thesis by (simp only: q_def)
qed

lemma addr_char_letters [simp]: "addr_char (CHR '':'')" "addr_char (CHR ''f'')"
  by (simp_all add: addr_char_def isHex_def Let_def)

lemma text6:
  obtains s where
    "Addr_String (IP6 a b c d e f g h z) = s @ zone_suffix z"
    "read6 s = Some [a, b, c, d, e, f, g, h]"
    "\<forall>c \<in> set s. addr_char c"
    "\<exists>x t. s = x @ CHR '':'' # t \<and> (\<forall>c \<in> set x. isHex c)"
proof (cases "[a, b, c, d, e, f] = [0, 0, 0, 0, 0, 0xffff]")
  case True
  show thesis
  proof (rule that [of "''::ffff:'' @ string4 [hi8 g, lo8 g, hi8 h, lo8 h]"])
    show "\<exists>x t. ''::ffff:'' @ string4 [hi8 g, lo8 g, hi8 h, lo8 h] = x @ CHR '':'' # t \<and> (\<forall>c \<in> set x. isHex c)"
      by (rule exI [of _ "[]"]) simp
    show "\<forall>c \<in> set (''::ffff:'' @ string4 [hi8 g, lo8 g, hi8 h, lo8 h]). addr_char c"
      using addr_char_string4 [of "hi8 g" "lo8 g" "hi8 h" "lo8 h"] by (simp add: addr_char_letters)
    show "Addr_String (IP6 a b c d e f g h z) =
        (''::ffff:'' @ string4 [hi8 g, lo8 g, hi8 h, lo8 h]) @ zone_suffix z"
      using True by (simp only: Addr_String.simps refl if_True)
    show "read6 (''::ffff:'' @ string4 [hi8 g, lo8 g, hi8 h, lo8 h]) = Some [a, b, c, d, e, f, g, h]"
      using True by (simp only: read6_mapped list.inject)
  qed
next
  case False
  let ?gs = "[a, b, c, d, e, f, g, h]"
  show thesis
  proof (rule that [of "string6 ?gs"])
    show "\<exists>x t. string6 ?gs = x @ CHR '':'' # t \<and> (\<forall>c \<in> set x. isHex c)"
    proof (cases "best_run ?gs")
      case None
      then show ?thesis using nat_hex_isHex by (auto simp: string6_def)
    next
      case (Some se)
      then obtain s e where se: "best_run ?gs = Some (s, e)" by (cases se) auto
      show ?thesis
      proof (cases "take s ?gs")
        case Nil
        then show ?thesis using se by (intro exI [of _ "[]"] exI [of _ "CHR '':'' # hexes (drop e ?gs)"]) (simp add: string6_def)
      next
        case (Cons x xs)
        then show ?thesis using se nat_hex_isHex by (cases "xs = []") (auto simp: string6_def)
      qed
    qed
    show "Addr_String (IP6 a b c d e f g h z) = string6 ?gs @ zone_suffix z"
      using False by (simp only: Addr_String.simps if_False)
  qed (simp_all add: read6_string6 addr_char_string6)
qed

lemma ParseAddr_6: "ParseAddr (Addr_String (IP6 a b c d e f g h z)) = Some (IP6 a b c d e f g h z)"
proof -
  obtain s where s: "Addr_String (IP6 a b c d e f g h z) = s @ zone_suffix z"
    "read6 s = Some [a, b, c, d, e, f, g, h]" "\<forall>c \<in> set s. addr_char c"
    "\<exists>x t. s = x @ CHR '':'' # t \<and> (\<forall>c \<in> set x. isHex c)"
    by (rule text6)
  have no: "CHR ''%'' \<notin> set s" using s(3) by (auto simp: addr_char_def)
  obtain found where cut: "Cut (CHR ''%'') (s @ zone_suffix z) = (s, z, found)" "found \<longrightarrow> z \<noteq> []"
    using Cut_absent [OF no] Cut_append [OF no, of z] by (cases "z = []") (auto simp: zone_suffix_def)
  have "ParseAddr (s @ zone_suffix z) = parseIPv6 (s @ zone_suffix z)"
    using s(4) ParseAddr_colon by fastforce
  then show ?thesis using parseIPv6_read6 [OF cut s(2)] s(1) by simp
qed

text \<open>Every address but the zero value reads back from its own text.\<close>

lemma ParseAddr_String: "a \<noteq> NoAddr \<Longrightarrow> ParseAddr (Addr_String a) = Some a"
  using ParseAddr_4 ParseAddr_6 by (cases a) simp_all

lemma addr_chars:
  assumes "a \<noteq> NoAddr" and "zone a = []"
  shows "\<forall>c \<in> set (Addr_String a). addr_char c"
proof (cases a)
  case (IP4 a b c d)
  then show ?thesis using addr_char_string4 by simp
next
  case a: (IP6 a b c d e f g h z)
  then have "zone_suffix z = []" using assms(2) by (simp add: zone_suffix_def)
  then show ?thesis
    unfolding a using text6 [of a b c d e f g h z] by (metis append_Nil2)
qed (use assms in simp)

lemma colon_iff_6: "a \<noteq> NoAddr \<Longrightarrow> CHR '':'' \<in> set (Addr_String a) \<longleftrightarrow> Is6 a"
proof (cases a)
  case (IP4 a b c d)
  have "CHR '':'' \<notin> set (nat_dec n)" for n using nat_dec_isHex [of n] by auto
  then show ?thesis using IP4 by (simp add: string4_eq)
next
  case (IP6 a b c d e f g h z)
  then show ?thesis by (simp only: Is6.simps) (rule text6 [of a b c d e f g h z], auto)
qed simp


subsection \<open>Prefixes\<close>

lemma hd_nat_dec_nonzero: "0 < n \<Longrightarrow> hd (nat_dec n) \<noteq> CHR ''0''"
proof (induction n rule: nat_dec.induct)
  case (1 n)
  have zero: "digit_char d \<noteq> CHR ''0''" if "0 < d" "d < 10" for d
    using digit_val_digit_char [OF that(2)] that(1) by (auto simp: digit_val_def)
  show ?case
  proof (cases "n < 10")
    case True
    with 1 show ?thesis by (subst nat_dec.simps) (simp add: zero)
  next
    case False
    with 1 show ?thesis by (subst nat_dec.simps) (simp add: hd_append)
  qed
qed

lemma bits_text:
  assumes "0 \<le> b"
  shows "\<not> (1 < length (Itoa b) \<and> \<not> (CHR ''1'' \<le> hd (Itoa b) \<and> hd (Itoa b) \<le> CHR ''9''))"
proof (cases "b < 10")
  case True
  then show ?thesis using assms by (simp add: Itoa_def nat_dec_1)
next
  case False
  have "isDigit (hd (Itoa b))" and "hd (Itoa b) \<noteq> CHR ''0''"
    using False hd_nat_dec [of "nat b"] hd_nat_dec_nonzero [of "nat b"] by (simp_all add: Itoa_def)
  moreover have "(of_char (hd (Itoa b)) :: nat) \<noteq> of_char (CHR ''0'')"
    using calculation(2) by (simp only: of_char_eq_iff not_False_eq_True)
  ultimately have "CHR ''1'' \<le> hd (Itoa b)" and "hd (Itoa b) \<le> CHR ''9''"
    by (simp_all add: isDigit_def less_eq_char_def)
  then show ?thesis by simp
qed

lemma cut_last_slash_append:
  assumes "CHR ''/'' \<notin> set b"
  shows "cut_last_slash (a @ CHR ''/'' # b) = Some (a, b)"
  using Cut_append [of "CHR ''/''" "rev b" "rev a"] assms by (simp add: cut_last_slash_def)

lemma Itoa_digits: "0 \<le> b \<Longrightarrow> \<forall>c \<in> set (Itoa b). isDigit c"
  using nat_dec_digits [of "nat b"] by (simp add: Itoa_def list_all_iff)

lemma wf_valid_prefix:
  assumes "wf_prefix p" and "IsValid p"
  shows "pAddr p \<noteq> NoAddr" and "zone (pAddr p) = []"
    and "0 \<le> pBits p" and "pBits p \<le> int (BitLen (pAddr p))" and "PrefixFrom (pAddr p) (pBits p) = p"
proof -
  show *: "PrefixFrom (pAddr p) (pBits p) = p" using assms(1) by (simp add: wf_prefix_def)
  have bits: "pBits (PrefixFrom (pAddr p) (pBits p)) = pBits p"
    and addr: "withoutZone (pAddr p) = pAddr p"
    using arg_cong [OF *, of pBits] arg_cong [OF *, of pAddr] by (simp_all add: PrefixFrom_def)
  show "0 \<le> pBits p" using assms(2) by (simp add: IsValid_def)
  then show "pAddr p \<noteq> NoAddr" "pBits p \<le> int (BitLen (pAddr p))"
    using bits by (auto simp: PrefixFrom_def split: if_splits)
  show "zone (pAddr p) = []" using addr by (cases "pAddr p") auto
qed

text \<open>Every valid prefix reads back from its own text.\<close>

lemma ParsePrefix_String:
  assumes "wf_prefix p" and "IsValid p"
  shows "ParsePrefix (Prefix_String p) = Some p"
proof -
  note wf = wf_valid_prefix [OF assms]
  have max: "BitLen (pAddr p) = (if Is6 (pAddr p) then 128 else 32)"
    using wf(1) by (cases "pAddr p") simp_all
  have "CHR ''/'' \<notin> set (Itoa (pBits p))" using Itoa_digits [OF wf(3)] by (auto simp: isDigit_def)
  then have cut: "cut_last_slash (Prefix_String p) = Some (Addr_String (pAddr p), Itoa (pBits p))"
    using assms(2) by (simp add: Prefix_String_def cut_last_slash_append)
  have "pBits p \<le> 128" using wf(4) max by (simp split: if_splits)
  then have "Atoi (Itoa (pBits p)) = Some (pBits p)"
    using wf(3) by (intro Atoi_Itoa) (simp_all add: int_min_def int_max_def)
  then show ?thesis
    using cut wf bits_text [OF wf(3)] ParseAddr_String [OF wf(1)] max
    by (simp add: ParsePrefix_def)
qed

lemma Prefix_String_chars:
  assumes "wf_prefix p" and "IsValid p"
  shows "\<forall>c \<in> set (Prefix_String p). solid c" and "CHR ''/'' \<in> set (Prefix_String p)"
    and "CHR '':'' \<in> set (Prefix_String p) \<longleftrightarrow> Is6 (pAddr p)"
proof -
  note wf = wf_valid_prefix [OF assms]
  have form: "Prefix_String p = Addr_String (pAddr p) @ CHR ''/'' # Itoa (pBits p)"
    using assms(2) by (simp add: Prefix_String_def)
  have "solid (CHR '':'')" "solid (CHR ''.'')" "solid (CHR ''/'')" by (simp_all add: solid_ascii)
  then show "\<forall>c \<in> set (Prefix_String p). solid c"
    using addr_chars [OF wf(1,2)] Itoa_digits [OF wf(3)] isHex_solid isDigit_solid
    by (auto simp: form addr_char_def)
  show "CHR ''/'' \<in> set (Prefix_String p)" by (simp add: form)
  have "CHR '':'' \<notin> set (Itoa (pBits p))" using Itoa_digits [OF wf(3)] not_isDigit_colon by auto
  then show "CHR '':'' \<in> set (Prefix_String p) \<longleftrightarrow> Is6 (pAddr p)"
    using colon_iff_6 [OF wf(1)] by (simp add: form)
qed

subsection \<open>Masking\<close>

lemma keep_high_idem [simp]: "keep_high w k (keep_high w k x) = keep_high w k x"
  by (rule bit_word_eqI) (auto simp: keep_high_def bit_simps)

lemma Masked_idem: "Masked (Masked p) = Masked p"
proof -
  have "mask_addr (mask_addr a n) n = mask_addr a n" for a n by (cases a) simp_all
  then show ?thesis by (simp add: Masked_def IsValid_def zero_prefix_def)
qed

end
