(* ===== verification/Json.thy ===== *)
theory Json
  imports Netip
begin

text \<open>
  What the wire protocol uses of \<^verbatim>\<open>encoding/json\<close>: JSON values, and how Go values become them and are read
  back. A number keeps its literal, because reading it into an integer is where the range is checked.
  Reading is into a value that is there already: \<^verbatim>\<open>null\<close> leaves it, an absent key leaves its field, an
  unknown key is skipped, a key is matched exactly or else with its letters folded, and a value of the
  wrong type makes the whole reading fail. A nil slice and an empty one are both the empty list, and
  the elements of a list are read into zero values, as they are where an object does not repeat a key.
  Text that is not UTF-8 is repaired by the encoder.
\<close>

datatype json =
    JNull
  | JBool bool
  | JNum string
  | JStr string
  | JArr "json list"
  | JObj "(string \<times> json) list"

section \<open>Valid text\<close>

abbreviation byte_of :: "char \<Rightarrow> nat" where
  "byte_of \<equiv> of_char"

definition cont_byte :: "char \<Rightarrow> bool" where
  "cont_byte c \<longleftrightarrow> 0x80 \<le> byte_of c \<and> byte_of c \<le> 0xbf"

text \<open>The second byte a lead byte allows, as \<^verbatim>\<open>unicode/utf8\<close> does: no overlong form, no surrogate, nothing past
  U+10FFFF.\<close>

definition second_ok :: "nat \<Rightarrow> char \<Rightarrow> bool" where
  "second_ok b c \<longleftrightarrow>
     (if b = 0xe0 then 0xa0 \<le> byte_of c \<and> byte_of c \<le> 0xbf
      else if b = 0xed then 0x80 \<le> byte_of c \<and> byte_of c \<le> 0x9f
      else if b = 0xf0 then 0x90 \<le> byte_of c \<and> byte_of c \<le> 0xbf
      else if b = 0xf4 then 0x80 \<le> byte_of c \<and> byte_of c \<le> 0x8f
      else cont_byte c)"

text \<open>How many bytes the rune at the front takes; 0 for bytes that are none.\<close>

fun rune_len :: "string \<Rightarrow> nat" where
  "rune_len [] = 0"
| "rune_len (c # s) =
     (let b = byte_of c
      in if b < 0x80 then 1
         else if 0xc2 \<le> b \<and> b \<le> 0xdf
           then (case s of c1 # _ \<Rightarrow> if cont_byte c1 then 2 else 0 | _ \<Rightarrow> 0)
         else if 0xe0 \<le> b \<and> b \<le> 0xef
           then (case s of c1 # c2 # _ \<Rightarrow> if second_ok b c1 \<and> cont_byte c2 then 3 else 0 | _ \<Rightarrow> 0)
         else if 0xf0 \<le> b \<and> b \<le> 0xf4
           then (case s of c1 # c2 # c3 # _ \<Rightarrow> if second_ok b c1 \<and> cont_byte c2 \<and> cont_byte c3 then 4 else 0 | _ \<Rightarrow> 0)
         else 0)"

definition replacement :: string where
  "replacement = map char_of [0xef, 0xbf, 0xbd :: nat]"

function coerce_utf8 :: "string \<Rightarrow> string" where
  "coerce_utf8 [] = []"
| "coerce_utf8 (c # s) =
     (case rune_len (c # s) of
        0 \<Rightarrow> replacement @ coerce_utf8 s
      | Suc n \<Rightarrow> take (Suc n) (c # s) @ coerce_utf8 (drop n s))"
  by pat_completeness auto
termination
  by (relation "measure length") auto

definition valid_utf8 :: "string \<Rightarrow> bool" where
  "valid_utf8 s \<longleftrightarrow> coerce_utf8 s = s"

lemma ascii_valid_utf8: "\<forall>c \<in> set s. byte_of c < 0x80 \<Longrightarrow> valid_utf8 s"
proof (induction s)
  case (Cons c s)
  then have "rune_len (c # s) = 1" by simp
  with Cons show ?case by (simp add: valid_utf8_def)
qed (simp add: valid_utf8_def)

section \<open>Writing\<close>

definition put_string :: "string \<Rightarrow> json" where
  "put_string s = JStr (coerce_utf8 s)"

definition put_int :: "int \<Rightarrow> json" where
  "put_int i = JNum (Itoa i)"

definition put_word :: "64 word \<Rightarrow> json" where
  "put_word w = JNum (nat_dec (unat w))"

definition put_list :: "('a \<Rightarrow> json) \<Rightarrow> 'a list \<Rightarrow> json" where
  "put_list f xs = JArr (map f xs)"

text \<open>\<^verbatim>\<open>Prefix.MarshalText\<close>: the text of the prefix, but nothing for the zero value.\<close>

definition put_prefix :: "Prefix \<Rightarrow> json" where
  "put_prefix p = JStr (if p = zero_prefix then [] else Prefix_String p)"

definition omitempty :: "bool \<Rightarrow> string \<Rightarrow> json \<Rightarrow> (string \<times> json) list" where
  "omitempty zero key j = (if zero then [] else [(key, j)])"

section \<open>Reading\<close>

type_synonym 'a reader = "json \<Rightarrow> 'a \<Rightarrow> 'a option"

fun get_bool :: "bool reader" where
  "get_bool JNull b = Some b"
| "get_bool (JBool b) _ = Some b"
| "get_bool _ _ = None"

fun get_int :: "int reader" where
  "get_int JNull i = Some i"
| "get_int (JNum s) _ = Atoi s"
| "get_int _ _ = None"

text \<open>\<^verbatim>\<open>strconv.ParseUint\<close> of a literal into 64 bits.\<close>

fun get_word :: "64 word reader" where
  "get_word JNull w = Some w"
| "get_word (JNum s) _ =
     (if s \<noteq> [] \<and> list_all isDigit s \<and> digits_val s < 2 ^ 64 then Some (of_nat (digits_val s)) else None)"
| "get_word _ _ = None"

fun get_string :: "string reader" where
  "get_string JNull s = Some s"
| "get_string (JStr s) _ = Some s"
| "get_string _ _ = None"

fun get_list :: "'a \<Rightarrow> 'a reader \<Rightarrow> 'a list reader" where
  "get_list z rd JNull _ = Some []"
| "get_list z rd (JArr js) _ = all_some (map (\<lambda>j. rd j z) js)"
| "get_list z rd _ _ = None"

text \<open>\<^verbatim>\<open>Prefix.UnmarshalText\<close>.\<close>

fun get_prefix :: "Prefix reader" where
  "get_prefix JNull p = Some p"
| "get_prefix (JStr s) _ = (if s = [] then Some zero_prefix else ParsePrefix s)"
| "get_prefix _ _ = None"

text \<open>A raw message takes any value as it is.\<close>

fun get_raw :: "json option reader" where
  "get_raw j _ = Some (Some j)"

text \<open>Keys are folded as \<^verbatim>\<open>bytes.EqualFold\<close> does: ASCII letters, and the two runes beyond ASCII whose fold is
  an ASCII letter, U+017F and U+212A.\<close>

definition long_s :: string where
  "long_s = map char_of [0xc5, 0xbf :: nat]"

definition kelvin :: string where
  "kelvin = map char_of [0xe2, 0x84, 0xaa :: nat]"

definition lower :: "char \<Rightarrow> char" where
  "lower c = (if 0x41 \<le> byte_of c \<and> byte_of c \<le> 0x5a then char_of (byte_of c + 0x20) else c)"

function fold_key :: "string \<Rightarrow> string" where
  "fold_key [] = []"
| "fold_key (c # s) =
     (if take 2 (c # s) = long_s then CHR ''s'' # fold_key (drop 1 s)
      else if take 3 (c # s) = kelvin then CHR ''k'' # fold_key (drop 2 s)
      else lower c # fold_key s)"
  by pat_completeness auto
termination
  by (relation "measure length") auto

section \<open>Structures\<close>

type_synonym 'r jfield = "string \<times> 'r reader"

definition jfield :: "string \<Rightarrow> 'a reader \<Rightarrow> ('r \<Rightarrow> 'a) \<Rightarrow> (('a \<Rightarrow> 'a) \<Rightarrow> 'r \<Rightarrow> 'r) \<Rightarrow> 'r jfield" where
  "jfield key rd get upd = (key, \<lambda>j r. map_option (\<lambda>x. upd (\<lambda>_. x) r) (rd j (get r)))"

definition find_field :: "'r jfield list \<Rightarrow> string \<Rightarrow> 'r reader option" where
  "find_field fs key =
     (case map_of fs key of
        Some rd \<Rightarrow> Some rd
      | None \<Rightarrow> map_option snd (List.find (\<lambda>(k, _). fold_key k = fold_key key) fs))"

fun read_keys :: "'r jfield list \<Rightarrow> (string \<times> json) list \<Rightarrow> 'r \<Rightarrow> 'r option" where
  "read_keys fs [] r = Some r"
| "read_keys fs ((key, j) # kvs) r =
     (case find_field fs key of
        None \<Rightarrow> read_keys fs kvs r
      | Some rd \<Rightarrow> (case rd j r of None \<Rightarrow> None | Some r' \<Rightarrow> read_keys fs kvs r'))"

fun get_struct :: "'r jfield list \<Rightarrow> 'r reader" where
  "get_struct fs JNull r = Some r"
| "get_struct fs (JObj kvs) r = read_keys fs kvs r"
| "get_struct fs _ r = None"

text \<open>\<^verbatim>\<open>json.Unmarshal\<close> of a raw message into a zero value; the empty message is refused.\<close>

definition Unmarshal :: "'a reader \<Rightarrow> 'a \<Rightarrow> json option \<Rightarrow> 'a option" where
  "Unmarshal rd z raw = (case raw of None \<Rightarrow> None | Some j \<Rightarrow> rd j z)"

section \<open>What is written is read\<close>

definition is_int :: "int \<Rightarrow> bool" where
  "is_int i \<longleftrightarrow> int_min \<le> i \<and> i \<le> int_max"

named_theorems json_rt

lemma get_put_bool [json_rt]: "get_bool (JBool b) x = Some b"
  by simp

lemma get_put_int [json_rt]: "is_int i \<Longrightarrow> get_int (put_int i) x = Some i"
  by (simp add: put_int_def is_int_def Atoi_Itoa)

lemma get_put_word [json_rt]: "get_word (put_word w) x = Some w"
proof -
  have "unat w < 2 ^ 64" using unsigned_less [of w, where 'a = nat] by simp
  then show ?thesis by (simp add: put_word_def nat_dec_digits of_nat_unat_id)
qed

lemma get_put_string: "get_string (put_string s) x = Some (coerce_utf8 s)"
  by (simp add: put_string_def)

lemma get_put_prefix [json_rt]: "p = zero_prefix \<or> wf_prefix p \<and> IsValid p \<Longrightarrow> get_prefix (put_prefix p) x = Some p"
  using Prefix_String_chars(2) [of p] ParsePrefix_String [of p] by (auto simp: put_prefix_def)

lemma get_put_list:
  "(\<And>y. y \<in> set ys \<Longrightarrow> rd (f y) z = Some (g y)) \<Longrightarrow> get_list z rd (put_list f ys) x = Some (map g ys)"
  by (induction ys) (auto simp: put_list_def)

lemma find_field_here: "find_field ((key, rd) # fs) key = Some rd"
  by (simp add: find_field_def)

lemma find_field_next:
  assumes "key \<noteq> k" and "key \<in> fst ` set fs"
  shows "find_field ((k, rd) # fs) key = find_field fs key"
proof -
  obtain r where "map_of fs key = Some r" using assms(2) by (meson map_of_eq_None_iff not_None_eq)
  with assms(1) show ?thesis by (simp add: find_field_def)
qed

end
