(* ===== verification/Switchapi.thy ===== *)
theory Switchapi
  imports Netip
begin

text \<open>
  The northbound contract of \<^verbatim>\<open>internal/switchapi\<close>: the values its calls carry, the errors they
  answer with, and the checks every datapath shares (\<^verbatim>\<open>switchapi.go\<close>, \<^verbatim>\<open>stp.go\<close>). A Go \<^verbatim>\<open>int\<close> is an
  \<open>int\<close> here: nothing in these functions computes beyond the bounds it has just checked. Field names
  carry a prefix of their type because several types share them. An \<^verbatim>\<open>error\<close> is an option, \<^verbatim>\<open>nil\<close> its
  \<open>None\<close>: \<open>Unsupported\<close> wraps \<^verbatim>\<open>ErrUnsupported\<close>, \<open>Errorf\<close> holds the format and the values of the message,
  and \<open>Panic\<close> is a nil pointer followed.
\<close>

section \<open>Errors\<close>

datatype arg = Str string | Num int | Pfx Prefix

datatype sw_error =
    Unsupported string
  | Errorf string "arg list"
  | Panic

type_synonym error = "sw_error option"

fun is_unsupported :: "sw_error \<Rightarrow> bool" where
  "is_unsupported (Unsupported _) \<longleftrightarrow> True"
| "is_unsupported _ \<longleftrightarrow> False"

section \<open>What a datapath can do\<close>

record Capabilities =
  c_Contract :: string
  c_Driver :: string
  c_MaxPorts :: int
  c_VLANs :: bool
  c_MaxVLANs :: int
  c_SVIs :: bool
  c_LAGs :: bool
  c_MaxLAGs :: int
  c_MaxLAGMembers :: int
  c_LACP :: bool
  c_STP :: bool
  c_MLAG :: bool
  c_VirtualGateway :: bool
  c_VirtualGateway6 :: bool
  c_MACAging :: bool
  c_QinQ :: bool
  c_L2Learning :: bool
  c_MaxFDB :: int
  c_L3 :: bool
  c_MaxV4 :: int
  c_MaxV6 :: int
  c_IPv6 :: bool
  c_ECMP :: bool
  c_MaxECMP :: int
  c_ACL :: bool
  c_ACLSlices :: int
  c_ACLEntries :: int
  c_ACL6 :: bool
  c_ACL6Entries :: int
  c_Counters :: bool
  c_SFP :: bool
  c_Breakout :: bool

definition SwitchapiVersion :: string where
  "SwitchapiVersion = ''1.13''"

definition SupportsECMP :: "Capabilities \<Rightarrow> int \<Rightarrow> bool" where
  "SupportsECMP c paths \<longleftrightarrow>
     (if paths \<le> 1 then True else c_ECMP c \<and> (c_MaxECMP c = 0 \<or> paths \<le> c_MaxECMP c))"

section \<open>Values\<close>

record Port =
  pt_Name :: string
  pt_Index :: nat

record PortStatus =
  ps_Name :: string
  ps_AdminUp :: bool
  ps_OperUp :: bool
  ps_SpeedMbps :: int
  ps_FullDuplex :: bool
  ps_MTU :: int

record Counters =
  RxPackets :: "64 word"
  TxPackets :: "64 word"
  RxBytes :: "64 word"
  TxBytes :: "64 word"
  RxErrors :: "64 word"
  TxErrors :: "64 word"
  RxDrops :: "64 word"
  TxDrops :: "64 word"

record NextHop =
  Via :: Addr
  nh_Port :: string

record Route =
  rt_Prefix :: Prefix
  NextHops :: "NextHop list"

record VLANMember =
  vm_Port :: string
  vm_Tagged :: bool
  vm_Tunnel :: bool
  vm_TPID :: int

record VLAN =
  VID :: int
  vl_Members :: "VLANMember list"
  vl_SVI :: bool

definition SVIName :: "int \<Rightarrow> string" where
  "SVIName vid = ''vlan'' @ Itoa vid"

record LAGOptions =
  Rate :: string
  Passive :: bool
  PortPriority :: int

definition LACPDefaultPriority :: int where
  "LACPDefaultPriority = 32768"

record LAGMember =
  lm_Port :: string
  lm_Active :: bool

record LAG =
  lg_Name :: string
  lg_LACP :: bool
  lg_Members :: "LAGMember list"
  lg_MLAG :: int
  lg_Options :: LAGOptions
  lg_SystemPriority :: int

definition LAGName :: "int \<Rightarrow> string" where
  "LAGName n = ''po'' @ Itoa n"

record STPConfig =
  stp_Enabled :: bool
  stp_Priority :: int
  stp_HelloTime :: int
  stp_ForwardDelay :: int
  stp_MaxAge :: int

definition STPDefaultPriority :: int where
  "STPDefaultPriority = 32768"

record STPPortConfig =
  sp_Edge :: bool
  sp_Cost :: int
  sp_Priority :: int
  sp_BPDUGuard :: bool
  sp_RootGuard :: bool

record STPPort =
  spt_Port :: string
  spt_Role :: string
  spt_State :: string
  spt_Edge :: bool
  spt_Cost :: int
  spt_Priority :: int
  spt_BPDUGuard :: bool
  spt_RootGuard :: bool
  spt_Guard :: string

record STPStatus =
  ss_Enabled :: bool
  ss_Priority :: int
  ss_BridgeID :: string
  ss_RootID :: string
  ss_RootCost :: int
  ss_RootPort :: string
  ss_TopologyChanges :: int
  ss_Ports :: "STPPort list"
  ss_HelloTime :: int
  ss_ForwardDelay :: int
  ss_MaxAge :: int
  ss_RootHelloTime :: int
  ss_RootForwardDelay :: int
  ss_RootMaxAge :: int

record MLAGConfig =
  ml_Enabled :: bool
  ml_PeerLink :: string
  ml_PeerAddress :: string
  ml_Priority :: int
  ml_HelloMs :: int
  ml_DeadMs :: int
  ml_SettleMs :: int
  ml_HeartbeatPort :: int
  ml_ReloadDelay :: int

definition MLAGDefaultPriority :: int where
  "MLAGDefaultPriority = 32768"

record MLAGInterface =
  mi_LAG :: string
  mi_ID :: int
  mi_Local :: bool
  mi_Peer :: bool
  mi_State :: string
  mi_Held :: string
  mi_HeldSeconds :: int

record MLAGStatus =
  ms_Enabled :: bool
  ms_Role :: string
  ms_PeerLink :: string
  ms_PeerLinkUp :: bool
  ms_PeerAlive :: bool
  ms_Heartbeat :: bool
  ms_Peer :: string
  ms_SystemID :: string
  ms_Interfaces :: "MLAGInterface list"
  ms_SyncedMACs :: int
  ms_PeerAddress :: string
  ms_Priority :: int
  ms_HelloMs :: int
  ms_DeadMs :: int
  ms_SettleMs :: int
  ms_HeartbeatPort :: int
  ms_ReloadDelay :: int

record VirtualGateway =
  gw_SVI :: string
  gw_Address :: Prefix
  gw_MAC :: string

definition DefaultVirtualMAC :: string where
  "DefaultVirtualMAC = ''00:00:5e:00:01:01''"

definition MLAGMaxID :: int where
  "MLAGMaxID = 1000"

record FDBEntry =
  fdb_MAC :: string
  fdb_VLAN :: int
  fdb_Port :: string
  fdb_Static :: bool

section \<open>Checks every datapath shares\<close>

definition ValidSTPPriority :: "int \<Rightarrow> error" where
  "ValidSTPPriority p =
     (if p < 0 \<or> p > 61440 \<or> p mod 4096 \<noteq> 0 then Some (Errorf ''stp priority %d: must be 0 to 61440 in steps of 4096'' [Num p]) else None)"

definition ValidSTPCost :: "int \<Rightarrow> error" where
  "ValidSTPCost c = (if c < 0 \<or> c > 200000000 then Some (Errorf ''stp cost %d: must be 1 to 200000000, or 0 for the speed's default'' [Num c]) else None)"

text \<open>The quotient is of positive numbers, where Go's division is \<open>div\<close>.\<close>

definition STPDefaultCost :: "int \<Rightarrow> int" where
  "STPDefaultCost mbps =
     (if mbps \<le> 0 then 200000000
      else let c = 20000000 div mbps in if c < 1 then 1 else c)"

definition ValidMLAG :: "MLAGConfig \<Rightarrow> error" where
  "ValidMLAG c =
     (if ml_PeerLink c = [] then Some (Errorf ''mlag needs a peer-link'' [])
      else if ml_PeerAddress c \<noteq> [] \<and> ParseAddr (ml_PeerAddress c) = None
        then Some (Errorf ''mlag peer-address %q is not an address'' [Str (ml_PeerAddress c)])
      else if ml_Priority c < 0 \<or> ml_Priority c > 65535 then Some (Errorf ''mlag priority %d: must be 0 to 65535'' [Num (ml_Priority c)])
      else None)"

definition ValidVirtualMAC :: "string \<Rightarrow> error" where
  "ValidVirtualMAC mac =
     (case ParseMAC mac of
        None \<Rightarrow> Some (Errorf ''virtual mac %q is not a MAC address'' [Str mac])
      | Some hw \<Rightarrow>
          (if length hw \<noteq> 6 then Some (Errorf ''virtual mac %q is not a MAC address'' [Str mac])
           else if hw ! 0 AND 1 \<noteq> 0 then Some (Errorf ''virtual mac %s is multicast; it must be unicast'' [Str mac])
           else None))"

definition ValidVirtualGateway :: "Prefix \<Rightarrow> error" where
  "ValidVirtualGateway addr =
     (let a = pAddr addr;
          v6 = Is6 a \<and> \<not> Is4In6 a;
          maxlen = (if v6 then 128 else 32)
      in if v6 \<and> (IsLinkLocalUnicast a \<or> IsMulticast a) then Some (Errorf ''virtual gateway %s: a global or unique-local unicast address is needed'' [Pfx addr])
         else if \<not> v6 \<and> \<not> Is4 a then Some (Errorf ''virtual gateway %s: not an address'' [Pfx addr])
         else if pBits addr < 1 \<or> pBits addr > maxlen then Some (Errorf ''virtual gateway %s: prefix length'' [Pfx addr])
         else None)"

definition STPTimes :: "STPConfig \<Rightarrow> int \<times> int \<times> int" where
  "STPTimes c =
     (if stp_HelloTime c = 0 then 2 else stp_HelloTime c,
      if stp_ForwardDelay c = 0 then 15 else stp_ForwardDelay c,
      if stp_MaxAge c = 0 then 20 else stp_MaxAge c)"

definition ValidSTPTimes :: "STPConfig \<Rightarrow> error" where
  "ValidSTPTimes c =
     (let (h, f, m) = STPTimes c
      in if h < 1 \<or> h > 10 then Some (Errorf ''stp hello %d: must be 1 to 10 seconds'' [Num h])
         else if f < 4 \<or> f > 30 then Some (Errorf ''stp forward-delay %d: must be 4 to 30 seconds'' [Num f])
         else if m < 6 \<or> m > 40 then Some (Errorf ''stp max-age %d: must be 6 to 40 seconds'' [Num m])
         else if m > 2 * (f - 1) \<or> m < 2 * (h + 1) then Some (Errorf ''stp max-age %d with hello %d and forward-delay %d: 802.1D needs 2 x (forward-delay - 1) >= max-age >= 2 x (hello + 1)'' [Num m, Num h, Num f])
         else None)"

definition ValidSTPPortPriority :: "int \<Rightarrow> error" where
  "ValidSTPPortPriority p =
     (if p \<noteq> 0 \<and> (p < 16 \<or> p > 240 \<or> p mod 16 \<noteq> 0) then Some (Errorf ''stp port priority %d: must be 16 to 240 in steps of 16'' [Num p]) else None)"

definition ValidLAGOptions :: "LAGOptions \<Rightarrow> error" where
  "ValidLAGOptions opts =
     (if Rate opts \<noteq> [] \<and> Rate opts \<noteq> ''fast'' \<and> Rate opts \<noteq> ''slow'' then Some (Errorf ''lacp rate %q: fast or slow'' [Str (Rate opts)])
      else if PortPriority opts < 0 \<or> PortPriority opts > 65535
        then Some (Errorf ''lacp port-priority %d: must be 1 to 65535'' [Num (PortPriority opts)])
      else None)"

definition ValidLACPPriority :: "int \<Rightarrow> error" where
  "ValidLACPPriority p = (if p < 0 \<or> p > 65535 then Some (Errorf ''lacp system-priority %d: must be 1 to 65535'' [Num p]) else None)"

definition MLAGTimes :: "MLAGConfig \<Rightarrow> int \<times> int \<times> int \<times> int" where
  "MLAGTimes c =
     (if ml_HelloMs c = 0 then 1000 else ml_HelloMs c,
      if ml_DeadMs c = 0 then 3500 else ml_DeadMs c,
      if ml_SettleMs c = 0 then 2500 else ml_SettleMs c,
      if ml_HeartbeatPort c = 0 then 47101 else ml_HeartbeatPort c)"

definition ValidMLAGTimes :: "MLAGConfig \<Rightarrow> error" where
  "ValidMLAGTimes c =
     (let (h, d, s, p) = MLAGTimes c
      in if h < 100 \<or> h > 10000 then Some (Errorf ''mlag hello %d ms: must be 100 to 10000'' [Num h])
         else if d < 2 * h \<or> d > 60000 then Some (Errorf ''mlag dead %d ms: must be at least twice the hello (%d) and at most 60000'' [Num d, Num h])
         else if s < 0 \<or> s > 60000 then Some (Errorf ''mlag settle %d ms: must be 0 to 60000'' [Num s])
         else if p < 1 \<or> p > 65535 then Some (Errorf ''mlag heartbeat-port %d: must be 1 to 65535'' [Num p])
         else if ml_ReloadDelay c < 0 \<or> ml_ReloadDelay c > 3600 then Some (Errorf ''mlag reload-delay %d s: must be 0 to 3600'' [Num (ml_ReloadDelay c)])
         else None)"

definition DefaultMACAging :: int where
  "DefaultMACAging = 300"

definition ValidMACAging :: "int \<Rightarrow> error" where
  "ValidMACAging s = (if s \<noteq> 0 \<and> (s < 10 \<or> s > 1000000) then Some (Errorf ''mac aging %d s: must be 10 to 1000000, or 0 for never'' [Num s]) else None)"

definition DefaultTPID :: int where
  "DefaultTPID = 0x8100"

definition ValidTPID :: "int \<Rightarrow> error" where
  "ValidTPID t = (if t \<in> {0, 0x8100, 0x88a8, 0x9100, 0x9200} then None else Some (Errorf ''tpid 0x%04x: must be 0x8100, 0x88a8, 0x9100 or 0x9200'' [Num t]))"

end
