(* ===== verification/Wire_Values.thy ===== *)
theory Wire_Values
  imports Json Switchapi
begin

text \<open>
  The values of the switch contract as JSON. The structures carry no tags, so a key is the name of the Go
  field; an address prefix is its text. \<open>T_ok\<close> says what a value of type \<open>T\<close> has to be to come back as it
  was: numbers that are Go integers, text that is valid UTF-8, prefixes that are valid or the zero value.
\<close>

definition get_nat :: "nat reader" where
  "get_nat j n = map_option nat (get_int j (int n))"

definition prefix_ok :: "Prefix \<Rightarrow> bool" where
  "prefix_ok p \<longleftrightarrow> p = zero_prefix \<or> wf_prefix p \<and> IsValid p"

lemma get_put_text [json_rt]: "valid_utf8 s \<Longrightarrow> get_string (put_string s) x = Some s"
  by (simp add: put_string_def valid_utf8_def)

lemma get_put_nat [json_rt]: "is_int (int n) \<Longrightarrow> get_nat (put_int (int n)) x = Some n"
  by (simp add: get_nat_def json_rt)

lemma get_put_prefix_ok [json_rt]: "prefix_ok p \<Longrightarrow> get_prefix (put_prefix p) x = Some p"
  by (simp add: prefix_ok_def json_rt)

text \<open>What every structure of the wire promises: a good value, written and read into the zero value, is itself;
  so are lists of them.\<close>

locale codec =
  fixes put :: "'a \<Rightarrow> json" and get :: "'a reader" and zero :: 'a and ok :: "'a \<Rightarrow> bool"
  assumes get_put: "ok x \<Longrightarrow> get (put x) zero = Some x"
begin

lemma read_written [json_rt]: "ok x \<Longrightarrow> get (put x) zero = Some x"
  by (rule get_put)

lemma read_written_list [json_rt]: "list_all ok xs \<Longrightarrow> get_list zero get (put_list put xs) ys = Some xs"
  using get_put_list [of xs get put zero "\<lambda>x. x" ys] get_put by (simp add: list_all_iff)

lemma Unmarshal_written [json_rt]: "ok x \<Longrightarrow> Unmarshal get zero (Some (put x)) = Some x"
  by (simp add: Unmarshal_def get_put)

end

interpretation text_wire: codec put_string get_string "[]" valid_utf8
  by unfold_locales (simp add: json_rt)

lemmas struct_rt = find_field_def jfield_def

definition zero_Port :: Port where
  "zero_Port =
     \<lparr>pt_Name = [], pt_Index = 0\<rparr>"

definition put_Port :: "Port \<Rightarrow> json" where
  "put_Port x =
     JObj [(''Name'', put_string (pt_Name x)), (''Index'', put_int (int (pt_Index x)))]"

definition get_Port :: "Port reader" where
  "get_Port =
     get_struct [jfield ''Name'' get_string pt_Name pt_Name_update,
                 jfield ''Index'' get_nat pt_Index pt_Index_update]"

definition Port_ok :: "Port \<Rightarrow> bool" where
  "Port_ok x \<longleftrightarrow> valid_utf8 (pt_Name x) \<and> is_int (int (pt_Index x))"

interpretation Port_wire: codec put_Port get_Port zero_Port Port_ok
  by unfold_locales (simp add: get_Port_def put_Port_def zero_Port_def Port_ok_def struct_rt json_rt)

definition zero_PortStatus :: PortStatus where
  "zero_PortStatus =
     \<lparr>ps_Name = [], ps_AdminUp = False, ps_OperUp = False, ps_SpeedMbps = 0, ps_FullDuplex = False, ps_MTU = 0\<rparr>"

definition put_PortStatus :: "PortStatus \<Rightarrow> json" where
  "put_PortStatus x =
     JObj [(''Name'', put_string (ps_Name x)), (''AdminUp'', JBool (ps_AdminUp x)),
           (''OperUp'', JBool (ps_OperUp x)), (''SpeedMbps'', put_int (ps_SpeedMbps x)),
           (''FullDuplex'', JBool (ps_FullDuplex x)), (''MTU'', put_int (ps_MTU x))]"

definition get_PortStatus :: "PortStatus reader" where
  "get_PortStatus =
     get_struct [jfield ''Name'' get_string ps_Name ps_Name_update,
                 jfield ''AdminUp'' get_bool ps_AdminUp ps_AdminUp_update,
                 jfield ''OperUp'' get_bool ps_OperUp ps_OperUp_update,
                 jfield ''SpeedMbps'' get_int ps_SpeedMbps ps_SpeedMbps_update,
                 jfield ''FullDuplex'' get_bool ps_FullDuplex ps_FullDuplex_update,
                 jfield ''MTU'' get_int ps_MTU ps_MTU_update]"

definition PortStatus_ok :: "PortStatus \<Rightarrow> bool" where
  "PortStatus_ok x \<longleftrightarrow> valid_utf8 (ps_Name x) \<and> is_int (ps_SpeedMbps x) \<and> is_int (ps_MTU x)"

interpretation PortStatus_wire: codec put_PortStatus get_PortStatus zero_PortStatus PortStatus_ok
  by unfold_locales (simp add: get_PortStatus_def put_PortStatus_def zero_PortStatus_def PortStatus_ok_def struct_rt json_rt)

definition zero_Counters :: Counters where
  "zero_Counters =
     \<lparr>RxPackets = 0, TxPackets = 0, RxBytes = 0, TxBytes = 0, RxErrors = 0, TxErrors = 0, RxDrops = 0,
       TxDrops = 0\<rparr>"

definition put_Counters :: "Counters \<Rightarrow> json" where
  "put_Counters x =
     JObj [(''RxPackets'', put_word (RxPackets x)), (''TxPackets'', put_word (TxPackets x)),
           (''RxBytes'', put_word (RxBytes x)), (''TxBytes'', put_word (TxBytes x)),
           (''RxErrors'', put_word (RxErrors x)), (''TxErrors'', put_word (TxErrors x)),
           (''RxDrops'', put_word (RxDrops x)), (''TxDrops'', put_word (TxDrops x))]"

definition get_Counters :: "Counters reader" where
  "get_Counters =
     get_struct [jfield ''RxPackets'' get_word RxPackets RxPackets_update,
                 jfield ''TxPackets'' get_word TxPackets TxPackets_update,
                 jfield ''RxBytes'' get_word RxBytes RxBytes_update,
                 jfield ''TxBytes'' get_word TxBytes TxBytes_update,
                 jfield ''RxErrors'' get_word RxErrors RxErrors_update,
                 jfield ''TxErrors'' get_word TxErrors TxErrors_update,
                 jfield ''RxDrops'' get_word RxDrops RxDrops_update,
                 jfield ''TxDrops'' get_word TxDrops TxDrops_update]"

definition Counters_ok :: "Counters \<Rightarrow> bool" where
  "Counters_ok x \<longleftrightarrow> True"

interpretation Counters_wire: codec put_Counters get_Counters zero_Counters Counters_ok
  by unfold_locales (simp add: get_Counters_def put_Counters_def zero_Counters_def Counters_ok_def struct_rt json_rt)

definition zero_VLANMember :: VLANMember where
  "zero_VLANMember =
     \<lparr>vm_Port = [], vm_Tagged = False, vm_Tunnel = False, vm_TPID = 0\<rparr>"

definition put_VLANMember :: "VLANMember \<Rightarrow> json" where
  "put_VLANMember x =
     JObj [(''Port'', put_string (vm_Port x)), (''Tagged'', JBool (vm_Tagged x)),
           (''Tunnel'', JBool (vm_Tunnel x)), (''TPID'', put_int (vm_TPID x))]"

definition get_VLANMember :: "VLANMember reader" where
  "get_VLANMember =
     get_struct [jfield ''Port'' get_string vm_Port vm_Port_update,
                 jfield ''Tagged'' get_bool vm_Tagged vm_Tagged_update,
                 jfield ''Tunnel'' get_bool vm_Tunnel vm_Tunnel_update,
                 jfield ''TPID'' get_int vm_TPID vm_TPID_update]"

definition VLANMember_ok :: "VLANMember \<Rightarrow> bool" where
  "VLANMember_ok x \<longleftrightarrow> valid_utf8 (vm_Port x) \<and> is_int (vm_TPID x)"

interpretation VLANMember_wire: codec put_VLANMember get_VLANMember zero_VLANMember VLANMember_ok
  by unfold_locales (simp add: get_VLANMember_def put_VLANMember_def zero_VLANMember_def VLANMember_ok_def struct_rt json_rt)

definition zero_VLAN :: VLAN where
  "zero_VLAN =
     \<lparr>VID = 0, vl_Members = [], vl_SVI = False\<rparr>"

definition put_VLAN :: "VLAN \<Rightarrow> json" where
  "put_VLAN x =
     JObj [(''VID'', put_int (VID x)), (''Members'', put_list put_VLANMember (vl_Members x)),
           (''SVI'', JBool (vl_SVI x))]"

definition get_VLAN :: "VLAN reader" where
  "get_VLAN =
     get_struct [jfield ''VID'' get_int VID VID_update,
                 jfield ''Members'' (get_list zero_VLANMember get_VLANMember) vl_Members vl_Members_update,
                 jfield ''SVI'' get_bool vl_SVI vl_SVI_update]"

definition VLAN_ok :: "VLAN \<Rightarrow> bool" where
  "VLAN_ok x \<longleftrightarrow> is_int (VID x) \<and> list_all VLANMember_ok (vl_Members x)"

interpretation VLAN_wire: codec put_VLAN get_VLAN zero_VLAN VLAN_ok
  by unfold_locales (simp add: get_VLAN_def put_VLAN_def zero_VLAN_def VLAN_ok_def struct_rt json_rt)

definition zero_LAGOptions :: LAGOptions where
  "zero_LAGOptions =
     \<lparr>Rate = [], Passive = False, PortPriority = 0\<rparr>"

definition put_LAGOptions :: "LAGOptions \<Rightarrow> json" where
  "put_LAGOptions x =
     JObj [(''Rate'', put_string (Rate x)), (''Passive'', JBool (Passive x)),
           (''PortPriority'', put_int (PortPriority x))]"

definition get_LAGOptions :: "LAGOptions reader" where
  "get_LAGOptions =
     get_struct [jfield ''Rate'' get_string Rate Rate_update,
                 jfield ''Passive'' get_bool Passive Passive_update,
                 jfield ''PortPriority'' get_int PortPriority PortPriority_update]"

definition LAGOptions_ok :: "LAGOptions \<Rightarrow> bool" where
  "LAGOptions_ok x \<longleftrightarrow> valid_utf8 (Rate x) \<and> is_int (PortPriority x)"

interpretation LAGOptions_wire: codec put_LAGOptions get_LAGOptions zero_LAGOptions LAGOptions_ok
  by unfold_locales (simp add: get_LAGOptions_def put_LAGOptions_def zero_LAGOptions_def LAGOptions_ok_def struct_rt json_rt)

definition zero_LAGMember :: LAGMember where
  "zero_LAGMember =
     \<lparr>lm_Port = [], lm_Active = False\<rparr>"

definition put_LAGMember :: "LAGMember \<Rightarrow> json" where
  "put_LAGMember x =
     JObj [(''Port'', put_string (lm_Port x)), (''Active'', JBool (lm_Active x))]"

definition get_LAGMember :: "LAGMember reader" where
  "get_LAGMember =
     get_struct [jfield ''Port'' get_string lm_Port lm_Port_update,
                 jfield ''Active'' get_bool lm_Active lm_Active_update]"

definition LAGMember_ok :: "LAGMember \<Rightarrow> bool" where
  "LAGMember_ok x \<longleftrightarrow> valid_utf8 (lm_Port x)"

interpretation LAGMember_wire: codec put_LAGMember get_LAGMember zero_LAGMember LAGMember_ok
  by unfold_locales (simp add: get_LAGMember_def put_LAGMember_def zero_LAGMember_def LAGMember_ok_def struct_rt json_rt)

definition zero_LAG :: LAG where
  "zero_LAG =
     \<lparr>lg_Name = [], lg_LACP = False, lg_Members = [], lg_MLAG = 0, lg_Options = zero_LAGOptions,
       lg_SystemPriority = 0\<rparr>"

definition put_LAG :: "LAG \<Rightarrow> json" where
  "put_LAG x =
     JObj [(''Name'', put_string (lg_Name x)), (''LACP'', JBool (lg_LACP x)),
           (''Members'', put_list put_LAGMember (lg_Members x)), (''MLAG'', put_int (lg_MLAG x)),
           (''Options'', put_LAGOptions (lg_Options x)), (''SystemPriority'', put_int (lg_SystemPriority x))]"

definition get_LAG :: "LAG reader" where
  "get_LAG =
     get_struct [jfield ''Name'' get_string lg_Name lg_Name_update,
                 jfield ''LACP'' get_bool lg_LACP lg_LACP_update,
                 jfield ''Members'' (get_list zero_LAGMember get_LAGMember) lg_Members lg_Members_update,
                 jfield ''MLAG'' get_int lg_MLAG lg_MLAG_update,
                 jfield ''Options'' get_LAGOptions lg_Options lg_Options_update,
                 jfield ''SystemPriority'' get_int lg_SystemPriority lg_SystemPriority_update]"

definition LAG_ok :: "LAG \<Rightarrow> bool" where
  "LAG_ok x \<longleftrightarrow> valid_utf8 (lg_Name x) \<and> list_all LAGMember_ok (lg_Members x) \<and> is_int (lg_MLAG x) \<and>
     LAGOptions_ok (lg_Options x) \<and> is_int (lg_SystemPriority x)"

interpretation LAG_wire: codec put_LAG get_LAG zero_LAG LAG_ok
  by unfold_locales (simp add: get_LAG_def put_LAG_def zero_LAG_def LAG_ok_def struct_rt json_rt)

definition zero_STPPort :: STPPort where
  "zero_STPPort =
     \<lparr>spt_Port = [], spt_Role = [], spt_State = [], spt_Edge = False, spt_Cost = 0, spt_Priority = 0,
       spt_BPDUGuard = False, spt_RootGuard = False, spt_Guard = []\<rparr>"

definition put_STPPort :: "STPPort \<Rightarrow> json" where
  "put_STPPort x =
     JObj [(''Port'', put_string (spt_Port x)), (''Role'', put_string (spt_Role x)),
           (''State'', put_string (spt_State x)), (''Edge'', JBool (spt_Edge x)),
           (''Cost'', put_int (spt_Cost x)), (''Priority'', put_int (spt_Priority x)),
           (''BPDUGuard'', JBool (spt_BPDUGuard x)), (''RootGuard'', JBool (spt_RootGuard x)),
           (''Guard'', put_string (spt_Guard x))]"

definition get_STPPort :: "STPPort reader" where
  "get_STPPort =
     get_struct [jfield ''Port'' get_string spt_Port spt_Port_update,
                 jfield ''Role'' get_string spt_Role spt_Role_update,
                 jfield ''State'' get_string spt_State spt_State_update,
                 jfield ''Edge'' get_bool spt_Edge spt_Edge_update,
                 jfield ''Cost'' get_int spt_Cost spt_Cost_update,
                 jfield ''Priority'' get_int spt_Priority spt_Priority_update,
                 jfield ''BPDUGuard'' get_bool spt_BPDUGuard spt_BPDUGuard_update,
                 jfield ''RootGuard'' get_bool spt_RootGuard spt_RootGuard_update,
                 jfield ''Guard'' get_string spt_Guard spt_Guard_update]"

definition STPPort_ok :: "STPPort \<Rightarrow> bool" where
  "STPPort_ok x \<longleftrightarrow> valid_utf8 (spt_Port x) \<and> valid_utf8 (spt_Role x) \<and> valid_utf8 (spt_State x) \<and>
     is_int (spt_Cost x) \<and> is_int (spt_Priority x) \<and> valid_utf8 (spt_Guard x)"

interpretation STPPort_wire: codec put_STPPort get_STPPort zero_STPPort STPPort_ok
  by unfold_locales (simp add: get_STPPort_def put_STPPort_def zero_STPPort_def STPPort_ok_def struct_rt json_rt)

definition zero_STPStatus :: STPStatus where
  "zero_STPStatus =
     \<lparr>ss_Enabled = False, ss_Priority = 0, ss_BridgeID = [], ss_RootID = [], ss_RootCost = 0,
       ss_RootPort = [], ss_TopologyChanges = 0, ss_Ports = [], ss_HelloTime = 0, ss_ForwardDelay = 0,
       ss_MaxAge = 0, ss_RootHelloTime = 0, ss_RootForwardDelay = 0, ss_RootMaxAge = 0\<rparr>"

definition put_STPStatus :: "STPStatus \<Rightarrow> json" where
  "put_STPStatus x =
     JObj [(''Enabled'', JBool (ss_Enabled x)), (''Priority'', put_int (ss_Priority x)),
           (''BridgeID'', put_string (ss_BridgeID x)), (''RootID'', put_string (ss_RootID x)),
           (''RootCost'', put_int (ss_RootCost x)), (''RootPort'', put_string (ss_RootPort x)),
           (''TopologyChanges'', put_int (ss_TopologyChanges x)),
           (''Ports'', put_list put_STPPort (ss_Ports x)), (''HelloTime'', put_int (ss_HelloTime x)),
           (''ForwardDelay'', put_int (ss_ForwardDelay x)), (''MaxAge'', put_int (ss_MaxAge x)),
           (''RootHelloTime'', put_int (ss_RootHelloTime x)),
           (''RootForwardDelay'', put_int (ss_RootForwardDelay x)), (''RootMaxAge'', put_int (ss_RootMaxAge x))]"

definition get_STPStatus :: "STPStatus reader" where
  "get_STPStatus =
     get_struct [jfield ''Enabled'' get_bool ss_Enabled ss_Enabled_update,
                 jfield ''Priority'' get_int ss_Priority ss_Priority_update,
                 jfield ''BridgeID'' get_string ss_BridgeID ss_BridgeID_update,
                 jfield ''RootID'' get_string ss_RootID ss_RootID_update,
                 jfield ''RootCost'' get_int ss_RootCost ss_RootCost_update,
                 jfield ''RootPort'' get_string ss_RootPort ss_RootPort_update,
                 jfield ''TopologyChanges'' get_int ss_TopologyChanges ss_TopologyChanges_update,
                 jfield ''Ports'' (get_list zero_STPPort get_STPPort) ss_Ports ss_Ports_update,
                 jfield ''HelloTime'' get_int ss_HelloTime ss_HelloTime_update,
                 jfield ''ForwardDelay'' get_int ss_ForwardDelay ss_ForwardDelay_update,
                 jfield ''MaxAge'' get_int ss_MaxAge ss_MaxAge_update,
                 jfield ''RootHelloTime'' get_int ss_RootHelloTime ss_RootHelloTime_update,
                 jfield ''RootForwardDelay'' get_int ss_RootForwardDelay ss_RootForwardDelay_update,
                 jfield ''RootMaxAge'' get_int ss_RootMaxAge ss_RootMaxAge_update]"

definition STPStatus_ok :: "STPStatus \<Rightarrow> bool" where
  "STPStatus_ok x \<longleftrightarrow> is_int (ss_Priority x) \<and> valid_utf8 (ss_BridgeID x) \<and> valid_utf8 (ss_RootID x) \<and>
     is_int (ss_RootCost x) \<and> valid_utf8 (ss_RootPort x) \<and> is_int (ss_TopologyChanges x) \<and>
     list_all STPPort_ok (ss_Ports x) \<and> is_int (ss_HelloTime x) \<and> is_int (ss_ForwardDelay x) \<and>
     is_int (ss_MaxAge x) \<and> is_int (ss_RootHelloTime x) \<and> is_int (ss_RootForwardDelay x) \<and>
     is_int (ss_RootMaxAge x)"

interpretation STPStatus_wire: codec put_STPStatus get_STPStatus zero_STPStatus STPStatus_ok
  by unfold_locales (simp add: get_STPStatus_def put_STPStatus_def zero_STPStatus_def STPStatus_ok_def struct_rt json_rt)

definition zero_MLAGInterface :: MLAGInterface where
  "zero_MLAGInterface =
     \<lparr>mi_LAG = [], mi_ID = 0, mi_Local = False, mi_Peer = False, mi_State = [], mi_Held = [],
       mi_HeldSeconds = 0\<rparr>"

definition put_MLAGInterface :: "MLAGInterface \<Rightarrow> json" where
  "put_MLAGInterface x =
     JObj [(''LAG'', put_string (mi_LAG x)), (''ID'', put_int (mi_ID x)), (''Local'', JBool (mi_Local x)),
           (''Peer'', JBool (mi_Peer x)), (''State'', put_string (mi_State x)),
           (''Held'', put_string (mi_Held x)), (''HeldSeconds'', put_int (mi_HeldSeconds x))]"

definition get_MLAGInterface :: "MLAGInterface reader" where
  "get_MLAGInterface =
     get_struct [jfield ''LAG'' get_string mi_LAG mi_LAG_update, jfield ''ID'' get_int mi_ID mi_ID_update,
                 jfield ''Local'' get_bool mi_Local mi_Local_update,
                 jfield ''Peer'' get_bool mi_Peer mi_Peer_update,
                 jfield ''State'' get_string mi_State mi_State_update,
                 jfield ''Held'' get_string mi_Held mi_Held_update,
                 jfield ''HeldSeconds'' get_int mi_HeldSeconds mi_HeldSeconds_update]"

definition MLAGInterface_ok :: "MLAGInterface \<Rightarrow> bool" where
  "MLAGInterface_ok x \<longleftrightarrow> valid_utf8 (mi_LAG x) \<and> is_int (mi_ID x) \<and> valid_utf8 (mi_State x) \<and>
     valid_utf8 (mi_Held x) \<and> is_int (mi_HeldSeconds x)"

interpretation MLAGInterface_wire: codec put_MLAGInterface get_MLAGInterface zero_MLAGInterface MLAGInterface_ok
  by unfold_locales (simp add: get_MLAGInterface_def put_MLAGInterface_def zero_MLAGInterface_def MLAGInterface_ok_def struct_rt json_rt)

definition zero_MLAGStatus :: MLAGStatus where
  "zero_MLAGStatus =
     \<lparr>ms_Enabled = False, ms_Role = [], ms_PeerLink = [], ms_PeerLinkUp = False, ms_PeerAlive = False,
       ms_Heartbeat = False, ms_Peer = [], ms_SystemID = [], ms_Interfaces = [], ms_SyncedMACs = 0,
       ms_PeerAddress = [], ms_Priority = 0, ms_HelloMs = 0, ms_DeadMs = 0, ms_SettleMs = 0,
       ms_HeartbeatPort = 0, ms_ReloadDelay = 0\<rparr>"

definition put_MLAGStatus :: "MLAGStatus \<Rightarrow> json" where
  "put_MLAGStatus x =
     JObj [(''Enabled'', JBool (ms_Enabled x)), (''Role'', put_string (ms_Role x)),
           (''PeerLink'', put_string (ms_PeerLink x)), (''PeerLinkUp'', JBool (ms_PeerLinkUp x)),
           (''PeerAlive'', JBool (ms_PeerAlive x)), (''Heartbeat'', JBool (ms_Heartbeat x)),
           (''Peer'', put_string (ms_Peer x)), (''SystemID'', put_string (ms_SystemID x)),
           (''Interfaces'', put_list put_MLAGInterface (ms_Interfaces x)),
           (''SyncedMACs'', put_int (ms_SyncedMACs x)), (''PeerAddress'', put_string (ms_PeerAddress x)),
           (''Priority'', put_int (ms_Priority x)), (''HelloMs'', put_int (ms_HelloMs x)),
           (''DeadMs'', put_int (ms_DeadMs x)), (''SettleMs'', put_int (ms_SettleMs x)),
           (''HeartbeatPort'', put_int (ms_HeartbeatPort x)), (''ReloadDelay'', put_int (ms_ReloadDelay x))]"

definition get_MLAGStatus :: "MLAGStatus reader" where
  "get_MLAGStatus =
     get_struct [jfield ''Enabled'' get_bool ms_Enabled ms_Enabled_update,
                 jfield ''Role'' get_string ms_Role ms_Role_update,
                 jfield ''PeerLink'' get_string ms_PeerLink ms_PeerLink_update,
                 jfield ''PeerLinkUp'' get_bool ms_PeerLinkUp ms_PeerLinkUp_update,
                 jfield ''PeerAlive'' get_bool ms_PeerAlive ms_PeerAlive_update,
                 jfield ''Heartbeat'' get_bool ms_Heartbeat ms_Heartbeat_update,
                 jfield ''Peer'' get_string ms_Peer ms_Peer_update,
                 jfield ''SystemID'' get_string ms_SystemID ms_SystemID_update,
                 jfield ''Interfaces'' (get_list zero_MLAGInterface get_MLAGInterface) ms_Interfaces ms_Interfaces_update,
                 jfield ''SyncedMACs'' get_int ms_SyncedMACs ms_SyncedMACs_update,
                 jfield ''PeerAddress'' get_string ms_PeerAddress ms_PeerAddress_update,
                 jfield ''Priority'' get_int ms_Priority ms_Priority_update,
                 jfield ''HelloMs'' get_int ms_HelloMs ms_HelloMs_update,
                 jfield ''DeadMs'' get_int ms_DeadMs ms_DeadMs_update,
                 jfield ''SettleMs'' get_int ms_SettleMs ms_SettleMs_update,
                 jfield ''HeartbeatPort'' get_int ms_HeartbeatPort ms_HeartbeatPort_update,
                 jfield ''ReloadDelay'' get_int ms_ReloadDelay ms_ReloadDelay_update]"

definition MLAGStatus_ok :: "MLAGStatus \<Rightarrow> bool" where
  "MLAGStatus_ok x \<longleftrightarrow> valid_utf8 (ms_Role x) \<and> valid_utf8 (ms_PeerLink x) \<and> valid_utf8 (ms_Peer x) \<and>
     valid_utf8 (ms_SystemID x) \<and> list_all MLAGInterface_ok (ms_Interfaces x) \<and>
     is_int (ms_SyncedMACs x) \<and> valid_utf8 (ms_PeerAddress x) \<and> is_int (ms_Priority x) \<and>
     is_int (ms_HelloMs x) \<and> is_int (ms_DeadMs x) \<and> is_int (ms_SettleMs x) \<and>
     is_int (ms_HeartbeatPort x) \<and> is_int (ms_ReloadDelay x)"

interpretation MLAGStatus_wire: codec put_MLAGStatus get_MLAGStatus zero_MLAGStatus MLAGStatus_ok
  by unfold_locales (simp add: get_MLAGStatus_def put_MLAGStatus_def zero_MLAGStatus_def MLAGStatus_ok_def struct_rt json_rt)

definition zero_VirtualGateway :: VirtualGateway where
  "zero_VirtualGateway =
     \<lparr>gw_SVI = [], gw_Address = zero_prefix, gw_MAC = []\<rparr>"

definition put_VirtualGateway :: "VirtualGateway \<Rightarrow> json" where
  "put_VirtualGateway x =
     JObj [(''SVI'', put_string (gw_SVI x)), (''Address'', put_prefix (gw_Address x)),
           (''MAC'', put_string (gw_MAC x))]"

definition get_VirtualGateway :: "VirtualGateway reader" where
  "get_VirtualGateway =
     get_struct [jfield ''SVI'' get_string gw_SVI gw_SVI_update,
                 jfield ''Address'' get_prefix gw_Address gw_Address_update,
                 jfield ''MAC'' get_string gw_MAC gw_MAC_update]"

definition VirtualGateway_ok :: "VirtualGateway \<Rightarrow> bool" where
  "VirtualGateway_ok x \<longleftrightarrow> valid_utf8 (gw_SVI x) \<and> prefix_ok (gw_Address x) \<and> valid_utf8 (gw_MAC x)"

interpretation VirtualGateway_wire: codec put_VirtualGateway get_VirtualGateway zero_VirtualGateway VirtualGateway_ok
  by unfold_locales (simp add: get_VirtualGateway_def put_VirtualGateway_def zero_VirtualGateway_def VirtualGateway_ok_def struct_rt json_rt)

definition zero_FDBEntry :: FDBEntry where
  "zero_FDBEntry =
     \<lparr>fdb_MAC = [], fdb_VLAN = 0, fdb_Port = [], fdb_Static = False\<rparr>"

definition put_FDBEntry :: "FDBEntry \<Rightarrow> json" where
  "put_FDBEntry x =
     JObj [(''MAC'', put_string (fdb_MAC x)), (''VLAN'', put_int (fdb_VLAN x)),
           (''Port'', put_string (fdb_Port x)), (''Static'', JBool (fdb_Static x))]"

definition get_FDBEntry :: "FDBEntry reader" where
  "get_FDBEntry =
     get_struct [jfield ''MAC'' get_string fdb_MAC fdb_MAC_update,
                 jfield ''VLAN'' get_int fdb_VLAN fdb_VLAN_update,
                 jfield ''Port'' get_string fdb_Port fdb_Port_update,
                 jfield ''Static'' get_bool fdb_Static fdb_Static_update]"

definition FDBEntry_ok :: "FDBEntry \<Rightarrow> bool" where
  "FDBEntry_ok x \<longleftrightarrow> valid_utf8 (fdb_MAC x) \<and> is_int (fdb_VLAN x) \<and> valid_utf8 (fdb_Port x)"

interpretation FDBEntry_wire: codec put_FDBEntry get_FDBEntry zero_FDBEntry FDBEntry_ok
  by unfold_locales (simp add: get_FDBEntry_def put_FDBEntry_def zero_FDBEntry_def FDBEntry_ok_def struct_rt json_rt)

definition zero_Capabilities :: Capabilities where
  "zero_Capabilities =
     \<lparr>c_Contract = [], c_Driver = [], c_MaxPorts = 0, c_VLANs = False, c_MaxVLANs = 0, c_SVIs = False,
       c_LAGs = False, c_MaxLAGs = 0, c_MaxLAGMembers = 0, c_LACP = False, c_STP = False, c_MLAG = False,
       c_VirtualGateway = False, c_VirtualGateway6 = False, c_MACAging = False, c_QinQ = False,
       c_L2Learning = False, c_MaxFDB = 0, c_L3 = False, c_MaxV4 = 0, c_MaxV6 = 0, c_IPv6 = False,
       c_ECMP = False, c_MaxECMP = 0, c_ACL = False, c_ACLSlices = 0, c_ACLEntries = 0, c_ACL6 = False,
       c_ACL6Entries = 0, c_Counters = False, c_SFP = False, c_Breakout = False\<rparr>"

definition put_Capabilities :: "Capabilities \<Rightarrow> json" where
  "put_Capabilities x =
     JObj [(''Contract'', put_string (c_Contract x)), (''Driver'', put_string (c_Driver x)),
           (''MaxPorts'', put_int (c_MaxPorts x)), (''VLANs'', JBool (c_VLANs x)),
           (''MaxVLANs'', put_int (c_MaxVLANs x)), (''SVIs'', JBool (c_SVIs x)), (''LAGs'', JBool (c_LAGs x)),
           (''MaxLAGs'', put_int (c_MaxLAGs x)), (''MaxLAGMembers'', put_int (c_MaxLAGMembers x)),
           (''LACP'', JBool (c_LACP x)), (''STP'', JBool (c_STP x)), (''MLAG'', JBool (c_MLAG x)),
           (''VirtualGateway'', JBool (c_VirtualGateway x)),
           (''VirtualGateway6'', JBool (c_VirtualGateway6 x)), (''MACAging'', JBool (c_MACAging x)),
           (''QinQ'', JBool (c_QinQ x)), (''L2Learning'', JBool (c_L2Learning x)),
           (''MaxFDB'', put_int (c_MaxFDB x)), (''L3'', JBool (c_L3 x)), (''MaxV4'', put_int (c_MaxV4 x)),
           (''MaxV6'', put_int (c_MaxV6 x)), (''IPv6'', JBool (c_IPv6 x)), (''ECMP'', JBool (c_ECMP x)),
           (''MaxECMP'', put_int (c_MaxECMP x)), (''ACL'', JBool (c_ACL x)),
           (''ACLSlices'', put_int (c_ACLSlices x)), (''ACLEntries'', put_int (c_ACLEntries x)),
           (''ACL6'', JBool (c_ACL6 x)), (''ACL6Entries'', put_int (c_ACL6Entries x)),
           (''Counters'', JBool (c_Counters x)), (''SFP'', JBool (c_SFP x)),
           (''Breakout'', JBool (c_Breakout x))]"

definition get_Capabilities :: "Capabilities reader" where
  "get_Capabilities =
     get_struct [jfield ''Contract'' get_string c_Contract c_Contract_update,
                 jfield ''Driver'' get_string c_Driver c_Driver_update,
                 jfield ''MaxPorts'' get_int c_MaxPorts c_MaxPorts_update,
                 jfield ''VLANs'' get_bool c_VLANs c_VLANs_update,
                 jfield ''MaxVLANs'' get_int c_MaxVLANs c_MaxVLANs_update,
                 jfield ''SVIs'' get_bool c_SVIs c_SVIs_update, jfield ''LAGs'' get_bool c_LAGs c_LAGs_update,
                 jfield ''MaxLAGs'' get_int c_MaxLAGs c_MaxLAGs_update,
                 jfield ''MaxLAGMembers'' get_int c_MaxLAGMembers c_MaxLAGMembers_update,
                 jfield ''LACP'' get_bool c_LACP c_LACP_update, jfield ''STP'' get_bool c_STP c_STP_update,
                 jfield ''MLAG'' get_bool c_MLAG c_MLAG_update,
                 jfield ''VirtualGateway'' get_bool c_VirtualGateway c_VirtualGateway_update,
                 jfield ''VirtualGateway6'' get_bool c_VirtualGateway6 c_VirtualGateway6_update,
                 jfield ''MACAging'' get_bool c_MACAging c_MACAging_update,
                 jfield ''QinQ'' get_bool c_QinQ c_QinQ_update,
                 jfield ''L2Learning'' get_bool c_L2Learning c_L2Learning_update,
                 jfield ''MaxFDB'' get_int c_MaxFDB c_MaxFDB_update, jfield ''L3'' get_bool c_L3 c_L3_update,
                 jfield ''MaxV4'' get_int c_MaxV4 c_MaxV4_update,
                 jfield ''MaxV6'' get_int c_MaxV6 c_MaxV6_update,
                 jfield ''IPv6'' get_bool c_IPv6 c_IPv6_update, jfield ''ECMP'' get_bool c_ECMP c_ECMP_update,
                 jfield ''MaxECMP'' get_int c_MaxECMP c_MaxECMP_update,
                 jfield ''ACL'' get_bool c_ACL c_ACL_update,
                 jfield ''ACLSlices'' get_int c_ACLSlices c_ACLSlices_update,
                 jfield ''ACLEntries'' get_int c_ACLEntries c_ACLEntries_update,
                 jfield ''ACL6'' get_bool c_ACL6 c_ACL6_update,
                 jfield ''ACL6Entries'' get_int c_ACL6Entries c_ACL6Entries_update,
                 jfield ''Counters'' get_bool c_Counters c_Counters_update,
                 jfield ''SFP'' get_bool c_SFP c_SFP_update,
                 jfield ''Breakout'' get_bool c_Breakout c_Breakout_update]"

definition Capabilities_ok :: "Capabilities \<Rightarrow> bool" where
  "Capabilities_ok x \<longleftrightarrow> valid_utf8 (c_Contract x) \<and> valid_utf8 (c_Driver x) \<and> is_int (c_MaxPorts x) \<and>
     is_int (c_MaxVLANs x) \<and> is_int (c_MaxLAGs x) \<and> is_int (c_MaxLAGMembers x) \<and>
     is_int (c_MaxFDB x) \<and> is_int (c_MaxV4 x) \<and> is_int (c_MaxV6 x) \<and> is_int (c_MaxECMP x) \<and>
     is_int (c_ACLSlices x) \<and> is_int (c_ACLEntries x) \<and> is_int (c_ACL6Entries x)"

interpretation Capabilities_wire: codec put_Capabilities get_Capabilities zero_Capabilities Capabilities_ok
  by unfold_locales (simp add: get_Capabilities_def put_Capabilities_def zero_Capabilities_def Capabilities_ok_def struct_rt json_rt)

end
