(* ===== verification/Nospkg.thy ===== *)
theory Nospkg
  imports Paths Wire_Values "HOL-Library.Multiset"
begin

unbundle bit_operations_syntax

text \<open>
  The package format, \<^verbatim>\<open>internal/nospkg\<close>: an outer tar of a manifest and a compressed payload, how it is built,
  verified and unpacked. The archives are lists of members; the library's tar, gzip, SHA-256 and JSON text are
  the functions of an \<open>archiver\<close>, and so are the build host's files. Unpacking is a program of operations on the target's file system; what the
  system answers to each is a function of the operations made before it, so every behaviour of the target is covered,
  and the operations are kept in the order they are made.
\<close>

section \<open>The manifest\<close>

text \<open>A key that may be left out reads as if it were there, when it is left out for the value that is there already.\<close>

lemma read_omitempty:
  assumes "find_field table key \<noteq> None" and "b \<Longrightarrow> the (find_field table key) j r = Some r"
  shows "read_keys table (omitempty b key j @ kvs) r = read_keys table ((key, j) # kvs) r"
  using assms by (cases b) (auto simp: omitempty_def)

lemma valid_utf8_empty: "valid_utf8 []"
  by (simp add: valid_utf8_def)

definition put_word32 :: "32 word \<Rightarrow> json" where
  "put_word32 w = JNum (nat_dec (unat w))"

text \<open>\<^verbatim>\<open>strconv.ParseUint\<close> into 32 bits.\<close>

fun get_word32 :: "32 word reader" where
  "get_word32 JNull w = Some w"
| "get_word32 (JNum s) _ =
     (if s \<noteq> [] \<and> list_all isDigit s \<and> digits_val s < 2 ^ 32 then Some (of_nat (digits_val s)) else None)"
| "get_word32 _ _ = None"

lemma get_put_word32 [json_rt]: "get_word32 (put_word32 w) x = Some w"
proof -
  have "unat w < 2 ^ 32" using unsigned_less [of w, where 'a = nat] by simp
  then show ?thesis by (simp add: put_word32_def nat_dec_digits of_nat_unat_id)
qed

record PkgFile =
  f_Path :: string
  f_Mode :: "32 word"
  f_Size :: int
  f_SHA256 :: string
  f_Link :: string
  f_UID :: int
  f_GID :: int

definition zero_PkgFile :: PkgFile where
  "zero_PkgFile =
     \<lparr>f_Path = [], f_Mode = 0, f_Size = 0, f_SHA256 = [], f_Link = [], f_UID = 0, f_GID = 0\<rparr>"

definition put_PkgFile :: "PkgFile \<Rightarrow> json" where
  "put_PkgFile x =
     JObj ([(''path'', put_string (f_Path x)), (''mode'', put_word32 (f_Mode x)), (''size'', put_int (f_Size x)), (''sha256'', put_string (f_SHA256 x))] @
           omitempty (f_Link x = []) ''link'' (put_string (f_Link x)) @
           omitempty (f_UID x = 0) ''uid'' (put_int (f_UID x)) @
           omitempty (f_GID x = 0) ''gid'' (put_int (f_GID x)))"

definition get_PkgFile :: "PkgFile reader" where
  "get_PkgFile =
     get_struct [jfield ''path'' get_string f_Path f_Path_update,
                 jfield ''mode'' get_word32 f_Mode f_Mode_update, jfield ''size'' get_int f_Size f_Size_update,
                 jfield ''sha256'' get_string f_SHA256 f_SHA256_update,
                 jfield ''link'' get_string f_Link f_Link_update, jfield ''uid'' get_int f_UID f_UID_update,
                 jfield ''gid'' get_int f_GID f_GID_update]"

definition PkgFile_ok :: "PkgFile \<Rightarrow> bool" where
  "PkgFile_ok x \<longleftrightarrow> valid_utf8 (f_Path x) \<and> is_int (f_Size x) \<and> valid_utf8 (f_SHA256 x) \<and>
     valid_utf8 (f_Link x) \<and> is_int (f_UID x) \<and> is_int (f_GID x)"

interpretation PkgFile_wire: codec put_PkgFile get_PkgFile zero_PkgFile PkgFile_ok
proof
  show "get_PkgFile (put_PkgFile x) zero_PkgFile = Some x" if "PkgFile_ok x" for x
    using that by (cases x) (simp add: get_PkgFile_def put_PkgFile_def zero_PkgFile_def PkgFile_ok_def struct_rt json_rt omitempty_def)
qed

record Service =
  sv_Name :: string
  sv_Exec :: string
  sv_After :: "string list"
  sv_Wants :: "string list"
  sv_Restart :: string

definition zero_Service :: Service where
  "zero_Service =
     \<lparr>sv_Name = [], sv_Exec = [], sv_After = [], sv_Wants = [], sv_Restart = []\<rparr>"

definition put_Service :: "Service \<Rightarrow> json" where
  "put_Service x =
     JObj ([(''name'', put_string (sv_Name x)), (''exec'', put_string (sv_Exec x))] @
           omitempty (sv_After x = []) ''after'' (put_list put_string (sv_After x)) @
           omitempty (sv_Wants x = []) ''wants'' (put_list put_string (sv_Wants x)) @
           omitempty (sv_Restart x = []) ''restart'' (put_string (sv_Restart x)))"

definition get_Service :: "Service reader" where
  "get_Service =
     get_struct [jfield ''name'' get_string sv_Name sv_Name_update,
                 jfield ''exec'' get_string sv_Exec sv_Exec_update,
                 jfield ''after'' (get_list [] get_string) sv_After sv_After_update,
                 jfield ''wants'' (get_list [] get_string) sv_Wants sv_Wants_update,
                 jfield ''restart'' get_string sv_Restart sv_Restart_update]"

definition Service_ok :: "Service \<Rightarrow> bool" where
  "Service_ok x \<longleftrightarrow> valid_utf8 (sv_Name x) \<and> valid_utf8 (sv_Exec x) \<and> list_all valid_utf8 (sv_After x) \<and>
     list_all valid_utf8 (sv_Wants x) \<and> valid_utf8 (sv_Restart x)"

interpretation Service_wire: codec put_Service get_Service zero_Service Service_ok
proof
  show "get_Service (put_Service x) zero_Service = Some x" if "Service_ok x" for x
    using that by (cases x) (simp add: get_Service_def put_Service_def zero_Service_def Service_ok_def struct_rt json_rt omitempty_def)
qed

record User =
  us_Name :: string
  us_UID :: int
  us_GID :: int
  us_Home :: string
  us_Shell :: string

definition zero_User :: User where
  "zero_User =
     \<lparr>us_Name = [], us_UID = 0, us_GID = 0, us_Home = [], us_Shell = []\<rparr>"

definition put_User :: "User \<Rightarrow> json" where
  "put_User x =
     JObj ([(''name'', put_string (us_Name x)), (''uid'', put_int (us_UID x)), (''gid'', put_int (us_GID x))] @
           omitempty (us_Home x = []) ''home'' (put_string (us_Home x)) @
           omitempty (us_Shell x = []) ''shell'' (put_string (us_Shell x)))"

definition get_User :: "User reader" where
  "get_User =
     get_struct [jfield ''name'' get_string us_Name us_Name_update,
                 jfield ''uid'' get_int us_UID us_UID_update, jfield ''gid'' get_int us_GID us_GID_update,
                 jfield ''home'' get_string us_Home us_Home_update,
                 jfield ''shell'' get_string us_Shell us_Shell_update]"

definition User_ok :: "User \<Rightarrow> bool" where
  "User_ok x \<longleftrightarrow> valid_utf8 (us_Name x) \<and> is_int (us_UID x) \<and> is_int (us_GID x) \<and>
     valid_utf8 (us_Home x) \<and> valid_utf8 (us_Shell x)"

interpretation User_wire: codec put_User get_User zero_User User_ok
proof
  show "get_User (put_User x) zero_User = Some x" if "User_ok x" for x
    using that by (cases x) (simp add: get_User_def put_User_def zero_User_def User_ok_def struct_rt json_rt omitempty_def)
qed

record BuildInfo =
  bi_Epoch :: int
  bi_Toolchain :: string
  bi_Triple :: string
  bi_NOSaic :: string
  bi_Recipe :: string

definition zero_BuildInfo :: BuildInfo where
  "zero_BuildInfo =
     \<lparr>bi_Epoch = 0, bi_Toolchain = [], bi_Triple = [], bi_NOSaic = [], bi_Recipe = []\<rparr>"

definition put_BuildInfo :: "BuildInfo \<Rightarrow> json" where
  "put_BuildInfo x =
     JObj ([(''epoch'', put_int (bi_Epoch x))] @
           omitempty (bi_Toolchain x = []) ''toolchain'' (put_string (bi_Toolchain x)) @
           omitempty (bi_Triple x = []) ''triple'' (put_string (bi_Triple x)) @
           omitempty (bi_NOSaic x = []) ''nosaic'' (put_string (bi_NOSaic x)) @
           omitempty (bi_Recipe x = []) ''recipe_sha256'' (put_string (bi_Recipe x)))"

definition get_BuildInfo :: "BuildInfo reader" where
  "get_BuildInfo =
     get_struct [jfield ''epoch'' get_int bi_Epoch bi_Epoch_update,
                 jfield ''toolchain'' get_string bi_Toolchain bi_Toolchain_update,
                 jfield ''triple'' get_string bi_Triple bi_Triple_update,
                 jfield ''nosaic'' get_string bi_NOSaic bi_NOSaic_update,
                 jfield ''recipe_sha256'' get_string bi_Recipe bi_Recipe_update]"

definition BuildInfo_ok :: "BuildInfo \<Rightarrow> bool" where
  "BuildInfo_ok x \<longleftrightarrow> is_int (bi_Epoch x) \<and> valid_utf8 (bi_Toolchain x) \<and> valid_utf8 (bi_Triple x) \<and>
     valid_utf8 (bi_NOSaic x) \<and> valid_utf8 (bi_Recipe x)"

interpretation BuildInfo_wire: codec put_BuildInfo get_BuildInfo zero_BuildInfo BuildInfo_ok
proof
  show "get_BuildInfo (put_BuildInfo x) zero_BuildInfo = Some x" if "BuildInfo_ok x" for x
    using that by (cases x) (simp add: get_BuildInfo_def put_BuildInfo_def zero_BuildInfo_def BuildInfo_ok_def struct_rt json_rt omitempty_def)
qed

record Signature =
  sg_Algorithm :: string
  sg_KeyID :: string
  sg_Value :: string

definition zero_Signature :: Signature where
  "zero_Signature =
     \<lparr>sg_Algorithm = [], sg_KeyID = [], sg_Value = []\<rparr>"

definition put_Signature :: "Signature \<Rightarrow> json" where
  "put_Signature x =
     JObj (omitempty (sg_Algorithm x = []) ''algorithm'' (put_string (sg_Algorithm x)) @
           omitempty (sg_KeyID x = []) ''key_id'' (put_string (sg_KeyID x)) @
           omitempty (sg_Value x = []) ''value'' (put_string (sg_Value x)))"

definition get_Signature :: "Signature reader" where
  "get_Signature =
     get_struct [jfield ''algorithm'' get_string sg_Algorithm sg_Algorithm_update,
                 jfield ''key_id'' get_string sg_KeyID sg_KeyID_update,
                 jfield ''value'' get_string sg_Value sg_Value_update]"

definition Signature_ok :: "Signature \<Rightarrow> bool" where
  "Signature_ok x \<longleftrightarrow> valid_utf8 (sg_Algorithm x) \<and> valid_utf8 (sg_KeyID x) \<and> valid_utf8 (sg_Value x)"

interpretation Signature_wire: codec put_Signature get_Signature zero_Signature Signature_ok
proof
  show "get_Signature (put_Signature x) zero_Signature = Some x" if "Signature_ok x" for x
    using that by (cases x) (simp add: get_Signature_def put_Signature_def zero_Signature_def Signature_ok_def struct_rt json_rt omitempty_def)
qed

record Manifest =
  m_FormatVersion :: int
  m_Name :: string
  m_Version :: string
  m_Summary :: string
  m_Arch :: string
  m_Type :: string
  m_License :: string
  m_Redistributable :: bool
  m_RuntimeInstallable :: bool
  m_Provides :: "string list"
  m_Conflicts :: "string list"
  m_Depends :: "string list"
  m_Services :: "Service list"
  m_Users :: "User list"
  m_Files :: "PkgFile list"
  m_PayloadSHA256 :: string
  m_Build :: BuildInfo
  m_Signature :: Signature

definition zero_Manifest :: Manifest where
  "zero_Manifest =
     \<lparr>m_FormatVersion = 0, m_Name = [], m_Version = [], m_Summary = [], m_Arch = [], m_Type = [],
       m_License = [], m_Redistributable = False, m_RuntimeInstallable = False, m_Provides = [],
       m_Conflicts = [], m_Depends = [], m_Services = [], m_Users = [], m_Files = [], m_PayloadSHA256 = [],
       m_Build = zero_BuildInfo, m_Signature = zero_Signature\<rparr>"

definition put_Manifest :: "Manifest \<Rightarrow> json" where
  "put_Manifest x =
     JObj ([(''format_version'', put_int (m_FormatVersion x)), (''name'', put_string (m_Name x)), (''version'', put_string (m_Version x))] @
           omitempty (m_Summary x = []) ''summary'' (put_string (m_Summary x)) @
           [(''arch'', put_string (m_Arch x)), (''type'', put_string (m_Type x)), (''license'', put_string (m_License x)), (''redistributable'', JBool (m_Redistributable x)), (''runtime_installable'', JBool (m_RuntimeInstallable x))] @
           omitempty (m_Provides x = []) ''provides'' (put_list put_string (m_Provides x)) @
           omitempty (m_Conflicts x = []) ''conflicts'' (put_list put_string (m_Conflicts x)) @
           omitempty (m_Depends x = []) ''depends'' (put_list put_string (m_Depends x)) @
           omitempty (m_Services x = []) ''services'' (put_list put_Service (m_Services x)) @
           omitempty (m_Users x = []) ''users'' (put_list put_User (m_Users x)) @
           [(''files'', put_list put_PkgFile (m_Files x)), (''payload_sha256'', put_string (m_PayloadSHA256 x)), (''build'', put_BuildInfo (m_Build x)), (''signature'', put_Signature (m_Signature x))])"

definition get_Manifest :: "Manifest reader" where
  "get_Manifest =
     get_struct [jfield ''format_version'' get_int m_FormatVersion m_FormatVersion_update,
                 jfield ''name'' get_string m_Name m_Name_update,
                 jfield ''version'' get_string m_Version m_Version_update,
                 jfield ''summary'' get_string m_Summary m_Summary_update,
                 jfield ''arch'' get_string m_Arch m_Arch_update,
                 jfield ''type'' get_string m_Type m_Type_update,
                 jfield ''license'' get_string m_License m_License_update,
                 jfield ''redistributable'' get_bool m_Redistributable m_Redistributable_update,
                 jfield ''runtime_installable'' get_bool m_RuntimeInstallable m_RuntimeInstallable_update,
                 jfield ''provides'' (get_list [] get_string) m_Provides m_Provides_update,
                 jfield ''conflicts'' (get_list [] get_string) m_Conflicts m_Conflicts_update,
                 jfield ''depends'' (get_list [] get_string) m_Depends m_Depends_update,
                 jfield ''services'' (get_list zero_Service get_Service) m_Services m_Services_update,
                 jfield ''users'' (get_list zero_User get_User) m_Users m_Users_update,
                 jfield ''files'' (get_list zero_PkgFile get_PkgFile) m_Files m_Files_update,
                 jfield ''payload_sha256'' get_string m_PayloadSHA256 m_PayloadSHA256_update,
                 jfield ''build'' get_BuildInfo m_Build m_Build_update,
                 jfield ''signature'' get_Signature m_Signature m_Signature_update]"

definition Manifest_ok :: "Manifest \<Rightarrow> bool" where
  "Manifest_ok x \<longleftrightarrow> is_int (m_FormatVersion x) \<and> valid_utf8 (m_Name x) \<and> valid_utf8 (m_Version x) \<and>
     valid_utf8 (m_Summary x) \<and> valid_utf8 (m_Arch x) \<and> valid_utf8 (m_Type x) \<and>
     valid_utf8 (m_License x) \<and> list_all valid_utf8 (m_Provides x) \<and>
     list_all valid_utf8 (m_Conflicts x) \<and> list_all valid_utf8 (m_Depends x) \<and>
     list_all Service_ok (m_Services x) \<and> list_all User_ok (m_Users x) \<and>
     list_all PkgFile_ok (m_Files x) \<and> valid_utf8 (m_PayloadSHA256 x) \<and>
     BuildInfo_ok (m_Build x) \<and> Signature_ok (m_Signature x)"

interpretation Manifest_wire: codec put_Manifest get_Manifest zero_Manifest Manifest_ok
proof
  show "get_Manifest (put_Manifest x) zero_Manifest = Some x" if "Manifest_ok x" for x
    using that by (cases x) (simp add: get_Manifest_def put_Manifest_def zero_Manifest_def Manifest_ok_def struct_rt json_rt read_omitempty valid_utf8_empty)
qed

definition FormatVersion :: int where
  "FormatVersion = 1"

definition ArchAny :: string where
  "ArchAny = ''any''"

definition TypeComponent :: string where
  "TypeComponent = ''component''"

definition Filename :: "Manifest \<Rightarrow> string" where
  "Filename m = m_Name m @ ''_'' @ m_Version m @ ''_'' @ m_Arch m @ ''.nos''"

section \<open>Archives\<close>

datatype tar_type = TypeReg | TypeDir | TypeSymlink | TypeOther

text \<open>A member as the reader meets it: \<open>tm_Whole\<close> says whether its body can be read to the end.\<close>

record member =
  tm_Name :: string
  tm_Mode :: int
  tm_ModTime :: int
  tm_Uid :: int
  tm_Gid :: int
  tm_Type :: tar_type
  tm_Linkname :: string
  tm_Body :: string
  tm_Whole :: bool

text \<open>A package is the outer tar: the members' names and bodies. \<open>pack\<close> writes a compressed tar, or fails;
  \<open>unpack\<close> answers nothing for bytes that are not gzip, and otherwise the members whose headers can be read and whether
  the archive ended after them; \<open>accepts\<close> says whether the writer the package goes to takes it.\<close>

type_synonym package = "(string \<times> string) list"

record archiver =
  pack :: "member list \<Rightarrow> string option"
  unpack :: "string \<Rightarrow> (member list \<times> bool) option"
  sha256_hex :: "string \<Rightarrow> string"
  read_src :: "string \<Rightarrow> string option"
  accepts :: "package \<Rightarrow> bool"
  print_json :: "json \<Rightarrow> string option"
  parse_json :: "string \<Rightarrow> json option"

text \<open>What the library promises: a reader gives back what a writer was given.\<close>

definition reads_back :: "archiver \<Rightarrow> bool" where
  "reads_back a \<longleftrightarrow>
     (\<forall>hs p. pack a hs = Some p \<longrightarrow> unpack a p = Some (hs, True)) \<and>
     (\<forall>j t. print_json a j = Some t \<longrightarrow> parse_json a t = Some j)"

definition manifestMember :: string where
  "manifestMember = ''manifest.json''"

definition payloadMember :: string where
  "payloadMember = ''data.tar.gz''"

datatype fs_op =
    MkdirAllOp string "32 word"
  | ChmodOp string "32 word"
  | RemoveOp string
  | SymlinkOp string string
  | CreateOp string string "32 word"
  | LchownOp string int int

datatype pkg_error =
    Required string
  | NotAbsolute string
  | CannotRead string
  | CannotPack
  | CannotEncode
  | CannotWrite
  | NotNOS
  | BadManifest
  | NewerFormat int
  | NoPayload
  | PayloadMismatch
  | NotGzip
  | Unlisted string
  | FileMismatch string
  | BrokenArchive
  | WrongCount nat nat
  | WrongArch string string string
  | EscapesTarget string
  | OSError fs_op

section \<open>Building\<close>

record Entry =
  Dst :: string
  Src :: string
  e_Mode :: "32 word"
  e_UID :: int
  e_GID :: int
  e_Link :: string
  Dir :: bool

definition entry_member :: "archiver \<Rightarrow> int \<Rightarrow> Entry \<Rightarrow> pkg_error + member" where
  "entry_member a stamp e =
     (let hdr = \<lparr>tm_Name = Dst e, tm_Mode = uint (e_Mode e), tm_ModTime = stamp, tm_Uid = e_UID e, tm_Gid = e_GID e,
                 tm_Type = TypeReg, tm_Linkname = [], tm_Body = [], tm_Whole = True\<rparr>
      in if \<not> (Dst e \<noteq> [] \<and> hd (Dst e) = slash) then Inl (NotAbsolute (Dst e))
         else if Dir e then Inr (hdr\<lparr>tm_Type := TypeDir, tm_Mode := (if e_Mode e = 0 then 493 else tm_Mode hdr)\<rparr>)
         else if e_Link e \<noteq> [] then Inr (hdr\<lparr>tm_Type := TypeSymlink, tm_Linkname := e_Link e, tm_Mode := 511\<rparr>)
         else case read_src a (Src e) of
           None \<Rightarrow> Inl (CannotRead (Src e))
         | Some c \<Rightarrow> Inr (hdr\<lparr>tm_Body := c\<rparr>))"

definition entry_file :: "archiver \<Rightarrow> Entry \<Rightarrow> member \<Rightarrow> PkgFile" where
  "entry_file a e h =
     (let f = \<lparr>f_Path = Dst e, f_Mode = word_of_int (tm_Mode h), f_Size = 0, f_SHA256 = [], f_Link = e_Link e,
               f_UID = e_UID e, f_GID = e_GID e\<rparr>
      in if tm_Type h = TypeReg then f\<lparr>f_SHA256 := sha256_hex a (tm_Body h), f_Size := int (length (tm_Body h))\<rparr> else f)"

fun payload_members :: "archiver \<Rightarrow> int \<Rightarrow> Entry list \<Rightarrow> pkg_error + (member \<times> PkgFile) list" where
  "payload_members a stamp [] = Inr []"
| "payload_members a stamp (e # es) =
     (case entry_member a stamp e of
        Inl x \<Rightarrow> Inl x
      | Inr h \<Rightarrow>
          (case payload_members a stamp es of Inl x \<Rightarrow> Inl x | Inr r \<Rightarrow> Inr ((h, entry_file a e h) # r)))"

definition buildPayload :: "archiver \<Rightarrow> int \<Rightarrow> Entry list \<Rightarrow> pkg_error + string \<times> PkgFile list" where
  "buildPayload a stamp es =
     (case payload_members a stamp es of
        Inl x \<Rightarrow> Inl x
      | Inr r \<Rightarrow> (case pack a (map fst r) of None \<Rightarrow> Inl CannotPack | Some p \<Rightarrow> Inr (p, map snd r)))"

text \<open>Go fills in the manifest it is given, so a successful build answers it too. \<^verbatim>\<open>sort.Slice\<close> sorts by
  destination, which fixes the order where no destination is repeated.\<close>

definition Build :: "archiver \<Rightarrow> Manifest \<Rightarrow> Entry list \<Rightarrow> pkg_error + Manifest \<times> package" where
  "Build a m es =
     (if m_Name m = [] \<or> m_Version m = [] then Inl (Required ''name and version'')
      else if m_Arch m = [] then Inl (Required ''arch'')
      else if m_License m = [] then Inl (Required ''license'')
      else
        let m1 = m\<lparr>m_FormatVersion := FormatVersion, m_Type := (if m_Type m = [] then TypeComponent else m_Type m)\<rparr>
        in case buildPayload a (bi_Epoch (m_Build m)) (sort_key Dst es) of
             Inl x \<Rightarrow> Inl x
           | Inr (p, files) \<Rightarrow>
               let m2 = m1\<lparr>m_Files := files, m_PayloadSHA256 := sha256_hex a p\<rparr>
               in case print_json a (put_Manifest m2) of
                    None \<Rightarrow> Inl CannotEncode
                  | Some t \<Rightarrow>
                      let pkg = [(manifestMember, t), (payloadMember, p)]
                      in if accepts a pkg then Inr (m2, pkg) else Inl CannotWrite)"

section \<open>Reading and verifying\<close>

definition decode_manifest :: "archiver \<Rightarrow> string \<Rightarrow> Manifest option" where
  "decode_manifest a t = (case parse_json a t of None \<Rightarrow> None | Some j \<Rightarrow> get_Manifest j zero_Manifest)"

definition ReadManifest :: "archiver \<Rightarrow> package \<Rightarrow> pkg_error + Manifest" where
  "ReadManifest a pkg =
     (case pkg of
        [] \<Rightarrow> Inl NotNOS
      | (name, b) # _ \<Rightarrow>
          (if name \<noteq> manifestMember then Inl NotNOS
           else case decode_manifest a b of
             None \<Rightarrow> Inl BadManifest
           | Some m \<Rightarrow> if m_FormatVersion m > FormatVersion then Inl (NewerFormat (m_FormatVersion m)) else Inr m))"

definition record_files :: "PkgFile list \<Rightarrow> (string, PkgFile) gomap" where
  "record_files files = fold (\<lambda>f r. mput (f_Path f) f r) files []"

text \<open>The loop over the payload: how many members were seen, or what was wrong with the first bad one.\<close>

fun verify_members :: "archiver \<Rightarrow> (string, PkgFile) gomap \<Rightarrow> member list \<Rightarrow> nat \<Rightarrow> pkg_error + nat" where
  "verify_members a recorded [] seen = Inr seen"
| "verify_members a recorded (h # hs) seen =
     (case mget recorded (tm_Name h) of
        None \<Rightarrow> Inl (Unlisted (tm_Name h))
      | Some f \<Rightarrow>
          (if tm_Type h \<noteq> TypeReg then verify_members a recorded hs (Suc seen)
           else if \<not> tm_Whole h then Inl BrokenArchive
           else if sha256_hex a (tm_Body h) \<noteq> f_SHA256 f then Inl (FileMismatch (tm_Name h))
           else verify_members a recorded hs (Suc seen)))"

definition Verify :: "archiver \<Rightarrow> package \<Rightarrow> pkg_error + Manifest" where
  "Verify a pkg =
     (case pkg of
        [] \<Rightarrow> Inl NotNOS
      | (name, b) # rest \<Rightarrow>
          (if name \<noteq> manifestMember then Inl NotNOS
           else case decode_manifest a b of
             None \<Rightarrow> Inl BadManifest
           | Some m \<Rightarrow>
               (case rest of
                  [] \<Rightarrow> Inl NoPayload
                | (name2, b2) # _ \<Rightarrow>
                    (if name2 \<noteq> payloadMember then Inl NotNOS
                     else if sha256_hex a b2 \<noteq> m_PayloadSHA256 m then Inl PayloadMismatch
                     else case unpack a b2 of
                       None \<Rightarrow> Inl NotGzip
                     | Some (hs, ended) \<Rightarrow>
                         (case verify_members a (record_files (m_Files m)) hs 0 of
                            Inl e \<Rightarrow> Inl e
                          | Inr seen \<Rightarrow>
                              (if \<not> ended then Inl BrokenArchive
                               else if seen \<noteq> length (m_Files m) then Inl (WrongCount (length (m_Files m)) seen)
                               else Inr m))))))"

definition CanInstall :: "Manifest \<Rightarrow> string \<Rightarrow> pkg_error option" where
  "CanInstall m arch = (if m_Arch m \<noteq> ArchAny \<and> m_Arch m \<noteq> arch then Some (WrongArch (m_Name m) (m_Arch m) arch) else None)"

section \<open>Unpacking\<close>

text \<open>What the target's system answers to an operation, given the operations made before it, and a program
  of operations: its error, if any, and the operations made up to its end.\<close>

datatype os_answer = OpDone | OpMissing | OpFailed

type_synonym os = "fs_op list \<Rightarrow> fs_op \<Rightarrow> os_answer"

type_synonym unpacking = "fs_op list \<Rightarrow> pkg_error option \<times> fs_op list"

definition nothing :: unpacking where
  "nothing tr = (None, tr)"

definition refuse :: "pkg_error \<Rightarrow> unpacking" where
  "refuse e tr = (Some e, tr)"

definition do_op :: "os \<Rightarrow> fs_op \<Rightarrow> unpacking" where
  "do_op os op tr = (if os tr op = OpDone then None else Some (OSError op), tr @ [op])"

definition try_op :: "os \<Rightarrow> fs_op \<Rightarrow> unpacking" where
  "try_op os op tr = (None, tr @ [op])"

definition do_unless_missing :: "os \<Rightarrow> fs_op \<Rightarrow> unpacking" where
  "do_unless_missing os op tr = (if os tr op = OpFailed then Some (OSError op) else None, tr @ [op])"

definition and_then :: "unpacking \<Rightarrow> unpacking \<Rightarrow> unpacking" where
  "and_then f g tr = (case f tr of (None, tr') \<Rightarrow> g tr' | (Some e, tr') \<Rightarrow> (Some e, tr'))"

definition chmodRaw :: "os \<Rightarrow> string \<Rightarrow> int \<Rightarrow> unpacking" where
  "chmodRaw os p mode = (let m = (word_of_int mode :: 32 word) AND 4095 in if m = 0 then nothing else do_op os (ChmodOp p m))"

definition chownEntry :: "os \<Rightarrow> string \<Rightarrow> int \<Rightarrow> int \<Rightarrow> unpacking" where
  "chownEntry os p uid gid = (if uid = 0 \<and> gid = 0 then nothing else do_op os (LchownOp p uid gid))"

definition extract_member :: "os \<Rightarrow> string \<Rightarrow> member \<Rightarrow> unpacking" where
  "extract_member os dst h =
     (let clean = Join dst (Clean (slash # tm_Name h))
      in if \<not> prefix (Clean dst @ [slash]) clean then refuse (EscapesTarget (tm_Name h))
         else case tm_Type h of
           TypeDir \<Rightarrow> and_then (do_op os (MkdirAllOp clean 493)) (chmodRaw os clean (tm_Mode h))
         | TypeSymlink \<Rightarrow>
             and_then (do_op os (MkdirAllOp (Dirname clean) 493))
             (and_then (try_op os (RemoveOp clean)) (do_op os (SymlinkOp (tm_Linkname h) clean)))
         | TypeReg \<Rightarrow>
             and_then (do_op os (MkdirAllOp (Dirname clean) 493))
             (and_then (do_unless_missing os (RemoveOp clean))
             (and_then (do_op os (CreateOp clean (tm_Body h) (word_of_int (tm_Mode h))))
             (and_then (if tm_Whole h then nothing else refuse BrokenArchive)
             (and_then (chmodRaw os clean (tm_Mode h)) (chownEntry os clean (tm_Uid h) (tm_Gid h))))))
         | TypeOther \<Rightarrow> nothing)"

fun extract_members :: "os \<Rightarrow> string \<Rightarrow> member list \<Rightarrow> unpacking" where
  "extract_members os dst [] = nothing"
| "extract_members os dst (h # hs) = and_then (extract_member os dst h) (extract_members os dst hs)"

definition Extract :: "archiver \<Rightarrow> os \<Rightarrow> package \<Rightarrow> string \<Rightarrow> (pkg_error + Manifest) \<times> fs_op list" where
  "Extract a os pkg dst =
     (case Verify a pkg of
        Inl e \<Rightarrow> (Inl e, [])
      | Inr m \<Rightarrow>
          (case unpack a (snd (pkg ! 1)) of
             None \<Rightarrow> (Inl NotGzip, [])
           | Some (hs, ended) \<Rightarrow>
               (case extract_members os dst hs [] of
                  (Some e, ops) \<Rightarrow> (Inl e, ops)
                | (None, ops) \<Rightarrow> (if ended then Inr m else Inl BrokenArchive, ops))))"


section \<open>What is built verifies\<close>

lemma entry_member_shape:
  assumes "entry_member a stamp e = Inr h"
  shows "tm_Name h = Dst e" "tm_Whole h" "tm_ModTime h = stamp"
  using assms by (auto simp: entry_member_def Let_def split: if_splits option.splits)

lemma payload_members_paths:
  "payload_members a stamp es = Inr r \<Longrightarrow> map (\<lambda>(h, f). f_Path f) r = map Dst es"
  by (induction es arbitrary: r) (auto simp: entry_file_def Let_def split: sum.splits)

lemma payload_members_match:
  "payload_members a stamp es = Inr r \<Longrightarrow> (h, f) \<in> set r \<Longrightarrow>
     tm_Name h = f_Path f \<and> tm_Whole h \<and> (tm_Type h = TypeReg \<longrightarrow> f_SHA256 f = sha256_hex a (tm_Body h))"
  by (induction es arbitrary: r) (auto simp: entry_file_def Let_def entry_member_shape split: sum.splits)

lemma fold_mput_other: "p \<notin> f_Path ` set files \<Longrightarrow> mget (fold (\<lambda>f r. mput (f_Path f) f r) files r0) p = mget r0 p"
  by (induction files arbitrary: r0) auto

lemma record_files_get: "distinct (map f_Path files) \<Longrightarrow> f \<in> set files \<Longrightarrow> mget (record_files files) (f_Path f) = Some f"
proof -
  have "distinct (map f_Path files) \<Longrightarrow> f \<in> set files \<Longrightarrow> mget (fold (\<lambda>f r. mput (f_Path f) f r) files r0) (f_Path f) = Some f" for r0
    by (induction files arbitrary: r0) (auto simp: fold_mput_other)
  then show "distinct (map f_Path files) \<Longrightarrow> f \<in> set files \<Longrightarrow> mget (record_files files) (f_Path f) = Some f"
    by (simp add: record_files_def)
qed

lemma record_files_listed: "mget (record_files files) p = Some f \<Longrightarrow> f \<in> set files \<and> f_Path f = p"
proof -
  have "mget (fold (\<lambda>f r. mput (f_Path f) f r) files r0) p = Some f \<Longrightarrow> f \<in> set files \<and> f_Path f = p \<or> mget r0 p = Some f" for r0
    by (induction files arbitrary: r0) (fastforce split: if_splits)+
  from this [of "[]"] show "mget (record_files files) p = Some f \<Longrightarrow> f \<in> set files \<and> f_Path f = p"
    by (simp add: record_files_def)
qed

lemma verify_members_all:
  assumes "\<And>h. h \<in> set hs \<Longrightarrow> \<exists>f. mget recorded (tm_Name h) = Some f \<and>
             (tm_Type h = TypeReg \<longrightarrow> tm_Whole h \<and> f_SHA256 f = sha256_hex a (tm_Body h))"
  shows "verify_members a recorded hs seen = Inr (seen + length hs)"
  using assms
proof (induction hs arbitrary: seen)
  case (Cons h hs)
  obtain f where "mget recorded (tm_Name h) = Some f" "tm_Type h = TypeReg \<longrightarrow> tm_Whole h \<and> f_SHA256 f = sha256_hex a (tm_Body h)"
    using Cons.prems [of h] by auto
  then show ?case using Cons.IH [of "Suc seen"] Cons.prems by auto
qed simp

lemma verify_built:
  assumes r: "payload_members a stamp es = Inr r" and "distinct (map Dst es)"
  shows "verify_members a (record_files (map snd r)) (map fst r) seen = Inr (seen + length r)"
proof -
  have d: "distinct (map f_Path (map snd r))"
    using payload_members_paths [OF r] assms(2) by (simp add: case_prod_unfold comp_def)
  have "\<exists>f. mget (record_files (map snd r)) (tm_Name h) = Some f \<and>
          (tm_Type h = TypeReg \<longrightarrow> tm_Whole h \<and> f_SHA256 f = sha256_hex a (tm_Body h))" if hin: "h \<in> set (map fst r)" for h
  proof -
    obtain f where hf: "(h, f) \<in> set r" using hin by auto
    then have "mget (record_files (map snd r)) (f_Path f) = Some f" by (intro record_files_get [OF d]) force
    then show ?thesis using payload_members_match [OF r hf] by auto
  qed
  then show ?thesis using verify_members_all [of "map fst r"] by simp
qed

lemma Build_parts:
  assumes "Build a m es = Inr (m2, pkg)"
  obtains r p t where "payload_members a (bi_Epoch (m_Build m)) (sort_key Dst es) = Inr r" "pack a (map fst r) = Some p"
    "print_json a (put_Manifest m2) = Some t" "pkg = [(manifestMember, t), (payloadMember, p)]"
    "m_Files m2 = map snd r" "m_PayloadSHA256 m2 = sha256_hex a p" "m_FormatVersion m2 = FormatVersion"
  using assms by (auto simp: Build_def buildPayload_def Let_def split: if_splits sum.splits option.splits prod.splits)

text \<open>C7: A package that was built, from entries with different destinations, verifies: the reader gets the manifest back
  as the builder filled it in, every digest recomputed from the payload agrees, and the manifest alone reads the same.
\<close>

theorem Verify_Build:
  assumes "Build a m es = Inr (m2, pkg)" and "reads_back a" and "distinct (map Dst es)" and "Manifest_ok m2"
  shows "Verify a pkg = Inr m2 \<and> ReadManifest a pkg = Inr m2"
proof -
  obtain r p t where parts: "payload_members a (bi_Epoch (m_Build m)) (sort_key Dst es) = Inr r" "pack a (map fst r) = Some p"
    "print_json a (put_Manifest m2) = Some t" "pkg = [(manifestMember, t), (payloadMember, p)]"
    "m_Files m2 = map snd r" "m_PayloadSHA256 m2 = sha256_hex a p" "m_FormatVersion m2 = FormatVersion"
    using assms(1) by (rule Build_parts)
  have dec: "decode_manifest a t = Some m2"
    using assms(2,4) parts(3) by (simp add: decode_manifest_def reads_back_def Manifest_wire.get_put)
  have "distinct (map Dst (sort_key Dst es))"
    using assms(3) by (simp add: distinct_map)
  then have "verify_members a (record_files (m_Files m2)) (map fst r) 0 = Inr (length (m_Files m2))"
    using verify_built [OF parts(1)] parts(5) by simp
  then show ?thesis using dec parts assms(2) by (simp add: Verify_def ReadManifest_def reads_back_def)
qed


text \<open>A package of one file, and the library functions that read back what they wrote of it.\<close>

definition hello_entry :: Entry where
  "hello_entry = \<lparr>Dst = ''/bin/hi'', Src = ''hi'', e_Mode = 493, e_UID = 0, e_GID = 0, e_Link = [], Dir = False\<rparr>"

definition hello_manifest :: Manifest where
  "hello_manifest = zero_Manifest\<lparr>m_Name := ''hi'', m_Version := ''1'', m_Arch := ArchAny, m_License := ''MIT''\<rparr>"

definition hello_member :: member where
  "hello_member = \<lparr>tm_Name = ''/bin/hi'', tm_Mode = 493, tm_ModTime = 0, tm_Uid = 0, tm_Gid = 0, tm_Type = TypeReg,
                   tm_Linkname = [], tm_Body = ''hi'', tm_Whole = True\<rparr>"

definition hello_built :: Manifest where
  "hello_built = hello_manifest\<lparr>m_FormatVersion := 1, m_Type := ''component'', m_PayloadSHA256 := ''p'',
     m_Files := [\<lparr>f_Path = ''/bin/hi'', f_Mode = 493, f_Size = 2, f_SHA256 = ''hi'', f_Link = [], f_UID = 0, f_GID = 0\<rparr>]\<rparr>"

definition hello_archiver :: archiver where
  "hello_archiver =
     \<lparr>pack = (\<lambda>hs. if hs = [hello_member] then Some ''p'' else None),
      unpack = (\<lambda>_. Some ([hello_member], True)), sha256_hex = (\<lambda>c. c), read_src = (\<lambda>p. Some p),
      accepts = (\<lambda>_. True), print_json = (\<lambda>j. if j = put_Manifest hello_built then Some ''j'' else None),
      parse_json = (\<lambda>_. Some (put_Manifest hello_built))\<rparr>"

lemma hello_builds:
  "Build hello_archiver hello_manifest [hello_entry] =
     Inr (hello_built, [(''manifest.json'', ''j''), (''data.tar.gz'', ''p'')])"
proof -
  have m: "entry_member hello_archiver 0 hello_entry = Inr hello_member"
    by (simp add: entry_member_def hello_entry_def hello_archiver_def hello_member_def slash_def)
  have f: "entry_file hello_archiver hello_entry hello_member = hd (m_Files hello_built)"
    by (simp add: entry_file_def hello_entry_def hello_archiver_def hello_member_def hello_built_def)
  have "buildPayload hello_archiver 0 [hello_entry] = Inr (''p'', m_Files hello_built)"
    by (simp add: buildPayload_def m f) (simp add: hello_archiver_def hello_built_def)
  moreover have "bi_Epoch (m_Build hello_manifest) = 0"
    by (simp add: hello_manifest_def zero_Manifest_def zero_BuildInfo_def)
  moreover have "hello_manifest\<lparr>m_FormatVersion := 1, m_Type := ''component'', m_Files := m_Files hello_built, m_PayloadSHA256 := ''p''\<rparr> = hello_built"
    by (simp add: hello_built_def)
  ultimately show ?thesis
    by (simp add: Build_def Let_def FormatVersion_def TypeComponent_def manifestMember_def payloadMember_def)
       (simp add: hello_manifest_def zero_Manifest_def ArchAny_def hello_archiver_def TypeComponent_def manifestMember_def payloadMember_def)
qed

lemma hello_ok: "reads_back hello_archiver" "Manifest_ok hello_built"
proof -
  show "reads_back hello_archiver" by (simp add: reads_back_def hello_archiver_def)
  have "valid_utf8 ''hi''" "valid_utf8 ''1''" "valid_utf8 ''any''" "valid_utf8 ''MIT''" "valid_utf8 ''p''" "valid_utf8 ''component''" "valid_utf8 ''/bin/hi''"
    by (rule ascii_valid_utf8, simp)+
  then show "Manifest_ok hello_built"
    by (simp add: Manifest_ok_def hello_built_def hello_manifest_def zero_Manifest_def zero_BuildInfo_def zero_Signature_def
      BuildInfo_ok_def Signature_ok_def PkgFile_ok_def ArchAny_def is_int_def int_min_def int_max_def valid_utf8_empty)
qed

theorem Verify_Build_witness:
  "Verify hello_archiver [(''manifest.json'', ''j''), (''data.tar.gz'', ''p'')] = Inr hello_built"
  using Verify_Build [OF hello_builds hello_ok(1) _ hello_ok(2)] by simp

text \<open>C27: Builds are reproducible: the order the entries were found in does not reach the package. Any rearrangement of
  entries with different destinations gives the same package, or the same error.
\<close>

theorem Build_order:
  assumes "mset es = mset es'" and "distinct (map Dst es)"
  shows "Build a m es = Build a m es'"
proof -
  have "inj_on Dst (set es)" using assms(2) by (simp add: distinct_map)
  then have "sort_key Dst es = sort_key Dst es'"
    using assms(1) by (intro sort_key_inj_key_eq) simp_all
  then show ?thesis by (simp add: Build_def)
qed

theorem Build_order_witness:
  "Build hello_archiver hello_manifest [hello_entry, hello_entry\<lparr>Dst := ''/a''\<rparr>] =
   Build hello_archiver hello_manifest [hello_entry\<lparr>Dst := ''/a''\<rparr>, hello_entry]"
  by (rule Build_order) (simp_all add: hello_entry_def)

section \<open>What verification shows\<close>

lemma hello_verifies: "Verify hello_archiver [(''manifest.json'', ''j''), (''data.tar.gz'', ''p'')] = Inr hello_built"
proof -
  have "decode_manifest hello_archiver ''j'' = Some hello_built"
    using hello_ok(2) by (simp add: decode_manifest_def hello_archiver_def Manifest_wire.get_put)
  then show ?thesis
    by (simp add: Verify_def manifestMember_def payloadMember_def record_files_def hello_archiver_def hello_built_def hello_member_def)
qed

lemma verify_members_sound:
  "verify_members a recorded hs seen = Inr n \<Longrightarrow>
     n = seen + length hs \<and>
     (\<forall>h \<in> set hs. \<exists>f. mget recorded (tm_Name h) = Some f \<and>
        (tm_Type h = TypeReg \<longrightarrow> tm_Whole h \<and> sha256_hex a (tm_Body h) = f_SHA256 f))"
  by (induction hs arbitrary: seen) (fastforce split: option.splits if_splits)+

lemma Verify_parts:
  assumes "Verify a pkg = Inr m"
  obtains t p rest hs where "pkg = (manifestMember, t) # (payloadMember, p) # rest" "decode_manifest a t = Some m"
    "sha256_hex a p = m_PayloadSHA256 m" "unpack a p = Some (hs, True)"
    "verify_members a (record_files (m_Files m)) hs 0 = Inr (length (m_Files m))"
  using assms by (auto simp: Verify_def split: list.splits prod.splits if_splits option.splits sum.splits)

text \<open>C6: What verification shows of a package it accepts: the payload has the digest the manifest records, every member
  is a file the manifest lists, every regular one can be read to its end and has the digest listed for it, and
  there are as many members as listed files; so where no name is repeated in the payload, every listed file is there.
\<close>

theorem Verify_sound:
  assumes "Verify a pkg = Inr m"
  shows "\<exists>hs. unpack a (snd (pkg ! 1)) = Some (hs, True) \<and> sha256_hex a (snd (pkg ! 1)) = m_PayloadSHA256 m \<and>
    (\<forall>h \<in> set hs. \<exists>f \<in> set (m_Files m). f_Path f = tm_Name h \<and>
       (tm_Type h = TypeReg \<longrightarrow> tm_Whole h \<and> sha256_hex a (tm_Body h) = f_SHA256 f)) \<and>
    length hs = length (m_Files m) \<and>
    (distinct (map tm_Name hs) \<longrightarrow> f_Path ` set (m_Files m) = tm_Name ` set hs)"
proof -
  obtain t p rest hs where parts: "pkg = (manifestMember, t) # (payloadMember, p) # rest" "decode_manifest a t = Some m"
    "sha256_hex a p = m_PayloadSHA256 m" "unpack a p = Some (hs, True)"
    "verify_members a (record_files (m_Files m)) hs 0 = Inr (length (m_Files m))"
    using assms by (rule Verify_parts)
  have len: "length hs = length (m_Files m)" using verify_members_sound [OF parts(5)] by simp
  have each: "\<forall>h \<in> set hs. \<exists>f \<in> set (m_Files m). f_Path f = tm_Name h \<and>
       (tm_Type h = TypeReg \<longrightarrow> tm_Whole h \<and> sha256_hex a (tm_Body h) = f_SHA256 f)"
    using verify_members_sound [OF parts(5)] record_files_listed by metis
  have "f_Path ` set (m_Files m) = tm_Name ` set hs" if "distinct (map tm_Name hs)"
  proof (rule sym, rule card_seteq)
    show "tm_Name ` set hs \<subseteq> f_Path ` set (m_Files m)" using each by force
    have "card (tm_Name ` set hs) = length hs" using that distinct_card by fastforce
    then show "card (f_Path ` set (m_Files m)) \<le> card (tm_Name ` set hs)"
      using len by (metis card_length length_map set_map)
  qed simp
  then show ?thesis using parts each len by simp
qed

theorem Verify_sound_witness:
  "\<exists>hs. unpack hello_archiver ''p'' = Some (hs, True) \<and> length hs = length (m_Files hello_built)"
  using Verify_sound [OF hello_verifies] by auto

section \<open>Where unpacking writes\<close>

primrec op_path :: "fs_op \<Rightarrow> string" where
  "op_path (MkdirAllOp p _) = p"
| "op_path (ChmodOp p _) = p"
| "op_path (RemoveOp p) = p"
| "op_path (SymlinkOp _ p) = p"
| "op_path (CreateOp p _ _) = p"
| "op_path (LchownOp p _ _) = p"

text \<open>Programs that only make operations of one kind.\<close>

definition only :: "(fs_op \<Rightarrow> bool) \<Rightarrow> unpacking \<Rightarrow> bool" where
  "only P f \<longleftrightarrow> (\<forall>tr. list_all P tr \<longrightarrow> list_all P (snd (f tr)))"

lemma only_basic:
  "only P nothing" "only P (refuse e)" "P op \<Longrightarrow> only P (do_op os op)" "P op \<Longrightarrow> only P (try_op os op)"
  "P op \<Longrightarrow> only P (do_unless_missing os op)" "only P f \<Longrightarrow> only P g \<Longrightarrow> only P (and_then f g)"
  by (auto simp: only_def nothing_def refuse_def do_op_def try_op_def do_unless_missing_def and_then_def split: prod.split option.split)

lemma only_extract_member:
  assumes below: "\<And>q. is_below (Clean dst) q \<Longrightarrow> q \<in> P" and dirs: "Clean dst \<in> P"
  shows "only (\<lambda>op. op_path op \<in> P) (extract_member os dst h)"
proof (cases "is_below (Clean dst) (Join dst (Clean (slash # tm_Name h)))")
  case True
  have ne: "Clean p \<noteq> []" for p by (simp add: Clean_def Let_def)
  obtain x where x: "Join dst (Clean (slash # tm_Name h)) = Clean x"
    using ne [of "slash # tm_Name h"] by (cases "dst = []") (auto simp: Join_def)
  have "Dirname (Clean x) \<in> P" using Dirname_below [of "Clean dst" x] ne True x below dirs by auto
  moreover have "Clean x \<in> P" using True x below by auto
  ultimately show ?thesis
    using True x by (cases "tm_Type h") (auto simp: extract_member_def is_below_def chmodRaw_def chownEntry_def Let_def intro!: only_basic)
next
  case False
  then show ?thesis by (simp add: extract_member_def is_below_def only_basic)
qed

text \<open>C13: Whatever the package holds and however the target's system answers, every path an unpacking operates on is the
  target directory or is written below it, and a package that does not verify changes nothing.
\<close>

theorem Extract_confined:
  "(op \<in> set (snd (Extract a os pkg dst)) \<longrightarrow> op_path op = Clean dst \<or> is_below (Clean dst) (op_path op)) \<and>
   ((\<exists>e. Verify a pkg = Inl e) \<longrightarrow> snd (Extract a os pkg dst) = [])"
proof -
  define P where "P = {p. p = Clean dst \<or> is_below (Clean dst) p}"
  have "only (\<lambda>op. op_path op \<in> P) (extract_member os dst h)" for h
    by (rule only_extract_member) (simp_all add: P_def)
  then have members: "only (\<lambda>op. op_path op \<in> P) (extract_members os dst hs)" for hs
    by (induction hs) (simp_all add: only_basic)
  have "\<forall>op \<in> set (snd (extract_members os dst hs [])). op_path op \<in> P" for hs
    using spec [OF members [of hs, unfolded only_def], of "[]"] by (simp add: list_all_iff)
  then have "\<forall>op \<in> set (snd (Extract a os pkg dst)). op_path op \<in> P"
    by (auto simp: Extract_def split: sum.split option.split prod.split) (metis snd_conv)+
  then show ?thesis by (auto simp: P_def Extract_def)
qed


text \<open>The operations a member asks for, when none fails, at the place the package gives it below the target.\<close>

definition mode_ops :: "string \<Rightarrow> int \<Rightarrow> fs_op list" where
  "mode_ops p mode = (let m = (word_of_int mode :: 32 word) AND 4095 in if m = 0 then [] else [ChmodOp p m])"

definition owner_ops :: "string \<Rightarrow> int \<Rightarrow> int \<Rightarrow> fs_op list" where
  "owner_ops p uid gid = (if uid = 0 \<and> gid = 0 then [] else [LchownOp p uid gid])"

definition member_ops :: "string \<Rightarrow> member \<Rightarrow> fs_op list" where
  "member_ops dst h =
     (let p = Clean dst @ Clean (slash # tm_Name h)
      in case tm_Type h of
           TypeDir \<Rightarrow> MkdirAllOp p 493 # mode_ops p (tm_Mode h)
         | TypeSymlink \<Rightarrow> [MkdirAllOp (Dirname p) 493, RemoveOp p, SymlinkOp (tm_Linkname h) p]
         | TypeReg \<Rightarrow>
             [MkdirAllOp (Dirname p) 493, RemoveOp p, CreateOp p (tm_Body h) (word_of_int (tm_Mode h))] @
             mode_ops p (tm_Mode h) @ owner_ops p (tm_Uid h) (tm_Gid h)
         | TypeOther \<Rightarrow> [])"

lemma unpacking_ends:
  "nothing tr = (None, tr') \<longleftrightarrow> tr' = tr" "refuse e tr \<noteq> (None, tr')"
  "do_op os op tr = (None, tr') \<longleftrightarrow> os tr op = OpDone \<and> tr' = tr @ [op]"
  "try_op os op tr = (None, tr') \<longleftrightarrow> tr' = tr @ [op]"
  "do_unless_missing os op tr = (None, tr') \<longleftrightarrow> os tr op \<noteq> OpFailed \<and> tr' = tr @ [op]"
  "and_then f g tr = (None, tr') \<longleftrightarrow> (\<exists>t. f tr = (None, t) \<and> g t = (None, tr'))"
  "chmodRaw os p mode tr = (None, tr') \<Longrightarrow> tr' = tr @ mode_ops p mode"
  "chownEntry os p uid gid tr = (None, tr') \<Longrightarrow> tr' = tr @ owner_ops p uid gid"
  by (auto simp: nothing_def refuse_def do_op_def try_op_def do_unless_missing_def and_then_def chmodRaw_def
    chownEntry_def mode_ops_def owner_ops_def Let_def split: prod.splits option.splits if_splits)

lemma extract_member_done:
  assumes "extract_member os dst h tr = (None, tr')" and "Clean dst \<notin> {[slash], ''.''}"
  shows "tr' = tr @ member_ops dst h"
proof -
  let ?n = "Clean (slash # tm_Name h)"
  have below: "is_below (Clean dst) (Join dst ?n)"
    using assms(1) by (auto simp: extract_member_def is_below_def Let_def unpacking_ends split: if_splits)
  have dst: "dst \<noteq> []" using assms(2) by (auto simp: Clean_def)
  have "?n \<noteq> [slash]"
  proof
    assume "?n = [slash]"
    moreover have "Clean (dst @ [slash, slash]) = Clean dst"
      using dst Split_append_sep [of slash dst "[slash]"] by (simp add: Clean_spell)
    ultimately have "Join dst ?n = Clean dst" using dst by (simp add: Join_def)
    then show False using below by (auto simp: is_below_def dest: prefix_length_le)
  qed
  then have "Join dst ?n = Clean dst @ ?n" using Join_rooted dst assms(2) by blast
  then show ?thesis
    using assms(1) below
    by (cases "tm_Type h") (auto simp: extract_member_def member_ops_def is_below_def Let_def unpacking_ends(1-6) split: if_splits dest!: unpacking_ends(7,8))
qed

text \<open>An unpacking that succeeds, into any directory but the root and the current one, makes exactly the operations the
  members ask for, in the order of the payload and each at its own path below the target: what was at the path of a
  link or a file is removed before it is made, a file is created with its content and then given its mode and
  owner. So the target holds every member of a package that verified.
\<close>

theorem Extract_places:
  assumes "Extract a os pkg dst = (Inr m, ops)" and "Clean dst \<notin> {[slash], ''.''}"
  shows "\<exists>hs. unpack a (snd (pkg ! 1)) = Some (hs, True) \<and> Verify a pkg = Inr m \<and> ops = concat (map (member_ops dst) hs)"
proof -
  have "extract_members os dst hs tr = (None, tr') \<Longrightarrow> tr' = tr @ concat (map (member_ops dst) hs)" for hs tr tr'
  proof (induction hs arbitrary: tr)
    case (Cons h hs)
    then obtain t where "extract_member os dst h tr = (None, t)" "tr' = t @ concat (map (member_ops dst) hs)"
      by (auto simp: unpacking_ends(6))
    then show ?case using extract_member_done [OF _ assms(2)] by auto
  qed (simp add: unpacking_ends(1))
  from this [of _ "[]"] show ?thesis
    using assms(1) by (auto simp: Extract_def split: sum.splits option.splits prod.splits if_splits)
qed


lemma hello_extracts:
  "Extract hello_archiver (\<lambda>_ _. OpDone) [(''manifest.json'', ''j''), (''data.tar.gz'', ''p'')] ''/r'' =
     (Inr hello_built,
      [MkdirAllOp ''/r/bin'' 493, RemoveOp ''/r/bin/hi'', CreateOp ''/r/bin/hi'' ''hi'' 493, ChmodOp ''/r/bin/hi'' 493])"
proof -
  have p: "Clean ''/r'' = ''/r''" "Clean ''//bin/hi'' = ''/bin/hi''" "Join ''/r'' ''/bin/hi'' = ''/r/bin/hi''" "Dirname ''/r/bin/hi'' = ''/r/bin''"
    by (simp_all add: Join_def Dirname_def Clean_def slash_def clean_step_def)
  have "extract_member (\<lambda>_ _. OpDone) ''/r'' hello_member [] = (None,
      [MkdirAllOp ''/r/bin'' 493, RemoveOp ''/r/bin/hi'', CreateOp ''/r/bin/hi'' ''hi'' 493, ChmodOp ''/r/bin/hi'' 493])"
    by (simp add: extract_member_def hello_member_def slash_def p [unfolded slash_def] Let_def and_then_def do_op_def do_unless_missing_def
      nothing_def chmodRaw_def chownEntry_def)
  moreover have "unpack hello_archiver ''p'' = Some ([hello_member], True)" by (simp add: hello_archiver_def)
  ultimately show ?thesis by (simp add: Extract_def hello_verifies and_then_def nothing_def)
qed

theorem Extract_confined_witness:
  "is_below ''/r'' (op_path (RemoveOp ''/r/bin/hi''))"
proof -
  have "Clean ''/r'' = ''/r''" by (simp add: Clean_def slash_def clean_step_def)
  then show ?thesis
    using Extract_confined [of "RemoveOp ''/r/bin/hi''" hello_archiver "\<lambda>_ _. OpDone" "[(''manifest.json'', ''j''), (''data.tar.gz'', ''p'')]" "''/r''"]
    by (simp add: hello_extracts)
qed

theorem Extract_places_witness:
  "\<exists>hs. unpack hello_archiver ''p'' = Some (hs, True) \<and>
     CreateOp ''/r/bin/hi'' ''hi'' 493 \<in> set (concat (map (member_ops ''/r'') hs))"
proof -
  have "Clean ''/r'' \<notin> {[slash], ''.''}" by (simp add: Clean_def slash_def clean_step_def)
  from Extract_places [OF hello_extracts this]
  obtain hs where "unpack hello_archiver ''p'' = Some (hs, True)" "concat (map (member_ops ''/r'') hs) =
      [MkdirAllOp ''/r/bin'' 493, RemoveOp ''/r/bin/hi'', CreateOp ''/r/bin/hi'' ''hi'' 493, ChmodOp ''/r/bin/hi'' 493]"
    by auto
  then show ?thesis by (intro exI [of _ hs]) (simp del: set_concat)
qed

section \<open>The target that cannot be unpacked into\<close>

lemma root_never_below: "Clean dst = [slash] \<Longrightarrow> \<not> is_below (Clean dst) (Clean p)"
proof
  assume "Clean dst = [slash]" "is_below (Clean dst) (Clean p)"
  then have pre: "prefix [slash, slash] (Clean p)" by (simp add: is_below_def)
  obtain r st where c: "Clean p = spell r st" and st: "normal r st" by (rule Clean_normal)
  show False
  proof (cases "st = []")
    case True
    then show False using pre c by (auto simp: spell_def slash_def split: if_splits)
  next
    case False
    then show False using pre c rev_st_hd [OF st] spell_rooted [OF st]
      by (cases "join_path (rev st)") (auto simp: spell_def prefix_Cons split: if_splits)
  qed
qed

text \<open>C40: The check that keeps members below the target compares with the target's path and a slash, which for the root is
  two slashes: into the root directory, a package that verified and holds anything is refused at its first member, and
  nothing is written.
\<close>

theorem Extract_into_root:
  assumes "Verify a pkg = Inr m" and "unpack a (snd (pkg ! 1)) = Some (h # hs, True)" and "Clean dst = [slash]"
  shows "Extract a os pkg dst = (Inl (EscapesTarget (tm_Name h)), [])"
proof -
  have ne: "Clean p \<noteq> []" for p by (simp add: Clean_def Let_def)
  obtain x where "Join dst (Clean (slash # tm_Name h)) = Clean x"
    using ne [of "slash # tm_Name h"] by (cases "dst = []") (auto simp: Join_def)
  then have "\<not> prefix (Clean dst @ [slash]) (Join dst (Clean (slash # tm_Name h)))"
    using root_never_below [OF assms(3), of x] by (simp add: is_below_def)
  then have "extract_members os dst (h # hs) [] = (Some (EscapesTarget (tm_Name h)), [])"
    by (simp add: extract_member_def and_then_def refuse_def)
  then show ?thesis using assms(1,2) by (simp add: Extract_def)
qed

theorem Extract_into_root_witness:
  "Extract hello_archiver (\<lambda>_ _. OpDone) [(''manifest.json'', ''j''), (''data.tar.gz'', ''p'')] ''/'' =
     (Inl (EscapesTarget ''/bin/hi''), [])"
proof -
  have "Clean ''/'' = [slash]" by (simp add: Clean_def slash_def clean_step_def)
  moreover have "unpack hello_archiver ''p'' = Some ([hello_member], True)" by (simp add: hello_archiver_def)
  ultimately show ?thesis
    using Extract_into_root [OF hello_verifies, of hello_member "[]" "''/''" "\<lambda>_ _. OpDone"] by (simp add: hello_member_def)
qed

text \<open>The count of members does not see a name twice: a package that lists a second file and has the first one twice
  instead is accepted.\<close>

definition twice_manifest :: Manifest where
  "twice_manifest = hello_built\<lparr>m_Files := m_Files hello_built @ [(hd (m_Files hello_built))\<lparr>f_Path := ''/bin/lo''\<rparr>]\<rparr>"

definition twice_archiver :: archiver where
  "twice_archiver = hello_archiver\<lparr>unpack := (\<lambda>_. Some ([hello_member, hello_member], True)), parse_json := (\<lambda>_. Some (put_Manifest twice_manifest))\<rparr>"

lemma twice_ok: "Manifest_ok twice_manifest"
proof -
  have "valid_utf8 ''/bin/lo''" by (rule ascii_valid_utf8) simp
  then show ?thesis using hello_ok(2) by (simp add: Manifest_ok_def twice_manifest_def hello_built_def PkgFile_ok_def)
qed

lemma Verify_missing_file:
  "Verify twice_archiver [(''manifest.json'', ''j''), (''data.tar.gz'', ''p'')] = Inr twice_manifest \<and>
   ''/bin/lo'' \<in> f_Path ` set (m_Files twice_manifest) \<and>
   unpack twice_archiver ''p'' = Some ([hello_member, hello_member], True) \<and> tm_Name hello_member = ''/bin/hi''"
proof -
  have "decode_manifest twice_archiver ''j'' = Some twice_manifest"
    using twice_ok by (simp add: decode_manifest_def twice_archiver_def Manifest_wire.get_put)
  then show ?thesis
    by (simp add: Verify_def manifestMember_def payloadMember_def record_files_def twice_archiver_def hello_archiver_def
      twice_manifest_def hello_built_def hello_member_def)
qed

text \<open>The check of a path is of its text: through a link the package brings itself, the next member's path, below the
  target as written, is outside it.\<close>

lemma Extract_through_link:
  "extract_members (\<lambda>_ _. OpDone) ''/r''
     [hello_member\<lparr>tm_Name := ''/l'', tm_Type := TypeSymlink, tm_Linkname := ''/etc''\<rparr>, hello_member\<lparr>tm_Name := ''/l/x''\<rparr>] [] =
   (None, [MkdirAllOp ''/r'' 493, RemoveOp ''/r/l'', SymlinkOp ''/etc'' ''/r/l'',
           MkdirAllOp ''/r/l'' 493, RemoveOp ''/r/l/x'', CreateOp ''/r/l/x'' ''hi'' 493, ChmodOp ''/r/l/x'' 493])"
proof -
  have p: "Clean ''/r'' = ''/r''" "Clean ''//l'' = ''/l''" "Join ''/r'' ''/l'' = ''/r/l''" "Dirname ''/r/l'' = ''/r''"
    "Clean ''//l/x'' = ''/l/x''" "Join ''/r'' ''/l/x'' = ''/r/l/x''" "Dirname ''/r/l/x'' = ''/r/l''"
    by (simp_all add: Join_def Dirname_def Clean_def slash_def clean_step_def)
  show ?thesis
    by (simp add: extract_member_def hello_member_def slash_def p [unfolded slash_def] Let_def and_then_def do_op_def try_op_def do_unless_missing_def
      nothing_def chmodRaw_def chownEntry_def)
qed

end
