(* ===== verification/Acl.thy ===== *)
theory Acl
  imports Switchapi
begin

text \<open>
  Access-list rules, \<^verbatim>\<open>internal/switchapi/acl.go\<close>: their text form in both directions and the check a
  datapath runs before it holds one.
\<close>

section \<open>Fields of a line\<close>

text \<open>\<^verbatim>\<open>strings.Fields\<close>: the maximal runs of characters that are not white space.\<close>

function fields_from :: "string \<Rightarrow> string \<Rightarrow> string list" where
  "fields_from cur [] = (if cur = [] then [] else [cur])"
| "fields_from cur (c # cs) =
     (case space_at go_spaces (c # cs) of
        Some n \<Rightarrow> (if cur = [] then [] else [cur]) @ fields_from [] (drop n (c # cs))
      | None \<Rightarrow> fields_from (cur @ [c]) cs)"
  by pat_completeness auto
termination
proof (relation "measure (\<lambda>(_, s). length s)", goal_cases)
  case (3 cur c cs n)
  then show ?case using space_at_bounds [of go_spaces "c # cs" n] by simp
qed simp_all

definition Fields :: "string \<Rightarrow> string list" where
  "Fields s = fields_from [] s"

text \<open>The format \<open>'%s'\<close> followed by \<open>f\<close>.\<close>

abbreviation quoted :: "string \<Rightarrow> string" where
  "quoted f \<equiv> CHR 0x27 # CHR ''%'' # CHR ''s'' # CHR 0x27 # f"

section \<open>Rules\<close>

datatype ACLAction = ACLPermit | ACLDeny

definition ACLAction_String :: "ACLAction \<Rightarrow> string" where
  "ACLAction_String a = (if a = ACLDeny then ''deny'' else ''permit'')"

definition ACLAny :: int where
  "ACLAny = -1"

definition ACLMaxSeq :: int where
  "ACLMaxSeq = 999999"

record ACLRule =
  Seq :: int
  Family :: int
  Action :: ACLAction
  InPort :: string
  Proto :: int
  Src :: Prefix
  Dst :: Prefix
  SrcPort :: int
  DstPort :: int

record ACLEntry =
  ae_Seq :: int
  ae_Text :: string
  ae_Rule :: ACLRule
  ae_Parsed :: bool
  ae_Installed :: bool
  ae_Packets :: "64 word"
  ae_Error :: string

definition ACLProtocols :: "(string, int) gomap" where
  "ACLProtocols =
     [(''icmp'', 1), (''igmp'', 2), (''tcp'', 6), (''udp'', 17), (''gre'', 47), (''esp'', 50),
      (''ah'', 51), (''icmpv6'', 58), (''icmp6'', 58), (''ospf'', 89), (''vrrp'', 112), (''sctp'', 132)]"

definition aclProtoName :: "int \<Rightarrow> string" where
  "aclProtoName n =
     (case List.find (\<lambda>(name, v). v = n \<and> name \<noteq> ''icmp6'') ACLProtocols of
        Some (name, _) \<Rightarrow> name
      | None \<Rightarrow> Itoa n)"

section \<open>Parsing\<close>

definition parsePrefixLoose :: "string \<Rightarrow> Prefix option" where
  "parsePrefixLoose s =
     (if CHR ''/'' \<notin> set s
      then map_option (\<lambda>a. PrefixFrom a (int (BitLen a))) (ParseAddr s)
      else map_option Masked (ParsePrefix s))"

text \<open>The closures of \<^verbatim>\<open>ParseACLRule\<close>: \<open>setFamily\<close> takes the family so far and answers the new one.\<close>

definition setFamily :: "int \<Rightarrow> string \<Rightarrow> int \<Rightarrow> sw_error + int" where
  "setFamily fam why family =
     (if family = 0 \<or> family = fam then Inr fam else Inl (Errorf (quoted '' is IPv%d in an IPv%d rule'') [Str why, Num fam, Num family]))"

definition l4 :: "string \<Rightarrow> sw_error + int" where
  "l4 s =
     (case Atoi s of
        None \<Rightarrow> Inl (Errorf (quoted '' is not an L4 port'') [Str s])
      | Some n \<Rightarrow> if n < 0 \<or> n > 65535 then Inl (Errorf (quoted '' is not an L4 port'') [Str s]) else Inr n)"

definition parse_proto :: "string \<Rightarrow> sw_error + int" where
  "parse_proto arg =
     (case mget ACLProtocols arg of
        Some n \<Rightarrow> Inr n
      | None \<Rightarrow>
          (case Atoi arg of
             None \<Rightarrow> Inl (Errorf (quoted '' is not an IP protocol'') [Str arg])
           | Some n \<Rightarrow> if n < 0 \<or> n > 255 then Inl (Errorf (quoted '' is not an IP protocol'') [Str arg]) else Inr n))"

definition family_of_text :: "string \<Rightarrow> int" where
  "family_of_text arg = (if CHR '':'' \<in> set arg then 6 else 4)"

text \<open>One keyword and its value.\<close>

definition parse_match :: "string \<Rightarrow> string \<Rightarrow> ACLRule \<Rightarrow> int \<Rightarrow> sw_error + ACLRule \<times> int" where
  "parse_match w arg r family =
     (if w = ''in'' then Inr (r\<lparr>InPort := arg\<rparr>, family)
      else if w = ''proto'' then
        (case parse_proto arg of Inl e \<Rightarrow> Inl e | Inr n \<Rightarrow> Inr (r\<lparr>Proto := n\<rparr>, family))
      else if w = ''src'' \<or> w = ''dst'' then
        (case setFamily (family_of_text arg) arg family of
           Inl e \<Rightarrow> Inl e
         | Inr family' \<Rightarrow>
             (case parsePrefixLoose arg of
                None \<Rightarrow> Inl (Errorf (quoted '' is not an IPv%d prefix'') [Str arg, Num (family_of_text arg)])
              | Some p \<Rightarrow> Inr (if w = ''src'' then r\<lparr>Src := p\<rparr> else r\<lparr>Dst := p\<rparr>, family')))
      else if w = ''sport'' then
        (case l4 arg of Inl e \<Rightarrow> Inl e | Inr n \<Rightarrow> Inr (r\<lparr>SrcPort := n\<rparr>, family))
      else if w = ''dport'' then
        (case l4 arg of Inl e \<Rightarrow> Inl e | Inr n \<Rightarrow> Inr (r\<lparr>DstPort := n\<rparr>, family))
      else Inl (Errorf (quoted '': not a match keyword'') [Str w]))"

text \<open>The loop over the words after the action.\<close>

fun parse_words :: "string list \<Rightarrow> ACLRule \<Rightarrow> int \<Rightarrow> sw_error + ACLRule \<times> int" where
  "parse_words [] r family = Inr (r, family)"
| "parse_words (w # ws) r family =
     (if w = ''ipv4'' \<or> w = ''ip'' then
        (case setFamily 4 w family of Inl e \<Rightarrow> Inl e | Inr family' \<Rightarrow> parse_words ws r family')
      else if w = ''ipv6'' \<or> w = ''ip6'' then
        (case setFamily 6 w family of Inl e \<Rightarrow> Inl e | Inr family' \<Rightarrow> parse_words ws r family')
      else (case ws of
              [] \<Rightarrow> Inl (Errorf (quoted '' needs a value'') [Str w])
            | arg # ws' \<Rightarrow>
                (case parse_match w arg r family of
                   Inl e \<Rightarrow> Inl e
                 | Inr (r', family') \<Rightarrow> parse_words ws' r' family')))"

definition needs_l4_proto :: "ACLRule \<Rightarrow> bool" where
  "needs_l4_proto r \<longleftrightarrow> (SrcPort r \<noteq> ACLAny \<or> DstPort r \<noteq> ACLAny) \<and> Proto r \<noteq> 6 \<and> Proto r \<noteq> 17"

definition blank_rule :: "int \<Rightarrow> ACLRule" where
  "blank_rule seq =
     \<lparr>Seq = seq, Family = 0, Action = ACLPermit, InPort = [], Proto = ACLAny,
      Src = zero_prefix, Dst = zero_prefix, SrcPort = ACLAny, DstPort = ACLAny\<rparr>"

definition ParseACLRule :: "int \<Rightarrow> string \<Rightarrow> sw_error + ACLRule" where
  "ParseACLRule seq txt =
     (if seq < 1 \<or> seq > ACLMaxSeq then Inl (Errorf ''sequence %d is outside 1..%d'' [Num seq, Num ACLMaxSeq])
      else case Fields txt of
             [] \<Rightarrow> Inl (Errorf ''empty rule'' [])
           | w # ws \<Rightarrow>
               (if w \<noteq> ''permit'' \<and> w \<noteq> ''deny'' then Inl (Errorf (quoted '': expected permit or deny'') [Str w])
                else let r = (blank_rule seq)\<lparr>Action := (if w = ''permit'' then ACLPermit else ACLDeny)\<rparr>
                     in case parse_words ws r 0 of
                          Inl e \<Rightarrow> Inl e
                        | Inr (r', family) \<Rightarrow>
                            (let r'' = r'\<lparr>Family := (if family = 0 then 4 else family)\<rparr>
                             in if needs_l4_proto r'' then Inl (Errorf ''sport/dport need proto tcp or udp'' []) else Inr r'')))"

section \<open>Printing\<close>

definition ACLRule_String :: "ACLRule \<Rightarrow> string" where
  "ACLRule_String r =
     ACLAction_String (Action r)
     @ (if Family r = 6 then '' ipv6'' else [])
     @ (if InPort r \<noteq> [] then '' in '' @ InPort r else [])
     @ (if Proto r \<noteq> ACLAny then '' proto '' @ aclProtoName (Proto r) else [])
     @ (if IsValid (Src r) then '' src '' @ Prefix_String (Src r) else [])
     @ (if IsValid (Dst r) then '' dst '' @ Prefix_String (Dst r) else [])
     @ (if SrcPort r \<noteq> ACLAny then '' sport '' @ Itoa (SrcPort r) else [])
     @ (if DstPort r \<noteq> ACLAny then '' dport '' @ Itoa (DstPort r) else [])"

section \<open>The check before a rule is held\<close>

text \<open>\<^verbatim>\<open>hasPort\<close> may be \<^verbatim>\<open>nil\<close>; \<open>Prefix.Addr\<close> of a valid prefix is its address.\<close>

definition Validate :: "(string \<Rightarrow> bool) option \<Rightarrow> ACLRule \<Rightarrow> error" where
  "Validate hasPort r =
     (if Seq r < 1 \<or> Seq r > ACLMaxSeq then Some (Errorf ''sequence %d is outside 1..%d'' [Num (Seq r), Num ACLMaxSeq])
      else if Family r \<noteq> 4 \<and> Family r \<noteq> 6 then Some (Errorf ''family must be 4 or 6, not %d'' [Num (Family r)])
      else if InPort r \<noteq> [] \<and> (case hasPort of None \<Rightarrow> False | Some has \<Rightarrow> \<not> has (InPort r))
        then Some (Errorf (quoted '' is not a port on this switch'') [Str (InPort r)])
      else if (IsValid (Src r) \<and> Is6 (pAddr (Src r)) \<noteq> (Family r = 6))
              \<or> (IsValid (Dst r) \<and> Is6 (pAddr (Dst r)) \<noteq> (Family r = 6))
        then Some (Errorf ''a prefix in the rule is not IPv%d'' [Num (Family r)])
      else if needs_l4_proto r then Some (Errorf ''sport/dport need proto tcp or udp'' [])
      else None)"

section \<open>Lines and their fields\<close>

primrec no_space_in :: "string \<Rightarrow> bool" where
  "no_space_in [] \<longleftrightarrow> True"
| "no_space_in (c # s) \<longleftrightarrow> space_at go_spaces (c # s) = None \<and> no_space_in s"

definition field :: "string \<Rightarrow> bool" where
  "field w \<longleftrightarrow> w \<noteq> [] \<and> no_space_in w"

lemma no_space_in_solid: "\<forall>c \<in> set w. solid c \<Longrightarrow> no_space_in w"
  by (induction w) (simp_all add: space_at_solid)

lemma field_solid: "w \<noteq> [] \<Longrightarrow> \<forall>c \<in> set w. solid c \<Longrightarrow> field w"
  by (simp add: field_def no_space_in_solid)

lemma space_at_blank: "space_at go_spaces (CHR '' '' # s) = Some 1"
  by (simp add: space_at_def go_spaces_def)

lemma space_before_blank:
  assumes "space_at go_spaces (c # s) = None"
  shows "space_at go_spaces (c # s @ CHR '' '' # t) = None"
proof -
  have "\<not> prefix sp (c # s @ CHR '' '' # t)" if sp: "sp \<in> set go_spaces" "sp \<noteq> []" for sp
  proof (cases "CHR '' '' \<in> set sp")
    case True
    then have "sp = [CHR '' '']" using sp(1) by (auto simp: go_spaces_def)
    moreover have "\<not> prefix sp (c # s)" using assms sp by (auto simp: space_at_None)
    ultimately show ?thesis by simp
  next
    case False
    then show ?thesis
      using prefix_before_sep [OF False, of "c # s" t] assms sp by (auto simp: space_at_None)
  qed
  then show ?thesis by (auto simp: space_at_None)
qed

lemma fields_from_word_blank:
  "no_space_in w \<Longrightarrow> fields_from cur (w @ CHR '' '' # s) = fields_from (cur @ w) (CHR '' '' # s)"
  by (induction w arbitrary: cur) (simp_all add: space_before_blank space_at_blank)

lemma fields_from_word_end:
  "no_space_in w \<Longrightarrow> cur @ w \<noteq> [] \<Longrightarrow> fields_from cur w = [cur @ w]"
  by (induction w arbitrary: cur) simp_all

abbreviation spaced :: "string list \<Rightarrow> string" where
  "spaced ws \<equiv> concat (map ((#) (CHR '' '')) ws)"

lemma Fields_spaced:
  assumes "field w" and "\<forall>v \<in> set ws. field v"
  shows "Fields (w @ spaced ws) = w # ws"
  unfolding Fields_def
  using assms
proof (induction ws arbitrary: w)
  case Nil
  then show ?case by (simp add: fields_from_word_end field_def)
next
  case (Cons v ws)
  then show ?case
    using fields_from_word_blank [of w "[]" "v @ spaced ws"]
    by (simp add: space_at_blank field_def)
qed

lemma no_space_in_nth: "no_space_in w \<longleftrightarrow> (\<forall>n < length w. space_at go_spaces (drop n w) = None)"
  by (induction w) (simp_all add: All_less_Suc2)

lemma fields_from_field:
  "w \<in> set (fields_from cur s) \<Longrightarrow>
   \<forall>n < length cur. space_at go_spaces (drop n cur @ s) = None \<Longrightarrow> field w"
proof (induction cur s rule: fields_from.induct)
  case (1 cur)
  have "w = cur" "cur \<noteq> []" using 1(1) by (auto split: if_splits)
  moreover have "no_space_in cur" using 1(2) by (simp add: no_space_in_nth)
  ultimately show ?case by (simp add: field_def)
next
  case (2 cur c cs)
  have whole: "no_space_in cur"
    unfolding no_space_in_nth
  proof (intro allI impI)
    fix n assume "n < length cur"
    then have "space_at go_spaces (drop n cur @ c # cs) = None" using 2(4) by blast
    then show "space_at go_spaces (drop n cur) = None" by (rule space_at_prefix) simp
  qed
  show ?case
  proof (cases "space_at go_spaces (c # cs)")
    case None
    have "w \<in> set (fields_from (cur @ [c]) cs)" using 2(3) None by (simp only: fields_from.simps option.case)
    moreover have "\<forall>n < length (cur @ [c]). space_at go_spaces (drop n (cur @ [c]) @ cs) = None"
    proof (intro allI impI)
      fix n assume n: "n < length (cur @ [c])"
      show "space_at go_spaces (drop n (cur @ [c]) @ cs) = None"
      proof (cases "n = length cur")
        case True
        then show ?thesis using None by simp
      next
        case False
        then have "n < length cur" using n by simp
        then show ?thesis using 2(4) by simp
      qed
    qed
    ultimately show ?thesis by (rule 2(1) [OF None])
  next
    case (Some n)
    have "w = cur \<and> cur \<noteq> [] \<or> w \<in> set (fields_from [] (drop n (c # cs)))"
      using 2(3) Some by (simp only: fields_from.simps option.case set_append) (auto split: if_splits)
    then show ?thesis
    proof
      assume "w = cur \<and> cur \<noteq> []"
      with whole show ?thesis by (simp add: field_def)
    next
      assume "w \<in> set (fields_from [] (drop n (c # cs)))"
      then show ?thesis by (rule 2(2) [OF Some]) simp
    qed
  qed
qed

lemma Fields_field: "w \<in> set (Fields s) \<Longrightarrow> field w"
  using fields_from_field [of w "[]" s] by (simp add: Fields_def)


section \<open>Well-formed rules\<close>

text \<open>A prefix as the parser leaves it: absent, or valid, masked and of the rule's family.\<close>

definition wf_match :: "int \<Rightarrow> Prefix \<Rightarrow> bool" where
  "wf_match fam p \<longleftrightarrow>
     p = zero_prefix \<or> (wf_prefix p \<and> IsValid p \<and> Masked p = p \<and> Is6 (pAddr p) = (fam = 6))"

definition wf_rule :: "ACLRule \<Rightarrow> bool" where
  "wf_rule r \<longleftrightarrow>
     1 \<le> Seq r \<and> Seq r \<le> ACLMaxSeq \<and> (Family r = 4 \<or> Family r = 6)
     \<and> (InPort r = [] \<or> field (InPort r))
     \<and> (Proto r = ACLAny \<or> (0 \<le> Proto r \<and> Proto r \<le> 255))
     \<and> wf_match (Family r) (Src r) \<and> wf_match (Family r) (Dst r)
     \<and> (SrcPort r = ACLAny \<or> (0 \<le> SrcPort r \<and> SrcPort r \<le> 65535))
     \<and> (DstPort r = ACLAny \<or> (0 \<le> DstPort r \<and> DstPort r \<le> 65535))
     \<and> \<not> needs_l4_proto r"

lemma zero_prefix_invalid [simp]: "\<not> IsValid zero_prefix"
  by (simp add: IsValid_def zero_prefix_def)

section \<open>Reading back the words a rule prints\<close>

definition opt :: "bool \<Rightarrow> string list \<Rightarrow> string list" where
  "opt b ws = (if b then ws else [])"

definition rule_words :: "ACLRule \<Rightarrow> string list" where
  "rule_words r =
     opt (Family r = 6) [''ipv6'']
     @ opt (InPort r \<noteq> []) [''in'', InPort r]
     @ opt (Proto r \<noteq> ACLAny) [''proto'', aclProtoName (Proto r)]
     @ opt (IsValid (Src r)) [''src'', Prefix_String (Src r)]
     @ opt (IsValid (Dst r)) [''dst'', Prefix_String (Dst r)]
     @ opt (SrcPort r \<noteq> ACLAny) [''sport'', Itoa (SrcPort r)]
     @ opt (DstPort r \<noteq> ACLAny) [''dport'', Itoa (DstPort r)]"

lemma ACLRule_String_words: "ACLRule_String r = ACLAction_String (Action r) @ spaced (rule_words r)"
  by (simp add: ACLRule_String_def rule_words_def opt_def)

definition protocol_numbers :: "int list" where
  "protocol_numbers = map snd ACLProtocols"

lemma protocol_names: "list_all (\<lambda>n. mget ACLProtocols (aclProtoName n) = Some n \<and>
    list_all solid (aclProtoName n) \<and> aclProtoName n \<noteq> []) protocol_numbers"
  by code_simp

lemma aclProtoName_other: "n \<notin> set protocol_numbers \<Longrightarrow> aclProtoName n = Itoa n"
proof -
  assume n: "n \<notin> set protocol_numbers"
  have "List.find (\<lambda>(name, v). v = n \<and> name \<noteq> ''icmp6'') ACLProtocols = None"
    using n by (auto simp: find_None_iff protocol_numbers_def image_iff)
  then show ?thesis by (simp add: aclProtoName_def)
qed

lemma ACLProtocols_letters: "list_all (\<lambda>(name, _). name \<noteq> [] \<and> \<not> isDigit (hd name)) ACLProtocols"
  by code_simp

lemma Itoa_not_protocol: "0 \<le> n \<Longrightarrow> mget ACLProtocols (Itoa n) = None"
  using ACLProtocols_letters hd_nat_dec [of "nat n"]
  by (auto simp: map_of_eq_None_iff list_all_iff Itoa_def)

lemma Atoi_Itoa_small: "0 \<le> n \<Longrightarrow> n \<le> 65535 \<Longrightarrow> Atoi (Itoa n) = Some n"
  by (rule Atoi_Itoa) (simp_all add: int_min_def int_max_def)

lemma parse_proto_name:
  assumes "0 \<le> n" and "n \<le> 255"
  shows "parse_proto (aclProtoName n) = Inr n"
proof (cases "n \<in> set protocol_numbers")
  case True
  then show ?thesis using protocol_names by (simp add: list_all_iff parse_proto_def)
next
  case False
  then show ?thesis
    using assms Itoa_not_protocol Atoi_Itoa_small by (simp add: aclProtoName_other parse_proto_def)
qed

lemma Itoa_field: "0 \<le> n \<Longrightarrow> field (Itoa n)"
  using Itoa_digits [of n] isDigit_solid by (intro field_solid) (auto simp: Itoa_def)

lemma field_protoName: "0 \<le> n \<Longrightarrow> field (aclProtoName n)"
proof (cases "n \<in> set protocol_numbers")
  case True
  then show ?thesis using protocol_names by (intro field_solid) (auto simp: list_all_iff)
next
  case False
  then show "0 \<le> n \<Longrightarrow> field (aclProtoName n)" by (simp add: aclProtoName_other Itoa_field)
qed

lemma l4_Itoa: "0 \<le> n \<Longrightarrow> n \<le> 65535 \<Longrightarrow> l4 (Itoa n) = Inr n"
  by (simp add: l4_def Atoi_Itoa_small)

lemma parsePrefixLoose_String:
  assumes "wf_prefix p" and "IsValid p" and "Masked p = p"
  shows "parsePrefixLoose (Prefix_String p) = Some p"
  using assms Prefix_String_chars(2) [OF assms(1,2)] ParsePrefix_String [OF assms(1,2)]
  by (simp add: parsePrefixLoose_def)

lemma keyword_fields [simp]:
  "field ''ipv6''" "field ''in''" "field ''proto''" "field ''src''" "field ''dst''" "field ''sport''" "field ''dport''"
  "field ''permit''" "field ''deny''"
  by code_simp+


text \<open>One optional part at a time: what the loop does with it.\<close>

lemma words_family:
  "parse_words (opt (fam = 6) [''ipv6''] @ ws) r 0 = parse_words ws r (if fam = 6 then 6 else 0)"
  by (simp add: opt_def setFamily_def)

lemma words_in:
  "InPort r = [] \<Longrightarrow> parse_words (opt (p \<noteq> []) [''in'', p] @ ws) r fam = parse_words ws (r\<lparr>InPort := p\<rparr>) fam"
  by (cases r) (simp add: opt_def parse_match_def)

lemma words_proto:
  assumes "Proto r = ACLAny" and "n = ACLAny \<or> (0 \<le> n \<and> n \<le> 255)"
  shows "parse_words (opt (n \<noteq> ACLAny) [''proto'', aclProtoName n] @ ws) r fam =
         parse_words ws (r\<lparr>Proto := n\<rparr>) fam"
  using assms by (cases r) (auto simp: opt_def parse_match_def parse_proto_name)

lemma prefix_match:
  assumes "wf_match F p" and "IsValid p" and "F = 4 \<or> F = 6" and "fam = 0 \<or> fam = F"
  shows "setFamily (family_of_text (Prefix_String p)) (Prefix_String p) fam = Inr F"
    and "parsePrefixLoose (Prefix_String p) = Some p"
proof -
  have p: "wf_prefix p" "IsValid p" "Masked p = p" "Is6 (pAddr p) = (F = 6)"
    using assms(1,2) by (auto simp: wf_match_def)
  have "family_of_text (Prefix_String p) = F"
    using Prefix_String_chars(3) [OF p(1,2)] p(4) assms(3) by (auto simp: family_of_text_def)
  then show "setFamily (family_of_text (Prefix_String p)) (Prefix_String p) fam = Inr F"
    using assms(4) by (auto simp: setFamily_def)
  show "parsePrefixLoose (Prefix_String p) = Some p" by (rule parsePrefixLoose_String [OF p(1-3)])
qed

lemma words_src:
  assumes "Src r = zero_prefix" and "wf_match F p" and "F = 4 \<or> F = 6" and "fam = 0 \<or> fam = F"
  shows "parse_words (opt (IsValid p) [''src'', Prefix_String p] @ ws) r fam =
         parse_words ws (r\<lparr>Src := p\<rparr>) (if IsValid p then F else fam)"
proof (cases "IsValid p")
  case True
  then show ?thesis
    using prefix_match [OF assms(2) True assms(3,4)] by (simp add: opt_def parse_match_def)
next
  case False
  then have "p = zero_prefix" using assms(2) by (simp add: wf_match_def)
  then show ?thesis using assms(1) by (cases r) (simp add: opt_def)
qed

lemma words_dst:
  assumes "Dst r = zero_prefix" and "wf_match F p" and "F = 4 \<or> F = 6" and "fam = 0 \<or> fam = F"
  shows "parse_words (opt (IsValid p) [''dst'', Prefix_String p] @ ws) r fam =
         parse_words ws (r\<lparr>Dst := p\<rparr>) (if IsValid p then F else fam)"
proof (cases "IsValid p")
  case True
  then show ?thesis
    using prefix_match [OF assms(2) True assms(3,4)] by (simp add: opt_def parse_match_def)
next
  case False
  then have "p = zero_prefix" using assms(2) by (simp add: wf_match_def)
  then show ?thesis using assms(1) by (cases r) (simp add: opt_def)
qed

lemma words_sport:
  assumes "SrcPort r = ACLAny" and "n = ACLAny \<or> (0 \<le> n \<and> n \<le> 65535)"
  shows "parse_words (opt (n \<noteq> ACLAny) [''sport'', Itoa n] @ ws) r fam = parse_words ws (r\<lparr>SrcPort := n\<rparr>) fam"
  using assms by (cases r) (auto simp: opt_def parse_match_def l4_Itoa)

lemma words_dport:
  assumes "DstPort r = ACLAny" and "n = ACLAny \<or> (0 \<le> n \<and> n \<le> 65535)"
  shows "parse_words (opt (n \<noteq> ACLAny) [''dport'', Itoa n]) r fam = Inr (r\<lparr>DstPort := n\<rparr>, fam)"
  using assms by (cases r) (auto simp: opt_def parse_match_def l4_Itoa)

lemma rule_words_fields: "wf_rule r \<Longrightarrow> \<forall>w \<in> set (rule_words r). field w"
proof
  fix w
  assume wf: "wf_rule r" and "w \<in> set (rule_words r)"
  have pre: "field (Prefix_String p)" if "wf_match F p" "IsValid p" for p F
  proof (rule field_solid)
    have p: "wf_prefix p" "IsValid p" using that by (auto simp: wf_match_def)
    show "\<forall>c \<in> set (Prefix_String p). solid c" by (rule Prefix_String_chars(1) [OF p])
    show "Prefix_String p \<noteq> []" using Prefix_String_chars(2) [OF p] by auto
  qed
  have num: "field (Itoa n)" "field (aclProtoName n)" if "n = ACLAny \<or> 0 \<le> n" "n \<noteq> ACLAny" for n
    using that Itoa_field field_protoName by auto
  show "field w"
    using \<open>w \<in> set (rule_words r)\<close> wf
    unfolding rule_words_def opt_def wf_rule_def
    by (auto split: if_splits intro: pre num)
qed

text \<open>The rule the loop builds from the printed words, and the family it has seen.\<close>

lemma parse_rule_words:
  assumes wf: "wf_rule r"
  shows "\<exists>fam. parse_words (rule_words r) ((blank_rule (Seq r))\<lparr>Action := Action r\<rparr>) 0 =
           Inr (r\<lparr>Family := 0\<rparr>, fam) \<and> (if fam = 0 then 4 else fam) = Family r"
proof -
  let ?b = "(blank_rule (Seq r))\<lparr>Action := Action r\<rparr>"
  define f1 where "f1 = (if Family r = 6 then 6 else 0 :: int)"
  define f2 where "f2 = (if IsValid (Src r) then Family r else f1)"
  define f3 where "f3 = (if IsValid (Dst r) then Family r else f2)"
  have F: "Family r = 4 \<or> Family r = 6" and m: "wf_match (Family r) (Src r)" "wf_match (Family r) (Dst r)"
    and n: "Proto r = ACLAny \<or> (0 \<le> Proto r \<and> Proto r \<le> 255)"
      "SrcPort r = ACLAny \<or> (0 \<le> SrcPort r \<and> SrcPort r \<le> 65535)"
      "DstPort r = ACLAny \<or> (0 \<le> DstPort r \<and> DstPort r \<le> 65535)"
    using wf by (simp_all add: wf_rule_def)
  have f: "f1 = 0 \<or> f1 = Family r" "f2 = 0 \<or> f2 = Family r" by (auto simp: f1_def f2_def)
  have "parse_words (rule_words r) ?b 0 =
    Inr (?b\<lparr>InPort := InPort r, Proto := Proto r, Src := Src r, Dst := Dst r,
           SrcPort := SrcPort r, DstPort := DstPort r\<rparr>, f3)"
    unfolding rule_words_def words_family f1_def [symmetric]
    by (simp only: words_in words_proto [OF _ n(1)] words_src [OF _ m(1) F f(1)] f2_def [symmetric]
        words_dst [OF _ m(2) F f(2)] f3_def [symmetric] words_sport [OF _ n(2)] words_dport [OF _ n(3)]
        blank_rule_def ACLRule.simps)
  moreover have "?b\<lparr>InPort := InPort r, Proto := Proto r, Src := Src r, Dst := Dst r,
           SrcPort := SrcPort r, DstPort := DstPort r\<rparr> = r\<lparr>Family := 0\<rparr>"
    by (cases r) (simp add: blank_rule_def)
  moreover have "(if f3 = 0 then 4 else f3) = Family r" using F by (auto simp: f1_def f2_def f3_def)
  ultimately show ?thesis by auto
qed

lemma printed_rule_parses:
  assumes wf: "wf_rule r"
  shows "ParseACLRule (Seq r) (ACLRule_String r) = Inr r"
proof -
  obtain fam where fam: "parse_words (rule_words r) ((blank_rule (Seq r))\<lparr>Action := Action r\<rparr>) 0 =
      Inr (r\<lparr>Family := 0\<rparr>, fam)" "(if fam = 0 then 4 else fam) = Family r"
    using parse_rule_words [OF wf] by blast
  have "Fields (ACLRule_String r) = ACLAction_String (Action r) # rule_words r"
    unfolding ACLRule_String_words
    by (rule Fields_spaced) (simp_all add: ACLAction_String_def rule_words_fields [OF wf])
  moreover have "(if ACLAction_String (Action r) = ''permit'' then ACLPermit else ACLDeny) = Action r"
    by (cases "Action r") (simp_all add: ACLAction_String_def)
  moreover have "ACLAction_String (Action r) = ''permit'' \<or> ACLAction_String (Action r) = ''deny''"
    by (simp add: ACLAction_String_def)
  ultimately show ?thesis
    using wf fam by (auto simp: ParseACLRule_def Let_def wf_rule_def)
qed

text \<open>C15: the text form and the parser are inverse, as the comment on \<^verbatim>\<open>String\<close> promises: a
  well-formed rule, printed and parsed under its own sequence number, is the same rule, whatever its
  action, port, protocol, IPv4 or IPv6 prefixes and L4 ports.\<close>

theorem ParseACLRule_String: "wf_rule r \<Longrightarrow> ParseACLRule (Seq r) (ACLRule_String r) = Inr r"
  by (rule printed_rule_parses)

definition sample_rule :: ACLRule where
  "sample_rule =
     \<lparr>Seq = 20, Family = 6, Action = ACLDeny, InPort = ''swp3'', Proto = 6,
      Src = \<lparr>pAddr = IP6 1 2 0 0 0 0 0 0 [], pBits = 32\<rparr>, Dst = zero_prefix,
      SrcPort = ACLAny, DstPort = 22\<rparr>"

theorem ParseACLRule_String_witness:
  "ParseACLRule 20 (ACLRule_String sample_rule) = Inr sample_rule \<and>
   ACLRule_String sample_rule = ''deny ipv6 in swp3 proto tcp src 1:2::/32 dport 22''"
proof -
  have "wf_rule sample_rule" by code_simp
  from ParseACLRule_String [OF this] have "ParseACLRule 20 (ACLRule_String sample_rule) = Inr sample_rule"
    by (simp add: sample_rule_def)
  moreover have "ACLRule_String sample_rule = ''deny ipv6 in swp3 proto tcp src 1:2::/32 dport 22''"
    by code_simp
  ultimately show ?thesis by blast
qed

section \<open>What the parser accepts\<close>

lemma parse4_chars: "parse4 v dl fs s = Some r \<Longrightarrow> \<forall>c \<in> set s. isDigit c \<or> c = CHR ''.''"
  by (induction v dl fs s rule: parse4.induct) (auto simp: Let_def split: if_splits)

lemma of_groups_Is6: "of_groups gs z = Some a \<Longrightarrow> Is6 a"
  by (cases "(gs, z)" rule: of_groups.cases) auto

lemma parseIPv6_Is6: "parseIPv6 s = Some a \<Longrightarrow> Is6 a"
  by (auto simp: parseIPv6_def Let_def split: if_splits option.splits prod.splits dest: of_groups_Is6)

lemma parseIPv4_Is4:
  "parseIPv4 s = Some a \<Longrightarrow> Is4 a \<and> CHR '':'' \<notin> set s"
  using parse4_chars [of 0 0 "[]" s] not_isDigit_colon
  by (auto simp: parseIPv4_def split: option.splits list.splits)

lemma ParseAddr_family:
  assumes "ParseAddr s = Some a"
  shows "a \<noteq> NoAddr" and "Is6 a \<longleftrightarrow> CHR '':'' \<in> set s"
proof -
  obtain c where c: "List.find (\<lambda>c. c \<in> {CHR ''.'', CHR '':'', CHR ''%''}) s = Some c"
    "c = CHR ''.'' \<and> parseIPv4 s = Some a \<or> c = CHR '':'' \<and> parseIPv6 s = Some a"
    using assms by (auto simp: ParseAddr_def split: option.splits if_splits)
  have "c \<in> set s" using c(1) by (metis find_Some_iff nth_mem)
  then have "Is4 a \<and> CHR '':'' \<notin> set s \<or> Is6 a \<and> CHR '':'' \<in> set s"
    using c(2) parseIPv4_Is4 [of s a] parseIPv6_Is6 [of s a] by blast
  then show "a \<noteq> NoAddr" and "Is6 a \<longleftrightarrow> CHR '':'' \<in> set s" by (cases a; simp)+
qed

lemma cut_last_slash_Some:
  assumes "cut_last_slash s = Some (a, b)"
  shows "s = a @ CHR ''/'' # b"
proof -
  obtain x y where "Cut (CHR ''/'') (rev s) = (x, y, True)" "a = rev y" "b = rev x"
    using assms by (auto simp: cut_last_slash_def split: prod.splits if_splits)
  moreover have "rev s = x @ CHR ''/'' # y"
    using calculation(1) takeWhile_dropWhile_id [of "\<lambda>x. x \<noteq> CHR ''/''" "rev s"]
      hd_dropWhile [of "\<lambda>x. x \<noteq> CHR ''/''" "rev s"]
    by (cases "dropWhile (\<lambda>x. x \<noteq> CHR ''/'') (rev s)") (auto simp: Cut_def split: if_splits)
  ultimately show ?thesis by (metis rev_append rev_rev_ident rev.simps(2) append.assoc append_Cons append_Nil)
qed

lemma Atoi_no_colon: "Atoi s = Some i \<Longrightarrow> CHR '':'' \<notin> set s"
  using not_isDigit_colon by (cases s) (auto simp: Atoi_def Let_def list_all_iff split: if_splits)

lemma Is6_withoutZone [simp]: "Is6 (withoutZone a) = Is6 a" "withoutZone (withoutZone a) = withoutZone a"
  "BitLen (withoutZone a) = BitLen a" "withoutZone a = NoAddr \<longleftrightarrow> a = NoAddr"
  by (cases a; simp)+

lemma wf_PrefixFrom: "wf_prefix (PrefixFrom a b)"
  by (simp add: wf_prefix_def PrefixFrom_def)

lemma mask_addr_simps [simp]: "Is6 (mask_addr a n) = Is6 a" "BitLen (mask_addr a n) = BitLen a"
  "withoutZone (mask_addr a n) = mask_addr a n" "mask_addr a n = NoAddr \<longleftrightarrow> a = NoAddr"
  by (cases a; simp)+

lemma wf_Masked:
  assumes "wf_prefix p"
  shows "wf_prefix (Masked p)"
proof (cases "IsValid p")
  case True
  then show ?thesis
    using wf_valid_prefix [OF assms True] by (simp add: Masked_def wf_prefix_def PrefixFrom_def)
next
  case False
  then show ?thesis by (simp add: Masked_def wf_prefix_def PrefixFrom_def zero_prefix_def)
qed

lemma keep_high_all [simp]: "keep_high w w x = x"
  by (simp add: keep_high_def)

lemma mask_addr_all: "mask_addr a (BitLen a) = withoutZone a"
  by (cases a) simp_all

definition good_prefix :: "string \<Rightarrow> Prefix \<Rightarrow> bool" where
  "good_prefix s p \<longleftrightarrow> wf_prefix p \<and> IsValid p \<and> Masked p = p \<and> (Is6 (pAddr p) \<longleftrightarrow> CHR '':'' \<in> set s)"

lemma parsePrefixLoose_good:
  assumes "parsePrefixLoose s = Some p"
  shows "good_prefix s p"
proof (cases "CHR ''/'' \<in> set s")
  case False
  then obtain a where a: "ParseAddr s = Some a" "p = PrefixFrom a (int (BitLen a))"
    using assms by (auto simp: parsePrefixLoose_def)
  have ne: "a \<noteq> NoAddr" by (rule ParseAddr_family(1) [OF a(1)])
  have p: "p = \<lparr>pAddr = withoutZone a, pBits = int (BitLen a)\<rparr>" using a(2) ne by (simp add: PrefixFrom_def)
  have "Masked p = p" using mask_addr_all [of "withoutZone a"] by (simp add: p Masked_def IsValid_def)
  moreover have "wf_prefix p" unfolding a(2) by (rule wf_PrefixFrom)
  moreover have "IsValid p" "Is6 (pAddr p) = Is6 a" by (simp_all add: p IsValid_def)
  ultimately show ?thesis using ParseAddr_family(2) [OF a(1)] by (simp add: good_prefix_def)
next
  case True
  then obtain q where q: "ParsePrefix s = Some q" "p = Masked q"
    using assms by (auto simp: parsePrefixLoose_def)
  then obtain t b a n where t: "cut_last_slash s = Some (t, b)" "ParseAddr t = Some a" "Atoi b = Some n"
    "0 \<le> n" "n \<le> int (if Is6 a then 128 else 32)" "q = PrefixFrom a n"
    by (auto simp: ParsePrefix_def split: option.splits if_splits)
  have ne: "a \<noteq> NoAddr" by (rule ParseAddr_family(1) [OF t(2)])
  have "int (BitLen a) = int (if Is6 a then 128 else 32)" using ne by (cases a) simp_all
  then have qe: "q = \<lparr>pAddr = withoutZone a, pBits = n\<rparr>" using t ne by (simp add: PrefixFrom_def)
  have "Is6 a \<longleftrightarrow> CHR '':'' \<in> set s"
    using cut_last_slash_Some [OF t(1)] ParseAddr_family(2) [OF t(2)] Atoi_no_colon [OF t(3)] by simp
  moreover have "IsValid p" "Is6 (pAddr p) = Is6 a"
    using t(4) unfolding q(2) qe by (simp_all add: Masked_def IsValid_def)
  moreover have "wf_prefix p" unfolding q(2) t(6) by (intro wf_Masked wf_PrefixFrom)
  moreover have "Masked p = p" unfolding q(2) by (rule Masked_idem)
  ultimately show ?thesis by (simp add: good_prefix_def)
qed

text \<open>The invariant of the loop: the rule so far, with the family so far.\<close>

definition wf_part :: "ACLRule \<Rightarrow> int \<Rightarrow> bool" where
  "wf_part r fam \<longleftrightarrow>
     (fam = 0 \<or> fam = 4 \<or> fam = 6) \<and> (InPort r = [] \<or> field (InPort r))
     \<and> (Proto r = ACLAny \<or> (0 \<le> Proto r \<and> Proto r \<le> 255))
     \<and> wf_match fam (Src r) \<and> wf_match fam (Dst r) \<and> (fam = 0 \<longrightarrow> Src r = zero_prefix \<and> Dst r = zero_prefix)
     \<and> (SrcPort r = ACLAny \<or> (0 \<le> SrcPort r \<and> SrcPort r \<le> 65535))
     \<and> (DstPort r = ACLAny \<or> (0 \<le> DstPort r \<and> DstPort r \<le> 65535))"

lemma setFamily_part:
  "wf_part r fam \<Longrightarrow> setFamily f why fam = Inr fam' \<Longrightarrow> f = 4 \<or> f = 6 \<Longrightarrow> wf_part r fam' \<and> fam' = f"
  by (auto simp: setFamily_def wf_part_def wf_match_def split: if_splits)

lemma protocol_range: "list_all (\<lambda>(_, n). 0 \<le> n \<and> n \<le> 255) ACLProtocols"
  by code_simp

lemma parse_proto_range: "parse_proto s = Inr n \<Longrightarrow> 0 \<le> n \<and> n \<le> 255"
  using protocol_range
  by (auto simp: parse_proto_def list_all_iff dest!: map_of_SomeD split: option.splits if_splits)

lemma l4_range: "l4 s = Inr n \<Longrightarrow> 0 \<le> n \<and> n \<le> 65535"
  by (auto simp: l4_def split: option.splits if_splits)

lemma parse_match_cases:
  assumes "parse_match w arg r fam = Inr (r', fam')"
  obtains (port) "r' = r\<lparr>InPort := arg\<rparr>" "fam' = fam"
    | (proto) n where "parse_proto arg = Inr n" "r' = r\<lparr>Proto := n\<rparr>" "fam' = fam"
    | (pre) p where "setFamily (family_of_text arg) arg fam = Inr fam'" "parsePrefixLoose arg = Some p"
        "r' = r\<lparr>Src := p\<rparr> \<or> r' = r\<lparr>Dst := p\<rparr>"
    | (l4) n where "l4 arg = Inr n" "r' = r\<lparr>SrcPort := n\<rparr> \<or> r' = r\<lparr>DstPort := n\<rparr>" "fam' = fam"
proof -
  consider "w = ''in''" | "w = ''proto''" | "w = ''src''" | "w = ''dst''" | "w = ''sport''" | "w = ''dport''"
  proof (rule ccontr)
    assume "\<not> thesis"
    then have "w \<noteq> ''in''" "w \<noteq> ''proto''" "w \<noteq> ''src''" "w \<noteq> ''dst''" "w \<noteq> ''sport''" "w \<noteq> ''dport''"
      using that by blast+
    with assms show False by (simp add: parse_match_def)
  qed
  then show thesis
  proof cases
    case 1
    then show ?thesis using assms port by (simp add: parse_match_def)
  next
    case 2
    then show ?thesis using assms proto by (simp add: parse_match_def split: sum.splits)
  next
    case 3
    then show ?thesis using assms pre by (simp add: parse_match_def split: sum.splits option.splits)
  next
    case 4
    then show ?thesis using assms pre by (simp add: parse_match_def split: sum.splits option.splits)
  next
    case 5
    then show ?thesis using assms l4 by (simp add: parse_match_def split: sum.splits)
  next
    case 6
    then show ?thesis using assms l4 by (simp add: parse_match_def split: sum.splits)
  qed
qed

lemma parse_match_part:
  assumes "wf_part r fam" and "field arg" and "parse_match w arg r fam = Inr (r', fam')"
  shows "wf_part r' fam' \<and> Seq r' = Seq r"
  using assms(3)
proof (cases rule: parse_match_cases)
    case port
    then show ?thesis using assms(1,2) by (simp add: wf_part_def)
  next
    case (proto n)
    then show ?thesis using assms(1) parse_proto_range [OF proto(1)] by (simp add: wf_part_def)
  next
    case (l4 n)
    have "0 \<le> n \<and> n \<le> 65535" by (rule l4_range [OF l4(1)])
    then show ?thesis using assms(1) l4(2,3) by (elim disjE) (simp_all add: wf_part_def)
  next
    case (pre p)
    have "wf_part r fam'" "fam' = family_of_text arg"
      using setFamily_part [OF assms(1) pre(1)] by (auto simp: family_of_text_def)
    moreover have "wf_match fam' p"
      using parsePrefixLoose_good [OF pre(2)] calculation(2)
      by (simp add: wf_match_def good_prefix_def family_of_text_def)
    moreover have "fam' \<noteq> 0" using calculation(2) by (simp add: family_of_text_def)
    ultimately show ?thesis using pre(3) by (elim disjE) (simp_all add: wf_part_def)
qed

lemma parse_words_part:
  "parse_words ws r fam = Inr (r', fam') \<Longrightarrow> wf_part r fam \<Longrightarrow> \<forall>w \<in> set ws. field w \<Longrightarrow>
   wf_part r' fam' \<and> Seq r' = Seq r"
proof (induction ws r fam rule: parse_words.induct)
  case (1 r fam)
  then show ?case by simp
next
  case (2 w ws r fam)
  consider (v4) f where "w = ''ipv4'' \<or> w = ''ip''" "setFamily 4 w fam = Inr f" "parse_words ws r f = Inr (r', fam')"
    | (v6) f where "\<not> (w = ''ipv4'' \<or> w = ''ip'')" "w = ''ipv6'' \<or> w = ''ip6''" "setFamily 6 w fam = Inr f"
        "parse_words ws r f = Inr (r', fam')"
    | (arg) a ws' r1 f1 where "\<not> (w = ''ipv4'' \<or> w = ''ip'')" "\<not> (w = ''ipv6'' \<or> w = ''ip6'')"
        "ws = a # ws'" "parse_match w a r fam = Inr (r1, f1)" "parse_words ws' r1 f1 = Inr (r', fam')"
    using 2(4) by (auto split: if_splits sum.splits list.splits)
  then show ?case
  proof cases
    case v4
    have "wf_part r f" using setFamily_part [OF 2(5) v4(2)] by blast
    then show ?thesis using 2(1) [OF v4(1,2)] 2(6) v4(3) by simp
  next
    case v6
    have "wf_part r f" using setFamily_part [OF 2(5) v6(3)] by blast
    then show ?thesis using 2(2) [OF v6(1,2,3)] 2(6) v6(4) by simp
  next
    case arg
    have "wf_part r1 f1 \<and> Seq r1 = Seq r" using parse_match_part [OF 2(5) _ arg(4)] 2(6) arg(3) by simp
    then show ?thesis using 2(3) [OF arg(1-3) arg(4) refl] arg(3,5) 2(6) by simp
  qed
qed

lemma Validate_wf: "wf_rule r \<Longrightarrow> Validate None r = None"
  by (auto simp: wf_rule_def Validate_def wf_match_def)

text \<open>C31: whatever text the parser accepts, the rule it answers is well formed: its sequence number
  is the one given, its prefixes are masked and of the rule's family, its protocol and L4 ports are
  in range, L4 ports come with TCP or UDP, and the shared check of \<^verbatim>\<open>Validate\<close> has nothing to refuse
  but an unknown port.\<close>

theorem ParseACLRule_wf:
  assumes "ParseACLRule seq line = Inr r"
  shows "wf_rule r \<and> Seq r = seq \<and> Validate None r = None"
proof -
  obtain w ws act r' fam where p: "1 \<le> seq" "seq \<le> ACLMaxSeq" "Fields line = w # ws"
    "parse_words ws ((blank_rule seq)\<lparr>Action := act\<rparr>) 0 = Inr (r', fam)"
    "r = r'\<lparr>Family := (if fam = 0 then 4 else fam)\<rparr>" "\<not> needs_l4_proto r"
    using assms by (auto simp: ParseACLRule_def Let_def split: if_splits list.splits sum.splits)
  have "\<forall>w \<in> set ws. field w" using Fields_field [of _ line] p(3) by simp
  moreover have "wf_part ((blank_rule seq)\<lparr>Action := act\<rparr>) 0"
    by (simp add: wf_part_def blank_rule_def wf_match_def)
  ultimately have "wf_part r' fam \<and> Seq r' = seq"
    using parse_words_part [OF p(4)] by (simp add: blank_rule_def)
  then have "wf_rule r \<and> Seq r = seq"
    using p(1,2,6) by (auto simp: p(5) wf_rule_def wf_part_def wf_match_def)
  then show ?thesis using Validate_wf by blast
qed

theorem ParseACLRule_wf_witness:
  "\<exists>r. ParseACLRule 7 ''permit src 10.9.3.1/8 proto udp dport 53'' = Inr r \<and> wf_rule r \<and> Seq r = 7"
proof -
  obtain r where r: "ParseACLRule 7 ''permit src 10.9.3.1/8 proto udp dport 53'' = Inr r"
  proof
    show "ParseACLRule 7 ''permit src 10.9.3.1/8 proto udp dport 53'' =
      Inr \<lparr>Seq = 7, Family = 4, Action = ACLPermit, InPort = [], Proto = 17,
        Src = \<lparr>pAddr = IP4 10 0 0 0, pBits = 8\<rparr>, Dst = zero_prefix, SrcPort = -1, DstPort = 53\<rparr>"
      by code_simp
  qed
  then show ?thesis using ParseACLRule_wf [OF r] by blast
qed

end
