(* ===== verification/Mem.thy ===== *)
theory Mem
  imports Acl
begin

text \<open>
  The reference datapath, \<^verbatim>\<open>internal/nosd/mem\<close>: an implementation of the switch contract in memory, which
  defines what every call is supposed to do. A \<^verbatim>\<open>*port\<close> is an address in a heap of ports, because
  \<^verbatim>\<open>ports\<close>, \<^verbatim>\<open>byName\<close>, \<^verbatim>\<open>svis\<close> and a LAG share the objects and a call through one of them is seen through
  the others. A method is a function from the switch to its answer and the switch it leaves. The
  mutex makes every call one step; what precedes the lock only reads the configuration, which no
  call changes. Maps are association lists without duplicate keys; where the code ranges over one
  and then sorts, the order of the list does not show.
\<close>

section \<open>State\<close>

record Config =
  cfg_Ports :: int
  Caps :: Capabilities
  AllowECMPAnyway :: bool

record port =
  p_name :: string
  p_lag :: string
  p_isLAG :: bool
  p_adminUp :: bool
  p_mtu :: int
  p_vlans :: "(int, bool) gomap"
  p_addrs :: "(Prefix, bool) gomap"
  p_tunnel :: int
  p_tpid :: int

type_synonym addr = nat

record lag =
  l_lacp :: bool
  l_mlag :: int
  l_opts :: LAGOptions
  l_members :: "string list"
  l_port :: addr

record stpState =
  st_cfg :: STPConfig
  st_ports :: "(string, STPPortConfig) gomap"

record Switch =
  cfg :: Config
  started :: bool
  heap :: "port list"
  ports :: "addr list"
  byName :: "(string, addr) gomap"
  vlans :: "(int, bool) gomap"
  svis :: "(int, addr) gomap"
  lags :: "(string, lag) gomap"
  routes :: "(Prefix, Route) gomap"
  acls :: "(int, ACLRule) gomap"
  stpst :: "stpState option"
  mlag :: MLAGConfig
  lacpPri :: int
  vmac :: string
  gws :: "(VirtualGateway, bool) gomap"
  aging :: "int option"

type_synonym 'a op = "Switch \<Rightarrow> (sw_error + 'a) \<times> Switch"

abbreviation caps :: "Switch \<Rightarrow> Capabilities" where
  "caps s \<equiv> Caps (cfg s)"

abbreviation at :: "Switch \<Rightarrow> addr \<Rightarrow> port" where
  "at s a \<equiv> heap s ! a"

definition modify :: "addr \<Rightarrow> (port \<Rightarrow> port) \<Rightarrow> Switch \<Rightarrow> Switch" where
  "modify a f s = s\<lparr>heap := (heap s)[a := f (at s a)]\<rparr>"

definition zero_caps :: Capabilities where
  "zero_caps =
     \<lparr>c_Contract = [], c_Driver = [], c_MaxPorts = 0, c_VLANs = False, c_MaxVLANs = 0, c_SVIs = False,
      c_LAGs = False, c_MaxLAGs = 0, c_MaxLAGMembers = 0, c_LACP = False, c_STP = False, c_MLAG = False,
      c_VirtualGateway = False, c_VirtualGateway6 = False, c_MACAging = False, c_QinQ = False,
      c_L2Learning = False, c_MaxFDB = 0, c_L3 = False, c_MaxV4 = 0, c_MaxV6 = 0, c_IPv6 = False,
      c_ECMP = False, c_MaxECMP = 0, c_ACL = False, c_ACLSlices = 0, c_ACLEntries = 0, c_ACL6 = False,
      c_ACL6Entries = 0, c_Counters = False, c_SFP = False, c_Breakout = False\<rparr>"

definition DefaultCaps :: Capabilities where
  "DefaultCaps = zero_caps
     \<lparr>c_Contract := SwitchapiVersion, c_Driver := ''mem'', c_MaxPorts := 64, c_VLANs := True,
      c_MaxVLANs := 4094, c_SVIs := True, c_LAGs := True, c_MaxLAGs := 64, c_MaxLAGMembers := 8,
      c_LACP := True, c_STP := True, c_MLAG := True, c_VirtualGateway := True,
      c_VirtualGateway6 := True, c_MACAging := True, c_QinQ := True, c_L2Learning := True,
      c_L3 := True, c_IPv6 := True, c_ECMP := True, c_MaxECMP := 8, c_ACL := True,
      c_ACLEntries := 1024, c_ACL6 := True, c_ACL6Entries := 512, c_Counters := True\<rparr>"

definition new_port :: "string \<Rightarrow> port" where
  "new_port n =
     \<lparr>p_name = n, p_lag = [], p_isLAG = False, p_adminUp = False, p_mtu = 1500, p_vlans = [],
      p_addrs = [], p_tunnel = 0, p_tpid = 0\<rparr>"

definition zero_mlag :: MLAGConfig where
  "zero_mlag =
     \<lparr>ml_Enabled = False, ml_PeerLink = [], ml_PeerAddress = [], ml_Priority = 0, ml_HelloMs = 0,
      ml_DeadMs = 0, ml_SettleMs = 0, ml_HeartbeatPort = 0, ml_ReloadDelay = 0\<rparr>"

definition zero_lag_options :: LAGOptions where
  "zero_lag_options = \<lparr>Rate = [], Passive = False, PortPriority = 0\<rparr>"

definition zero_stp_port :: STPPortConfig where
  "zero_stp_port =
     \<lparr>sp_Edge = False, sp_Cost = 0, sp_Priority = 0, sp_BPDUGuard = False, sp_RootGuard = False\<rparr>"

definition zero_counters :: Counters where
  "zero_counters =
     \<lparr>RxPackets = 0, TxPackets = 0, RxBytes = 0, TxBytes = 0, RxErrors = 0, TxErrors = 0,
      RxDrops = 0, TxDrops = 0\<rparr>"

definition port_name :: "nat \<Rightarrow> string" where
  "port_name i = ''swp'' @ nat_dec i"

definition New :: "Config \<Rightarrow> Switch" where
  "New c =
     (let n = (if cfg_Ports c \<le> 0 then 4 else cfg_Ports c);
          contract = (if c_Contract (Caps c) = [] then SwitchapiVersion else c_Contract (Caps c));
          driver = (if c_Driver (Caps c) = [] then ''mem'' else c_Driver (Caps c));
          c' = c\<lparr>cfg_Ports := n, Caps := (Caps c)\<lparr>c_Contract := contract, c_Driver := driver\<rparr>\<rparr>;
          names = map (\<lambda>i. port_name (Suc i)) [0..<nat n]
      in \<lparr>cfg = c', started = False, heap = map new_port names, ports = [0..<nat n],
          byName = zip names [0..<nat n], vlans = [], svis = [], lags = [], routes = [], acls = [],
          stpst = None, mlag = zero_mlag, lacpPri = 0, vmac = [], gws = [], aging = None\<rparr>)"

definition Capabilities_of :: "Switch \<Rightarrow> Capabilities" where
  "Capabilities_of s = caps s"

definition Start :: "unit op" where
  "Start s = (Inr (), s\<lparr>started := True\<rparr>)"

definition Close :: "unit op" where
  "Close s = (Inr (), s\<lparr>started := False\<rparr>)"

section \<open>Ports\<close>

definition Ports :: "Port list op" where
  "Ports s = (Inr (map (\<lambda>(i, a). \<lparr>pt_Name = p_name (at s a), pt_Index = i\<rparr>) (enumerate 0 (ports s))), s)"

definition lookup :: "string \<Rightarrow> Switch \<Rightarrow> sw_error + addr" where
  "lookup name s =
     (case mget (byName s) name of
        None \<Rightarrow> Inl (Errorf ''no such port %q'' [Str name])
      | Some a \<Rightarrow> Inr a)"

definition l3lookup :: "string \<Rightarrow> Switch \<Rightarrow> sw_error + addr" where
  "l3lookup name s =
     (case mget (byName s) name of
        Some a \<Rightarrow> Inr a
      | None \<Rightarrow>
          (case List.find (\<lambda>(_, a). p_name (at s a) = name) (svis s) of
             Some (_, a) \<Rightarrow> Inr a
           | None \<Rightarrow> Inl (Errorf ''no such port or vlan interface %q'' [Str name])))"

definition PortStatus_of :: "string \<Rightarrow> PortStatus op" where
  "PortStatus_of name s =
     (case lookup name s of
        Inl e \<Rightarrow> (Inl e, s)
      | Inr a \<Rightarrow>
          (Inr \<lparr>ps_Name = p_name (at s a), ps_AdminUp = p_adminUp (at s a), ps_OperUp = p_adminUp (at s a),
                ps_SpeedMbps = 10000, ps_FullDuplex = True, ps_MTU = p_mtu (at s a)\<rparr>, s))"

definition SetPortAdmin :: "string \<Rightarrow> bool \<Rightarrow> unit op" where
  "SetPortAdmin name up s =
     (case lookup name s of
        Inl e \<Rightarrow> (Inl e, s)
      | Inr a \<Rightarrow> (Inr (), modify a (\<lambda>p. p\<lparr>p_adminUp := up\<rparr>) s))"

definition SetPortMTU :: "string \<Rightarrow> int \<Rightarrow> unit op" where
  "SetPortMTU name mtu s =
     (case lookup name s of
        Inl e \<Rightarrow> (Inl e, s)
      | Inr a \<Rightarrow>
          (if mtu < 68 \<or> mtu > 9216 then (Inl (Errorf ''mtu %d out of range'' [Num mtu]), s)
           else (Inr (), modify a (\<lambda>p. p\<lparr>p_mtu := mtu\<rparr>) s)))"

definition PortCounters :: "string \<Rightarrow> Counters op" where
  "PortCounters name s =
     (if \<not> c_Counters (caps s) then (Inl (Unsupported ''counters''), s)
      else case lookup name s of Inl e \<Rightarrow> (Inl e, s) | Inr _ \<Rightarrow> (Inr zero_counters, s))"

section \<open>VLANs\<close>

text \<open>Everything that can be in a VLAN: the front-panel ports, then the LAGs in name order.\<close>

definition switchable :: "Switch \<Rightarrow> addr list" where
  "switchable s = ports s @ map (\<lambda>n. l_port (the (mget (lags s) n))) (sort (mkeys (lags s)))"

abbreviation has_vlan :: "Switch \<Rightarrow> int \<Rightarrow> bool" where
  "has_vlan s vid \<equiv> mget (vlans s) vid = Some True"

definition AddVLAN :: "int \<Rightarrow> unit op" where
  "AddVLAN vid s =
     (if \<not> c_VLANs (caps s) then (Inl (Unsupported ''vlans''), s)
      else if vid < 1 \<or> vid > 4094 then (Inl (Errorf ''vlan %d out of range'' [Num vid]), s)
      else (Inr (), s\<lparr>vlans := mput vid True (vlans s)\<rparr>))"

definition DelVLAN :: "int \<Rightarrow> unit op" where
  "DelVLAN vid s =
     (if \<not> c_VLANs (caps s) then (Inl (Unsupported ''vlans''), s)
      else if mhas (svis s) vid
        then (Inl (Errorf ''vlan %d has a routed interface; remove %s first'' [Num vid, Str (SVIName vid)]), s)
      else let s' = s\<lparr>vlans := mdel vid (vlans s)\<rparr>
           in (Inr (), fold (\<lambda>a. modify a (\<lambda>p. p\<lparr>p_vlans := mdel vid (p_vlans p)\<rparr>)) (switchable s') s'))"

definition SetPortVLAN :: "string \<Rightarrow> int \<Rightarrow> bool \<Rightarrow> unit op" where
  "SetPortVLAN name vid tagged s =
     (if \<not> c_VLANs (caps s) then (Inl (Unsupported ''vlans''), s)
      else case lookup name s of
        Inl e \<Rightarrow> (Inl e, s)
      | Inr a \<Rightarrow>
          (let p = at s a
           in if p_lag p \<noteq> []
                then (Inl (Errorf ''%s is a member of %s; put %s in the VLAN instead'' [Str name, Str (p_lag p), Str (p_lag p)]), s)
              else if \<not> has_vlan s vid then (Inl (Errorf ''vlan %d does not exist'' [Num vid]), s)
              else if p_tunnel p \<noteq> 0
                then (Inl (Errorf ''%s is a tunnel port of vlan %d; that is its only membership'' [Str name, Num (p_tunnel p)]), s)
              else let kept = (if tagged then p_vlans p else filter (\<lambda>(v, t). t \<or> v = vid) (p_vlans p))
                   in (Inr (), modify a (\<lambda>p. p\<lparr>p_vlans := mput vid tagged kept\<rparr>) s)))"

definition DelPortVLAN :: "string \<Rightarrow> int \<Rightarrow> unit op" where
  "DelPortVLAN name vid s =
     (if \<not> c_VLANs (caps s) then (Inl (Unsupported ''vlans''), s)
      else case lookup name s of
        Inl e \<Rightarrow> (Inl e, s)
      | Inr a \<Rightarrow>
          (Inr (), modify a (\<lambda>p.
             let p1 = p\<lparr>p_vlans := mdel vid (p_vlans p)\<rparr>;
                 p2 = (if p_tunnel p1 = vid then p1\<lparr>p_tunnel := 0\<rparr> else p1)
             in if p_vlans p2 = [] then p2\<lparr>p_tpid := 0\<rparr> else p2) s))"

definition tpidOr :: "int \<Rightarrow> int" where
  "tpidOr t = (if t = 0 then DefaultTPID else t)"

definition vlan_members :: "Switch \<Rightarrow> int \<Rightarrow> VLANMember list" where
  "vlan_members s vid =
     List.map_filter (\<lambda>a. map_option (\<lambda>tagged.
         \<lparr>vm_Port = p_name (at s a), vm_Tagged = tagged, vm_Tunnel = (p_tunnel (at s a) = vid),
          vm_TPID = tpidOr (p_tpid (at s a))\<rparr>) (mget (p_vlans (at s a)) vid)) (switchable s)"

definition VLANs :: "VLAN list op" where
  "VLANs s =
     (if \<not> c_VLANs (caps s) then (Inl (Unsupported ''vlans''), s)
      else (Inr (sort_key VID (map (\<lambda>vid.
              \<lparr>VID = vid, vl_Members = vlan_members s vid, vl_SVI = mhas (svis s) vid\<rparr>) (mkeys (vlans s)))), s))"

definition AddSVI :: "int \<Rightarrow> unit op" where
  "AddSVI vid s =
     (if \<not> c_SVIs (caps s) then (Inl (Unsupported ''routed vlan interfaces''), s)
      else if \<not> has_vlan s vid then (Inl (Errorf ''vlan %d does not exist'' [Num vid]), s)
      else if mhas (svis s) vid then (Inr (), s)
      else (Inr (), s\<lparr>svis := mput vid (length (heap s)) (svis s),
                      heap := heap s @ [new_port (SVIName vid)]\<rparr>))"

definition DelSVI :: "int \<Rightarrow> unit op" where
  "DelSVI vid s =
     (if \<not> c_SVIs (caps s) then (Inl (Unsupported ''routed vlan interfaces''), s)
      else (Inr (), s\<lparr>svis := mdel vid (svis s),
                      gws := filter (\<lambda>(g, _). gw_SVI g \<noteq> SVIName vid) (gws s)\<rparr>))"

definition FDB :: "FDBEntry list op" where
  "FDB s = (if \<not> c_L2Learning (caps s) then (Inl (Unsupported ''l2 learning''), s) else (Inr [], s))"

section \<open>Addresses and routes\<close>

definition AddAddress :: "string \<Rightarrow> Prefix \<Rightarrow> unit op" where
  "AddAddress name a s =
     (if \<not> c_L3 (caps s) then (Inl (Unsupported ''l3''), s)
      else case l3lookup name s of
        Inl e \<Rightarrow> (Inl e, s)
      | Inr i \<Rightarrow> (Inr (), modify i (\<lambda>p. p\<lparr>p_addrs := mput a True (p_addrs p)\<rparr>) s))"

definition DelAddress :: "string \<Rightarrow> Prefix \<Rightarrow> unit op" where
  "DelAddress name a s =
     (if \<not> c_L3 (caps s) then (Inl (Unsupported ''l3''), s)
      else case l3lookup name s of
        Inl e \<Rightarrow> (Inl e, s)
      | Inr i \<Rightarrow> (Inr (), modify i (\<lambda>p. p\<lparr>p_addrs := mdel a (p_addrs p)\<rparr>) s))"

definition AddRoute :: "Route \<Rightarrow> unit op" where
  "AddRoute r s =
     (let n = int (length (NextHops r))
      in if \<not> c_L3 (caps s) then (Inl (Unsupported ''l3''), s)
         else if n = 0 then (Inl (Errorf ''route %s has no next-hops'' [Pfx (rt_Prefix r)]), s)
         else if n > 1 \<and> \<not> SupportsECMP (caps s) n \<and> \<not> AllowECMPAnyway (cfg s)
           then (Inl (Unsupported (''multipath route with '' @ Itoa n @ '' next-hops'')), s)
         else (Inr (), s\<lparr>routes := mput (rt_Prefix r) r (routes s)\<rparr>))"

definition DelRoute :: "Prefix \<Rightarrow> unit op" where
  "DelRoute p s =
     (if \<not> c_L3 (caps s) then (Inl (Unsupported ''l3''), s)
      else (Inr (), s\<lparr>routes := mdel p (routes s)\<rparr>))"

definition Routes :: "Route list op" where
  "Routes s =
     (if \<not> c_L3 (caps s) then (Inl (Unsupported ''l3''), s)
      else (Inr (sort_key (\<lambda>r. Prefix_String (rt_Prefix r)) (map snd (routes s))), s))"

section \<open>Access lists\<close>

definition ACLs :: "ACLEntry list op" where
  "ACLs s =
     (if \<not> c_ACL (caps s) \<and> \<not> c_ACL6 (caps s) then (Inl (Unsupported ''acl''), s)
      else (Inr (map (\<lambda>seq. let r = the (mget (acls s) seq)
               in \<lparr>ae_Seq = seq, ae_Text = ACLRule_String r, ae_Rule = r, ae_Parsed = True,
                   ae_Installed = True, ae_Packets = 0, ae_Error = []\<rparr>) (sort (mkeys (acls s)))), s))"

definition SetACL :: "ACLRule \<Rightarrow> unit op" where
  "SetACL r s =
     (if Family r = 6 \<and> \<not> c_ACL6 (caps s) then (Inl (Unsupported ''ipv6 acl''), s)
      else if Family r \<noteq> 6 \<and> \<not> c_ACL (caps s) then (Inl (Unsupported ''acl''), s)
      else case Validate (Some (mhas (byName s))) r of
        Some e \<Rightarrow> (Inl e, s)
      | None \<Rightarrow> (Inr (), s\<lparr>acls := mput (Seq r) r (acls s)\<rparr>))"

definition DelACL :: "int \<Rightarrow> unit op" where
  "DelACL seq s =
     (if \<not> c_ACL (caps s) \<and> \<not> c_ACL6 (caps s) then (Inl (Unsupported ''acl''), s)
      else if \<not> mhas (acls s) seq then (Inl (Errorf ''no rule with sequence %d'' [Num seq]), s)
      else (Inr (), s\<lparr>acls := mdel seq (acls s)\<rparr>))"

section \<open>Link aggregation\<close>

text \<open>\<^verbatim>\<open>fmt.Sscanf(name, "po%d", &n)\<close>: the literal, white space, an optional sign, digits, and a value in
  range; what follows them is not read.\<close>

definition scan_po :: "string \<Rightarrow> int option" where
  "scan_po name =
     (if take 2 name \<noteq> ''po'' then None
      else let t = TrimLeftSpace (drop 2 name);
               neg = (t \<noteq> [] \<and> hd t = CHR ''-'');
               ds = takeWhile isDigit (if t \<noteq> [] \<and> (hd t = CHR ''-'' \<or> hd t = CHR ''+'') then tl t else t);
               v = (if neg then - int (digits_val ds) else int (digits_val ds))
           in if ds = [] \<or> v < int_min \<or> v > int_max then None else Some v)"

definition validLAGName :: "string \<Rightarrow> error" where
  "validLAGName name =
     (case scan_po name of
        Some n \<Rightarrow> if n < 1 \<or> LAGName n \<noteq> name then Some (Errorf ''%q is not a LAG name: po1, po2 ...'' [Str name]) else None
      | None \<Rightarrow> Some (Errorf ''%q is not a LAG name: po1, po2 ...'' [Str name]))"

definition AddLAG :: "string \<Rightarrow> bool \<Rightarrow> unit op" where
  "AddLAG name lacp s =
     (if \<not> c_LAGs (caps s) then (Inl (Unsupported ''link aggregation''), s)
      else if lacp \<and> \<not> c_LACP (caps s) then (Inl (Unsupported ''lacp''), s)
      else case validLAGName name of
        Some e \<Rightarrow> (Inl e, s)
      | None \<Rightarrow>
          (case mget (lags s) name of
             Some l \<Rightarrow> (Inr (), s\<lparr>lags := mput name (l\<lparr>l_lacp := lacp\<rparr>) (lags s)\<rparr>)
           | None \<Rightarrow>
               (if c_MaxLAGs (caps s) > 0 \<and> int (length (lags s)) \<ge> c_MaxLAGs (caps s)
                then (Inl (Errorf ''%s: all %d LAGs are in use'' [Str name, Num (c_MaxLAGs (caps s))]), s)
                else (Inr (), s\<lparr>heap := heap s @ [(new_port name)\<lparr>p_isLAG := True, p_adminUp := True\<rparr>],
                                 lags := mput name \<lparr>l_lacp = lacp, l_mlag = 0, l_opts = zero_lag_options,
                                                    l_members = [], l_port = length (heap s)\<rparr> (lags s),
                                 byName := mput name (length (heap s)) (byName s)\<rparr>))))"

text \<open>The checks of \<^verbatim>\<open>SetLAGMembers\<close> on the ports it names, in order; the first failure is the answer.\<close>

fun check_members :: "string \<Rightarrow> string list \<Rightarrow> Switch \<Rightarrow> error" where
  "check_members name [] s = None"
| "check_members name (n # ns) s =
     (case lookup n s of
        Inl e \<Rightarrow> Some e
      | Inr a \<Rightarrow>
          (if p_isLAG (at s a) then Some (Errorf ''%s is a LAG and cannot be a member of one'' [Str n])
           else if p_lag (at s a) \<noteq> [] \<and> p_lag (at s a) \<noteq> name
             then Some (Errorf ''%s is already a member of %s'' [Str n, Str (p_lag (at s a))])
           else if p_vlans (at s a) \<noteq> []
             then Some (Errorf ''%s is a switched port; take it out of its VLANs first'' [Str n])
           else check_members name ns s))"

text \<open>Clearing the \<^verbatim>\<open>lag\<close> field of the named ports, which follows \<^verbatim>\<open>byName\<close> without a check.\<close>

fun release :: "string list \<Rightarrow> unit op" where
  "release [] s = (Inr (), s)"
| "release (n # ns) s =
     (case mget (byName s) n of
        None \<Rightarrow> (Inl Panic, s)
      | Some a \<Rightarrow> release ns (modify a (\<lambda>p. p\<lparr>p_lag := []\<rparr>) s))"

definition claim :: "string \<Rightarrow> string list \<Rightarrow> Switch \<Rightarrow> Switch" where
  "claim name want s =
     fold (\<lambda>a s. if p_name (at s a) \<in> set want then modify a (\<lambda>p. p\<lparr>p_lag := name\<rparr>) s else s) (ports s) s"

definition SetLAGMembers :: "string \<Rightarrow> string list \<Rightarrow> unit op" where
  "SetLAGMembers name want s =
     (if \<not> c_LAGs (caps s) then (Inl (Unsupported ''link aggregation''), s)
      else case mget (lags s) name of
        None \<Rightarrow> (Inl (Errorf ''%s does not exist'' [Str name]), s)
      | Some l \<Rightarrow>
          (if c_MaxLAGMembers (caps s) > 0 \<and> int (length want) > c_MaxLAGMembers (caps s)
             then (Inl (Errorf ''%s: %d members, at most %d'' [Str name, Num (int (length want)), Num (c_MaxLAGMembers (caps s))]), s)
           else case check_members name want s of
             Some e \<Rightarrow> (Inl e, s)
           | None \<Rightarrow>
               (case release (filter (\<lambda>n. n \<notin> set want) (l_members l)) s of
                  (Inl e, s1) \<Rightarrow> (Inl e, s1)
                | (Inr _, s1) \<Rightarrow>
                    (let members = filter (\<lambda>n. n \<in> set want) (map (\<lambda>a. p_name (at s1 a)) (ports s1));
                         s2 = claim name want s1
                     in (Inr (), s2\<lparr>lags := mput name (l\<lparr>l_members := members\<rparr>) (lags s2)\<rparr>)))))"

definition DelLAG :: "string \<Rightarrow> unit op" where
  "DelLAG name s =
     (if \<not> c_LAGs (caps s) then (Inl (Unsupported ''link aggregation''), s)
      else case mget (lags s) name of
        None \<Rightarrow> (Inr (), s)
      | Some l \<Rightarrow>
          (case release (l_members l) s of
             (Inl e, s1) \<Rightarrow> (Inl e, s1)
           | (Inr _, s1) \<Rightarrow> (Inr (), s1\<lparr>lags := mdel name (lags s1), byName := mdel name (byName s1)\<rparr>)))"

definition lagOptions :: "LAGOptions \<Rightarrow> LAGOptions" where
  "lagOptions opts =
     (let o1 = (if Rate opts = [] then opts\<lparr>Rate := ''fast''\<rparr> else opts)
      in if PortPriority o1 = 0 then o1\<lparr>PortPriority := LACPDefaultPriority\<rparr> else o1)"

definition lacpPriority :: "int \<Rightarrow> int" where
  "lacpPriority p = (if p = 0 then LACPDefaultPriority else p)"

fun active_members :: "Switch \<Rightarrow> string list \<Rightarrow> sw_error + LAGMember list" where
  "active_members s [] = Inr []"
| "active_members s (m # ms) =
     (case mget (byName s) m of
        None \<Rightarrow> Inl Panic
      | Some a \<Rightarrow>
          (case active_members s ms of
             Inl e \<Rightarrow> Inl e
           | Inr rest \<Rightarrow> Inr (\<lparr>lm_Port = m, lm_Active = p_adminUp (at s a)\<rparr> # rest)))"

fun list_lags :: "Switch \<Rightarrow> (string \<times> lag) list \<Rightarrow> sw_error + LAG list" where
  "list_lags s [] = Inr []"
| "list_lags s ((name, l) # ls) =
     (case active_members s (l_members l) of
        Inl e \<Rightarrow> Inl e
      | Inr ms \<Rightarrow>
          (case list_lags s ls of
             Inl e \<Rightarrow> Inl e
           | Inr rest \<Rightarrow>
               Inr (\<lparr>lg_Name = name, lg_LACP = l_lacp l, lg_Members = ms, lg_MLAG = l_mlag l,
                     lg_Options = lagOptions (l_opts l), lg_SystemPriority = lacpPriority (lacpPri s)\<rparr> # rest)))"

definition LAGs :: "LAG list op" where
  "LAGs s =
     (if \<not> c_LAGs (caps s) then (Inl (Unsupported ''link aggregation''), s)
      else case list_lags s (lags s) of
        Inl e \<Rightarrow> (Inl e, s)
      | Inr out \<Rightarrow> (Inr (sort_key lg_Name out), s))"

definition SetLAGOptions :: "string \<Rightarrow> LAGOptions \<Rightarrow> unit op" where
  "SetLAGOptions name opts s =
     (if \<not> c_LAGs (caps s) then (Inl (Unsupported ''link aggregation''), s)
      else case ValidLAGOptions opts of
        Some e \<Rightarrow> (Inl e, s)
      | None \<Rightarrow>
          (case mget (lags s) name of
             None \<Rightarrow> (Inl (Errorf ''%s does not exist'' [Str name]), s)
           | Some l \<Rightarrow> (Inr (), s\<lparr>lags := mput name (l\<lparr>l_opts := opts\<rparr>) (lags s)\<rparr>)))"

definition SetLACPSystemPriority :: "int \<Rightarrow> unit op" where
  "SetLACPSystemPriority p s =
     (if \<not> c_LACP (caps s) then (Inl (Unsupported ''lacp''), s)
      else case ValidLACPPriority p of
        Some e \<Rightarrow> (Inl e, s)
      | None \<Rightarrow> (Inr (), s\<lparr>lacpPri := p\<rparr>))"

section \<open>MAC aging and QinQ\<close>

definition SetMACAging :: "int \<Rightarrow> unit op" where
  "SetMACAging seconds s =
     (if \<not> c_MACAging (caps s) then (Inl (Unsupported ''mac aging''), s)
      else case ValidMACAging seconds of
        Some e \<Rightarrow> (Inl e, s)
      | None \<Rightarrow> (Inr (), s\<lparr>aging := Some seconds\<rparr>))"

definition MACAging :: "int op" where
  "MACAging s =
     (if \<not> c_MACAging (caps s) then (Inl (Unsupported ''mac aging''), s)
      else (Inr (case aging s of None \<Rightarrow> DefaultMACAging | Some n \<Rightarrow> n), s))"

definition SetPortTunnel :: "string \<Rightarrow> int \<Rightarrow> unit op" where
  "SetPortTunnel name svid s =
     (if \<not> c_QinQ (caps s) then (Inl (Unsupported ''qinq''), s)
      else case lookup name s of
        Inl e \<Rightarrow> (Inl e, s)
      | Inr a \<Rightarrow>
          (let p = at s a
           in if p_lag p \<noteq> []
                then (Inl (Errorf ''%s is a member of %s; make %s the tunnel port instead'' [Str name, Str (p_lag p), Str (p_lag p)]), s)
              else if \<not> has_vlan s svid then (Inl (Errorf ''vlan %d does not exist'' [Num svid]), s)
              else (Inr (), modify a (\<lambda>p. p\<lparr>p_vlans := mput svid False [], p_tunnel := svid\<rparr>) s)))"

definition SetPortTPID :: "string \<Rightarrow> int \<Rightarrow> unit op" where
  "SetPortTPID name tpid s =
     (if \<not> c_QinQ (caps s) then (Inl (Unsupported ''qinq''), s)
      else case ValidTPID tpid of
        Some e \<Rightarrow> (Inl e, s)
      | None \<Rightarrow>
          (case lookup name s of
             Inl e \<Rightarrow> (Inl e, s)
           | Inr a \<Rightarrow> (Inr (), modify a (\<lambda>p. p\<lparr>p_tpid := tpid\<rparr>) s)))"

section \<open>Spanning tree\<close>

definition zero_stp :: STPConfig where
  "zero_stp = \<lparr>stp_Enabled = False, stp_Priority = 0, stp_HelloTime = 0, stp_ForwardDelay = 0, stp_MaxAge = 0\<rparr>"

text \<open>\<open>stp\<close> creates the state on first use, so even reading it changes the switch.\<close>

definition stp :: "Switch \<Rightarrow> stpState \<times> Switch" where
  "stp s =
     (case stpst s of
        Some st \<Rightarrow> (st, s)
      | None \<Rightarrow> (let st = \<lparr>st_cfg = zero_stp\<lparr>stp_Priority := STPDefaultPriority\<rparr>, st_ports = []\<rparr>
                  in (st, s\<lparr>stpst := Some st\<rparr>)))"

definition SetSTP :: "STPConfig \<Rightarrow> unit op" where
  "SetSTP c s =
     (if \<not> c_STP (caps s) then (Inl (Unsupported ''spanning tree''), s)
      else case ValidSTPPriority (stp_Priority c) of
        Some e \<Rightarrow> (Inl e, s)
      | None \<Rightarrow>
          (case ValidSTPTimes c of
             Some e \<Rightarrow> (Inl e, s)
           | None \<Rightarrow> (let (st, s') = stp s in (Inr (), s'\<lparr>stpst := Some (st\<lparr>st_cfg := c\<rparr>)\<rparr>))))"

definition SetSTPPort :: "string \<Rightarrow> STPPortConfig \<Rightarrow> unit op" where
  "SetSTPPort name c s =
     (if \<not> c_STP (caps s) then (Inl (Unsupported ''spanning tree''), s)
      else case ValidSTPCost (sp_Cost c) of
        Some e \<Rightarrow> (Inl e, s)
      | None \<Rightarrow>
          (case ValidSTPPortPriority (sp_Priority c) of
             Some e \<Rightarrow> (Inl e, s)
           | None \<Rightarrow>
               (case lookup name s of
                  Inl e \<Rightarrow> (Inl e, s)
                | Inr a \<Rightarrow>
                    (if p_lag (at s a) \<noteq> []
                     then (Inl (Errorf ''%s is a member of %s; configure %s instead''
                             [Str name, Str (p_lag (at s a)), Str (p_lag (at s a))]), s)
                     else let (st, s') = stp s
                          in (Inr (), s'\<lparr>stpst := Some (st\<lparr>st_ports := mput name c (st_ports st)\<rparr>)\<rparr>)))))"

text \<open>\<open>%04x\<close>: hexadecimal, padded with zeros to four characters, the sign among them.\<close>

definition pad4 :: "nat \<Rightarrow> string \<Rightarrow> string" where
  "pad4 n s = replicate (n - length s) (CHR ''0'') @ s"

definition hex4 :: "int \<Rightarrow> string" where
  "hex4 i = (if i < 0 then CHR ''-'' # pad4 3 (nat_hex (nat (- i))) else pad4 4 (nat_hex (nat i)))"

definition stp_port :: "stpState \<Rightarrow> port \<Rightarrow> STPPort" where
  "stp_port st p =
     (let pc = (case mget (st_ports st) (p_name p) of None \<Rightarrow> zero_stp_port | Some c \<Rightarrow> c)
      in \<lparr>spt_Port = p_name p, spt_Role = ''designated'', spt_State = ''forwarding'', spt_Edge = sp_Edge pc,
          spt_Cost = (if sp_Cost pc = 0 then STPDefaultCost 10000 else sp_Cost pc),
          spt_Priority = (if sp_Priority pc = 0 then 128 else sp_Priority pc),
          spt_BPDUGuard = sp_BPDUGuard pc, spt_RootGuard = sp_RootGuard pc, spt_Guard = []\<rparr>)"

definition STP :: "STPStatus op" where
  "STP s =
     (if \<not> c_STP (caps s) then (Inl (Unsupported ''spanning tree''), s)
      else let (st, s') = stp s;
               c = st_cfg st;
               bid = hex4 (stp_Priority c) @ ''.020000000001'';
               (h, f, m) = STPTimes c
           in (Inr \<lparr>ss_Enabled = stp_Enabled c, ss_Priority = stp_Priority c, ss_BridgeID = bid, ss_RootID = bid,
                 ss_RootCost = 0, ss_RootPort = [], ss_TopologyChanges = 0,
                 ss_Ports = map (\<lambda>a. stp_port st (at s' a))
                   (filter (\<lambda>a. \<not> (p_vlans (at s' a) = [] \<or> p_lag (at s' a) \<noteq> [])) (switchable s')),
                 ss_HelloTime = h, ss_ForwardDelay = f, ss_MaxAge = m,
                 ss_RootHelloTime = h, ss_RootForwardDelay = f, ss_RootMaxAge = m\<rparr>, s'))"

section \<open>MLAG\<close>

definition SetMLAG :: "MLAGConfig \<Rightarrow> unit op" where
  "SetMLAG c s =
     (if \<not> c_MLAG (caps s) then (Inl (Unsupported ''mlag''), s)
      else if \<not> ml_Enabled c then (Inr (), s\<lparr>mlag := zero_mlag\<rparr>)
      else case ValidMLAG c of
        Some e \<Rightarrow> (Inl e, s)
      | None \<Rightarrow>
          (case ValidMLAGTimes c of
             Some e \<Rightarrow> (Inl e, s)
           | None \<Rightarrow>
               (case lookup (ml_PeerLink c) s of
                  Inl e \<Rightarrow> (Inl e, s)
                | Inr a \<Rightarrow>
                    (if p_lag (at s a) \<noteq> []
                       then (Inl (Errorf ''%s is a member of %s; make %s the peer-link instead''
                               [Str (ml_PeerLink c), Str (p_lag (at s a)), Str (p_lag (at s a))]), s)
                     else case mget (lags s) (ml_PeerLink c) of
                       Some l \<Rightarrow>
                         (if l_mlag l \<noteq> 0
                          then (Inl (Errorf ''%s is MLAG interface %d; the peer-link cannot be one''
                                  [Str (ml_PeerLink c), Num (l_mlag l)]), s)
                          else (Inr (), s\<lparr>mlag := c\<rparr>))
                     | None \<Rightarrow> (Inr (), s\<lparr>mlag := c\<rparr>)))))"

definition SetLAGMLAG :: "string \<Rightarrow> int \<Rightarrow> unit op" where
  "SetLAGMLAG name mid s =
     (if \<not> c_MLAG (caps s) then (Inl (Unsupported ''mlag''), s)
      else if mid < 0 \<or> mid > MLAGMaxID
        then (Inl (Errorf ''mlag id %d: must be 1 to %d, or 0 for none'' [Num mid, Num MLAGMaxID]), s)
      else case mget (lags s) name of
        None \<Rightarrow> (Inl (Errorf ''%s does not exist'' [Str name]), s)
      | Some l \<Rightarrow>
          (if mid \<noteq> 0 \<and> ml_Enabled (mlag s) \<and> ml_PeerLink (mlag s) = name
             then (Inl (Errorf ''%s is the peer-link; it cannot be an MLAG interface'' [Str name]), s)
           else case (if mid = 0 then None
                      else List.find (\<lambda>(n, l'). n \<noteq> name \<and> l_mlag l' = mid) (lags s)) of
             Some (n, _) \<Rightarrow> (Inl (Errorf ''mlag id %d is already %s'' [Num mid, Str n]), s)
           | None \<Rightarrow> (Inr (), s\<lparr>lags := mput name (l\<lparr>l_mlag := mid\<rparr>) (lags s)\<rparr>)))"

text \<open>\<^verbatim>\<open>local = local || s.byName[m].adminUp\<close>: once a member is up, the rest are not followed.\<close>

fun any_up :: "Switch \<Rightarrow> bool \<Rightarrow> string list \<Rightarrow> sw_error + bool" where
  "any_up s loc [] = Inr loc"
| "any_up s loc (m # ms) =
     (if loc then any_up s True ms
      else case mget (byName s) m of
        None \<Rightarrow> Inl Panic
      | Some a \<Rightarrow> any_up s (p_adminUp (at s a)) ms)"

fun mlag_interfaces :: "Switch \<Rightarrow> (string \<times> lag) list \<Rightarrow> sw_error + MLAGInterface list" where
  "mlag_interfaces s [] = Inr []"
| "mlag_interfaces s ((name, l) # ls) =
     (if l_mlag l = 0 then mlag_interfaces s ls
      else case any_up s False (l_members l) of
        Inl e \<Rightarrow> Inl e
      | Inr loc \<Rightarrow>
          (case mlag_interfaces s ls of
             Inl e \<Rightarrow> Inl e
           | Inr rest \<Rightarrow>
               Inr (\<lparr>mi_LAG = name, mi_ID = l_mlag l, mi_Local = loc, mi_Peer = False,
                     mi_State = (if loc then ''local'' else ''down''), mi_Held = [], mi_HeldSeconds = 0\<rparr> # rest)))"

definition MLAG :: "MLAGStatus op" where
  "MLAG s =
     (if \<not> c_MLAG (caps s) then (Inl (Unsupported ''mlag''), s)
      else let c = mlag s; on = ml_Enabled c; (h, d, t, p) = MLAGTimes c
           in case mlag_interfaces s (lags s) of
                Inl e \<Rightarrow> (Inl e, s)
              | Inr ifs \<Rightarrow>
                  (Inr \<lparr>ms_Enabled = on, ms_Role = ''none'', ms_PeerLink = ml_PeerLink c,
                        ms_PeerLinkUp = (case mget (byName s) (ml_PeerLink c) of None \<Rightarrow> False | Some a \<Rightarrow> p_adminUp (at s a)),
                        ms_PeerAlive = False, ms_Heartbeat = False, ms_Peer = [], ms_SystemID = ''020000000001'',
                        ms_Interfaces = sort_key mi_ID ifs, ms_SyncedMACs = 0,
                        ms_PeerAddress = (if on then ml_PeerAddress c else []),
                        ms_Priority = (if on then ml_Priority c else 0),
                        ms_HelloMs = (if on then h else 0), ms_DeadMs = (if on then d else 0),
                        ms_SettleMs = (if on then t else 0), ms_HeartbeatPort = (if on then p else 0),
                        ms_ReloadDelay = (if on then ml_ReloadDelay c else 0)\<rparr>, s))"

section \<open>Virtual gateways\<close>

definition mac :: "Switch \<Rightarrow> string" where
  "mac s = (if vmac s = [] then DefaultVirtualMAC else vmac s)"

definition SetVirtualMAC :: "string \<Rightarrow> unit op" where
  "SetVirtualMAC m s =
     (if \<not> c_VirtualGateway (caps s) then (Inl (Unsupported ''virtual gateway''), s)
      else case ValidVirtualMAC m of
        Some e \<Rightarrow> (Inl e, s)
      | None \<Rightarrow> (Inr (), s\<lparr>vmac := m\<rparr>))"

definition AddVirtualGateway :: "string \<Rightarrow> Prefix \<Rightarrow> unit op" where
  "AddVirtualGateway svi a s =
     (if \<not> c_VirtualGateway (caps s) then (Inl (Unsupported ''virtual gateway''), s)
      else case ValidVirtualGateway a of
        Some e \<Rightarrow> (Inl e, s)
      | None \<Rightarrow>
          (if Is6 (pAddr a) \<and> \<not> c_VirtualGateway6 (caps s) then (Inl (Unsupported ''ipv6 virtual gateway''), s)
           else if \<not> list_ex (\<lambda>vid. SVIName vid = svi) (mkeys (svis s))
             then (Inl (Errorf ''%s is not a routed vlan interface'' [Str svi]), s)
           else (Inr (), s\<lparr>gws := mput \<lparr>gw_SVI = svi, gw_Address = a, gw_MAC = []\<rparr> True (gws s)\<rparr>)))"

definition DelVirtualGateway :: "string \<Rightarrow> Prefix \<Rightarrow> unit op" where
  "DelVirtualGateway svi a s =
     (if \<not> c_VirtualGateway (caps s) then (Inl (Unsupported ''virtual gateway''), s)
      else (Inr (), s\<lparr>gws := mdel \<lparr>gw_SVI = svi, gw_Address = a, gw_MAC = []\<rparr> (gws s)\<rparr>))"

definition VirtualGateways :: "VirtualGateway list op" where
  "VirtualGateways s =
     (if \<not> c_VirtualGateway (caps s) then (Inl (Unsupported ''virtual gateway''), s)
      else (Inr (sort_key gw_SVI (sort_key (\<lambda>g. Prefix_String (gw_Address g))
                   (map (\<lambda>g. g\<lparr>gw_MAC := mac s\<rparr>) (mkeys (gws s))))), s))"

end
