(* ===== verification/Mem_Inv.thy ===== *)
theory Mem_Inv
  imports Mem
begin

text \<open>
  The invariant of the reference datapath and, for each of its calls, the lemma that the call keeps
  it. The parts of the invariant are predicates on the fields they are about, so that a call that
  does not touch those fields keeps them by simplification.
\<close>

declare map_of_eq_Some_iff [simp del] Some_eq_map_of_iff [simp del]

section \<open>The invariant\<close>

text \<open>One port's memberships \<open>m\<close>: the VLANs exist, at most one of them is untagged, and a tunnel port
  has none but the untagged one of its service VLAN \<open>tun\<close>. \<open>V\<close> is the set of VLANs.\<close>

definition wf_members :: "(int \<Rightarrow> bool) \<Rightarrow> (int, bool) gomap \<Rightarrow> int \<Rightarrow> bool" where
  "wf_members V m tun \<longleftrightarrow>
     distinct (mkeys m)
     \<and> (\<forall>v. mhas m v \<longrightarrow> V v)
     \<and> (\<forall>v w. mget m v = Some False \<longrightarrow> mget m w = Some False \<longrightarrow> v = w)
     \<and> (tun \<noteq> 0 \<longrightarrow> (\<forall>v t. mget m v = Some t \<longrightarrow> v = tun \<and> \<not> t))"

definition wf_port :: "(int \<Rightarrow> bool) \<Rightarrow> port \<Rightarrow> bool" where
  "wf_port V p \<longleftrightarrow>
     wf_members V (p_vlans p) (p_tunnel p) \<and> 68 \<le> p_mtu p \<and> p_mtu p \<le> 9216 \<and> ValidTPID (p_tpid p) = None"

definition wf_ports :: "port list \<Rightarrow> (string, addr) gomap \<Rightarrow> (int, bool) gomap \<Rightarrow> bool" where
  "wf_ports h bn vl \<longleftrightarrow> (\<forall>n a. mget bn n = Some a \<longrightarrow> wf_port (\<lambda>v. mget vl v = Some True) (h ! a))"

text \<open>Names and addresses: \<^verbatim>\<open>byName\<close> finds exactly the front-panel ports and the LAGs, under their own
  names.\<close>

definition wf_names ::
  "port list \<Rightarrow> addr list \<Rightarrow> (string, addr) gomap \<Rightarrow> (string, lag) gomap \<Rightarrow> (int, addr) gomap \<Rightarrow> bool" where
  "wf_names h ps bn ls sv \<longleftrightarrow>
     distinct ps \<and> distinct (mkeys bn) \<and> distinct (mkeys ls) \<and> distinct (mkeys sv)
     \<and> (\<forall>a \<in> set ps. \<not> p_isLAG (h ! a) \<and> validLAGName (p_name (h ! a)) \<noteq> None \<and> mget bn (p_name (h ! a)) = Some a)
     \<and> (\<forall>n a. mget bn n = Some a \<longrightarrow> a < length h \<and> p_name (h ! a) = n \<and> (a \<in> set ps \<or> mhas ls n))
     \<and> (\<forall>n l. mget ls n = Some l \<longrightarrow>
          mget bn n = Some (l_port l) \<and> p_isLAG (h ! l_port l) \<and> validLAGName n = None)
     \<and> (\<forall>v a. mget sv v = Some a \<longrightarrow> a < length h \<and> p_name (h ! a) = SVIName v)"

text \<open>The members of a LAG are the ports whose \<^verbatim>\<open>lag\<close> field names it, in board order; none of them is
  switched.\<close>

definition member_names :: "port list \<Rightarrow> addr list \<Rightarrow> string \<Rightarrow> string list" where
  "member_names h ps n = map (\<lambda>a. p_name (h ! a)) (filter (\<lambda>a. p_lag (h ! a) = n) ps)"

definition wf_lag :: "Capabilities \<Rightarrow> port list \<Rightarrow> addr list \<Rightarrow> string \<Rightarrow> lag \<Rightarrow> bool" where
  "wf_lag c h ps n l \<longleftrightarrow>
     l_members l = member_names h ps n \<and> p_lag (h ! l_port l) = []
     \<and> (0 < c_MaxLAGMembers c \<longrightarrow> int (length (l_members l)) \<le> c_MaxLAGMembers c)
     \<and> ValidLAGOptions (l_opts l) = None \<and> 0 \<le> l_mlag l \<and> l_mlag l \<le> MLAGMaxID"

definition wf_lags :: "Capabilities \<Rightarrow> port list \<Rightarrow> addr list \<Rightarrow> (string, lag) gomap \<Rightarrow> bool" where
  "wf_lags c h ps ls \<longleftrightarrow>
     (\<forall>n l. mget ls n = Some l \<longrightarrow> wf_lag c h ps n l)
     \<and> (\<forall>a \<in> set ps. p_lag (h ! a) \<noteq> [] \<longrightarrow> mhas ls (p_lag (h ! a)) \<and> p_vlans (h ! a) = [])
     \<and> (0 < c_MaxLAGs c \<longrightarrow> int (length ls) \<le> c_MaxLAGs c)"

text \<open>MLAG: no id twice, and the peer-link has none.\<close>

definition wf_mlag :: "(string, lag) gomap \<Rightarrow> MLAGConfig \<Rightarrow> bool" where
  "wf_mlag ls m \<longleftrightarrow>
     (\<forall>n l n' l'. mget ls n = Some l \<longrightarrow> mget ls n' = Some l' \<longrightarrow>
        l_mlag l = l_mlag l' \<longrightarrow> l_mlag l \<noteq> 0 \<longrightarrow> n = n')
     \<and> (ml_Enabled m \<longrightarrow>
          ValidMLAG m = None \<and> ValidMLAGTimes m = None
          \<and> (\<forall>l. mget ls (ml_PeerLink m) = Some l \<longrightarrow> l_mlag l = 0))"

text \<open>VLANs and what hangs on them: a routed interface needs its VLAN, a gateway its routed
  interface.\<close>

definition wf_gateway :: "Capabilities \<Rightarrow> (int, addr) gomap \<Rightarrow> VirtualGateway \<Rightarrow> bool" where
  "wf_gateway c sv g \<longleftrightarrow>
     (\<exists>v. mhas sv v \<and> gw_SVI g = SVIName v) \<and> ValidVirtualGateway (gw_Address g) = None
     \<and> gw_MAC g = [] \<and> (Is6 (pAddr (gw_Address g)) \<longrightarrow> c_VirtualGateway6 c)"

definition wf_vlans ::
  "Capabilities \<Rightarrow> (int, bool) gomap \<Rightarrow> (int, addr) gomap \<Rightarrow> (VirtualGateway, bool) gomap \<Rightarrow> bool" where
  "wf_vlans c vl sv gw \<longleftrightarrow>
     distinct (mkeys vl) \<and> distinct (mkeys gw)
     \<and> (\<forall>v t. mget vl v = Some t \<longrightarrow> t \<and> 1 \<le> v \<and> v \<le> 4094)
     \<and> (\<forall>v. mhas sv v \<longrightarrow> mget vl v = Some True)
     \<and> (\<forall>g. mhas gw g \<longrightarrow> wf_gateway c sv g)"

definition wf_stp :: "stpState \<Rightarrow> bool" where
  "wf_stp st \<longleftrightarrow>
     ValidSTPPriority (stp_Priority (st_cfg st)) = None \<and> ValidSTPTimes (st_cfg st) = None
     \<and> (\<forall>n c. mget (st_ports st) n = Some c \<longrightarrow>
          ValidSTPCost (sp_Cost c) = None \<and> ValidSTPPortPriority (sp_Priority c) = None)"

definition wf_settings :: "stpState option \<Rightarrow> int \<Rightarrow> string \<Rightarrow> int option \<Rightarrow> bool" where
  "wf_settings st pri vm ag \<longleftrightarrow>
     (\<forall>x. st = Some x \<longrightarrow> wf_stp x) \<and> ValidLACPPriority pri = None
     \<and> (vm = [] \<or> ValidVirtualMAC vm = None) \<and> (\<forall>n. ag = Some n \<longrightarrow> ValidMACAging n = None)"

definition wf_route :: "Config \<Rightarrow> Route \<Rightarrow> bool" where
  "wf_route c r \<longleftrightarrow>
     NextHops r \<noteq> [] \<and> (SupportsECMP (Caps c) (int (length (NextHops r))) \<or> AllowECMPAnyway c)"

definition wf_tables :: "Config \<Rightarrow> (Prefix, Route) gomap \<Rightarrow> (int, ACLRule) gomap \<Rightarrow> bool" where
  "wf_tables c rs as \<longleftrightarrow>
     distinct (mkeys rs) \<and> distinct (mkeys as)
     \<and> (\<forall>p r. mget rs p = Some r \<longrightarrow> rt_Prefix r = p \<and> wf_route c r)
     \<and> (\<forall>q r. mget as q = Some r \<longrightarrow> Seq r = q \<and> Validate None r = None
          \<and> (if Family r = 6 then c_ACL6 (Caps c) else c_ACL (Caps c)))"

definition sw_inv :: "Switch \<Rightarrow> bool" where
  "sw_inv s \<longleftrightarrow>
     wf_names (heap s) (ports s) (byName s) (lags s) (svis s)
     \<and> wf_ports (heap s) (byName s) (vlans s)
     \<and> wf_lags (caps s) (heap s) (ports s) (lags s)
     \<and> wf_mlag (lags s) (mlag s)
     \<and> wf_vlans (caps s) (vlans s) (svis s) (gws s)
     \<and> wf_settings (stpst s) (lacpPri s) (vmac s) (aging s)
     \<and> wf_tables (cfg s) (routes s) (acls s)"

section \<open>Changing ports in place\<close>

lemma modify_simps [simp]:
  "cfg (modify a f s) = cfg s" "started (modify a f s) = started s" "ports (modify a f s) = ports s"
  "byName (modify a f s) = byName s" "vlans (modify a f s) = vlans s" "svis (modify a f s) = svis s"
  "lags (modify a f s) = lags s" "routes (modify a f s) = routes s" "acls (modify a f s) = acls s"
  "stpst (modify a f s) = stpst s" "mlag (modify a f s) = mlag s" "lacpPri (modify a f s) = lacpPri s"
  "vmac (modify a f s) = vmac s" "gws (modify a f s) = gws s" "aging (modify a f s) = aging s"
  "heap (modify a f s) = (heap s)[a := f (at s a)]"
  by (simp_all add: modify_def)

lemma nth_upd: "xs[a := f (xs ! a)] ! b = (if b = a \<and> a < length xs then f (xs ! a) else xs ! b)"
  by (cases "a < length xs") (auto simp: nth_list_update list_update_beyond)

text \<open>What names and LAGs rest on in a port.\<close>

definition same_shape :: "port \<Rightarrow> port \<Rightarrow> bool" where
  "same_shape p q \<longleftrightarrow> p_name p = p_name q \<and> p_isLAG p = p_isLAG q \<and> p_lag p = p_lag q"

lemma same_shape_refl [simp]: "same_shape p p"
  by (simp add: same_shape_def)

lemma wf_namesD:
  assumes "wf_names h ps bn ls sv"
  shows "a \<in> set ps \<Longrightarrow> mget bn (p_name (h ! a)) = Some a" and "a \<in> set ps \<Longrightarrow> a < length h"
    and "mget bn n = Some a \<Longrightarrow> a < length h" and "mget bn n = Some a \<Longrightarrow> p_name (h ! a) = n"
    and "mget ls n = Some l \<Longrightarrow> mget bn n = Some (l_port l)" and "mget ls n = Some l \<Longrightarrow> l_port l < length h"
  using assms unfolding wf_names_def by blast+

lemma wf_names_heap:
  assumes wf: "wf_names h ps bn ls sv" and len: "length h' = length h"
    and shape: "\<And>a. a < length h \<Longrightarrow> p_name (h' ! a) = p_name (h ! a) \<and> p_isLAG (h' ! a) = p_isLAG (h ! a)"
  shows "wf_names h' ps bn ls sv"
proof -
  have eq: "p_name (h' ! a) = p_name (h ! a)" "p_isLAG (h' ! a) = p_isLAG (h ! a)" if "a < length h" for a
    using shape [OF that] by simp_all
  have "\<forall>a \<in> set ps. \<not> p_isLAG (h' ! a) \<and> validLAGName (p_name (h' ! a)) \<noteq> None \<and> mget bn (p_name (h' ! a)) = Some a"
    using wf wf_namesD(2) [OF wf] by (simp add: wf_names_def eq)
  moreover have "\<forall>n a. mget bn n = Some a \<longrightarrow> a < length h' \<and> p_name (h' ! a) = n \<and> (a \<in> set ps \<or> mhas ls n)"
    using wf wf_namesD(3) [OF wf] by (simp add: wf_names_def eq len)
  moreover have "\<forall>n l. mget ls n = Some l \<longrightarrow>
      mget bn n = Some (l_port l) \<and> p_isLAG (h' ! l_port l) \<and> validLAGName n = None"
    using wf wf_namesD(6) [OF wf] by (simp add: wf_names_def eq)
  moreover have "\<forall>v a. mget sv v = Some a \<longrightarrow> a < length h' \<and> p_name (h' ! a) = SVIName v"
    using wf by (simp add: wf_names_def eq len)
  ultimately show ?thesis using wf unfolding wf_names_def by blast
qed

lemma member_names_cong:
  "(\<And>a. a \<in> set ps \<Longrightarrow> p_name (h' ! a) = p_name (h ! a) \<and> (p_lag (h' ! a) = n \<longleftrightarrow> p_lag (h ! a) = n)) \<Longrightarrow>
   member_names h' ps n = member_names h ps n"
  unfolding member_names_def by (auto intro!: map_cong filter_cong)

lemma wf_lags_heap:
  assumes names: "wf_names h ps bn ls sv" and wf: "wf_lags c h ps ls" and len: "length h' = length h"
    and shape: "\<And>a. a < length h \<Longrightarrow> same_shape (h' ! a) (h ! a)"
    and routed: "\<And>a. a \<in> set ps \<Longrightarrow> p_lag (h ! a) \<noteq> [] \<Longrightarrow> p_vlans (h ! a) = [] \<Longrightarrow> p_vlans (h' ! a) = []"
  shows "wf_lags c h' ps ls"
proof -
  have eq: "p_name (h' ! a) = p_name (h ! a)" "p_lag (h' ! a) = p_lag (h ! a)" if "a < length h" for a
    using shape [OF that] by (simp_all add: same_shape_def)
  have "member_names h' ps n = member_names h ps n" for n
    by (rule member_names_cong) (simp add: eq wf_namesD(2) [OF names])
  then have "wf_lag c h' ps n l = wf_lag c h ps n l" if "mget ls n = Some l" for n l
    using wf_namesD(6) [OF names that] by (simp add: wf_lag_def eq)
  then show ?thesis
    using wf routed by (simp add: wf_lags_def eq wf_namesD(2) [OF names])
qed

lemma inv_modify:
  assumes inv: "sw_inv s"
    and shape: "same_shape (f (at s a)) (at s a)"
    and wf: "wf_port (has_vlan s) (at s a) \<Longrightarrow> wf_port (has_vlan s) (f (at s a))"
    and routed: "p_lag (at s a) \<noteq> [] \<Longrightarrow> p_vlans (at s a) = [] \<Longrightarrow> p_vlans (f (at s a)) = []"
  shows "sw_inv (modify a f s)"
proof -
  note i = inv [unfolded sw_inv_def]
  let ?h = "(heap s)[a := f (at s a)]"
  have sh: "same_shape (?h ! b) (at s b)" for b
    using shape by (simp add: nth_upd)
  have "wf_names ?h (ports s) (byName s) (lags s) (svis s)"
    by (rule wf_names_heap [OF i [THEN conjunct1]]) (use sh in \<open>simp_all add: same_shape_def\<close>)
  moreover have "wf_lags (caps s) ?h (ports s) (lags s)"
  proof (rule wf_lags_heap [OF i [THEN conjunct1]])
    show "wf_lags (caps s) (heap s) (ports s) (lags s)" using i by blast
    fix b
    assume "p_lag (at s b) \<noteq> []" "p_vlans (at s b) = []"
    then show "p_vlans (?h ! b) = []" using routed by (cases "b = a") (simp_all add: nth_upd)
  qed (simp_all add: sh)
  moreover have "wf_ports ?h (byName s) (vlans s)"
    unfolding wf_ports_def
  proof (intro allI impI)
    fix n b
    assume "mget (byName s) n = Some b"
    then have "wf_port (has_vlan s) (at s b)" using i by (simp add: wf_ports_def)
    then show "wf_port (has_vlan s) (?h ! b)" using wf by (cases "b = a") (simp_all add: nth_upd)
  qed
  ultimately show ?thesis using i by (simp add: sw_inv_def)
qed

lemma lookup_Inr: "lookup n s = Inr a \<longleftrightarrow> mget (byName s) n = Some a"
  by (simp add: lookup_def split: option.splits)

subsection \<open>Port settings\<close>

lemma inv_SetPortAdmin: "sw_inv s \<Longrightarrow> sw_inv (snd (SetPortAdmin n up s))"
  by (auto simp: SetPortAdmin_def same_shape_def wf_port_def split: sum.splits intro!: inv_modify)

lemma inv_SetPortMTU: "sw_inv s \<Longrightarrow> sw_inv (snd (SetPortMTU n mtu s))"
  by (auto simp: SetPortMTU_def same_shape_def wf_port_def split: sum.splits intro!: inv_modify)

lemma inv_SetPortTPID: "sw_inv s \<Longrightarrow> sw_inv (snd (SetPortTPID n t s))"
  by (auto simp: SetPortTPID_def same_shape_def wf_port_def split: sum.splits option.splits intro!: inv_modify)

lemma inv_AddAddress: "sw_inv s \<Longrightarrow> sw_inv (snd (AddAddress n p s))"
  by (auto simp: AddAddress_def same_shape_def wf_port_def split: sum.splits intro!: inv_modify)

lemma inv_DelAddress: "sw_inv s \<Longrightarrow> sw_inv (snd (DelAddress n p s))"
  by (auto simp: DelAddress_def same_shape_def wf_port_def split: sum.splits intro!: inv_modify)

subsection \<open>VLAN membership\<close>

lemma mget_filter:
  "distinct (mkeys m) \<Longrightarrow>
   mget (filter (\<lambda>(k, v). Q k v) m) k = (case mget m k of None \<Rightarrow> None | Some v \<Rightarrow> if Q k v then Some v else None)"
  by (induction m) (auto simp: map_of_eq_None_iff image_iff split: option.splits)

lemma distinct_filter_keys [simp, intro]: "distinct (mkeys m) \<Longrightarrow> distinct (mkeys (filter Q m))"
  by (simp add: distinct_map_filter)

lemma wf_members_join:
  assumes "wf_members V m 0" and "V vid"
  shows "wf_members V (mput vid tagged (if tagged then m else filter (\<lambda>(v, t). t \<or> v = vid) m)) 0"
proof -
  define kept where "kept = (if tagged then m else filter (\<lambda>(v, t). t \<or> v = vid) m)"
  have d: "distinct (mkeys m)" using assms(1) by (simp add: wf_members_def)
  have kept: "mget kept v = (case mget m v of None \<Rightarrow> None
      | Some t \<Rightarrow> if tagged \<or> t \<or> v = vid then Some t else None)" for v
    using mget_filter [OF d, of "\<lambda>v t. t \<or> v = vid" v] by (simp add: kept_def split: option.splits)
  have "V v" if "mhas kept v" for v
    using that assms(1) by (auto simp: mhas_def kept wf_members_def split: option.splits if_splits)
  moreover have "v = w" if "mget (mput vid tagged kept) v = Some False" "mget (mput vid tagged kept) w = Some False" for v w
    using that assms(1) by (auto simp: kept wf_members_def split: option.splits if_splits)
  moreover have "distinct (mkeys (mput vid tagged kept))"
    using d by (intro distinct_mput) (auto simp: kept_def)
  ultimately show ?thesis using assms(2) unfolding wf_members_def mhas_mput kept_def [symmetric] by blast
qed

lemma inv_SetPortVLAN:
  assumes inv: "sw_inv s"
  shows "sw_inv (snd (SetPortVLAN n vid tagged s))"
proof (cases "\<exists>u. fst (SetPortVLAN n vid tagged s) = Inr u")
  case False
  then show ?thesis using inv by (auto simp: SetPortVLAN_def Let_def split: sum.splits if_splits)
next
  case True
 then obtain a where l: "lookup n s = Inr a" by (cases "lookup n s") (simp_all add: SetPortVLAN_def split: if_splits)
  then have a: "p_lag (at s a) = []" "has_vlan s vid" "p_tunnel (at s a) = 0"
    "snd (SetPortVLAN n vid tagged s) = modify a (\<lambda>p. p\<lparr>p_vlans := mput vid tagged
       (if tagged then p_vlans (at s a) else filter (\<lambda>(v, t). t \<or> v = vid) (p_vlans (at s a)))\<rparr>) s"
    using True by (simp_all add: SetPortVLAN_def Let_def split: if_splits)
  have "wf_members (has_vlan s) (p_vlans (at s a)) (p_tunnel (at s a)) \<Longrightarrow> wf_members (has_vlan s) (mput vid tagged
       (if tagged then p_vlans (at s a) else filter (\<lambda>(v, t). t \<or> v = vid) (p_vlans (at s a)))) (p_tunnel (at s a))"
    unfolding a(3) by (rule wf_members_join) (auto simp: a(2))
  then show ?thesis
    unfolding a(4) using a(1) by (intro inv_modify [OF inv]) (simp_all add: same_shape_def wf_port_def)
qed

lemma wf_members_mdel: "wf_members V m t \<Longrightarrow> wf_members V (mdel vid m) t"
  unfolding wf_members_def by auto

lemma wf_members_untunnel: "wf_members V m t \<Longrightarrow> wf_members V m 0"
  unfolding wf_members_def by blast

lemma wf_members_Nil [simp]: "wf_members V [] t"
  by (simp add: wf_members_def)

lemma ValidTPID_0 [simp]: "ValidTPID 0 = None"
  by (simp add: ValidTPID_def)

lemma inv_DelPortVLAN: "sw_inv s \<Longrightarrow> sw_inv (snd (DelPortVLAN n vid s))"
  using wf_members_mdel wf_members_untunnel
  by (auto simp: DelPortVLAN_def same_shape_def wf_port_def Let_def split: sum.splits intro!: inv_modify)

lemma inv_SetPortTunnel: "sw_inv s \<Longrightarrow> sw_inv (snd (SetPortTunnel n vid s))"
  by (auto simp: SetPortTunnel_def same_shape_def wf_port_def wf_members_def mhas_def Let_def
      split: sum.splits if_splits intro!: inv_modify)


subsection \<open>VLANs and routed interfaces\<close>

text \<open>The heap after \<open>f\<close> has been applied to the ports in \<open>as\<close>.\<close>

definition heap_upd :: "addr set \<Rightarrow> (port \<Rightarrow> port) \<Rightarrow> port list \<Rightarrow> port list" where
  "heap_upd A f h = map (\<lambda>a. if a \<in> A then f (h ! a) else h ! a) [0..<length h]"

lemma length_heap_upd [simp]: "length (heap_upd A f h) = length h"
  by (simp add: heap_upd_def)

lemma nth_heap_upd: "a < length h \<Longrightarrow> heap_upd A f h ! a = (if a \<in> A then f (h ! a) else h ! a)"
  by (simp add: heap_upd_def)

lemma fold_modify:
  "distinct as \<Longrightarrow> fold (\<lambda>a. modify a f) as s = s\<lparr>heap := heap_upd (set as) f (heap s)\<rparr>"
proof (induction as arbitrary: s)
  case Nil
  have "heap_upd {} f (heap s) = heap s" by (simp add: heap_upd_def map_nth)
  then show ?case by simp
next
  case (Cons a as)
  have "heap_upd (set as) f ((heap s)[a := f (at s a)]) = heap_upd (set (a # as)) f (heap s)"
  proof (rule nth_equalityI)
    fix i
    assume "i < length (heap_upd (set as) f ((heap s)[a := f (at s a)]))"
    then show "heap_upd (set as) f ((heap s)[a := f (at s a)]) ! i = heap_upd (set (a # as)) f (heap s) ! i"
      using Cons.prems by (cases "i = a") (auto simp: nth_heap_upd)
  qed simp
  then show ?case using Cons by (simp add: modify_def)
qed

text \<open>What can be in a VLAN is what \<^verbatim>\<open>byName\<close> finds.\<close>

lemma mkeys_mget: "n \<in> fst ` set m \<longleftrightarrow> (\<exists>v. mget m n = Some v)"
  using mhas_keys [of m n] by (auto simp: mhas_def)

lemma set_switchable:
  assumes wf: "wf_names (heap s) (ports s) (byName s) (lags s) (svis s)"
  shows "a \<in> set (switchable s) \<longleftrightarrow> (\<exists>n. mget (byName s) n = Some a)"
proof
  assume "a \<in> set (switchable s)"
  then consider "a \<in> set (ports s)" | n l where "mget (lags s) n = Some l" "a = l_port l"
    unfolding switchable_def by (auto simp: mkeys_mget [unfolded image_iff] image_iff) (metis fst_conv mkeys_mget image_eqI option.sel)
  then show "\<exists>n. mget (byName s) n = Some a"
    using wf_namesD(1,5) [OF wf] by cases blast+
next
  assume "\<exists>n. mget (byName s) n = Some a"
  then obtain n where n: "mget (byName s) n = Some a" ..
  then have "a \<in> set (ports s) \<or> mhas (lags s) n" using wf unfolding wf_names_def by blast
  then show "a \<in> set (switchable s)"
  proof
    assume "mhas (lags s) n"
    then obtain l where l: "mget (lags s) n = Some l" by (auto simp: mhas_def)
    then have "n \<in> fst ` set (lags s)" "l_port (the (mget (lags s) n)) = a"
      using wf_namesD(5) [OF wf l] n mkeys_mget [of n "lags s"] by auto
    then show ?thesis unfolding switchable_def by auto
  qed (simp add: switchable_def)
qed

lemma distinct_switchable:
  assumes wf: "wf_names (heap s) (ports s) (byName s) (lags s) (svis s)"
  shows "distinct (switchable s)"
proof -
  let ?f = "\<lambda>n. l_port (the (mget (lags s) n))"
  have name: "p_name (at s (?f n)) = n \<and> p_isLAG (at s (?f n))" if n: "n \<in> fst ` set (lags s)" for n
  proof -
    obtain l where l: "mget (lags s) n = Some l" using n mkeys_mget [of n "lags s"] by auto
    then show ?thesis using wf_namesD(4) [OF wf wf_namesD(5) [OF wf l]] wf unfolding wf_names_def by auto
  qed
  then have "inj_on ?f (fst ` set (lags s))" by (intro inj_on_inverseI [of _ "\<lambda>a. p_name (at s a)"]) simp
  moreover have "distinct (mkeys (lags s))" "distinct (ports s)" using wf by (simp_all add: wf_names_def)
  moreover have "?f ` fst ` set (lags s) \<inter> set (ports s) = {}"
    using name wf unfolding wf_names_def by blast
  ultimately show ?thesis
    unfolding switchable_def by (simp add: distinct_map Int_commute)
qed

lemma wf_members_mono: "wf_members V m t \<Longrightarrow> (\<And>v. mhas m v \<Longrightarrow> V v \<Longrightarrow> W v) \<Longrightarrow> wf_members W m t"
  unfolding wf_members_def by blast

lemma inv_AddVLAN: "sw_inv s \<Longrightarrow> sw_inv (snd (AddVLAN vid s))"
proof -
  assume inv: "sw_inv s"
  have "wf_ports (heap s) (byName s) (mput vid True (vlans s))"
    using inv by (auto simp: sw_inv_def wf_ports_def wf_port_def elim!: wf_members_mono)
  moreover have "wf_vlans (caps s) (mput vid True (vlans s)) (svis s) (gws s)" if "1 \<le> vid" "vid \<le> 4094"
    using inv that by (auto simp: sw_inv_def wf_vlans_def)
  ultimately show ?thesis using inv by (auto simp: AddVLAN_def sw_inv_def)
qed

lemma inv_DelVLAN: "sw_inv s \<Longrightarrow> sw_inv (snd (DelVLAN vid s))"
proof -
  assume inv: "sw_inv s"
  note i = inv [unfolded sw_inv_def]
  define f where "f p = p\<lparr>p_vlans := mdel vid (p_vlans p)\<rparr>" for p :: port
  let ?s = "s\<lparr>vlans := mdel vid (vlans s)\<rparr>"
  let ?h = "heap_upd (set (switchable ?s)) f (heap s)"
  have names: "wf_names (heap ?s) (ports ?s) (byName ?s) (lags ?s) (svis ?s)" using i by simp
  have sh: "same_shape (?h ! a) (at s a)" if "a < length (heap s)" for a
    using that by (simp add: nth_heap_upd same_shape_def f_def)
  have live: "?h ! a = f (at s a)" if "mget (byName s) n = Some a" for n a
    using that set_switchable [OF names, of a] wf_namesD(3) [OF names, of n a] by (auto simp: nth_heap_upd)
  have "wf_names ?h (ports s) (byName s) (lags s) (svis s)"
    by (rule wf_names_heap [OF i [THEN conjunct1]]) (use sh in \<open>simp_all add: same_shape_def\<close>)
  moreover have "wf_lags (caps s) ?h (ports s) (lags s)"
  proof (rule wf_lags_heap [OF i [THEN conjunct1]])
    show "wf_lags (caps s) (heap s) (ports s) (lags s)" using i by blast
    fix a
    assume "a \<in> set (ports s)" "p_vlans (at s a) = []"
    then show "p_vlans (?h ! a) = []"
      using live [of _ a] wf_namesD(1) [OF names, of a] by (auto simp: f_def)
  qed (simp_all add: sh)
  moreover have "wf_ports ?h (byName s) (mdel vid (vlans s))"
    unfolding wf_ports_def
  proof (intro allI impI)
    fix n a
    assume n: "mget (byName s) n = Some a"
    then have "wf_port (has_vlan s) (at s a)" using i by (simp add: wf_ports_def)
    then show "wf_port (\<lambda>v. mget (mdel vid (vlans s)) v = Some True) (?h ! a)"
      using live [OF n] by (auto simp: wf_port_def f_def intro: wf_members_mono [OF wf_members_mdel])
  qed
  moreover have "wf_vlans (caps s) (mdel vid (vlans s)) (svis s) (gws s)" if "\<not> mhas (svis s) vid"
    using i that by (auto simp: wf_vlans_def)
  moreover have "fold (\<lambda>a. modify a f) (switchable ?s) ?s = ?s\<lparr>heap := ?h\<rparr>"
    using fold_modify [OF distinct_switchable [OF names], of f] by simp
  ultimately show ?thesis using inv by (simp add: DelVLAN_def Let_def f_def [abs_def] sw_inv_def)
qed

lemma wf_names_append:
  assumes wf: "wf_names h ps bn ls sv"
  shows "wf_names (h @ [p]) ps bn ls sv"
proof -
  have "(h @ [p]) ! a = h ! a" if "a < length h" for a using that by (simp add: nth_append)
  then show ?thesis
    using wf wf_namesD(2,3,6) [OF wf] unfolding wf_names_def by (simp add: less_SucI)
qed

lemma wf_ports_append: "wf_names h ps bn ls sv \<Longrightarrow> wf_ports h bn vl \<Longrightarrow> wf_ports (h @ [p]) bn vl"
  using wf_namesD(3) by (fastforce simp: wf_ports_def nth_append)

lemma wf_lag_append:
  assumes wf: "wf_names h ps bn ls sv" and l: "l_port l < length h"
  shows "wf_lag c (h @ [p]) ps n l = wf_lag c h ps n l"
proof -
  have "member_names (h @ [p]) ps n = member_names h ps n"
    by (rule member_names_cong) (simp add: nth_append wf_namesD(2) [OF wf])
  then show ?thesis using l by (simp add: wf_lag_def nth_append)
qed

lemma wf_lags_append:
  assumes wf: "wf_names h ps bn ls sv" and ok: "wf_lags c h ps ls"
  shows "wf_lags c (h @ [p]) ps ls"
  using ok wf_lag_append [OF wf wf_namesD(6) [OF wf]] wf_namesD(2) [OF wf]
  by (simp add: wf_lags_def nth_append)

lemma inv_AddSVI: "sw_inv s \<Longrightarrow> sw_inv (snd (AddSVI vid s))"
proof -
  assume inv: "sw_inv s"
  note i = inv [unfolded sw_inv_def]
  let ?h = "heap s @ [new_port (SVIName vid)]" and ?sv = "mput vid (length (heap s)) (svis s)"
  have n: "wf_names ?h (ports s) (byName s) (lags s) (svis s)" using i by (blast intro: wf_names_append)
  have "wf_names ?h (ports s) (byName s) (lags s) ?sv"
    using n unfolding wf_names_def by (simp add: new_port_def nth_append)
  moreover have "wf_ports ?h (byName s) (vlans s)" "wf_lags (caps s) ?h (ports s) (lags s)"
    using i by (blast intro: wf_ports_append wf_lags_append)+
  moreover have "wf_vlans (caps s) (vlans s) ?sv (gws s)" if "has_vlan s vid"
    using i that by (auto simp: wf_vlans_def wf_gateway_def)
  ultimately show ?thesis using inv by (simp add: AddSVI_def sw_inv_def)
qed

lemma Itoa_inj: "Itoa i = Itoa j \<Longrightarrow> i = j"
proof -
  have "isDigit (hd (nat_dec n))" for n by (rule hd_nat_dec)
  then have "nat_dec n \<noteq> CHR ''-'' # m" for n m using not_isDigit_sign(1) by (metis list.sel(1))
  then show "Itoa i = Itoa j \<Longrightarrow> i = j"
    by (auto simp: Itoa_def split: if_splits) (metis)+
qed

lemma SVIName_inj [simp]: "SVIName v = SVIName w \<longleftrightarrow> v = w"
  using Itoa_inj by (auto simp: SVIName_def)

lemma inv_DelSVI: "sw_inv s \<Longrightarrow> sw_inv (snd (DelSVI vid s))"
proof -
  assume inv: "sw_inv s"
  note i = inv [unfolded sw_inv_def]
  let ?gw = "filter (\<lambda>(g, _). gw_SVI g \<noteq> SVIName vid) (gws s)"
  have "mget ?gw g = (case mget (gws s) g of None \<Rightarrow> None | Some t \<Rightarrow> if gw_SVI g \<noteq> SVIName vid then Some t else None)" for g
    using i mget_filter [of "gws s" "\<lambda>g _. gw_SVI g \<noteq> SVIName vid" g] by (simp add: wf_vlans_def)
  then have "mhas ?gw g \<longleftrightarrow> mhas (gws s) g \<and> gw_SVI g \<noteq> SVIName vid" for g
    by (auto simp: mhas_def split: option.splits)
  then have "wf_vlans (caps s) (vlans s) (mdel vid (svis s)) ?gw"
    using i by (auto simp: wf_vlans_def wf_gateway_def)
  moreover have "wf_names (heap s) (ports s) (byName s) (lags s) (mdel vid (svis s))"
    using i unfolding wf_names_def by auto
  ultimately show ?thesis using inv by (simp add: DelSVI_def sw_inv_def)
qed


subsection \<open>Link aggregation\<close>

lemma length_mput: "length (mput k v m) = (if mhas m k then length m else Suc (length m))"
  by (induction m) (auto simp: mhas_def)

lemma length_mdel: "length (mdel k m) \<le> length m"
  by (simp add: AList.delete_eq)

lemma wf_names_put:
  assumes "wf_names h ps bn ls sv" and "mget ls n = Some l" and "l_port l' = l_port l"
  shows "wf_names h ps bn (mput n l' ls) sv"
  using assms unfolding wf_names_def by (auto simp: mhas_def)

lemma wf_lags_put:
  assumes "wf_lags c h ps ls" and "mget ls n = Some l" and "wf_lag c h ps n l'"
  shows "wf_lags c h ps (mput n l' ls)"
  using assms mhas_get [OF assms(2)] by (auto simp: wf_lags_def length_mput)

lemma wf_mlag_put: "wf_mlag ls m \<Longrightarrow> mget ls n = Some l \<Longrightarrow> l_mlag l' = l_mlag l \<Longrightarrow> wf_mlag (mput n l' ls) m"
  unfolding wf_mlag_def by (auto split: if_splits)

lemma inv_put_lag:
  assumes inv: "sw_inv s" and l: "mget (lags s) n = Some l"
    and same: "l_port l' = l_port l" "l_mlag l' = l_mlag l" "l_members l' = l_members l" "ValidLAGOptions (l_opts l') = None"
  shows "sw_inv (s\<lparr>lags := mput n l' (lags s)\<rparr>)"
proof -
  note i = inv [unfolded sw_inv_def]
  have "wf_lag (caps s) (heap s) (ports s) n l" using i l by (simp add: wf_lags_def)
  then have "wf_lag (caps s) (heap s) (ports s) n l'" using same unfolding wf_lag_def by auto
  then show ?thesis
    using i wf_names_put [OF _ l same(1)] wf_lags_put [OF _ l] wf_mlag_put [OF _ l same(2)]
    by (simp add: sw_inv_def)
qed

lemma inv_SetLAGOptions: "sw_inv s \<Longrightarrow> sw_inv (snd (SetLAGOptions n opts s))"
  by (auto simp: SetLAGOptions_def split: option.splits intro: inv_put_lag)

lemma validLAGName_nonempty: "validLAGName n = None \<Longrightarrow> n \<noteq> []"
  by (auto simp: validLAGName_def scan_po_def)

lemma wf_names_new:
  assumes wf: "wf_names h ps bn ls sv" and n: "validLAGName n = None" "mget ls n = None"
    and p: "p_name p = n" "p_isLAG p" and l: "l_port l = length h"
  shows "wf_names (h @ [p]) ps (mput n (length h) bn) (mput n l ls) sv"
proof -
  note wf' = wf_names_append [OF wf, of p, unfolded wf_names_def]
  have ports: "\<forall>a \<in> set ps. \<not> p_isLAG ((h @ [p]) ! a) \<and> validLAGName (p_name ((h @ [p]) ! a)) \<noteq> None \<and>
      mget (mput n (length h) bn) (p_name ((h @ [p]) ! a)) = Some a"
  proof
    fix a
    assume "a \<in> set ps"
    with wf' have "\<not> p_isLAG ((h @ [p]) ! a) \<and> validLAGName (p_name ((h @ [p]) ! a)) \<noteq> None \<and>
        mget bn (p_name ((h @ [p]) ! a)) = Some a" by blast
    moreover from this have "p_name ((h @ [p]) ! a) \<noteq> n" using n(1) by auto
    ultimately show "\<not> p_isLAG ((h @ [p]) ! a) \<and> validLAGName (p_name ((h @ [p]) ! a)) \<noteq> None \<and>
        mget (mput n (length h) bn) (p_name ((h @ [p]) ! a)) = Some a" by simp
  qed
  have names: "\<forall>m a. mget (mput n (length h) bn) m = Some a \<longrightarrow>
      a < length (h @ [p]) \<and> p_name ((h @ [p]) ! a) = m \<and> (a \<in> set ps \<or> mhas (mput n l ls) m)"
  proof (intro allI impI)
    fix m a
    assume a: "mget (mput n (length h) bn) m = Some a"
    show "a < length (h @ [p]) \<and> p_name ((h @ [p]) ! a) = m \<and> (a \<in> set ps \<or> mhas (mput n l ls) m)"
    proof (cases "m = n")
      case True
      then show ?thesis using a p(1) by (auto simp: nth_append)
    next
      case False
      then have "mget bn m = Some a" using a by simp
      then have "a < length (h @ [p]) \<and> p_name ((h @ [p]) ! a) = m \<and> (a \<in> set ps \<or> mhas ls m)" using wf' by blast
      then show ?thesis by auto
    qed
  qed
  have lags: "\<forall>m k. mget (mput n l ls) m = Some k \<longrightarrow>
      mget (mput n (length h) bn) m = Some (l_port k) \<and> p_isLAG ((h @ [p]) ! l_port k) \<and> validLAGName m = None"
  proof (intro allI impI)
    fix m k
    assume k: "mget (mput n l ls) m = Some k"
    show "mget (mput n (length h) bn) m = Some (l_port k) \<and> p_isLAG ((h @ [p]) ! l_port k) \<and> validLAGName m = None"
    proof (cases "m = n")
      case True
      then show ?thesis using k p(2) l n(1) by simp
    next
      case False
      then have "mget ls m = Some k" using k by simp
      then show ?thesis using wf' False by simp
    qed
  qed
  show ?thesis
    unfolding wf_names_def using ports names lags wf' by simp
qed

lemma inv_new_lag:
  assumes inv: "sw_inv s" and n: "validLAGName n = None" "mget (lags s) n = None"
    and room: "0 < c_MaxLAGs (caps s) \<Longrightarrow> int (length (lags s)) < c_MaxLAGs (caps s)"
  shows "sw_inv (s\<lparr>heap := heap s @ [(new_port n)\<lparr>p_isLAG := True, p_adminUp := True\<rparr>],
            lags := mput n \<lparr>l_lacp = lacp, l_mlag = 0, l_opts = zero_lag_options, l_members = [],
                            l_port = length (heap s)\<rparr> (lags s),
            byName := mput n (length (heap s)) (byName s)\<rparr>)"
proof -
  note i = inv [unfolded sw_inv_def]
  let ?p = "(new_port n)\<lparr>p_isLAG := True, p_adminUp := True\<rparr>" and ?l = "\<lparr>l_lacp = lacp, l_mlag = 0,
      l_opts = zero_lag_options, l_members = [], l_port = length (heap s)\<rparr>"
  let ?h = "heap s @ [?p]" and ?ls = "mput n ?l (lags s)" and ?bn = "mput n (length (heap s)) (byName s)"
  note wf = i [THEN conjunct1]
  have names: "wf_names ?h (ports s) ?bn ?ls (svis s)"
    by (rule wf_names_new [OF wf n]) (simp_all add: new_port_def)
  have "member_names ?h (ports s) n = []"
  proof -
    have "p_lag (?h ! a) \<noteq> n" if a: "a \<in> set (ports s)" for a
      using i a n wf_namesD(2) [OF wf a] validLAGName_nonempty [OF n(1)]
      by (auto simp: wf_lags_def mhas_def nth_append)
    then show ?thesis by (simp add: member_names_def filter_empty_conv)
  qed
  then have "wf_lag (caps s) ?h (ports s) n ?l"
    by (simp add: wf_lag_def new_port_def nth_append zero_lag_options_def ValidLAGOptions_def MLAGMaxID_def)
  moreover have "wf_lags (caps s) ?h (ports s) (lags s)" using i by (blast intro: wf_lags_append)
  ultimately have "wf_lags (caps s) ?h (ports s) ?ls"
    using room n(2) by (auto simp: wf_lags_def length_mput mhas_def)
  moreover have "wf_ports ?h ?bn (vlans s)"
    using wf_ports_append [OF wf i [THEN conjunct2, THEN conjunct1], of ?p]
    by (auto simp: wf_ports_def new_port_def nth_append wf_port_def)
  moreover have "wf_mlag ?ls (mlag s)" using i n(2) by (auto simp: wf_mlag_def)
  ultimately show ?thesis using i names by (simp add: sw_inv_def)
qed

lemma inv_AddLAG: "sw_inv s \<Longrightarrow> sw_inv (snd (AddLAG n lacp s))"
proof -
  assume inv: "sw_inv s"
  have "sw_inv (s\<lparr>lags := mput n (l\<lparr>l_lacp := lacp\<rparr>) (lags s)\<rparr>)" if "mget (lags s) n = Some l" for l
    using inv that by (intro inv_put_lag [OF inv that]) (auto simp: sw_inv_def wf_lags_def wf_lag_def)
  then show ?thesis
    using inv inv_new_lag [OF inv, of n lacp] by (auto simp: AddLAG_def split: option.splits)
qed

text \<open>\<open>release\<close> follows \<^verbatim>\<open>byName\<close> safely when every name is there.\<close>

lemma heap_upd_heap_upd:
  "(\<And>p. f (f p) = f p) \<Longrightarrow> heap_upd A f (heap_upd B f h) = heap_upd (A \<union> B) f h"
  by (rule nth_equalityI) (auto simp: nth_heap_upd)

lemma upd_heap_upd: "h[a := f (h ! a)] = heap_upd {a} f h"
  by (rule nth_equalityI) (auto simp: nth_heap_upd nth_list_update)

lemma modify_heap_upd: "modify a f s = s\<lparr>heap := heap_upd {a} f (heap s)\<rparr>"
  by (simp add: modify_def upd_heap_upd)

lemma release_ok:
  "(\<And>n. n \<in> set ns \<Longrightarrow> mhas (byName s) n) \<Longrightarrow>
   release ns s = (Inr (), s\<lparr>heap := heap_upd {a. \<exists>n \<in> set ns. mget (byName s) n = Some a} (\<lambda>p. p\<lparr>p_lag := []\<rparr>) (heap s)\<rparr>)"
proof (induction ns arbitrary: s)
  case Nil
  have "heap_upd {} f h = h" for f h by (simp add: heap_upd_def map_nth)
  then show ?case by simp
next
  case (Cons n ns)
  obtain a where a: "mget (byName s) n = Some a" using Cons.prems [of n] by (auto simp: mhas_def)
  have "{b. \<exists>m \<in> set ns. mget (byName s) m = Some b} \<union> {a} = {b. \<exists>m \<in> set (n # ns). mget (byName s) m = Some b}"
    using a by auto
  then show ?case
    using Cons a by (simp add: modify_heap_upd heap_upd_heap_upd)
qed

lemma member_addrs:
  assumes wf: "wf_names h ps bn ls sv"
  shows "{a. \<exists>m \<in> set (filter Q (member_names h ps n)). mget bn m = Some a} =
         {a \<in> set ps. p_lag (h ! a) = n \<and> Q (p_name (h ! a))}"
  using wf_namesD(1) [OF wf] by (auto simp: member_names_def)

lemma member_live:
  assumes wf: "wf_names h ps bn ls sv" and "m \<in> set (member_names h ps n)"
  shows "mhas bn m"
  using assms(2) wf_namesD(1) [OF wf] by (auto simp: member_names_def mhas_def)

lemma claim_heap:
  assumes "distinct (ports s)"
  shows "claim n want s = s\<lparr>heap := heap_upd {a \<in> set (ports s). p_name (at s a) \<in> set want} (\<lambda>p. p\<lparr>p_lag := n\<rparr>) (heap s)\<rparr>"
proof -
  let ?f = "\<lambda>p. p\<lparr>p_lag := n\<rparr>"
  have "fold (\<lambda>a s. if p_name (at s a) \<in> set want then modify a ?f s else s) as s =
      s\<lparr>heap := heap_upd {a \<in> set as. p_name (at s a) \<in> set want} ?f (heap s)\<rparr>" for as s
  proof (induction as arbitrary: s)
    case Nil
    have "heap_upd {} f h = h" for f h by (simp add: heap_upd_def map_nth)
    then show ?case by simp
  next
    case (Cons a as)
    have name: "p_name (heap_upd {a} ?f (heap s) ! b) = p_name (at s b)" for b
      unfolding upd_heap_upd [of "heap s" a ?f, symmetric] by (simp add: nth_upd [of _ _ ?f])
    show ?case
    proof (cases "p_name (at s a) \<in> set want")
      case True
      then have "{b \<in> set as. p_name (at s b) \<in> set want} \<union> {a} = {b \<in> set (a # as). p_name (at s b) \<in> set want}"
        by auto
      then show ?thesis using True Cons by (simp add: modify_heap_upd name heap_upd_heap_upd)
    next
      case False
      then have "{b \<in> set as. p_name (at s b) \<in> set want} = {b \<in> set (a # as). p_name (at s b) \<in> set want}"
        by auto
      then show ?thesis using False Cons by simp
    qed
  qed
  then show ?thesis by (simp add: claim_def)
qed


text \<open>Moving ports in and out of LAGs changes their \<^verbatim>\<open>lag\<close> field only; \<open>g\<close> is its new value.\<close>

definition relag :: "(addr \<Rightarrow> string) \<Rightarrow> port list \<Rightarrow> port list" where
  "relag g h = map (\<lambda>a. (h ! a)\<lparr>p_lag := g a\<rparr>) [0..<length h]"

lemma relag_simps [simp]: "length (relag g h) = length h"
  "a < length h \<Longrightarrow> relag g h ! a = (h ! a)\<lparr>p_lag := g a\<rparr>"
  by (simp_all add: relag_def)

lemma heap_upd_relag: "heap_upd A (\<lambda>p. p\<lparr>p_lag := n\<rparr>) h = relag (\<lambda>a. if a \<in> A then n else p_lag (h ! a)) h"
  by (rule nth_equalityI) (auto simp: nth_heap_upd)

lemma relag_relag: "heap_upd A (\<lambda>p. p\<lparr>p_lag := n\<rparr>) (relag g h) = relag (\<lambda>a. if a \<in> A then n else g a) h"
  by (rule nth_equalityI) (auto simp: nth_heap_upd)

lemma wf_names_relag: "wf_names h ps bn ls sv \<Longrightarrow> wf_names (relag g h) ps bn ls sv"
  by (erule wf_names_heap) simp_all

lemma wf_ports_relag: "wf_names h ps bn ls sv \<Longrightarrow> wf_ports h bn vl \<Longrightarrow> wf_ports (relag g h) bn vl"
  using wf_namesD(3) by (fastforce simp: wf_ports_def wf_port_def)

text \<open>Membership after a change of the LAG \<open>n\<close>: \<open>g\<close> gives the ports in \<open>W\<close> to \<open>n\<close>, takes the others out of
  \<open>n\<close>, and leaves the rest alone.\<close>

definition lag_after :: "string \<Rightarrow> (addr \<Rightarrow> bool) \<Rightarrow> port list \<Rightarrow> addr list \<Rightarrow> addr \<Rightarrow> string" where
  "lag_after n W h ps a =
     (if a \<in> set ps \<and> W a then n else if a \<in> set ps \<and> p_lag (h ! a) = n then [] else p_lag (h ! a))"

lemma wf_lag_after:
  assumes wf: "wf_names h ps bn ls sv" and ok: "wf_lags c h ps ls" and n: "n \<noteq> []"
    and free: "\<And>a. a \<in> set ps \<Longrightarrow> W a \<Longrightarrow> p_lag (h ! a) = [] \<or> p_lag (h ! a) = n"
    and m: "mget ls m = Some l" "m \<noteq> n"
  shows "wf_lag c (relag (lag_after n W h ps) h) ps m l"
proof -
  let ?h = "relag (lag_after n W h ps) h"
  have "l_port l \<notin> set ps" using wf m(1) unfolding wf_names_def by blast
  then have port: "p_lag (?h ! l_port l) = p_lag (h ! l_port l)"
    using wf_namesD(6) [OF wf m(1)] by (simp add: lag_after_def)
  have "m \<noteq> []" using wf m(1) validLAGName_nonempty unfolding wf_names_def by blast
  then have "member_names ?h ps m = member_names h ps m"
    using m(2) free wf_namesD(2) [OF wf] by (intro member_names_cong) (auto simp: lag_after_def)
  moreover have "wf_lag c h ps m l" using ok m(1) by (simp add: wf_lags_def)
  ultimately show ?thesis using port unfolding wf_lag_def by auto
qed

lemma member_names_after:
  assumes wf: "wf_names h ps bn ls sv" and n: "n \<noteq> []"
  shows "member_names (relag (lag_after n W h ps) h) ps n = map (\<lambda>a. p_name (h ! a)) (filter W ps)"
proof -
  have "filter (\<lambda>a. p_lag (relag (lag_after n W h ps) h ! a) = n) ps = filter W ps"
    using wf_namesD(2) [OF wf] n by (intro filter_cong) (auto simp: lag_after_def)
  then show ?thesis
    unfolding member_names_def using wf_namesD(2) [OF wf] by (auto intro!: map_cong)
qed

lemma inj_port_names: "wf_names h ps bn ls sv \<Longrightarrow> distinct (map (\<lambda>a. p_name (h ! a)) ps)"
proof -
  assume wf: "wf_names h ps bn ls sv"
  have "inj_on (\<lambda>a. p_name (h ! a)) (set ps)"
    by (rule inj_on_inverseI [of _ "\<lambda>n. the (mget bn n)"]) (simp add: wf_namesD(1) [OF wf])
  then show ?thesis using wf by (simp add: distinct_map wf_names_def)
qed

lemma filter_names_length:
  assumes "distinct (map f ps)"
  shows "length (filter (\<lambda>a. f a \<in> set want) ps) \<le> length want"
proof -
  have "distinct (map f (filter (\<lambda>a. f a \<in> set want) ps))" using assms by (rule distinct_map_filter)
  then have "length (filter (\<lambda>a. f a \<in> set want) ps) = card (set (map f (filter (\<lambda>a. f a \<in> set want) ps)))"
    by (metis distinct_card length_map)
  also have "\<dots> \<le> card (set want)" by (rule card_mono) auto
  also have "\<dots> \<le> length want" by (rule card_length)
  finally show ?thesis .
qed

lemma check_members_ok:
  "check_members n want s = None \<Longrightarrow> m \<in> set want \<Longrightarrow>
   \<exists>a. mget (byName s) m = Some a \<and> \<not> p_isLAG (at s a) \<and> (p_lag (at s a) = [] \<or> p_lag (at s a) = n) \<and> p_vlans (at s a) = []"
  by (induction n want s rule: check_members.induct) (auto simp: lookup_Inr split: sum.splits if_splits)

text \<open>What \<^verbatim>\<open>SetLAGMembers\<close> and \<^verbatim>\<open>DelLAG\<close> leave, when they are not refused.\<close>

lemma release_members:
  assumes inv: "sw_inv s" and l: "mget (lags s) n = Some l"
  shows "release (filter Q (l_members l)) s =
    (Inr (), s\<lparr>heap := relag (\<lambda>a. if a \<in> set (ports s) \<and> p_lag (at s a) = n \<and> Q (p_name (at s a)) then []
                                  else p_lag (at s a)) (heap s)\<rparr>)"
proof -
  note i = inv [unfolded sw_inv_def]
  have mem: "l_members l = member_names (heap s) (ports s) n"
    using i l by (simp add: wf_lags_def wf_lag_def)
  have "release (filter Q (l_members l)) s =
      (Inr (), s\<lparr>heap := heap_upd {a \<in> set (ports s). p_lag (at s a) = n \<and> Q (p_name (at s a))} (\<lambda>p. p\<lparr>p_lag := []\<rparr>) (heap s)\<rparr>)"
    unfolding mem member_addrs [OF i [THEN conjunct1], symmetric]
    by (rule release_ok) (auto intro: member_live [OF i [THEN conjunct1]])
  then show ?thesis by (simp add: heap_upd_relag)
qed

lemma SetLAGMembers_result:
  assumes inv: "sw_inv s" and ok: "fst (SetLAGMembers n want s) = Inr u"
  obtains l where "mget (lags s) n = Some l" "check_members n want s = None"
    "0 < c_MaxLAGMembers (caps s) \<longrightarrow> int (length want) \<le> c_MaxLAGMembers (caps s)"
    "snd (SetLAGMembers n want s) =
       s\<lparr>heap := relag (lag_after n (\<lambda>a. p_name (at s a) \<in> set want) (heap s) (ports s)) (heap s),
         lags := mput n (l\<lparr>l_members := map (\<lambda>a. p_name (at s a)) (filter (\<lambda>a. p_name (at s a) \<in> set want) (ports s))\<rparr>) (lags s)\<rparr>"
proof -
  note i = inv [unfolded sw_inv_def]
  note wf = i [THEN conjunct1]
  obtain l where l: "mget (lags s) n = Some l" "check_members n want s = None"
    "0 < c_MaxLAGMembers (caps s) \<longrightarrow> int (length want) \<le> c_MaxLAGMembers (caps s)" "c_LAGs (caps s)"
    using ok by (auto simp: SetLAGMembers_def split: if_splits option.splits)
  let ?g = "\<lambda>a. if a \<in> set (ports s) \<and> p_lag (at s a) = n \<and> p_name (at s a) \<notin> set want then [] else p_lag (at s a)"
  let ?s1 = "s\<lparr>heap := relag ?g (heap s)\<rparr>"
  have rel: "release (filter (\<lambda>m. m \<notin> set want) (l_members l)) s = (Inr (), ?s1)"
    using release_members [OF inv l(1), of "\<lambda>m. m \<notin> set want"] .
  have name: "p_name (at ?s1 a) = p_name (at s a)" if "a \<in> set (ports s)" for a
    using wf_namesD(2) [OF wf that] by simp
  have set_eq: "{a \<in> set (ports s). p_name (at ?s1 a) \<in> set want} = {a \<in> set (ports s). p_name (at s a) \<in> set want}"
    using name by auto
  have after: "(\<lambda>a. if a \<in> {a \<in> set (ports s). p_name (at s a) \<in> set want} then n else ?g a) =
      lag_after n (\<lambda>a. p_name (at s a) \<in> set want) (heap s) (ports s)"
    by (rule ext) (simp add: lag_after_def)
  have dist: "distinct (ports ?s1)" using wf by (simp add: wf_names_def)
  have "heap_upd {a \<in> set (ports s). p_name (at ?s1 a) \<in> set want} (\<lambda>p. p\<lparr>p_lag := n\<rparr>) (relag ?g (heap s)) =
      relag (lag_after n (\<lambda>a. p_name (at s a) \<in> set want) (heap s) (ports s)) (heap s)"
    unfolding set_eq relag_relag after ..
  then have cl: "claim n want ?s1 = s\<lparr>heap := relag (lag_after n (\<lambda>a. p_name (at s a) \<in> set want) (heap s) (ports s)) (heap s)\<rparr>"
    using claim_heap [OF dist, of n want] by simp
  have names: "map (\<lambda>a. p_name (at ?s1 a)) (ports ?s1) = map (\<lambda>a. p_name (at s a)) (ports s)"
    using name by (intro map_cong) simp_all
  have mem: "filter (\<lambda>m. m \<in> set want) (map (\<lambda>a. p_name (at ?s1 a)) (ports ?s1)) =
      map (\<lambda>a. p_name (at s a)) (filter (\<lambda>a. p_name (at s a) \<in> set want) (ports s))"
    unfolding names by (simp add: filter_map o_def)
  have room: "(0 < c_MaxLAGMembers (caps s) \<and> c_MaxLAGMembers (caps s) < int (length want)) = False"
    using l(3) by auto
  have "SetLAGMembers n want s = (Inr (), (claim n want ?s1)\<lparr>lags := mput n (l\<lparr>l_members :=
      filter (\<lambda>m. m \<in> set want) (map (\<lambda>a. p_name (at ?s1 a)) (ports ?s1))\<rparr>) (lags (claim n want ?s1))\<rparr>)"
    using l(4) unfolding SetLAGMembers_def l(1,2) option.case room if_False rel prod.case sum.case Let_def by simp
  then show thesis
    unfolding mem cl by (intro that [OF l(1,2,3)]) simp
qed

lemma inv_SetLAGMembers: "sw_inv s \<Longrightarrow> sw_inv (snd (SetLAGMembers n want s))"
proof -
  assume inv: "sw_inv s"
  note i = inv [unfolded sw_inv_def]
  note wf = i [THEN conjunct1]
  show ?thesis
  proof (cases "fst (SetLAGMembers n want s)")
    case (Inl e)
    then show ?thesis
      using inv release_members [OF inv, of n _ "\<lambda>m. m \<notin> set want"]
      by (auto simp: SetLAGMembers_def Let_def split: if_splits option.splits)
  next
    case (Inr u)
    let ?W = "\<lambda>a. p_name (at s a) \<in> set want"
    let ?h = "relag (lag_after n ?W (heap s) (ports s)) (heap s)"
    obtain l where l: "mget (lags s) n = Some l" "check_members n want s = None"
      "0 < c_MaxLAGMembers (caps s) \<longrightarrow> int (length want) \<le> c_MaxLAGMembers (caps s)"
      and res: "snd (SetLAGMembers n want s) = s\<lparr>heap := ?h,
         lags := mput n (l\<lparr>l_members := map (\<lambda>a. p_name (at s a)) (filter ?W (ports s))\<rparr>) (lags s)\<rparr>"
      by (rule SetLAGMembers_result [OF inv Inr])
    let ?l = "l\<lparr>l_members := map (\<lambda>a. p_name (at s a)) (filter ?W (ports s))\<rparr>"
    have n: "n \<noteq> []" using wf l(1) validLAGName_nonempty unfolding wf_names_def by blast
    have free: "(p_lag (at s a) = [] \<or> p_lag (at s a) = n) \<and> p_vlans (at s a) = []" if "a \<in> set (ports s)" "?W a" for a
      using check_members_ok [OF l(2) that(2)] wf_namesD(1) [OF wf that(1)] by auto
    have lag: "wf_lag (caps s) (heap s) (ports s) n l" using i l(1) by (simp add: wf_lags_def)
    have "l_port l \<notin> set (ports s)" using wf l(1) unfolding wf_names_def by blast
    then have "p_lag (?h ! l_port l) = []"
      using wf_namesD(6) [OF wf l(1)] lag by (simp add: lag_after_def wf_lag_def)
    moreover have "0 < c_MaxLAGMembers (caps s) \<longrightarrow> int (length (filter ?W (ports s))) \<le> c_MaxLAGMembers (caps s)"
      using l(3) filter_names_length [OF inj_port_names [OF wf], of want] by (auto intro: order_trans)
    ultimately have "wf_lag (caps s) ?h (ports s) n ?l"
      using lag by (simp add: wf_lag_def member_names_after [OF wf n])
    moreover have "wf_lag (caps s) ?h (ports s) m k" if "mget (lags s) m = Some k" "m \<noteq> n" for m k
      using wf_lag_after [OF wf _ n _ that, of "caps s" ?W] free i by blast
    moreover have "mhas (lags s) (p_lag (?h ! a)) \<and> p_vlans (?h ! a) = []"
      if a: "a \<in> set (ports s)" "p_lag (?h ! a) \<noteq> []" for a
      using free [OF a(1)] a i l(1) wf_namesD(2) [OF wf a(1)]
      by (auto simp: wf_lags_def lag_after_def mhas_def split: if_splits)
    ultimately have "wf_lags (caps s) ?h (ports s) (mput n ?l (lags s))"
      using i l(1) by (auto simp: wf_lags_def length_mput mhas_get)
    moreover have "wf_names ?h (ports s) (byName s) (mput n ?l (lags s)) (svis s)"
      by (rule wf_names_put [OF wf_names_relag [OF wf] l(1)]) simp
    moreover have "wf_ports ?h (byName s) (vlans s)" using wf_ports_relag [OF wf] i by blast
    moreover have "wf_mlag (mput n ?l (lags s)) (mlag s)" using wf_mlag_put [OF _ l(1)] i by simp
    ultimately show ?thesis using i unfolding res by (simp add: sw_inv_def)
  qed
qed

lemma wf_names_del:
  assumes wf: "wf_names h ps bn ls sv" and n: "validLAGName n = None"
  shows "wf_names h ps (mdel n bn) (mdel n ls) sv"
proof -
  note w = wf [unfolded wf_names_def]
  have "\<forall>a \<in> set ps. \<not> p_isLAG (h ! a) \<and> validLAGName (p_name (h ! a)) \<noteq> None \<and> mget (mdel n bn) (p_name (h ! a)) = Some a"
  proof
    fix a
    assume "a \<in> set ps"
    then have a: "\<not> p_isLAG (h ! a) \<and> validLAGName (p_name (h ! a)) \<noteq> None \<and> mget bn (p_name (h ! a)) = Some a"
      using w by blast
    then have "p_name (h ! a) \<noteq> n" using n by auto
    with a show "\<not> p_isLAG (h ! a) \<and> validLAGName (p_name (h ! a)) \<noteq> None \<and> mget (mdel n bn) (p_name (h ! a)) = Some a"
      by simp
  qed
  moreover have "\<forall>m a. mget (mdel n bn) m = Some a \<longrightarrow>
      a < length h \<and> p_name (h ! a) = m \<and> (a \<in> set ps \<or> mhas (mdel n ls) m)"
    using w by simp
  moreover have "\<forall>m l. mget (mdel n ls) m = Some l \<longrightarrow>
      mget (mdel n bn) m = Some (l_port l) \<and> p_isLAG (h ! l_port l) \<and> validLAGName m = None"
    using w by simp
  ultimately show ?thesis unfolding wf_names_def using w by (intro conjI distinct_mdel) blast+
qed

lemma inv_DelLAG: "sw_inv s \<Longrightarrow> sw_inv (snd (DelLAG n s))"
proof -
  assume inv: "sw_inv s"
  note i = inv [unfolded sw_inv_def]
  note wf = i [THEN conjunct1]
  show ?thesis
  proof (cases "mget (lags s) n")
    case None
    then show ?thesis using inv by (simp add: DelLAG_def)
  next
    case (Some l)
    let ?W = "\<lambda>_. False"
    let ?h = "relag (lag_after n ?W (heap s) (ports s)) (heap s)"
    have n: "n \<noteq> []" "validLAGName n = None"
      using wf Some validLAGName_nonempty unfolding wf_names_def by blast+
    have "lag_after n ?W (heap s) (ports s) = (\<lambda>a. if a \<in> set (ports s) \<and> p_lag (at s a) = n \<and> True then [] else p_lag (at s a))"
      by (rule ext) (simp add: lag_after_def)
    then have rel: "release (l_members l) s = (Inr (), s\<lparr>heap := ?h\<rparr>)"
      using release_members [OF inv Some, of "\<lambda>_. True"] by (simp only: filter_True Ball_def simp_thms)
    have names: "wf_names ?h (ports s) (mdel n (byName s)) (mdel n (lags s)) (svis s)"
      by (rule wf_names_del [OF wf_names_relag [OF wf] n(2)])
    have "wf_lag (caps s) ?h (ports s) m k" if "mget (lags s) m = Some k" "m \<noteq> n" for m k
      using wf_lag_after [OF wf _ n(1) _ that, of "caps s" ?W] i by blast
    moreover have "p_lag (?h ! a) \<noteq> n \<and> mhas (lags s) (p_lag (?h ! a)) \<and> p_vlans (?h ! a) = []"
      if a: "a \<in> set (ports s)" "p_lag (?h ! a) \<noteq> []" for a
      using a i wf_namesD(2) [OF wf a(1)] by (auto simp: wf_lags_def lag_after_def split: if_splits)
    moreover have "0 < c_MaxLAGs (caps s) \<longrightarrow> int (length (mdel n (lags s))) \<le> c_MaxLAGs (caps s)"
      using i length_mdel [of n "lags s"] by (auto simp: wf_lags_def)
    ultimately have "wf_lags (caps s) ?h (ports s) (mdel n (lags s))"
      unfolding wf_lags_def by simp
    moreover have "wf_ports ?h (mdel n (byName s)) (vlans s)"
      using wf_ports_relag [OF wf i [THEN conjunct2, THEN conjunct1], of "lag_after n ?W (heap s) (ports s)"]
      by (simp add: wf_ports_def)
    moreover have "wf_mlag (mdel n (lags s)) (mlag s)" using i by (auto simp: wf_mlag_def)
    ultimately show ?thesis using i names Some by (simp add: DelLAG_def rel sw_inv_def)
  qed
qed


subsection \<open>Settings\<close>

lemma inv_SetLACPSystemPriority: "sw_inv s \<Longrightarrow> sw_inv (snd (SetLACPSystemPriority p s))"
  by (auto simp: SetLACPSystemPriority_def sw_inv_def wf_settings_def split: option.splits)

lemma inv_SetMACAging: "sw_inv s \<Longrightarrow> sw_inv (snd (SetMACAging n s))"
  by (auto simp: SetMACAging_def sw_inv_def wf_settings_def split: option.splits)

lemma wf_stp_default: "wf_stp \<lparr>st_cfg = zero_stp\<lparr>stp_Priority := STPDefaultPriority\<rparr>, st_ports = []\<rparr>"
  by (simp add: wf_stp_def zero_stp_def STPDefaultPriority_def ValidSTPPriority_def ValidSTPTimes_def STPTimes_def)

lemma stp_wf: "stp s = (st, s') \<Longrightarrow> sw_inv s \<Longrightarrow> wf_stp st \<and> s' = s\<lparr>stpst := Some st\<rparr>"
  using wf_stp_default
  by (cases "stpst s") (auto simp: stp_def Let_def sw_inv_def wf_settings_def)

lemma inv_stpst: "sw_inv s \<Longrightarrow> wf_stp st \<Longrightarrow> sw_inv (s\<lparr>stpst := Some st\<rparr>)"
  by (simp add: sw_inv_def wf_settings_def)

lemma inv_SetSTP: "sw_inv s \<Longrightarrow> sw_inv (snd (SetSTP c s))"
proof -
  assume inv: "sw_inv s"
  obtain st s' where st: "stp s = (st, s')" by (cases "stp s")
  have "wf_stp (st\<lparr>st_cfg := c\<rparr>)" if "ValidSTPPriority (stp_Priority c) = None" "ValidSTPTimes c = None"
    using stp_wf [OF st inv] that by (simp add: wf_stp_def)
  then show ?thesis
    using stp_wf [OF st inv] inv inv_stpst [OF inv] by (simp add: SetSTP_def st split: option.splits)
qed

lemma inv_SetSTPPort: "sw_inv s \<Longrightarrow> sw_inv (snd (SetSTPPort n c s))"
proof -
  assume inv: "sw_inv s"
  obtain st s' where st: "stp s = (st, s')" by (cases "stp s")
  have "wf_stp (st\<lparr>st_ports := mput n c (st_ports st)\<rparr>)"
    if "ValidSTPCost (sp_Cost c) = None" "ValidSTPPortPriority (sp_Priority c) = None"
    using stp_wf [OF st inv] that by (simp add: wf_stp_def)
  then show ?thesis
    using stp_wf [OF st inv] inv inv_stpst [OF inv]
    by (simp add: SetSTPPort_def st split: option.splits sum.splits)
qed

lemma STP_state: "sw_inv s \<Longrightarrow> snd (STP s) = s \<or> snd (STP s) = snd (stp s)"
  by (simp add: STP_def Let_def split: prod.splits)

lemma inv_STP: "sw_inv s \<Longrightarrow> sw_inv (snd (STP s))"
  using STP_state [of s] stp_wf [of s "fst (stp s)" "snd (stp s)"] inv_stpst [of s] by auto

lemma inv_SetMLAG: "sw_inv s \<Longrightarrow> sw_inv (snd (SetMLAG c s))"
  by (auto simp: SetMLAG_def sw_inv_def wf_mlag_def zero_mlag_def split: option.splits sum.splits)

lemma wf_mlag_set:
  assumes wf: "wf_mlag ls m"
    and free: "\<And>k l'. mget ls k = Some l' \<Longrightarrow> k \<noteq> n \<Longrightarrow> l_mlag l \<noteq> 0 \<Longrightarrow> l_mlag l' \<noteq> l_mlag l"
    and peer: "l_mlag l = 0 \<or> \<not> (ml_Enabled m \<and> ml_PeerLink m = n)"
  shows "wf_mlag (mput n l ls) m"
  unfolding wf_mlag_def
proof (intro conjI allI impI)
  fix k l1 k' l2
  assume h: "mget (mput n l ls) k = Some l1" "mget (mput n l ls) k' = Some l2" "l_mlag l1 = l_mlag l2" "l_mlag l1 \<noteq> 0"
  show "k = k'"
  proof (cases "k = n"; cases "k' = n")
    assume "k \<noteq> n" "k' \<noteq> n"
    then show ?thesis using h wf unfolding wf_mlag_def by simp
  qed (use h free in auto)
next
  assume "ml_Enabled m"
  then show "ValidMLAG m = None" "ValidMLAGTimes m = None" using wf by (simp_all add: wf_mlag_def)
next
  fix l'
  assume "ml_Enabled m" "mget (mput n l ls) (ml_PeerLink m) = Some l'"
  then show "l_mlag l' = 0" using wf peer by (auto simp: wf_mlag_def split: if_splits)
qed

lemma inv_SetLAGMLAG: "sw_inv s \<Longrightarrow> sw_inv (snd (SetLAGMLAG n mid s))"
proof -
  assume inv: "sw_inv s"
  note i = inv [unfolded sw_inv_def]
  have "sw_inv (s\<lparr>lags := mput n (l\<lparr>l_mlag := mid\<rparr>) (lags s)\<rparr>)"
    if l: "mget (lags s) n = Some l" and mid: "0 \<le> mid" "mid \<le> MLAGMaxID"
      and pl: "mid = 0 \<or> \<not> (ml_Enabled (mlag s) \<and> ml_PeerLink (mlag s) = n)"
      and free: "mid = 0 \<or> List.find (\<lambda>(m, l'). m \<noteq> n \<and> l_mlag l' = mid) (lags s) = None" for l
  proof -
    have "wf_lag (caps s) (heap s) (ports s) n l" using i l by (simp add: wf_lags_def)
    then have "wf_lag (caps s) (heap s) (ports s) n (l\<lparr>l_mlag := mid\<rparr>)" using mid unfolding wf_lag_def by auto
    moreover have "l_mlag l' \<noteq> mid" if "mget (lags s) m = Some l'" "m \<noteq> n" "mid \<noteq> 0" for m l'
      using free that by (auto simp: find_None_iff dest: map_of_SomeD)
    then have "wf_mlag (mput n (l\<lparr>l_mlag := mid\<rparr>) (lags s)) (mlag s)"
      using i pl by (intro wf_mlag_set) simp_all
    ultimately show ?thesis
      using i wf_names_put [OF i [THEN conjunct1] l] wf_lags_put [OF _ l] by (simp add: sw_inv_def)
  qed
  then show ?thesis using inv by (auto simp: SetLAGMLAG_def split: option.splits if_splits)
qed

lemma inv_SetVirtualMAC: "sw_inv s \<Longrightarrow> sw_inv (snd (SetVirtualMAC m s))"
  by (auto simp: SetVirtualMAC_def sw_inv_def wf_settings_def split: option.splits)

lemma inv_AddVirtualGateway: "sw_inv s \<Longrightarrow> sw_inv (snd (AddVirtualGateway svi a s))"
proof -
  assume inv: "sw_inv s"
  let ?g = "\<lparr>gw_SVI = svi, gw_Address = a, gw_MAC = []\<rparr>"
  have "wf_gateway (caps s) (svis s) ?g"
    if "ValidVirtualGateway a = None" "\<not> (Is6 (pAddr a) \<and> \<not> c_VirtualGateway6 (caps s))"
      "list_ex (\<lambda>vid. SVIName vid = svi) (mkeys (svis s))"
    using that by (auto simp: wf_gateway_def list_ex_iff mhas_keys)
  then show ?thesis
    using inv by (auto simp: AddVirtualGateway_def sw_inv_def wf_vlans_def split: option.splits)
qed

lemma inv_DelVirtualGateway: "sw_inv s \<Longrightarrow> sw_inv (snd (DelVirtualGateway svi a s))"
  by (auto simp: DelVirtualGateway_def sw_inv_def wf_vlans_def)

subsection \<open>Routes and access lists\<close>

lemma inv_AddRoute: "sw_inv s \<Longrightarrow> sw_inv (snd (AddRoute r s))"
proof -
  assume inv: "sw_inv s"
  let ?n = "int (length (NextHops r))"
  have "wf_route (cfg s) r"
    if "?n \<noteq> 0" "\<not> (?n > 1 \<and> \<not> SupportsECMP (caps s) ?n \<and> \<not> AllowECMPAnyway (cfg s))"
    using that by (auto simp: wf_route_def SupportsECMP_def)
  then show ?thesis
    using inv by (auto simp: AddRoute_def Let_def sw_inv_def wf_tables_def)
qed

lemma inv_DelRoute: "sw_inv s \<Longrightarrow> sw_inv (snd (DelRoute p s))"
  by (auto simp: DelRoute_def sw_inv_def wf_tables_def)

lemma Validate_any: "Validate h r = None \<Longrightarrow> Validate None r = None"
  unfolding Validate_def by (auto split: if_splits)

lemma inv_SetACL: "sw_inv s \<Longrightarrow> sw_inv (snd (SetACL r s))"
  using Validate_any by (auto simp: SetACL_def sw_inv_def wf_tables_def split: option.splits)

lemma inv_DelACL: "sw_inv s \<Longrightarrow> sw_inv (snd (DelACL q s))"
proof -
  assume inv: "sw_inv s"
  then have "wf_tables (cfg s) (routes s) (mdel q (acls s))" by (simp add: sw_inv_def wf_tables_def)
  then show ?thesis using inv by (simp add: DelACL_def sw_inv_def)
qed

section \<open>A new switch\<close>

lemma port_name_inj: "port_name i = port_name j \<longleftrightarrow> i = j"
  by (simp add: port_name_def)

lemma port_name_not_LAG: "validLAGName (port_name i) \<noteq> None"
  by (simp add: validLAGName_def scan_po_def port_name_def)

lemma inv_New: "sw_inv (New c)"
proof -
  define n where "n = nat (if cfg_Ports c \<le> 0 then 4 else cfg_Ports c)"
  define names where "names = map (\<lambda>i. port_name (Suc i)) [0..<n]"
  have len: "length names = n" and nth: "\<And>i. i < n \<Longrightarrow> names ! i = port_name (Suc i)"
    by (simp_all add: names_def)
  have dist: "distinct names" by (auto simp: names_def distinct_map inj_on_def port_name_inj)
  let ?h = "map new_port names" and ?bn = "zip names [0..<n]"
  have get: "mget ?bn m = Some a \<longleftrightarrow> a < n \<and> m = names ! a" for m a
    using dist len by (auto simp: map_of_zip_nth [of names "[0..<n]"] map_of_eq_Some_iff [of ?bn] set_zip)
  have keys: "mkeys ?bn = names" using len by simp
  have "wf_names ?h [0..<n] ?bn [] []"
    unfolding wf_names_def keys
    using dist len get by (simp add: new_port_def nth port_name_not_LAG)
  moreover have "wf_ports ?h ?bn []"
    using get len by (simp add: wf_ports_def wf_port_def new_port_def)
  moreover have "wf_lags cc ?h [0..<n] []" for cc
    using len by (simp add: wf_lags_def new_port_def)
  moreover have "wf_mlag [] zero_mlag" by (simp add: wf_mlag_def zero_mlag_def)
  moreover have "wf_vlans cc [] [] []" "wf_settings None 0 [] None" "wf_tables cf [] []" for cc cf
    by (simp_all add: wf_vlans_def wf_settings_def ValidLACPPriority_def wf_tables_def)
  ultimately show ?thesis
    unfolding sw_inv_def New_def Let_def n_def [symmetric] names_def [symmetric] by simp
qed

end
