(* ===== verification/Machine.thy ===== *)
theory Machine
  imports Main
begin

text \<open>
  What the components with state have in common: calls that answer an error or a value and leave a
  state. \<open>machine\<close> is the contract of one with an invariant, \<open>refusing\<close> adds that a refused call
  changes nothing; the facts about whole runs are proved here once.
\<close>

section \<open>Runs\<close>

type_synonym ('c, 's, 'e, 'r) machine_step = "'c \<Rightarrow> 's \<Rightarrow> ('e + 'r) \<times> 's"

primrec run :: "('c, 's, 'e, 'r) machine_step \<Rightarrow> 'c list \<Rightarrow> 's \<Rightarrow> 's" where
  "run ex [] s = s"
| "run ex (c # cs) s = run ex cs (snd (ex c s))"

primrec answers :: "('c, 's, 'e, 'r) machine_step \<Rightarrow> 'c list \<Rightarrow> 's \<Rightarrow> ('e + 'r) list" where
  "answers ex [] s = []"
| "answers ex (c # cs) s = fst (ex c s) # answers ex cs (snd (ex c s))"

text \<open>The calls of a run that were not refused.\<close>

primrec accepted :: "('c, 's, 'e, 'r) machine_step \<Rightarrow> 'c list \<Rightarrow> 's \<Rightarrow> 'c list" where
  "accepted ex [] s = []"
| "accepted ex (c # cs) s =
     (case fst (ex c s) of
        Inl _ \<Rightarrow> accepted ex cs (snd (ex c s))
      | Inr _ \<Rightarrow> c # accepted ex cs (snd (ex c s)))"

inductive reachable :: "('c, 's, 'e, 'r) machine_step \<Rightarrow> ('s \<Rightarrow> bool) \<Rightarrow> 's \<Rightarrow> bool"
  for ex :: "('c, 's, 'e, 'r) machine_step" and start :: "'s \<Rightarrow> bool" where
  initial: "start s \<Longrightarrow> reachable ex start s"
| step: "reachable ex start s \<Longrightarrow> reachable ex start (snd (ex c s))"

lemma run_append: "run ex (cs @ ds) s = run ex ds (run ex cs s)"
  by (induction cs arbitrary: s) simp_all

lemma reachable_run: "reachable ex start s \<Longrightarrow> reachable ex start (run ex cs s)"
  by (induction cs arbitrary: s) (auto intro: reachable.step)

lemma reachable_iff_run: "reachable ex start s \<longleftrightarrow> (\<exists>s0 cs. start s0 \<and> s = run ex cs s0)"
proof
  assume "reachable ex start s"
  then show "\<exists>s0 cs. start s0 \<and> s = run ex cs s0"
  proof induction
    case (initial s)
    then show ?case by (intro exI [of _ s] exI [of _ "[]"]) simp
  next
    case (step s c)
    then obtain s0 cs where "start s0" "s = run ex cs s0" by blast
    then show ?case by (intro exI [of _ s0] exI [of _ "cs @ [c]"]) (simp add: run_append)
  qed
next
  assume "\<exists>s0 cs. start s0 \<and> s = run ex cs s0"
  then show "reachable ex start s" by (auto intro: reachable_run reachable.initial)
qed

section \<open>Machines with an invariant\<close>

locale machine =
  fixes ex :: "('c, 's, 'e, 'r) machine_step"
    and start :: "'s \<Rightarrow> bool"
    and inv :: "'s \<Rightarrow> bool"
  assumes start_inv: "start s \<Longrightarrow> inv s"
    and step_inv: "inv s \<Longrightarrow> inv (snd (ex c s))"
begin

lemma reachable_inv: "reachable ex start s \<Longrightarrow> inv s"
  by (induction rule: reachable.induct) (auto intro: start_inv step_inv)

lemma run_inv: "inv s \<Longrightarrow> inv (run ex cs s)"
  by (induction cs arbitrary: s) (auto intro: step_inv)

end

locale refusing = machine +
  assumes refused: "inv s \<Longrightarrow> fst (ex c s) = Inl e \<Longrightarrow> snd (ex c s) = s"
begin

text \<open>Leaving the refused calls out of a run changes neither where it ends nor what the other calls
  answer.\<close>

lemma run_accepted: "inv s \<Longrightarrow> run ex (accepted ex cs s) s = run ex cs s"
proof (induction cs arbitrary: s)
  case (Cons c cs)
  then show ?case
    using refused [OF Cons.prems] step_inv [OF Cons.prems]
    by (cases "fst (ex c s)") simp_all
qed simp

lemma answers_accepted:
  "inv s \<Longrightarrow> answers ex (accepted ex cs s) s = filter (\<lambda>r. \<not> isl r) (answers ex cs s)"
proof (induction cs arbitrary: s)
  case (Cons c cs)
  then show ?case
    using refused [OF Cons.prems] step_inv [OF Cons.prems]
    by (cases "fst (ex c s)") simp_all
qed simp

end

end
