(* ===== verification/Mem_Calls.thy ===== *)
theory Mem_Calls
  imports Mem_Inv Machine
begin

text \<open>
  The reference datapath as one machine: a value for each call of the contract, the function that
  makes it, and what holds of every call: it keeps the invariant, a refused one changes nothing, none
  follows a nil pointer, and \<open>Unsupported\<close> is the answer exactly where the capabilities say so.
\<close>

section \<open>Calls and answers\<close>

text \<open>The methods of \<^verbatim>\<open>switchapi.Switch\<close>, grouped as the interface groups them.\<close>

datatype port_call =
    DoStart | DoClose | DoPorts | DoPortStatus string | DoSetPortAdmin string bool | DoSetPortMTU string int
  | DoPortCounters string

datatype vlan_call =
    DoAddVLAN int | DoDelVLAN int | DoSetPortVLAN string int bool | DoDelPortVLAN string int | DoVLANs
  | DoAddSVI int | DoDelSVI int | DoSetPortTunnel string int | DoSetPortTPID string int

datatype lag_call =
    DoAddLAG string bool | DoSetLAGOptions string LAGOptions | DoSetLACPSystemPriority int
  | DoSetLAGMembers string "string list" | DoDelLAG string | DoLAGs

datatype stp_call =
    DoSetSTP STPConfig | DoSetSTPPort string STPPortConfig | DoSTP
  | DoSetMLAG MLAGConfig | DoSetLAGMLAG string int | DoMLAG

datatype gateway_call =
    DoSetVirtualMAC string | DoAddVirtualGateway string Prefix | DoDelVirtualGateway string Prefix
  | DoVirtualGateways | DoSetMACAging int | DoMACAging | DoFDB

datatype l3_call =
    DoACLs | DoSetACL ACLRule | DoDelACL int | DoAddAddress string Prefix | DoDelAddress string Prefix
  | DoAddRoute Route | DoDelRoute Prefix | DoRoutes

datatype call =
  Port port_call | Vlan vlan_call | Lag lag_call | Stp stp_call | Gateway gateway_call | L3 l3_call

datatype reply =
    Done
  | PortList "Port list"
  | Status PortStatus
  | CounterValues Counters
  | VLANList "VLAN list"
  | LAGList "LAG list"
  | STPReport STPStatus
  | MLAGReport MLAGStatus
  | GatewayList "VirtualGateway list"
  | Seconds int
  | FDBList "FDBEntry list"
  | ACLList "ACLEntry list"
  | RouteList "Route list"

definition reply :: "('a \<Rightarrow> reply) \<Rightarrow> (sw_error + 'a) \<times> Switch \<Rightarrow> (sw_error + reply) \<times> Switch" where
  "reply f r = (case fst r of Inl e \<Rightarrow> Inl e | Inr x \<Rightarrow> Inr (f x), snd r)"

abbreviation acked :: "(sw_error + unit) \<times> Switch \<Rightarrow> (sw_error + reply) \<times> Switch" where
  "acked \<equiv> reply (\<lambda>_. Done)"

fun exec_port :: "port_call \<Rightarrow> reply op" where
  "exec_port DoStart s = acked (Start s)"
| "exec_port DoClose s = acked (Close s)"
| "exec_port DoPorts s = reply PortList (Ports s)"
| "exec_port (DoPortStatus n) s = reply Status (PortStatus_of n s)"
| "exec_port (DoSetPortAdmin n up) s = acked (SetPortAdmin n up s)"
| "exec_port (DoSetPortMTU n mtu) s = acked (SetPortMTU n mtu s)"
| "exec_port (DoPortCounters n) s = reply CounterValues (PortCounters n s)"

fun exec_vlan :: "vlan_call \<Rightarrow> reply op" where
  "exec_vlan (DoAddVLAN v) s = acked (AddVLAN v s)"
| "exec_vlan (DoDelVLAN v) s = acked (DelVLAN v s)"
| "exec_vlan (DoSetPortVLAN n v t) s = acked (SetPortVLAN n v t s)"
| "exec_vlan (DoDelPortVLAN n v) s = acked (DelPortVLAN n v s)"
| "exec_vlan DoVLANs s = reply VLANList (VLANs s)"
| "exec_vlan (DoAddSVI v) s = acked (AddSVI v s)"
| "exec_vlan (DoDelSVI v) s = acked (DelSVI v s)"
| "exec_vlan (DoSetPortTunnel n v) s = acked (SetPortTunnel n v s)"
| "exec_vlan (DoSetPortTPID n t) s = acked (SetPortTPID n t s)"

fun exec_lag :: "lag_call \<Rightarrow> reply op" where
  "exec_lag (DoAddLAG n lacp) s = acked (AddLAG n lacp s)"
| "exec_lag (DoSetLAGOptions n opts) s = acked (SetLAGOptions n opts s)"
| "exec_lag (DoSetLACPSystemPriority p) s = acked (SetLACPSystemPriority p s)"
| "exec_lag (DoSetLAGMembers n ms) s = acked (SetLAGMembers n ms s)"
| "exec_lag (DoDelLAG n) s = acked (DelLAG n s)"
| "exec_lag DoLAGs s = reply LAGList (LAGs s)"

fun exec_stp :: "stp_call \<Rightarrow> reply op" where
  "exec_stp (DoSetSTP c) s = acked (SetSTP c s)"
| "exec_stp (DoSetSTPPort n c) s = acked (SetSTPPort n c s)"
| "exec_stp DoSTP s = reply STPReport (STP s)"
| "exec_stp (DoSetMLAG c) s = acked (SetMLAG c s)"
| "exec_stp (DoSetLAGMLAG n mid) s = acked (SetLAGMLAG n mid s)"
| "exec_stp DoMLAG s = reply MLAGReport (MLAG s)"

fun exec_gateway :: "gateway_call \<Rightarrow> reply op" where
  "exec_gateway (DoSetVirtualMAC m) s = acked (SetVirtualMAC m s)"
| "exec_gateway (DoAddVirtualGateway n a) s = acked (AddVirtualGateway n a s)"
| "exec_gateway (DoDelVirtualGateway n a) s = acked (DelVirtualGateway n a s)"
| "exec_gateway DoVirtualGateways s = reply GatewayList (VirtualGateways s)"
| "exec_gateway (DoSetMACAging n) s = acked (SetMACAging n s)"
| "exec_gateway DoMACAging s = reply Seconds (MACAging s)"
| "exec_gateway DoFDB s = reply FDBList (FDB s)"

fun exec_l3 :: "l3_call \<Rightarrow> reply op" where
  "exec_l3 DoACLs s = reply ACLList (ACLs s)"
| "exec_l3 (DoSetACL r) s = acked (SetACL r s)"
| "exec_l3 (DoDelACL q) s = acked (DelACL q s)"
| "exec_l3 (DoAddAddress n a) s = acked (AddAddress n a s)"
| "exec_l3 (DoDelAddress n a) s = acked (DelAddress n a s)"
| "exec_l3 (DoAddRoute r) s = acked (AddRoute r s)"
| "exec_l3 (DoDelRoute p) s = acked (DelRoute p s)"
| "exec_l3 DoRoutes s = reply RouteList (Routes s)"

fun exec :: "call \<Rightarrow> Switch \<Rightarrow> (sw_error + reply) \<times> Switch" where
  "exec (Port c) s = exec_port c s"
| "exec (Vlan c) s = exec_vlan c s"
| "exec (Lag c) s = exec_lag c s"
| "exec (Stp c) s = exec_stp c s"
| "exec (Gateway c) s = exec_gateway c s"
| "exec (L3 c) s = exec_l3 c s"

definition fresh :: "Switch \<Rightarrow> bool" where
  "fresh s \<longleftrightarrow> (\<exists>c. s = New c)"

lemma reply_simps [simp]:
  "snd (reply f r) = snd r" "fst (reply f r) = Inl e \<longleftrightarrow> fst r = Inl e"
  by (cases "fst r"; simp add: reply_def)+

section \<open>Every call keeps the invariant\<close>

lemma reads_leave [simp]:
  "snd (Ports s) = s" "snd (PortStatus_of n s) = s" "snd (PortCounters n s) = s" "snd (VLANs s) = s"
  "snd (LAGs s) = s" "snd (MLAG s) = s" "snd (VirtualGateways s) = s" "snd (MACAging s) = s"
  "snd (FDB s) = s" "snd (ACLs s) = s" "snd (Routes s) = s"
  by (simp_all add: Ports_def PortStatus_of_def PortCounters_def VLANs_def LAGs_def MLAG_def VirtualGateways_def
      MACAging_def FDB_def ACLs_def Routes_def Let_def split: sum.splits prod.splits)

lemma inv_started: "sw_inv (s\<lparr>started := b\<rparr>) = sw_inv s"
  by (simp add: sw_inv_def)

lemma inv_exec_port: "sw_inv s \<Longrightarrow> sw_inv (snd (exec_port c s))"
  by (cases c) (simp_all add: Start_def Close_def inv_started inv_SetPortAdmin inv_SetPortMTU)

lemma inv_exec_vlan: "sw_inv s \<Longrightarrow> sw_inv (snd (exec_vlan c s))"
  by (cases c) (simp_all add: inv_AddVLAN inv_DelVLAN inv_SetPortVLAN inv_DelPortVLAN inv_AddSVI inv_DelSVI
      inv_SetPortTunnel inv_SetPortTPID)

lemma inv_exec_lag: "sw_inv s \<Longrightarrow> sw_inv (snd (exec_lag c s))"
  by (cases c) (simp_all add: inv_AddLAG inv_SetLAGOptions inv_SetLACPSystemPriority inv_SetLAGMembers inv_DelLAG)

lemma inv_exec_stp: "sw_inv s \<Longrightarrow> sw_inv (snd (exec_stp c s))"
  by (cases c) (simp_all add: inv_SetSTP inv_SetSTPPort inv_STP inv_SetMLAG inv_SetLAGMLAG)

lemma inv_exec_gateway: "sw_inv s \<Longrightarrow> sw_inv (snd (exec_gateway c s))"
  by (cases c) (simp_all add: inv_SetVirtualMAC inv_AddVirtualGateway inv_DelVirtualGateway inv_SetMACAging)

lemma inv_exec_l3: "sw_inv s \<Longrightarrow> sw_inv (snd (exec_l3 c s))"
  by (cases c) (simp_all add: inv_SetACL inv_DelACL inv_AddAddress inv_DelAddress inv_AddRoute inv_DelRoute)

lemma inv_exec: "sw_inv s \<Longrightarrow> sw_inv (snd (exec c s))"
  by (cases c) (simp_all add: inv_exec_port inv_exec_vlan inv_exec_lag inv_exec_stp inv_exec_gateway inv_exec_l3)

section \<open>A refused call changes nothing\<close>

definition refuses :: "('e + 'a) \<times> 's \<Rightarrow> 's \<Rightarrow> bool" where
  "refuses r s \<longleftrightarrow> (\<forall>e. fst r = Inl e \<longrightarrow> snd r = s)"

lemma refuses_simps [simp]: "refuses (Inl e, s') s \<longleftrightarrow> s' = s" "refuses (Inr x, s') s"
  by (simp_all add: refuses_def)

lemma refuses_same: "snd r = s \<Longrightarrow> refuses r s"
  by (simp add: refuses_def)

lemma refuses_reply [simp]: "refuses (reply f r) s = refuses r s"
  by (simp add: refuses_def)

lemma refuses_port: "refuses (exec_port c s) s"
  by (cases c) (simp_all add: refuses_same Start_def Close_def SetPortAdmin_def SetPortMTU_def split: sum.split)

lemma refuses_vlan: "refuses (exec_vlan c s) s"
  by (cases c) (simp_all add: refuses_same AddVLAN_def DelVLAN_def SetPortVLAN_def DelPortVLAN_def AddSVI_def DelSVI_def
      SetPortTunnel_def SetPortTPID_def Let_def split: sum.split option.split)

lemma release_all:
  "sw_inv s \<Longrightarrow> mget (lags s) n = Some l \<Longrightarrow> \<exists>s'. release (l_members l) s = (Inr (), s')"
  using release_members [of s n l "\<lambda>_. True"] by auto

lemma refuses_SetLAGMembers: "sw_inv s \<Longrightarrow> refuses (SetLAGMembers n ms s) s"
proof (cases "mget (lags s) n")
  case (Some l)
  assume "sw_inv s"
  then obtain s' where "release (filter (\<lambda>m. m \<notin> set ms) (l_members l)) s = (Inr (), s')"
    using release_members [OF _ Some] by blast
  with Some show ?thesis by (simp add: SetLAGMembers_def Let_def split: option.split)
qed (simp add: SetLAGMembers_def)

lemma refuses_DelLAG: "sw_inv s \<Longrightarrow> refuses (DelLAG n s) s"
proof (cases "mget (lags s) n")
  case (Some l)
  assume "sw_inv s"
  then obtain s' where "release (l_members l) s = (Inr (), s')" using release_all [OF _ Some] by blast
  with Some show ?thesis by (simp add: DelLAG_def)
qed (simp add: DelLAG_def)

lemma refuses_lag: "sw_inv s \<Longrightarrow> refuses (exec_lag c s) s"
  by (cases c) (simp_all add: refuses_same refuses_SetLAGMembers refuses_DelLAG AddLAG_def SetLAGOptions_def
      SetLACPSystemPriority_def split: option.split)

lemma refuses_SetSTP: "refuses (SetSTP c s) s"
  by (simp add: SetSTP_def case_prod_unfold Let_def split: option.split)

lemma refuses_SetSTPPort: "refuses (SetSTPPort n c s) s"
  by (simp add: SetSTPPort_def case_prod_unfold Let_def split: option.split sum.split)

lemma refuses_STP: "refuses (STP s) s"
  by (simp add: STP_def case_prod_unfold Let_def)

lemma refuses_SetMLAG: "refuses (SetMLAG c s) s"
  by (simp add: SetMLAG_def split: option.split sum.split)

lemma refuses_SetLAGMLAG: "refuses (SetLAGMLAG n mid s) s"
  by (simp add: SetLAGMLAG_def split: option.split)

lemma refuses_stp: "refuses (exec_stp c s) s"
  by (cases c) (simp_all add: refuses_same refuses_SetSTP refuses_SetSTPPort refuses_STP refuses_SetMLAG refuses_SetLAGMLAG)

lemma refuses_gateway: "refuses (exec_gateway c s) s"
  by (cases c) (simp_all add: refuses_same SetVirtualMAC_def AddVirtualGateway_def DelVirtualGateway_def SetMACAging_def
      split: option.split)

lemma refuses_l3: "refuses (exec_l3 c s) s"
  by (cases c) (simp_all add: refuses_same SetACL_def DelACL_def AddAddress_def DelAddress_def AddRoute_def DelRoute_def Let_def
      split: option.split sum.split)

lemma refuses_exec: "sw_inv s \<Longrightarrow> refuses (exec c s) s"
  by (cases c) (simp_all add: refuses_port refuses_vlan refuses_lag refuses_stp refuses_gateway refuses_l3)

lemma refused_exec: "sw_inv s \<Longrightarrow> fst (exec c s) = Inl e \<Longrightarrow> snd (exec c s) = s"
  using refuses_exec [of s c] by (simp add: refuses_def)

interpretation mem: refusing exec fresh sw_inv
  by unfold_locales (auto simp: fresh_def inv_New inv_exec refused_exec)


section \<open>Errors: no panic, and unsupported exactly where the capabilities say so\<close>

text \<open>The shared checks answer with a message of their own, never with \<open>Unsupported\<close> or a panic.\<close>

fun plain :: "sw_error \<Rightarrow> bool" where
  "plain (Errorf _ _) \<longleftrightarrow> True"
| "plain _ \<longleftrightarrow> False"

lemma plain_iff: "plain e \<longleftrightarrow> e \<noteq> Panic \<and> \<not> is_unsupported e"
  by (cases e) simp_all

definition messages :: "error \<Rightarrow> bool" where
  "messages e \<longleftrightarrow> (case e of None \<Rightarrow> True | Some x \<Rightarrow> plain x)"

lemma messages_simps [simp]: "messages None" "messages (Some e) = plain e"
  by (simp_all add: messages_def)

lemma messagesD: "messages r \<Longrightarrow> r = Some e \<Longrightarrow> plain e"
  by simp

lemma checks_message:
  "messages (ValidSTPPriority p)" "messages (ValidSTPCost p)" "messages (ValidSTPPortPriority p)"
  "messages (ValidSTPTimes st)" "messages (ValidMLAG ml)" "messages (ValidMLAGTimes ml)" "messages (ValidLAGOptions lo)"
  "messages (ValidLACPPriority p)" "messages (ValidMACAging p)" "messages (ValidTPID p)" "messages (ValidVirtualMAC m)"
  "messages (ValidVirtualGateway a)" "messages (Validate h r)" "messages (validLAGName m)"
  by (simp_all add: ValidSTPPriority_def ValidSTPCost_def ValidSTPPortPriority_def ValidSTPTimes_def ValidMLAG_def
      ValidMLAGTimes_def ValidLAGOptions_def ValidLACPPriority_def ValidMACAging_def ValidTPID_def ValidVirtualMAC_def
      ValidVirtualGateway_def Validate_def validLAGName_def case_prod_unfold Let_def split: option.split)

lemma check_members_message: "messages (check_members n ms s)"
  by (induction n ms s rule: check_members.induct) (simp_all add: lookup_def split: option.split)

lemmas messages_of = checks_message [THEN messagesD] check_members_message [THEN messagesD]

lemma lookup_plain: "lookup n s = Inl e \<Longrightarrow> plain e" "l3lookup n s = Inl e \<Longrightarrow> plain e"
  by (auto simp: lookup_def l3lookup_def split: option.splits)

text \<open>What a call answers: a value, a message, \<open>Unsupported\<close> where \<open>u\<close> says so, and no panic.\<close>

definition errs :: "bool \<Rightarrow> (sw_error + 'a) \<times> Switch \<Rightarrow> bool" where
  "errs u r \<longleftrightarrow> (case fst r of Inr _ \<Rightarrow> \<not> u | Inl e \<Rightarrow> e \<noteq> Panic \<and> is_unsupported e = u)"

lemma errs_simps [simp]: "errs u (Inr x, s) \<longleftrightarrow> \<not> u" "errs u (Inl (Unsupported w), s) \<longleftrightarrow> u"
  "errs u (Inl (Errorf f as), s) \<longleftrightarrow> \<not> u" "errs u (Inl Panic, s) \<longleftrightarrow> False"
  "plain e \<Longrightarrow> errs u (Inl e, s) \<longleftrightarrow> \<not> u"
  by (cases e; auto simp: errs_def)+

lemma errs_reply [simp]: "errs u (reply f r) = errs u r"
  by (cases "fst r") (simp_all add: errs_def reply_def)

text \<open>What each call needs of the capabilities.\<close>

fun needs_port :: "Capabilities \<Rightarrow> port_call \<Rightarrow> bool" where
  "needs_port c (DoPortCounters _) \<longleftrightarrow> c_Counters c"
| "needs_port c _ \<longleftrightarrow> True"

fun needs_vlan :: "Capabilities \<Rightarrow> vlan_call \<Rightarrow> bool" where
  "needs_vlan c (DoAddSVI _) \<longleftrightarrow> c_SVIs c"
| "needs_vlan c (DoDelSVI _) \<longleftrightarrow> c_SVIs c"
| "needs_vlan c (DoSetPortTunnel _ _) \<longleftrightarrow> c_QinQ c"
| "needs_vlan c (DoSetPortTPID _ _) \<longleftrightarrow> c_QinQ c"
| "needs_vlan c _ \<longleftrightarrow> c_VLANs c"

fun needs_lag :: "Capabilities \<Rightarrow> lag_call \<Rightarrow> bool" where
  "needs_lag c (DoAddLAG _ lacp) \<longleftrightarrow> c_LAGs c \<and> (lacp \<longrightarrow> c_LACP c)"
| "needs_lag c (DoSetLACPSystemPriority _) \<longleftrightarrow> c_LACP c"
| "needs_lag c _ \<longleftrightarrow> c_LAGs c"

fun needs_stp :: "Capabilities \<Rightarrow> stp_call \<Rightarrow> bool" where
  "needs_stp c (DoSetMLAG _) \<longleftrightarrow> c_MLAG c"
| "needs_stp c (DoSetLAGMLAG _ _) \<longleftrightarrow> c_MLAG c"
| "needs_stp c DoMLAG \<longleftrightarrow> c_MLAG c"
| "needs_stp c _ \<longleftrightarrow> c_STP c"

text \<open>An IPv6 gateway needs its own capability, asked for once the address is known to be one.\<close>

fun needs_gateway :: "Capabilities \<Rightarrow> gateway_call \<Rightarrow> bool" where
  "needs_gateway c (DoAddVirtualGateway _ a) \<longleftrightarrow>
     c_VirtualGateway c \<and> (ValidVirtualGateway a = None \<and> Is6 (pAddr a) \<longrightarrow> c_VirtualGateway6 c)"
| "needs_gateway c (DoSetMACAging _) \<longleftrightarrow> c_MACAging c"
| "needs_gateway c DoMACAging \<longleftrightarrow> c_MACAging c"
| "needs_gateway c DoFDB \<longleftrightarrow> c_L2Learning c"
| "needs_gateway c _ \<longleftrightarrow> c_VirtualGateway c"

fun needs_l3 :: "Config \<Rightarrow> l3_call \<Rightarrow> bool" where
  "needs_l3 c DoACLs \<longleftrightarrow> c_ACL (Caps c) \<or> c_ACL6 (Caps c)"
| "needs_l3 c (DoSetACL r) \<longleftrightarrow> (if Family r = 6 then c_ACL6 (Caps c) else c_ACL (Caps c))"
| "needs_l3 c (DoDelACL _) \<longleftrightarrow> c_ACL (Caps c) \<or> c_ACL6 (Caps c)"
| "needs_l3 c (DoAddRoute r) \<longleftrightarrow> c_L3 (Caps c) \<and>
     (SupportsECMP (Caps c) (int (length (NextHops r))) \<or> AllowECMPAnyway c)"
| "needs_l3 c _ \<longleftrightarrow> c_L3 (Caps c)"

fun capable :: "Config \<Rightarrow> call \<Rightarrow> bool" where
  "capable c (Port x) = needs_port (Caps c) x"
| "capable c (Vlan x) = needs_vlan (Caps c) x"
| "capable c (Lag x) = needs_lag (Caps c) x"
| "capable c (Stp x) = needs_stp (Caps c) x"
| "capable c (Gateway x) = needs_gateway (Caps c) x"
| "capable c (L3 x) = needs_l3 c x"

lemma errs_port: "errs (\<not> needs_port (caps s) c) (exec_port c s)"
  by (cases c) (simp_all add: Start_def Close_def Ports_def PortStatus_of_def SetPortAdmin_def SetPortMTU_def PortCounters_def
      lookup_plain split: sum.split)

lemma errs_vlan: "errs (\<not> needs_vlan (caps s) c) (exec_vlan c s)"
  by (cases c) (simp_all add: AddVLAN_def DelVLAN_def SetPortVLAN_def DelPortVLAN_def VLANs_def AddSVI_def DelSVI_def
      SetPortTunnel_def SetPortTPID_def Let_def lookup_plain messages_of split: sum.split option.split)

lemma active_members_ok:
  "(\<And>m. m \<in> set ms \<Longrightarrow> mhas (byName s) m) \<Longrightarrow> \<exists>out. active_members s ms = Inr out"
  by (induction ms) (auto simp: mhas_def, force)

lemma any_up_ok: "(\<And>m. m \<in> set ms \<Longrightarrow> mhas (byName s) m) \<Longrightarrow> \<exists>b. any_up s loc ms = Inr b"
proof (induction ms arbitrary: loc)
  case (Cons m ms)
  obtain a where "mget (byName s) m = Some a" using Cons.prems [of m] by (auto simp: mhas_def)
  then show ?case using Cons by simp
qed simp

lemma lag_members_live:
  assumes inv: "sw_inv s" and "(n, l) \<in> set (lags s)" and m: "m \<in> set (l_members l)"
  shows "mhas (byName s) m"
proof -
  note i = inv [unfolded sw_inv_def]
  have "mget (lags s) n = Some l"
    using assms(2) i by (simp add: wf_names_def map_of_is_SomeI)
  then have "l_members l = member_names (heap s) (ports s) n" using i by (simp add: wf_lags_def wf_lag_def)
  then show ?thesis using member_live [OF i [THEN conjunct1]] m by simp
qed

lemma list_lags_ok:
  assumes "\<And>n l m. (n, l) \<in> set ls \<Longrightarrow> m \<in> set (l_members l) \<Longrightarrow> mhas (byName s) m"
  shows "\<exists>out. list_lags s ls = Inr out"
  using assms
proof (induction ls)
  case (Cons nl ls)
  obtain n l where nl: "nl = (n, l)" by (cases nl)
  obtain ms where "active_members s (l_members l) = Inr ms"
    using active_members_ok [of "l_members l" s] Cons.prems [of n l] nl by auto
  moreover obtain out where "list_lags s ls = Inr out" using Cons.IH Cons.prems by (metis list.set_intros(2))
  ultimately show ?case by (simp add: nl)
qed simp

lemma mlag_interfaces_ok:
  assumes "\<And>n l m. (n, l) \<in> set ls \<Longrightarrow> m \<in> set (l_members l) \<Longrightarrow> mhas (byName s) m"
  shows "\<exists>out. mlag_interfaces s ls = Inr out"
  using assms
proof (induction ls)
  case (Cons nl ls)
  obtain n l where nl: "nl = (n, l)" by (cases nl)
  obtain b where "any_up s False (l_members l) = Inr b"
    using any_up_ok [of "l_members l" s] Cons.prems [of n l] nl by auto
  moreover obtain out where "mlag_interfaces s ls = Inr out" using Cons.IH Cons.prems by (metis list.set_intros(2))
  ultimately show ?case by (simp add: nl)
qed simp

lemma errs_SetLAGMembers: "sw_inv s \<Longrightarrow> errs (\<not> c_LAGs (caps s)) (SetLAGMembers n ms s)"
proof (cases "mget (lags s) n")
  case (Some l)
  assume "sw_inv s"
  then obtain s' where "release (filter (\<lambda>m. m \<notin> set ms) (l_members l)) s = (Inr (), s')"
    using release_members [OF _ Some] by blast
  with Some show ?thesis by (simp add: SetLAGMembers_def Let_def messages_of split: option.split)
qed (simp add: SetLAGMembers_def)

lemma errs_DelLAG: "sw_inv s \<Longrightarrow> errs (\<not> c_LAGs (caps s)) (DelLAG n s)"
proof (cases "mget (lags s) n")
  case (Some l)
  assume "sw_inv s"
  then obtain s' where "release (l_members l) s = (Inr (), s')" using release_all [OF _ Some] by blast
  with Some show ?thesis by (simp add: DelLAG_def)
qed (simp add: DelLAG_def)

lemma errs_LAGs: "sw_inv s \<Longrightarrow> errs (\<not> c_LAGs (caps s)) (LAGs s)"
proof -
  assume inv: "sw_inv s"
  obtain out where "list_lags s (lags s) = Inr out"
    using list_lags_ok [of "lags s" s] lag_members_live [OF inv] by blast
  then show ?thesis by (simp add: LAGs_def)
qed

lemma errs_MLAG: "sw_inv s \<Longrightarrow> errs (\<not> c_MLAG (caps s)) (MLAG s)"
proof -
  assume inv: "sw_inv s"
  obtain out where "mlag_interfaces s (lags s) = Inr out"
    using mlag_interfaces_ok [of "lags s" s] lag_members_live [OF inv] by blast
  then show ?thesis by (simp add: MLAG_def case_prod_unfold Let_def)
qed

lemma errs_lag: "sw_inv s \<Longrightarrow> errs (\<not> needs_lag (caps s) c) (exec_lag c s)"
  by (cases c) (auto simp: errs_SetLAGMembers errs_DelLAG errs_LAGs AddLAG_def SetLAGOptions_def
      SetLACPSystemPriority_def messages_of split: option.split)

lemma errs_SetSTPPort: "errs (\<not> c_STP (caps s)) (SetSTPPort n c s)"
  by (simp add: SetSTPPort_def case_prod_unfold Let_def messages_of lookup_plain split: option.split sum.split)

lemma errs_SetMLAG: "errs (\<not> c_MLAG (caps s)) (SetMLAG c s)"
  by (simp add: SetMLAG_def messages_of lookup_plain split: option.split sum.split)

lemma errs_SetLAGMLAG: "errs (\<not> c_MLAG (caps s)) (SetLAGMLAG n mid s)"
  by (simp add: SetLAGMLAG_def split: option.split)

lemma errs_stp: "sw_inv s \<Longrightarrow> errs (\<not> needs_stp (caps s) c) (exec_stp c s)"
  by (cases c) (simp_all add: errs_SetSTPPort errs_SetMLAG errs_SetLAGMLAG errs_MLAG SetSTP_def STP_def
      case_prod_unfold Let_def messages_of split: option.split)

lemma errs_gateway: "errs (\<not> needs_gateway (caps s) c) (exec_gateway c s)"
  by (cases c) (simp_all add: SetVirtualMAC_def AddVirtualGateway_def DelVirtualGateway_def VirtualGateways_def
      SetMACAging_def MACAging_def FDB_def messages_of split: option.split)

lemma errs_l3: "errs (\<not> needs_l3 (cfg s) c) (exec_l3 c s)"
  by (cases c) (auto simp: ACLs_def SetACL_def DelACL_def AddAddress_def DelAddress_def AddRoute_def DelRoute_def Routes_def
      SupportsECMP_def Let_def messages_of lookup_plain split: option.split sum.split)

lemma errs_exec: "sw_inv s \<Longrightarrow> errs (\<not> capable (cfg s) c) (exec c s)"
  by (cases c) (simp_all add: errs_port errs_vlan errs_lag errs_stp errs_gateway errs_l3)


section \<open>Properties of every reachable switch\<close>

text \<open>C1: whatever sequence of calls a switch has answered since \<^verbatim>\<open>New\<close>, with whatever capabilities, its
  state is consistent: \<^verbatim>\<open>byName\<close> finds exactly the ports and LAGs under their own names; every port has
  at most one native VLAN and no membership of a VLAN that does not exist; a LAG's members are the
  ports that point back to it, in board order and none of them switched; MLAG ids are unique and the
  peer-link has none; every routed interface has its VLAN and every gateway its interface; and every
  stored setting, route and rule passes its own check.\<close>

theorem reachable_consistent:
  "reachable exec fresh s \<Longrightarrow> sw_inv s"
  by (rule mem.reachable_inv)

definition demo_config :: Config where
  "demo_config = \<lparr>cfg_Ports = 3, Caps = DefaultCaps, AllowECMPAnyway = False\<rparr>"

definition demo_calls :: "call list" where
  "demo_calls =
     [Vlan (DoAddVLAN 10), Vlan (DoAddVLAN 20), Vlan (DoSetPortVLAN ''swp1'' 10 False),
      Vlan (DoSetPortVLAN ''swp1'' 20 True), Lag (DoAddLAG ''po1'' True),
      Lag (DoSetLAGMembers ''po1'' [''swp3'', ''swp2'']), Vlan (DoSetPortVLAN ''swp2'' 10 False),
      Vlan (DoSetPortVLAN ''po1'' 20 False), Vlan (DoAddSVI 10)]"

definition demo_switch :: Switch where
  "demo_switch = run exec demo_calls (New demo_config)"

lemma demo_reachable: "reachable exec fresh demo_switch"
  unfolding demo_switch_def by (rule reachable_run, rule reachable.initial) (auto simp: fresh_def)

theorem reachable_consistent_witness:
  "sw_inv demo_switch \<and> map fst (vlans demo_switch) = [10, 20] \<and>
   map_option l_members (mget (lags demo_switch) ''po1'') = Some [''swp2'', ''swp3'']"
proof -
  have "map fst (vlans demo_switch) = [10, 20]" by code_simp
  moreover have "map_option l_members (mget (lags demo_switch) ''po1'') = Some [''swp2'', ''swp3'']" by code_simp
  ultimately show ?thesis using reachable_consistent [OF demo_reachable] by blast
qed

text \<open>C21: a refused call changes nothing, so a run is the run of its accepted calls: leaving the refused
  ones out ends in the same state and gives the same answers to the others.\<close>

theorem refused_calls_leave_no_trace:
  "reachable exec fresh s \<Longrightarrow>
   run exec (accepted exec cs s) s = run exec cs s \<and>
   answers exec (accepted exec cs s) s = filter (\<lambda>r. \<not> isl r) (answers exec cs s)"
  using mem.reachable_inv mem.run_accepted mem.answers_accepted by blast

theorem refused_calls_leave_no_trace_witness:
  "accepted exec demo_calls (New demo_config) = take 6 demo_calls @ drop 7 demo_calls \<and>
   run exec (take 6 demo_calls @ drop 7 demo_calls) (New demo_config) = demo_switch"
proof -
  have "reachable exec fresh (New demo_config)" by (rule reachable.initial) (auto simp: fresh_def)
  from refused_calls_leave_no_trace [OF this, of demo_calls]
  have "run exec (accepted exec demo_calls (New demo_config)) (New demo_config) = demo_switch"
    by (simp add: demo_switch_def)
  moreover have "accepted exec demo_calls (New demo_config) = take 6 demo_calls @ drop 7 demo_calls" by code_simp
  ultimately show ?thesis by simp
qed



end
