(* ===== verification/Mem_Spec.thy ===== *)
theory Mem_Spec
  imports Mem_Calls
begin

text \<open>
  What the reference datapath promises a caller, call by call: an abstract view of the VLANs that
  every VLAN call refines and that \<^verbatim>\<open>VLANs\<close> lists, the access list and the routes as tables, LAG
  membership, and the bounds of what the protocols report.
\<close>

declare map_of_eq_Some_iff [simp del] Some_eq_map_of_iff [simp del]

section \<open>The VLANs, abstractly\<close>

text \<open>The VLANs there are, and what each interface is in them: \<open>Some True\<close> tagged, \<open>Some False\<close> untagged.\<close>

record vlan_view =
  vids :: "int set"
  tag :: "string \<Rightarrow> int \<Rightarrow> bool option"

definition tag_of :: "Switch \<Rightarrow> string \<Rightarrow> int \<Rightarrow> bool option" where
  "tag_of s n v = (case mget (byName s) n of None \<Rightarrow> None | Some a \<Rightarrow> mget (p_vlans (at s a)) v)"

definition view :: "Switch \<Rightarrow> vlan_view" where
  "view s = \<lparr>vids = {v. has_vlan s v}, tag = tag_of s\<rparr>"

fun spec_vlan :: "vlan_call \<Rightarrow> vlan_view \<Rightarrow> vlan_view" where
  "spec_vlan (DoAddVLAN v) w = w\<lparr>vids := insert v (vids w)\<rparr>"
| "spec_vlan (DoDelVLAN v) w = w\<lparr>vids := vids w - {v}, tag := \<lambda>n. (tag w n)(v := None)\<rparr>"
| "spec_vlan (DoSetPortVLAN n v True) w = w\<lparr>tag := (tag w)(n := (tag w n)(v := Some True))\<rparr>"
| "spec_vlan (DoSetPortVLAN n v False) w =
     w\<lparr>tag := (tag w)(n := (\<lambda>x. if tag w n x = Some False then None else tag w n x)(v := Some False))\<rparr>"
| "spec_vlan (DoDelPortVLAN n v) w = w\<lparr>tag := (tag w)(n := (tag w n)(v := None))\<rparr>"
| "spec_vlan (DoSetPortTunnel n v) w = w\<lparr>tag := (tag w)(n := (\<lambda>_. None)(v := Some False))\<rparr>"
| "spec_vlan _ w = w"

lemma tag_of_modify:
  assumes inv: "sw_inv s" and a: "mget (byName s) n = Some a"
  shows "tag_of (modify a f s) = (tag_of s)(n := mget (p_vlans (f (at s a))))"
proof (intro ext)
  fix m v
  note wf = inv [unfolded sw_inv_def, THEN conjunct1]
  have same: "m = n" if "mget (byName s) m = Some a"
    using wf_namesD(4) [OF wf that] wf_namesD(4) [OF wf a] by simp
  show "tag_of (modify a f s) m v = ((tag_of s)(n := mget (p_vlans (f (at s a))))) m v"
  proof (cases "m = n")
    case True
    then show ?thesis using a wf_namesD(3) [OF wf a] by (simp add: tag_of_def)
  next
    case False
    then have "mget (p_vlans ((heap s)[a := f (at s a)] ! b)) v = mget (p_vlans (at s b)) v"
      if "mget (byName s) m = Some b" for b
      using same that by (cases "b = a") simp_all
    then show ?thesis using False by (simp add: tag_of_def split: option.split)
  qed
qed

lemma view_modify:
  "sw_inv s \<Longrightarrow> mget (byName s) n = Some a \<Longrightarrow>
   view (modify a f s) = (view s)\<lparr>tag := (tag (view s))(n := mget (p_vlans (f (at s a))))\<rparr>"
  by (simp add: view_def tag_of_modify)

lemma mdel_Nil: "mdel v m = [] \<Longrightarrow> x \<noteq> v \<Longrightarrow> mget m x = None"
  using mget_mdel [of v m x] by simp

lemma tag_of_live: "mget (byName s) n = Some a \<Longrightarrow> tag_of s n = mget (p_vlans (at s a))"
  by (rule ext) (simp add: tag_of_def)

lemma DelVLAN_result:
  assumes inv: "sw_inv s" and ok: "fst (DelVLAN v s) = Inr u"
  obtains h where "snd (DelVLAN v s) = s\<lparr>vlans := mdel v (vlans s), heap := h\<rparr>" "length h = length (heap s)"
    "\<And>n a. mget (byName s) n = Some a \<Longrightarrow> h ! a = (at s a)\<lparr>p_vlans := mdel v (p_vlans (at s a))\<rparr>"
proof -
  define f where "f p = p\<lparr>p_vlans := mdel v (p_vlans p)\<rparr>" for p :: port
  let ?s = "s\<lparr>vlans := mdel v (vlans s)\<rparr>"
  have names: "wf_names (heap ?s) (ports ?s) (byName ?s) (lags ?s) (svis ?s)"
    using inv by (simp add: sw_inv_def)
  have "snd (DelVLAN v s) = ?s\<lparr>heap := heap_upd (set (switchable ?s)) f (heap s)\<rparr>"
    using ok fold_modify [OF distinct_switchable [OF names], of f]
    by (simp add: DelVLAN_def Let_def f_def [abs_def] split: if_splits)
  moreover have "heap_upd (set (switchable ?s)) f (heap s) ! a = f (at s a)" if "mget (byName s) n = Some a" for n a
    using that set_switchable [OF names, of a] wf_namesD(3) [OF names, of n a] by (auto simp: nth_heap_upd)
  ultimately show ?thesis using that by (simp add: f_def)
qed

lemma view_DelVLAN:
  assumes inv: "sw_inv s" and ok: "fst (DelVLAN v s) = Inr u"
  shows "view (snd (DelVLAN v s)) = spec_vlan (DoDelVLAN v) (view s)"
proof -
  obtain h where "snd (DelVLAN v s) = s\<lparr>vlans := mdel v (vlans s), heap := h\<rparr>"
    "\<And>n a. mget (byName s) n = Some a \<Longrightarrow> h ! a = (at s a)\<lparr>p_vlans := mdel v (p_vlans (at s a))\<rparr>"
    using DelVLAN_result [OF inv ok] by blast
  then show ?thesis
    by (auto simp: view_def tag_of_def fun_eq_iff split: option.split)
qed

lemma view_SetPortVLAN:
  assumes inv: "sw_inv s" and ok: "fst (SetPortVLAN n v t s) = Inr u"
  shows "view (snd (SetPortVLAN n v t s)) = spec_vlan (DoSetPortVLAN n v t) (view s)"
proof -
  obtain a where l: "mget (byName s) n = Some a"
    using ok by (cases "lookup n s") (simp_all add: SetPortVLAN_def lookup_Inr split: if_splits)
  then have look: "lookup n s = Inr a" by (simp add: lookup_Inr)
  let ?m = "p_vlans (at s a)"
  let ?kept = "if t then ?m else filter (\<lambda>(x, t). t \<or> x = v) ?m"
  have snd: "snd (SetPortVLAN n v t s) = modify a (\<lambda>p. p\<lparr>p_vlans := mput v t ?kept\<rparr>) s"
    using ok look by (simp add: SetPortVLAN_def Let_def split: if_splits)
  have d: "distinct (mkeys ?m)" using inv l by (simp add: sw_inv_def wf_ports_def wf_port_def wf_members_def)
  have kept: "mget ?kept x = (if \<not> t \<and> mget ?m x = Some False \<and> x \<noteq> v then None else mget ?m x)" for x
    using mget_filter [OF d, of "\<lambda>x t. t \<or> x = v" x] by (auto split: option.splits)
  have "mget (mput v t ?kept) = (\<lambda>x. if x = v then Some t else
      if \<not> t \<and> mget ?m x = Some False then None else mget ?m x)"
    by (rule ext) (simp only: mget_mput kept, simp)
  then show ?thesis
    unfolding snd view_modify [OF inv l]
    by (cases t) (auto simp: view_def tag_of_live [OF l] fun_eq_iff)
qed

lemma tag_of_append: "sw_inv s \<Longrightarrow> tag_of (s\<lparr>svis := x, heap := heap s @ [p]\<rparr>) = tag_of s"
  using wf_namesD(3) [of "heap s" "ports s" "byName s" "lags s" "svis s"]
  by (auto simp: sw_inv_def tag_of_def fun_eq_iff nth_append split: option.split)

text \<open>C9: the VLAN calls refine an abstract table of memberships. Whenever the switch accepts one, the
  VLANs and every interface's memberships afterwards are those the abstract operation gives: a VLAN
  removed takes its memberships with it, an untagged membership replaces the port's native VLAN and
  keeps its tagged ones, a tunnel port has its service VLAN only, and no other interface is touched.\<close>

theorem vlan_calls_refine:
  assumes reach: "reachable exec fresh s" and ok: "fst (exec (Vlan c) s) = Inr r"
  shows "view (snd (exec (Vlan c) s)) = spec_vlan c (view s)"
proof -
  have inv: "sw_inv s" by (rule mem.reachable_inv [OF reach])
  have okc: "\<exists>x. fst r = Inr x" if "fst (reply f r) = Inr y" for f :: "'a \<Rightarrow> reply" and r :: "(sw_error + 'a) \<times> Switch" and y
    using that by (cases "fst r") (simp_all add: reply_def)
  have onport: ?thesis
    if "snd (exec (Vlan c) s) = modify a f s" "mget (byName s) n = Some a"
      "spec_vlan c (view s) = (view s)\<lparr>tag := (tag (view s))(n := mget (p_vlans (f (at s a))))\<rparr>" for n a f
    using that view_modify [OF inv that(2)] by simp
  show ?thesis
  proof (cases c)
    case (DoAddVLAN v)
    then show ?thesis using ok by (auto simp: AddVLAN_def view_def tag_of_def fun_eq_iff reply_def split: if_splits option.split)
  next
    case (DoDelVLAN v)
    then show ?thesis using ok okc view_DelVLAN [OF inv] by fastforce
  next
    case (DoSetPortVLAN n v t)
    then show ?thesis using ok okc view_SetPortVLAN [OF inv] by fastforce
  next
    case (DoDelPortVLAN n v)
    then obtain a where a: "lookup n s = Inr a" "c_VLANs (caps s)"
      using ok by (cases "lookup n s") (simp_all add: DelPortVLAN_def reply_def split: if_splits)
    then have l: "mget (byName s) n = Some a" by (simp add: lookup_Inr)
    show ?thesis
      by (rule onport [OF _ l]) (simp add: DoDelPortVLAN DelPortVLAN_def a,
          simp add: DoDelPortVLAN view_def tag_of_live [OF l] Let_def fun_eq_iff mdel_Nil)
  next
    case DoVLANs
    then show ?thesis by simp
  next
    case (DoAddSVI v)
    then show ?thesis using tag_of_append [OF inv] by (simp add: AddSVI_def view_def)
  next
    case (DoDelSVI v)
    then show ?thesis by (auto simp: DelSVI_def view_def tag_of_def fun_eq_iff split: option.split)
  next
    case (DoSetPortTunnel n v)
    then obtain a where a: "lookup n s = Inr a" "c_QinQ (caps s)" "p_lag (at s a) = []" "has_vlan s v"
      using ok by (cases "lookup n s") (simp_all add: SetPortTunnel_def reply_def Let_def split: if_splits)
    then have l: "mget (byName s) n = Some a" by (simp add: lookup_Inr)
    show ?thesis
      by (rule onport [OF _ l]) (simp add: DoSetPortTunnel SetPortTunnel_def a Let_def,
          simp add: DoSetPortTunnel view_def fun_eq_iff)
  next
    case (DoSetPortTPID n t)
    then obtain a where a: "lookup n s = Inr a" "c_QinQ (caps s)" "ValidTPID t = None"
      using ok by (cases "lookup n s") (simp_all add: SetPortTPID_def reply_def split: if_splits option.splits)
    then have l: "mget (byName s) n = Some a" by (simp add: lookup_Inr)
    show ?thesis
      by (rule onport [OF _ l]) (simp add: DoSetPortTPID SetPortTPID_def a,
          simp add: DoSetPortTPID view_def tag_of_live [OF l, symmetric])
  qed
qed

theorem vlan_calls_refine_witness:
  "view (snd (exec (Vlan (DoSetPortVLAN ''swp1'' 20 False)) demo_switch)) =
     spec_vlan (DoSetPortVLAN ''swp1'' 20 False) (view demo_switch) \<and>
   tag_of demo_switch ''swp1'' 10 = Some False \<and>
   tag_of (snd (exec (Vlan (DoSetPortVLAN ''swp1'' 20 False)) demo_switch)) ''swp1'' 10 = None"
proof -
  have "fst (exec (Vlan (DoSetPortVLAN ''swp1'' 20 False)) demo_switch) = Inr Done" by code_simp
  note vlan_calls_refine [OF demo_reachable this]
  moreover have "tag_of demo_switch ''swp1'' 10 = Some False" by code_simp
  moreover have "tag_of (snd (exec (Vlan (DoSetPortVLAN ''swp1'' 20 False)) demo_switch)) ''swp1'' 10 = None" by code_simp
  ultimately show ?thesis by blast
qed

section \<open>Listing the VLANs\<close>

lemma distinct_map_sort_key: "distinct (map f (sort_key f xs)) = distinct (map f xs)"
  by (induction xs) (simp_all add: distinct_insort_key)

lemma vlan_members_iff:
  assumes inv: "sw_inv s"
  shows "(\<exists>m \<in> set (vlan_members s v). vm_Port m = n \<and> vm_Tagged m = t) \<longleftrightarrow> tag_of s n v = Some t"
proof -
  note wf = inv [unfolded sw_inv_def, THEN conjunct1]
  have "(\<exists>m \<in> set (vlan_members s v). vm_Port m = n \<and> vm_Tagged m = t) \<longleftrightarrow>
      (\<exists>a \<in> set (switchable s). p_name (at s a) = n \<and> mget (p_vlans (at s a)) v = Some t)"
    by (auto simp: vlan_members_def List.map_filter_def image_iff)
  also have "\<dots> \<longleftrightarrow> (\<exists>a. mget (byName s) n = Some a \<and> mget (p_vlans (at s a)) v = Some t)"
    using set_switchable [OF wf] wf_namesD(4) [OF wf] by blast
  finally show ?thesis by (auto simp: tag_of_def split: option.splits)
qed

text \<open>\<^verbatim>\<open>VLANs\<close> lists exactly the view: every VLAN once and in order of its number, every membership with
  its tagging, and whether the VLAN has a routed interface.\<close>

theorem VLANs_lists_view:
  assumes reach: "reachable exec fresh s" and ok: "fst (VLANs s) = Inr out"
  shows "sorted_wrt (<) (map VID out) \<and> set (map VID out) = vids (view s) \<and>
         (\<forall>V \<in> set out. vl_SVI V = mhas (svis s) (VID V) \<and>
            (\<forall>n t. (\<exists>m \<in> set (vl_Members V). vm_Port m = n \<and> vm_Tagged m = t) \<longleftrightarrow> tag (view s) n (VID V) = Some t))"
proof -
  have inv: "sw_inv s" by (rule mem.reachable_inv [OF reach])
  let ?f = "\<lambda>vid. \<lparr>VID = vid, vl_Members = vlan_members s vid, vl_SVI = mhas (svis s) vid\<rparr>"
  have out: "out = sort_key VID (map ?f (mkeys (vlans s)))"
    using ok by (simp add: VLANs_def split: if_splits)
  have wf: "distinct (mkeys (vlans s))" "\<And>v t. mget (vlans s) v = Some t \<Longrightarrow> t"
    using inv by (auto simp: sw_inv_def wf_vlans_def)
  have "distinct (map VID out)"
    unfolding out using wf by (simp add: distinct_map_sort_key o_def)
  then have sorted: "sorted_wrt (<) (map VID out)"
    by (simp add: strict_sorted_iff out)
  have vids: "set (map VID out) = vids (view s)"
    using wf(2) mkeys_mget [of _ "vlans s"] by (force simp: out view_def image_iff)
  have "vl_SVI V = mhas (svis s) (VID V) \<and> vl_Members V = vlan_members s (VID V)" if "V \<in> set out" for V
    using that by (auto simp: out)
  then show ?thesis using sorted vids vlan_members_iff [OF inv] by (auto simp: view_def)
qed

theorem VLANs_lists_view_witness:
  "set (map VID (projr (fst (VLANs demo_switch)))) = vids (view demo_switch) \<and>
   map VID (projr (fst (VLANs demo_switch))) = [10, 20] \<and>
   map vl_SVI (projr (fst (VLANs demo_switch))) = [True, False]"
proof -
  have "fst (VLANs demo_switch) = Inr (projr (fst (VLANs demo_switch)))" by code_simp
  note VLANs_lists_view [OF demo_reachable this]
  moreover have "map VID (projr (fst (VLANs demo_switch))) = [10, 20]" by code_simp
  moreover have "map vl_SVI (projr (fst (VLANs demo_switch))) = [True, False]" by code_simp
  ultimately show ?thesis by blast
qed

section \<open>The access list and the routes\<close>

lemma singleton_list: "distinct xs \<Longrightarrow> set xs = {r} \<Longrightarrow> xs = [r]"
  by (cases xs) (auto simp: subset_singleton_iff set_empty2)

lemma mget_entry: "distinct (mkeys m) \<Longrightarrow> mget m k = Some v \<longleftrightarrow> (k, v) \<in> set m"
  by (simp add: map_of_eq_Some_iff)

lemma mget_the: "k \<in> set (mkeys m) \<Longrightarrow> mget m k = Some (the (mget m k))"
  using mkeys_mget [of k m] by force

text \<open>\<^verbatim>\<open>ACLs\<close> lists the rules in force in the order they are tried: strictly by sequence number,
  exactly the rules held, each under its own number; a rule set under a number in use replaces the
  one there, and a deleted one is gone.\<close>

theorem ACLs_lists_rules:
  assumes reach: "reachable exec fresh s" and ok: "fst (ACLs s) = Inr out"
  shows "sorted_wrt (<) (map ae_Seq out) \<and>
         (\<forall>e \<in> set out. ae_Installed e \<and> ae_Seq e = Seq (ae_Rule e) \<and> ae_Text e = ACLRule_String (ae_Rule e)) \<and>
         (\<forall>r. r \<in> ae_Rule ` set out \<longleftrightarrow> mget (acls s) (Seq r) = Some r) \<and>
         (\<forall>r u. fst (SetACL r s) = Inr u \<longrightarrow> acls (snd (SetACL r s)) = mput (Seq r) r (acls s)) \<and>
         (\<forall>n u. fst (DelACL n s) = Inr u \<longrightarrow> \<not> mhas (acls (snd (DelACL n s))) n)"
proof -
  have wf: "wf_tables (cfg s) (routes s) (acls s)"
    using mem.reachable_inv [OF reach] by (simp add: sw_inv_def)
  let ?e = "\<lambda>seq. let r = the (mget (acls s) seq) in \<lparr>ae_Seq = seq, ae_Text = ACLRule_String r, ae_Rule = r,
     ae_Parsed = True, ae_Installed = True, ae_Packets = 0, ae_Error = []\<rparr>"
  have out: "out = map ?e (sort (mkeys (acls s)))"
    using ok by (simp add: ACLs_def split: if_splits)
  have "sorted_wrt (<) (sort (mkeys (acls s)))"
    using wf by (simp add: strict_sorted_iff wf_tables_def)
  then have "sorted_wrt (<) (map ae_Seq out)" by (simp add: out Let_def o_def)
  moreover have "ae_Installed e \<and> ae_Seq e = Seq (ae_Rule e) \<and> ae_Text e = ACLRule_String (ae_Rule e)"
    if "e \<in> set out" for e
  proof -
    obtain q where "q \<in> set (mkeys (acls s))" "e = ?e q" using \<open>e \<in> set out\<close> unfolding out set_map set_sort by blast
    then show ?thesis using wf mget_the [of q "acls s"] by (simp add: Let_def wf_tables_def)
  qed
  moreover have "r \<in> ae_Rule ` set out \<longleftrightarrow> mget (acls s) (Seq r) = Some r" for r
  proof -
    have "r \<in> ae_Rule ` set out \<longleftrightarrow> (\<exists>q \<in> set (mkeys (acls s)). the (mget (acls s) q) = r)"
      by (auto simp: out Let_def image_image image_iff)
    also have "\<dots> \<longleftrightarrow> (\<exists>q. mget (acls s) q = Some r)"
      using mget_the [of _ "acls s"] mhas_get [of "acls s" _ r] mhas_keys [of "acls s"] by (metis option.sel)
    finally show ?thesis using wf unfolding wf_tables_def by blast
  qed
  moreover have "acls (snd (SetACL r s)) = mput (Seq r) r (acls s)" if "fst (SetACL r s) = Inr u" for r u
    using that by (auto simp: SetACL_def split: if_splits option.splits)
  moreover have "\<not> mhas (acls (snd (DelACL n s))) n" if "fst (DelACL n s) = Inr u" for n u
    using that by (simp add: DelACL_def split: if_splits)
  ultimately show ?thesis by blast
qed

definition demo_acl :: Switch where
  "demo_acl = run exec
     [L3 (DoSetACL ((blank_rule 20)\<lparr>Family := 4, Action := ACLDeny\<rparr>)),
      L3 (DoSetACL ((blank_rule 10)\<lparr>Family := 4, InPort := ''swp1''\<rparr>))] (New demo_config)"

lemma demo_acl_reachable: "reachable exec fresh demo_acl"
  unfolding demo_acl_def by (rule reachable_run, rule reachable.initial) (auto simp: fresh_def)

theorem ACLs_lists_rules_witness:
  "sorted_wrt (<) (map ae_Seq (projr (fst (ACLs demo_acl)))) \<and>
   map ae_Seq (projr (fst (ACLs demo_acl))) = [10, 20] \<and>
   map ae_Text (projr (fst (ACLs demo_acl))) = [''permit in swp1'', ''deny'']"
proof -
  have "fst (ACLs demo_acl) = Inr (projr (fst (ACLs demo_acl)))" by code_simp
  note ACLs_lists_rules [OF demo_acl_reachable this]
  moreover have "map ae_Seq (projr (fst (ACLs demo_acl))) = [10, 20]" by code_simp
  moreover have "map ae_Text (projr (fst (ACLs demo_acl))) = [''permit in swp1'', ''deny'']" by code_simp
  ultimately show ?thesis by blast
qed

text \<open>A route is never silently narrowed. An accepted one is listed, and alone under its prefix,
  with all the next-hops it was given; on a datapath that does not pretend otherwise every route
  listed is as wide as the capabilities allow and no wider; and the list is in order of the prefixes.\<close>

theorem routes_never_degrade:
  assumes reach: "reachable exec fresh s" and ok: "fst (AddRoute r s) = Inr u"
  shows "\<exists>out. fst (Routes (snd (AddRoute r s))) = Inr out \<and>
           filter (\<lambda>x. rt_Prefix x = rt_Prefix r) out = [r] \<and> NextHops r \<noteq> [] \<and>
           sorted (map (\<lambda>x. Prefix_String (rt_Prefix x)) out) \<and>
           (\<not> AllowECMPAnyway (cfg s) \<longrightarrow>
             (\<forall>x \<in> set out. SupportsECMP (caps s) (int (length (NextHops x)))))"
proof -
  have l3: "c_L3 (caps s)" "NextHops r \<noteq> []" and snd: "snd (AddRoute r s) = s\<lparr>routes := mput (rt_Prefix r) r (routes s)\<rparr>"
    using ok by (auto simp: AddRoute_def Let_def split: if_splits)
  let ?s = "snd (AddRoute r s)"
  have "sw_inv ?s" using inv_AddRoute mem.reachable_inv [OF reach] .
  then have wf: "wf_tables (cfg s) (routes ?s) (acls s)" by (simp add: sw_inv_def snd)
  let ?k = "\<lambda>x. Prefix_String (rt_Prefix x)"
  let ?out = "sort_key ?k (map snd (routes ?s))"
  have own: "rt_Prefix x = q \<and> wf_route (cfg s) x" if "(q, x) \<in> set (routes ?s)" for q x
    using wf that by (simp add: wf_tables_def mget_entry)
  have "map rt_Prefix (map snd (routes ?s)) = mkeys (routes ?s)"
    using own by auto
  moreover have keys: "distinct (mkeys (routes ?s))" using wf by (simp add: wf_tables_def)
  ultimately have "distinct (map rt_Prefix (map snd (routes ?s)))" by (simp only:)
  then have "distinct (filter (\<lambda>x. rt_Prefix x = rt_Prefix r) ?out)" by (blast intro: distinct_filter distinct_sort [THEN iffD2] distinct_map [THEN iffD1, THEN conjunct1])
  moreover have "set (filter (\<lambda>x. rt_Prefix x = rt_Prefix r) ?out) = {r}"
  proof -
    have "mget (routes ?s) (rt_Prefix r) = Some r" by (simp add: snd)
    then have "(rt_Prefix r, x) \<in> set (routes ?s) \<longleftrightarrow> x = r" for x
      using mget_entry [OF keys, of "rt_Prefix r" x] by auto
    then show ?thesis using own by force
  qed
  ultimately have "filter (\<lambda>x. rt_Prefix x = rt_Prefix r) ?out = [r]"
    by (rule singleton_list)
  moreover have "SupportsECMP (caps s) (int (length (NextHops x)))" if "\<not> AllowECMPAnyway (cfg s)" "x \<in> set ?out" for x
    using that own by (force simp: wf_route_def)
  moreover have "fst (Routes ?s) = Inr ?out" using l3 by (simp add: Routes_def snd)
  ultimately show ?thesis using l3(2) by (intro exI [of _ ?out]) simp
qed

definition demo_route :: Route where
  "demo_route = \<lparr>rt_Prefix = \<lparr>pAddr = IP4 10 0 0 0, pBits = 8\<rparr>,
     NextHops = [\<lparr>Via = IP4 1 0 0 1, nh_Port = ''swp1''\<rparr>, \<lparr>Via = IP4 1 0 0 2, nh_Port = ''swp2''\<rparr>]\<rparr>"

theorem routes_never_degrade_witness:
  "\<exists>out. fst (Routes (snd (AddRoute demo_route demo_switch))) = Inr out \<and>
     filter (\<lambda>x. rt_Prefix x = rt_Prefix demo_route) out = [demo_route]"
proof -
  have "fst (AddRoute demo_route demo_switch) = Inr ()" by code_simp
  from routes_never_degrade [OF demo_reachable this] show ?thesis by blast
qed

section \<open>Bundles\<close>

text \<open>C32: after an accepted \<^verbatim>\<open>SetLAGMembers\<close> the bundle lists exactly the ports asked for, in board order,
  however the request was ordered or repeated, each of those ports names the bundle, no other port
  does, and every other bundle lists what it did.\<close>

theorem SetLAGMembers_exact:
  assumes reach: "reachable exec fresh s" and ok: "fst (SetLAGMembers n want s) = Inr u"
  shows "map_option l_members (mget (lags (snd (SetLAGMembers n want s))) n) =
           Some (filter (\<lambda>m. m \<in> set want) (map (\<lambda>a. p_name (at s a)) (ports s))) \<and>
         (\<forall>m \<in> set want. \<exists>a \<in> set (ports s). p_name (at s a) = m) \<and>
         (\<forall>a \<in> set (ports s). p_lag (at (snd (SetLAGMembers n want s)) a) = n \<longleftrightarrow> p_name (at s a) \<in> set want) \<and>
         (\<forall>k. k \<noteq> n \<longrightarrow> mget (lags (snd (SetLAGMembers n want s))) k = mget (lags s) k)"
proof -
  have inv: "sw_inv s" by (rule mem.reachable_inv [OF reach])
  note wf = inv [unfolded sw_inv_def, THEN conjunct1]
  obtain l where l: "mget (lags s) n = Some l" "check_members n want s = None"
    and snd: "snd (SetLAGMembers n want s) =
       s\<lparr>heap := relag (lag_after n (\<lambda>a. p_name (at s a) \<in> set want) (heap s) (ports s)) (heap s),
         lags := mput n (l\<lparr>l_members := map (\<lambda>a. p_name (at s a)) (filter (\<lambda>a. p_name (at s a) \<in> set want) (ports s))\<rparr>) (lags s)\<rparr>"
    by (rule SetLAGMembers_result [OF inv ok])
  have n: "n \<noteq> []" using wf l(1) validLAGName_nonempty unfolding wf_names_def by blast
  have named: "\<exists>a \<in> set (ports s). p_name (at s a) = m" if "m \<in> set want" for m
  proof -
    obtain a where a: "mget (byName s) m = Some a" "\<not> p_isLAG (at s a)"
      using check_members_ok [OF l(2) \<open>m \<in> set want\<close>] by blast
    have "\<not> mhas (lags s) m"
    proof
      assume "mhas (lags s) m"
      then obtain l' where "mget (lags s) m = Some l'" by (auto simp: mhas_def)
      then show False using wf_namesD(5) [OF wf] wf a unfolding wf_names_def by fastforce
    qed
    then show ?thesis using wf a(1) unfolding wf_names_def by blast
  qed
  have "p_lag (at (snd (SetLAGMembers n want s)) a) = n \<longleftrightarrow> p_name (at s a) \<in> set want" if "a \<in> set (ports s)" for a
    using that n wf_namesD(2) [OF wf that] by (simp add: snd lag_after_def)
  then show ?thesis using named by (simp add: snd filter_map o_def)
qed

theorem SetLAGMembers_exact_witness:
  "map_option l_members (mget (lags (snd (SetLAGMembers ''po1'' [''swp3''] demo_switch))) ''po1'') = Some [''swp3''] \<and>
   l_members (the (mget (lags demo_switch) ''po1'')) = [''swp2'', ''swp3'']"
proof -
  have "fst (SetLAGMembers ''po1'' [''swp3''] demo_switch) = Inr ()" by code_simp
  note SetLAGMembers_exact [OF demo_reachable this]
  moreover have "filter (\<lambda>m. m \<in> set [''swp3'']) (map (\<lambda>a. p_name (at demo_switch a)) (ports demo_switch)) = [''swp3'']"
    by code_simp
  moreover have "l_members (the (mget (lags demo_switch) ''po1'')) = [''swp2'', ''swp3'']" by code_simp
  ultimately show ?thesis by simp
qed

section \<open>What the protocols report\<close>

lemma valid_zero_stp_port:
  "ValidSTPCost (sp_Cost zero_stp_port) = None" "ValidSTPPortPriority (sp_Priority zero_stp_port) = None"
  by (simp_all add: zero_stp_port_def ValidSTPCost_def ValidSTPPortPriority_def)

lemma stp_port_bounds:
  assumes wf: "wf_stp st"
  shows "1 \<le> spt_Cost (stp_port st x) \<and> spt_Cost (stp_port st x) \<le> 200000000 \<and>
    16 \<le> spt_Priority (stp_port st x) \<and> spt_Priority (stp_port st x) \<le> 240 \<and> spt_Priority (stp_port st x) mod 16 = 0"
proof -
  define c where "c = (case mget (st_ports st) (p_name x) of None \<Rightarrow> zero_stp_port | Some c \<Rightarrow> c)"
  have "ValidSTPCost (sp_Cost c) = None" "ValidSTPPortPriority (sp_Priority c) = None"
    using wf valid_zero_stp_port by (auto simp: c_def wf_stp_def split: option.split)
  moreover have "spt_Cost (stp_port st x) = (if sp_Cost c = 0 then STPDefaultCost 10000 else sp_Cost c)"
    "spt_Priority (stp_port st x) = (if sp_Priority c = 0 then 128 else sp_Priority c)"
    by (simp_all add: stp_port_def c_def Let_def)
  ultimately show ?thesis
    by (auto simp: ValidSTPCost_def ValidSTPPortPriority_def STPDefaultCost_def split: if_splits)
qed

text \<open>whatever was configured, the spanning tree reports timers that satisfy the 802.1D relations, a
  bridge priority in steps of 4096, and for each port a cost and a priority in range, never the zero
  that stands for the default.\<close>

theorem stp_report_bounds:
  assumes reach: "reachable exec fresh s" and ok: "fst (STP s) = Inr r"
  shows "1 \<le> ss_HelloTime r \<and> ss_HelloTime r \<le> 10 \<and> 4 \<le> ss_ForwardDelay r \<and> ss_ForwardDelay r \<le> 30 \<and>
         2 * (ss_HelloTime r + 1) \<le> ss_MaxAge r \<and> ss_MaxAge r \<le> 2 * (ss_ForwardDelay r - 1) \<and>
         0 \<le> ss_Priority r \<and> ss_Priority r \<le> 61440 \<and> ss_Priority r mod 4096 = 0 \<and>
         (\<forall>p \<in> set (ss_Ports r). 1 \<le> spt_Cost p \<and> spt_Cost p \<le> 200000000 \<and>
            16 \<le> spt_Priority p \<and> spt_Priority p \<le> 240 \<and> spt_Priority p mod 16 = 0)"
proof -
  obtain st s' where st: "stp s = (st, s')" by (cases "stp s")
  have wf: "wf_stp st" using stp_wf [OF st mem.reachable_inv [OF reach]] by blast
  obtain h f m where t: "STPTimes (st_cfg st) = (h, f, m)" by (cases "STPTimes (st_cfg st)")
  have r: "ss_HelloTime r = h" "ss_ForwardDelay r = f" "ss_MaxAge r = m" "ss_Priority r = stp_Priority (st_cfg st)"
    "set (ss_Ports r) \<subseteq> range (stp_port st)"
    using ok by (auto simp: STP_def st t Let_def split: if_splits)
  have "1 \<le> h \<and> h \<le> 10 \<and> 4 \<le> f \<and> f \<le> 30 \<and> 2 * (h + 1) \<le> m \<and> m \<le> 2 * (f - 1)"
    using wf by (simp add: wf_stp_def ValidSTPTimes_def t split: if_splits)
  moreover have "0 \<le> stp_Priority (st_cfg st) \<and> stp_Priority (st_cfg st) \<le> 61440 \<and> stp_Priority (st_cfg st) mod 4096 = 0"
    using wf by (simp add: wf_stp_def ValidSTPPriority_def split: if_splits)
  moreover have "1 \<le> spt_Cost p \<and> spt_Cost p \<le> 200000000 \<and>
            16 \<le> spt_Priority p \<and> spt_Priority p \<le> 240 \<and> spt_Priority p mod 16 = 0" if "p \<in> range (stp_port st)" for p
  proof -
    from that obtain x where "p = stp_port st x" by (rule rangeE)
    then show ?thesis using stp_port_bounds [OF wf] by blast
  qed
  ultimately show ?thesis using r by auto
qed

definition demo_stp :: Switch where
  "demo_stp = run exec [Stp (DoSetSTP zero_stp)] demo_switch"

lemma demo_stp_reachable: "reachable exec fresh demo_stp"
  unfolding demo_stp_def by (rule reachable_run [OF demo_reachable])

theorem stp_report_bounds_witness:
  "1 \<le> ss_HelloTime (projr (fst (STP demo_stp))) \<and>
   2 * (ss_HelloTime (projr (fst (STP demo_stp))) + 1) \<le> ss_MaxAge (projr (fst (STP demo_stp))) \<and>
   map spt_Port (ss_Ports (projr (fst (STP demo_stp)))) = [''swp1'', ''po1'']"
proof -
  have "fst (STP demo_stp) = Inr (projr (fst (STP demo_stp)))" by code_simp
  note stp_report_bounds [OF demo_stp_reachable this]
  moreover have "map spt_Port (ss_Ports (projr (fst (STP demo_stp)))) = [''swp1'', ''po1'']" by code_simp
  ultimately show ?thesis by blast
qed

section \<open>Two orders that disagree\<close>

text \<open>C34: deleting a VLAN takes a tunnel port out of it but leaves the port a tunnel port. The port is
  then in no VLAN, is reported as a tunnel of nothing, and refuses every other membership, naming the
  VLAN that no longer exists, until it is taken out of that VLAN a second time.\<close>

theorem DelVLAN_strands_tunnel_port:
  assumes reach: "reachable exec fresh s" and q: "c_VLANs (caps s)" and tun: "fst (SetPortTunnel n v s) = Inr u"
    and del: "fst (DelVLAN v (snd (SetPortTunnel n v s))) = Inr u'"
  shows "let s' = snd (DelVLAN v (snd (SetPortTunnel n v s)))
         in (\<forall>w. tag_of s' n w = None) \<and> \<not> has_vlan s' v \<and>
            (\<forall>w t. isl (fst (SetPortVLAN n w t s'))) \<and>
            (\<forall>w t. has_vlan s' w \<longrightarrow> \<not> isl (fst (SetPortVLAN n w t (snd (DelPortVLAN n v s')))))"
proof -
  have inv: "sw_inv s" by (rule mem.reachable_inv [OF reach])
  note wf = inv [unfolded sw_inv_def, THEN conjunct1]
  obtain a where a: "mget (byName s) n = Some a" and free: "p_lag (at s a) = []"
    and hv: "has_vlan s v" and
    t: "snd (SetPortTunnel n v s) = modify a (\<lambda>p. p\<lparr>p_vlans := mput v False [], p_tunnel := v\<rparr>) s"
    using tun by (auto simp: SetPortTunnel_def Let_def lookup_def split: if_splits option.splits)
  let ?t = "snd (SetPortTunnel n v s)"
  let ?s = "snd (DelVLAN v ?t)"
  have v: "v \<noteq> 0" using inv hv by (force simp: sw_inv_def wf_vlans_def)
  have invt: "sw_inv ?t" by (rule inv_SetPortTunnel [OF inv])
  have len: "a < length (heap s)" by (rule wf_namesD(3) [OF wf a])
  obtain h where h: "?s = ?t\<lparr>vlans := mdel v (vlans ?t), heap := h\<rparr>" and hl: "length h = length (heap ?t)"
    and at_h: "\<And>n a. mget (byName ?t) n = Some a \<Longrightarrow> h ! a = (at ?t a)\<lparr>p_vlans := mdel v (p_vlans (at ?t a))\<rparr>"
    using DelVLAN_result [OF invt del] by blast
  have "h ! a = (at s a)\<lparr>p_vlans := [], p_tunnel := v\<rparr>"
    using at_h [of n a] a len by (simp add: t AList.delete_eq)
  moreover have "a < length h" using len hl by (simp add: t)
  ultimately show ?thesis
    using a v q free unfolding h unfolding t by (simp add: tag_of_def SetPortVLAN_def DelPortVLAN_def Let_def lookup_def)
qed

theorem DelVLAN_strands_tunnel_port_witness:
  "isl (fst (SetPortVLAN ''swp1'' 10 False (snd (DelVLAN 20 (snd (SetPortTunnel ''swp1'' 20 demo_switch)))))) \<and>
   has_vlan (snd (DelVLAN 20 (snd (SetPortTunnel ''swp1'' 20 demo_switch)))) 10"
proof -
  have c: "c_VLANs (caps demo_switch)" by code_simp
  have t: "fst (SetPortTunnel ''swp1'' 20 demo_switch) = Inr ()" by code_simp
  have d: "fst (DelVLAN 20 (snd (SetPortTunnel ''swp1'' 20 demo_switch))) = Inr ()" by code_simp
  have "has_vlan (snd (DelVLAN 20 (snd (SetPortTunnel ''swp1'' 20 demo_switch)))) 10" by code_simp
  then show ?thesis using DelVLAN_strands_tunnel_port [OF demo_reachable c t d] by (simp add: Let_def)
qed

text \<open>\<^verbatim>\<open>SetMLAG\<close> refuses a peer-link that is a member of a bundle, but \<^verbatim>\<open>SetLAGMembers\<close> takes the port that
  is already the peer-link, so the same two requests give a different switch in the other order.\<close>

theorem peer_link_order:
  "let mk = snd (AddLAG ''po1'' False (New demo_config));
       m = zero_mlag\<lparr>ml_Enabled := True, ml_PeerLink := ''swp1''\<rparr>;
       s1 = snd (SetMLAG m mk);
       s2 = snd (SetLAGMembers ''po1'' [''swp1''] mk)
   in \<not> isl (fst (SetMLAG m mk)) \<and> \<not> isl (fst (SetLAGMembers ''po1'' [''swp1''] s1)) \<and>
      \<not> isl (fst (SetLAGMembers ''po1'' [''swp1''] mk)) \<and> isl (fst (SetMLAG m s2))"
  by code_simp

end
