(* ===== verification/Conformance.thy ===== *)
theory Conformance
  imports Mem_Calls
begin

text \<open>
  The contract's conformance suite, \<^verbatim>\<open>internal/switchapi/conformance.go\<close>: the program that tells whether a datapath
  does what it says. A datapath is whatever answers the calls of the contract, with errors of any kind of which some
  are known to wrap \<^verbatim>\<open>ErrUnsupported\<close>; a check makes calls, looks at the answers and reports problems. A
  problem is named by the format of its message, the values in it left out except the error.
\<close>

section \<open>Checks\<close>

datatype 'e problem = Problem string "'e option"

type_synonym ('s, 'e) suite = "'s \<Rightarrow> 'e problem list \<times> 's"

record ('s, 'e) tested =
  sw :: "call \<Rightarrow> 's \<Rightarrow> ('e + reply) \<times> 's"
  capabilities :: "'s \<Rightarrow> Capabilities \<times> 's"
  unsupported :: "'e \<Rightarrow> bool"

definition fine :: "('s, 'e) suite" where
  "fine s = ([], s)"

definition report :: "'e problem list \<Rightarrow> ('s, 'e) suite" where
  "report ps s = (ps, s)"

abbreviation bad :: "string \<Rightarrow> ('s, 'e) suite" where
  "bad t \<equiv> report [Problem t None]"

abbreviation bad_err :: "string \<Rightarrow> 'e \<Rightarrow> ('s, 'e) suite" where
  "bad_err t e \<equiv> report [Problem t (Some e)]"

definition also_check :: "('s, 'e) suite \<Rightarrow> ('s, 'e) suite \<Rightarrow> ('s, 'e) suite" where
  "also_check f g s = (case f s of (ps, s1) \<Rightarrow> (case g s1 of (qs, s2) \<Rightarrow> (ps @ qs, s2)))"

fun checks :: "('s, 'e) suite list \<Rightarrow> ('s, 'e) suite" where
  "checks [] = fine"
| "checks (f # fs) = also_check f (checks fs)"

definition ask :: "('s, 'e) tested \<Rightarrow> call \<Rightarrow> ('e + reply \<Rightarrow> ('s, 'e) suite) \<Rightarrow> ('s, 'e) suite" where
  "ask d c k s = (case sw d c s of (r, s1) \<Rightarrow> k r s1)"

text \<open>A call whose answer is not looked at, and a deferred one.\<close>

definition just :: "('s, 'e) tested \<Rightarrow> call \<Rightarrow> ('s, 'e) suite" where
  "just d c = ask d c (\<lambda>_. fine)"

definition deferring :: "('s, 'e) tested \<Rightarrow> call list \<Rightarrow> ('s, 'e) suite \<Rightarrow> ('s, 'e) suite" where
  "deferring d cs f = also_check f (checks (map (just d) cs))"

text \<open>The patterns of the suite: a call that has to succeed, and one that has to be refused, with what is done
  when it was not.\<close>

definition must :: "('s, 'e) tested \<Rightarrow> call \<Rightarrow> string \<Rightarrow> ('s, 'e) suite \<Rightarrow> ('s, 'e) suite" where
  "must d c t k = ask d c (\<lambda>r. case r of Inl e \<Rightarrow> bad_err t e | Inr _ \<Rightarrow> k)"

definition must_refuse :: "('s, 'e) tested \<Rightarrow> call \<Rightarrow> string \<Rightarrow> call list \<Rightarrow> ('s, 'e) suite" where
  "must_refuse d c t undo = ask d c (\<lambda>r. case r of Inl _ \<Rightarrow> fine | Inr _ \<Rightarrow> checks (bad t # map (just d) undo))"

definition whenever :: "bool \<Rightarrow> ('s, 'e) suite \<Rightarrow> ('s, 'e) suite" where
  "whenever b f = (if b then f else fine)"

section \<open>Capabilities and behaviour\<close>

definition wantSupport :: "('e \<Rightarrow> bool) \<Rightarrow> bool \<Rightarrow> 'e option \<Rightarrow> string \<Rightarrow> 'e problem list" where
  "wantSupport uns declared err op =
     (case err of
        Some e \<Rightarrow>
          (if declared \<and> uns e then [Problem (op @ '' returned ErrUnsupported although its capability is true'') None]
           else if declared then [Problem op (Some e)]
           else if \<not> uns e then [Problem (op @ '' failed with an error which does not wrap ErrUnsupported'') (Some e)]
           else [])
      | None \<Rightarrow>
          (if declared then []
           else [Problem (op @ '' succeeded although its capability is false: capabilities and behaviour must agree'') None]))"

definition err_of :: "'e + 'a \<Rightarrow> 'e option" where
  "err_of r = (case r of Inl e \<Rightarrow> Some e | Inr _ \<Rightarrow> None)"

text \<open>The call a capability is checked by; the rest is checked where it is declared and was honoured.\<close>

definition probe :: "('s, 'e) tested \<Rightarrow> bool \<Rightarrow> call \<Rightarrow> string \<Rightarrow> ('s, 'e) suite \<Rightarrow> ('s, 'e) suite" where
  "probe d declared c op k =
     ask d c (\<lambda>r. let ps = wantSupport (unsupported d) declared (err_of r) op
                  in if ps \<noteq> [] \<or> \<not> declared then report ps else k)"

text \<open>What an answer holds; an error holds the zero value.\<close>

fun vlans_in :: "'e + reply \<Rightarrow> VLAN list" where
  "vlans_in (Inr (VLANList l)) = l"
| "vlans_in _ = []"

fun lags_in :: "'e + reply \<Rightarrow> LAG list" where
  "lags_in (Inr (LAGList l)) = l"
| "lags_in _ = []"

fun acls_in :: "'e + reply \<Rightarrow> ACLEntry list" where
  "acls_in (Inr (ACLList l)) = l"
| "acls_in _ = []"

fun routes_in :: "'e + reply \<Rightarrow> Route list" where
  "routes_in (Inr (RouteList l)) = l"
| "routes_in _ = []"

fun gateways_in :: "'e + reply \<Rightarrow> VirtualGateway list" where
  "gateways_in (Inr (GatewayList l)) = l"
| "gateways_in _ = []"

fun ports_in :: "'e + reply \<Rightarrow> Port list" where
  "ports_in (Inr (PortList l)) = l"
| "ports_in _ = []"

fun admin_in :: "'e + reply \<Rightarrow> bool" where
  "admin_in (Inr (Status st)) = ps_AdminUp st"
| "admin_in _ = False"

fun seconds_in :: "'e + reply \<Rightarrow> int" where
  "seconds_in (Inr (Seconds n)) = n"
| "seconds_in _ = 0"

definition zero_stp_status :: STPStatus where
  "zero_stp_status =
     \<lparr>ss_Enabled = False, ss_Priority = 0, ss_BridgeID = [], ss_RootID = [], ss_RootCost = 0, ss_RootPort = [],
      ss_TopologyChanges = 0, ss_Ports = [], ss_HelloTime = 0, ss_ForwardDelay = 0, ss_MaxAge = 0,
      ss_RootHelloTime = 0, ss_RootForwardDelay = 0, ss_RootMaxAge = 0\<rparr>"

fun stp_in :: "'e + reply \<Rightarrow> STPStatus" where
  "stp_in (Inr (STPReport st)) = st"
| "stp_in _ = zero_stp_status"

definition zero_mlag_status :: MLAGStatus where
  "zero_mlag_status =
     \<lparr>ms_Enabled = False, ms_Role = [], ms_PeerLink = [], ms_PeerLinkUp = False, ms_PeerAlive = False,
      ms_Heartbeat = False, ms_Peer = [], ms_SystemID = [], ms_Interfaces = [], ms_SyncedMACs = 0, ms_PeerAddress = [],
      ms_Priority = 0, ms_HelloMs = 0, ms_DeadMs = 0, ms_SettleMs = 0, ms_HeartbeatPort = 0, ms_ReloadDelay = 0\<rparr>"

fun mlag_in :: "'e + reply \<Rightarrow> MLAGStatus" where
  "mlag_in (Inr (MLAGReport st)) = st"
| "mlag_in _ = zero_mlag_status"

section \<open>VLANs and routed interfaces\<close>

text \<open>The first listing of a port among the members of a VLAN.\<close>

definition member_of :: "VLAN list \<Rightarrow> int \<Rightarrow> string \<Rightarrow> VLANMember option" where
  "member_of vl vid p = find (\<lambda>m. vm_Port m = p) (concat (map vl_Members (filter (\<lambda>v. VID v = vid) vl)))"

definition vlan_member :: "('s, 'e) tested \<Rightarrow> int \<Rightarrow> string \<Rightarrow> (VLANMember option \<Rightarrow> ('s, 'e) suite) \<Rightarrow> ('s, 'e) suite" where
  "vlan_member d vid p k =
     ask d (Vlan DoVLANs) (\<lambda>r. case r of
       Inl e \<Rightarrow> also_check (bad_err ''VLANs: %v'' e) (k None)
     | Inr _ \<Rightarrow> k (member_of (vlans_in r) vid p))"

definition prefix4 :: "8 word \<Rightarrow> 8 word \<Rightarrow> 8 word \<Rightarrow> 8 word \<Rightarrow> int \<Rightarrow> Prefix" where
  "prefix4 a b c e n = \<lparr>pAddr = IP4 a b c e, pBits = n\<rparr>"

definition checkSVIs :: "('s, 'e) tested \<Rightarrow> Capabilities \<Rightarrow> ('s, 'e) suite" where
  "checkSVIs d cp = probe d (c_SVIs cp) (Vlan (DoAddSVI 200)) ''AddSVI''
     (let name = SVIName 200; addr = prefix4 10 99 200 1 24
      in checks
        [ask d (Vlan DoVLANs) (\<lambda>r. case r of
           Inl e \<Rightarrow> bad_err ''VLANs: %v'' e
         | Inr _ \<Rightarrow> whenever (\<not> list_ex (\<lambda>v. VID v = 200 \<and> vl_SVI v) (vlans_in r))
             (bad ''AddSVI(200) succeeded and VLANs does not report an SVI on 200'')),
         whenever (c_L3 cp)
           (must d (L3 (DoAddAddress name addr)) ''AddAddress(%s): %v''
             (must d (L3 (DoDelAddress name addr)) ''DelAddress(%s): %v'' fine)),
         must_refuse d (Vlan (DoDelVLAN 200)) ''DelVLAN(200) succeeded while %s existed; it must be refused'' [Vlan (DoAddVLAN 200)],
         must d (Vlan (DoDelSVI 200)) ''DelSVI: %v'' fine,
         must_refuse d (Vlan (DoAddSVI 4000)) ''AddSVI on a vlan that does not exist succeeded'' [Vlan (DoDelSVI 4000)]])"

definition checkVLANs :: "('s, 'e) tested \<Rightarrow> Capabilities \<Rightarrow> string \<Rightarrow> ('s, 'e) suite" where
  "checkVLANs d cp p0 = probe d (c_VLANs cp) (Vlan (DoAddVLAN 100)) ''AddVLAN''
     (deferring d [Vlan (DoDelVLAN 100)]
       (must d (Vlan (DoAddVLAN 200)) ''AddVLAN(200): %w''
         (deferring d [Vlan (DoDelVLAN 200)] (checks
           [must d (Vlan (DoSetPortVLAN p0 100 False)) ''SetPortVLAN(%s, 100, untagged): %v'' fine,
            must d (Vlan (DoSetPortVLAN p0 200 False)) ''SetPortVLAN(%s, 200, untagged): %v'' fine,
            vlan_member d 200 p0 (\<lambda>m. whenever (case m of None \<Rightarrow> True | Some x \<Rightarrow> vm_Tagged x)
              (bad ''%s was made an untagged member of 200 and VLANs does not list it so'')),
            vlan_member d 100 p0 (\<lambda>m. whenever (m \<noteq> None)
              (bad ''%s is still in vlan 100 after its native vlan moved to 200: a port has one native vlan'')),
            must d (Vlan (DoSetPortVLAN p0 100 True)) ''SetPortVLAN(%s, 100, tagged): %v'' fine,
            vlan_member d 100 p0 (\<lambda>m. whenever (case m of None \<Rightarrow> True | Some x \<Rightarrow> \<not> vm_Tagged x)
              (bad ''%s was made a tagged member of 100 and VLANs does not list it so'')),
            vlan_member d 200 p0 (\<lambda>m. whenever (m = None) (bad ''adding a tagged vlan removed the native vlan'')),
            must d (Vlan (DoDelPortVLAN p0 100)) ''DelPortVLAN: %v''
              (vlan_member d 100 p0 (\<lambda>m. whenever (m \<noteq> None) (bad ''%s was removed from vlan 100 and VLANs still lists it''))),
            must d (Vlan (DoDelPortVLAN p0 200)) ''DelPortVLAN: %v'' fine,
            checkSVIs d cp]))))"

section \<open>Link aggregation\<close>

definition lag_named :: "('s, 'e) tested \<Rightarrow> string \<Rightarrow> (LAG option \<Rightarrow> ('s, 'e) suite) \<Rightarrow> ('s, 'e) suite" where
  "lag_named d name k =
     ask d (Lag DoLAGs) (\<lambda>r. case r of
       Inl e \<Rightarrow> also_check (bad_err ''LAGs: %v'' e) (k None)
     | Inr _ \<Rightarrow> k (find (\<lambda>l. lg_Name l = name) (lags_in r)))"

definition lag_has :: "LAG \<Rightarrow> string \<Rightarrow> bool" where
  "lag_has l p = list_ex (\<lambda>m. lm_Port m = p) (lg_Members l)"

definition slow_options :: LAGOptions where
  "slow_options = \<lparr>Rate = ''slow'', Passive = True, PortPriority = 100\<rparr>"

definition checkLACP :: "('s, 'e) tested \<Rightarrow> ('s, 'e) suite" where
  "checkLACP d = checks
     [must_refuse d (Lag (DoSetLAGOptions ''po1'' \<lparr>Rate = ''medium'', Passive = False, PortPriority = 0\<rparr>)) ''SetLAGOptions accepted rate %q'' [],
      must_refuse d (Lag (DoSetLACPSystemPriority 70000)) ''SetLACPSystemPriority accepted 70000'' [],
      just d (Lag (DoAddLAG ''po1'' True)),
      must d (Lag (DoSetLAGOptions ''po1'' slow_options)) ''SetLAGOptions(po1, slow passive 100): %v''
        (must d (Lag (DoSetLACPSystemPriority 200)) ''SetLACPSystemPriority(200): %v''
          (lag_named d ''po1'' (\<lambda>l. whenever (case l of None \<Rightarrow> False | Some x \<Rightarrow> lg_Options x \<noteq> slow_options \<or> lg_SystemPriority x \<noteq> 200)
            (bad ''po1 reads back options %+v system priority %d, set slow passive 100 and 200'')))),
      just d (Lag (DoSetLAGOptions ''po1'' zero_lag_options)),
      just d (Lag (DoSetLACPSystemPriority 0)),
      lag_named d ''po1'' (\<lambda>l. whenever (case l of None \<Rightarrow> False | Some x \<Rightarrow>
          Rate (lg_Options x) \<noteq> ''fast'' \<or> PortPriority (lg_Options x) \<noteq> LACPDefaultPriority \<or> lg_SystemPriority x \<noteq> LACPDefaultPriority)
        (bad ''po1 with its options cleared reads back %+v system priority %d, not the defaults'')),
      just d (Lag (DoAddLAG ''po1'' False))]"

definition checkLAGVLAN :: "('s, 'e) tested \<Rightarrow> string \<Rightarrow> ('s, 'e) suite" where
  "checkLAGVLAN d p0 =
     ask d (Vlan (DoAddVLAN 300)) (\<lambda>r. case r of
       Inl _ \<Rightarrow> fine
     | Inr _ \<Rightarrow> checks
         [must_refuse d (Vlan (DoSetPortVLAN p0 300 False)) ''%s is a member of po1 and still took a VLAN of its own'' [Vlan (DoDelPortVLAN p0 300)],
          must d (Vlan (DoSetPortVLAN ''po1'' 300 False)) ''SetPortVLAN(po1): a LAG must take a VLAN like a port: %v''
            (ask d (Vlan DoVLANs) (\<lambda>r. case r of
               Inl _ \<Rightarrow> fine
             | Inr _ \<Rightarrow> checks
                 [whenever (\<not> list_ex (\<lambda>v. list_ex (\<lambda>m. VID v = 300 \<and> vm_Port m = ''po1'') (vl_Members v)) (vlans_in r))
                    (bad ''po1 was put in vlan 300 and VLANs does not list it''),
                  just d (Vlan (DoDelPortVLAN ''po1'' 300))])),
          just d (Vlan (DoDelVLAN 300))])"

definition checkLAGs :: "('s, 'e) tested \<Rightarrow> Capabilities \<Rightarrow> string \<Rightarrow> string \<Rightarrow> ('s, 'e) suite" where
  "checkLAGs d cp p0 p1 = probe d (c_LAGs cp) (Lag (DoAddLAG ''po1'' False)) ''AddLAG''
     (deferring d [Lag (DoDelLAG ''po1'')] (checks
       [must_refuse d (Lag (DoAddLAG ''bogus'' False)) ''AddLAG accepted %q, which is not a po<N> name'' [Lag (DoDelLAG ''bogus'')],
        whenever (c_LACP cp) (checkLACP d),
        must d (Lag (DoSetLAGMembers ''po1'' [p0, p1])) ''SetLAGMembers(po1, %s %s): %w'' (checks
          [lag_named d ''po1'' (\<lambda>l. whenever (case l of None \<Rightarrow> True | Some x \<Rightarrow> \<not> lag_has x p0 \<or> \<not> lag_has x p1)
             (bad ''po1 was given %s and %s and LAGs does not list both'')),
           whenever (c_VLANs cp) (checkLAGVLAN d p0),
           whenever (c_L3 cp)
             (must d (L3 (DoAddAddress ''po1'' (prefix4 10 99 1 1 24))) ''AddAddress(po1): a LAG must take an address like a port: %v''
               (just d (L3 (DoDelAddress ''po1'' (prefix4 10 99 1 1 24))))),
           must d (Lag (DoSetLAGMembers ''po1'' [p1])) ''SetLAGMembers(po1, %s): %v''
             (lag_named d ''po1'' (\<lambda>l. whenever (case l of None \<Rightarrow> True | Some x \<Rightarrow> lag_has x p0 \<or> \<not> lag_has x p1)
               (bad ''po1 was restated as just %s and LAGs does not show exactly that''))),
           whenever (c_LACP cp)
             (must d (Lag (DoAddLAG ''po1'' True)) ''AddLAG(po1, lacp): %v''
               (lag_named d ''po1'' (\<lambda>l. case l of
                  None \<Rightarrow> bad ''po1 was made LACP and LAGs does not say so''
                | Some x \<Rightarrow>
                    (if \<not> lg_LACP x then bad ''po1 was made LACP and LAGs does not say so''
                     else whenever (\<not> lag_has x p1) (bad ''changing po1's mode lost its members''))))),
           must d (Lag (DoDelLAG ''po1'')) ''DelLAG: %v''
             (lag_named d ''po1'' (\<lambda>l. whenever (l \<noteq> None) (bad ''po1 was deleted and LAGs still lists it'')))])]))"

section \<open>Routing\<close>

definition hasRoute :: "Route list \<Rightarrow> Prefix \<Rightarrow> bool" where
  "hasRoute rs p = list_ex (\<lambda>r. rt_Prefix r = p) rs"

definition single_route :: "string \<Rightarrow> Route" where
  "single_route p0 = \<lparr>rt_Prefix = prefix4 10 100 0 0 24, NextHops = [\<lparr>Via = IP4 10 99 0 2, nh_Port = p0\<rparr>]\<rparr>"

definition multi_route :: "string \<Rightarrow> Route" where
  "multi_route p0 =
     \<lparr>rt_Prefix = prefix4 10 101 0 0 24,
      NextHops = [\<lparr>Via = IP4 10 99 0 2, nh_Port = p0\<rparr>, \<lparr>Via = IP4 10 99 0 3, nh_Port = p0\<rparr>]\<rparr>"

definition checkL3 :: "('s, 'e) tested \<Rightarrow> Capabilities \<Rightarrow> string \<Rightarrow> ('s, 'e) suite" where
  "checkL3 d cp p0 =
     (let addr = prefix4 10 99 0 1 24
      in probe d (c_L3 cp) (L3 (DoAddAddress p0 addr)) ''AddAddress''
        (deferring d [L3 (DoDelAddress p0 addr)] (checks
          [must d (L3 (DoAddRoute (single_route p0))) ''AddRoute with a single next-hop: %v'' (checks
             [ask d (L3 DoRoutes) (\<lambda>r. case r of
                Inl e \<Rightarrow> bad_err ''Routes: %v'' e
              | Inr _ \<Rightarrow> whenever (\<not> hasRoute (routes_in r) (rt_Prefix (single_route p0))) (bad ''route %s was added but is not listed'')),
              must d (L3 (DoDelRoute (rt_Prefix (single_route p0)))) ''DelRoute: %v'' fine]),
           ask d (L3 (DoAddRoute (multi_route p0))) (\<lambda>r.
             if SupportsECMP cp 2 then
               (case r of
                  Inl e \<Rightarrow> bad_err ''Capabilities claims ECMP, but a two-path route failed: %v'' e
                | Inr _ \<Rightarrow> just d (L3 (DoDelRoute (rt_Prefix (multi_route p0)))))
             else report (wantSupport (unsupported d) False (err_of r) ''AddRoute with two next-hops''))])))"

section \<open>Access lists\<close>

definition findACL :: "ACLEntry list \<Rightarrow> int \<Rightarrow> ACLEntry option" where
  "findACL es q = find (\<lambda>e. ae_Seq e = q) es"

definition hasACL :: "ACLEntry list \<Rightarrow> int \<Rightarrow> bool" where
  "hasACL es q \<longleftrightarrow> findACL es q \<noteq> None"

text \<open>A rule of the suite: its text parses for every port name that is one word.\<close>

definition rule_of :: "int \<Rightarrow> string \<Rightarrow> ACLRule" where
  "rule_of q t = (case ParseACLRule q t of Inl _ \<Rightarrow> blank_rule q | Inr r \<Rightarrow> r)"

definition checkACLEntry :: "ACLRule \<Rightarrow> ACLEntry option \<Rightarrow> ('s, 'e) suite" where
  "checkACLEntry v4 e =
     (case e of
        None \<Rightarrow> bad ''rule 10 was set but is not listed''
      | Some x \<Rightarrow> checks
          [whenever (\<not> ae_Installed x) (bad ''rule 10 was accepted but is listed as not installed: %s''),
           whenever (ae_Parsed x \<and> ACLRule_String (ae_Rule x) \<noteq> ACLRule_String v4) (bad ''rule 10 came back as %q, was set as %q'')])"

definition checkACLReplaced :: "ACLEntry list \<Rightarrow> ('s, 'e) suite" where
  "checkACLReplaced es =
     (let tens = filter (\<lambda>e. ae_Seq e = 10) es
      in checks
        (map (\<lambda>e. whenever (ae_Parsed e \<and> Action (ae_Rule e) \<noteq> ACLPermit) (bad ''rule 10 was replaced but still reads as the old rule'')) tens @
         [whenever (length tens \<noteq> 1) (bad ''setting sequence 10 twice left %d rules with that sequence'')]))"

definition noL4 :: ACLRule where
  "noL4 =
     \<lparr>Seq = 12, Family = 4, Action = ACLDeny, InPort = [], Proto = ACLAny, Src = zero_prefix, Dst = zero_prefix,
      SrcPort = ACLAny, DstPort = 22\<rparr>"

definition checkACLs :: "('s, 'e) tested \<Rightarrow> Capabilities \<Rightarrow> string \<Rightarrow> ('s, 'e) suite" where
  "checkACLs d cp p0 =
     (let v4 = rule_of 10 (''deny in '' @ p0 @ '' proto icmp src 192.0.2.0/24'');
          again = rule_of 10 (''permit in '' @ p0 @ '' proto icmp src 192.0.2.0/24'');
          noPort = rule_of 11 ''deny in swp-nonexistent proto icmp'';
          v6 = rule_of 13 (''deny in '' @ p0 @ '' ipv6 proto icmpv6 src 2001:db8::/32'')
      in probe d (c_ACL cp) (L3 (DoSetACL v4)) ''SetACL''
        (deferring d [L3 (DoDelACL 10)] (checks
          [ask d (L3 DoACLs) (\<lambda>r. case r of Inl e \<Rightarrow> bad_err ''ACLs: %v'' e | Inr _ \<Rightarrow> checkACLEntry v4 (findACL (acls_in r) 10)),
           must d (L3 (DoSetACL again)) ''SetACL replacing a rule: %v''
             (ask d (L3 DoACLs) (\<lambda>r. case r of Inl _ \<Rightarrow> fine | Inr _ \<Rightarrow> checkACLReplaced (acls_in r))),
           ask d (L3 (DoSetACL noPort)) (\<lambda>r. case r of
             Inr _ \<Rightarrow> checks [bad ''SetACL accepted a rule on a port the switch does not have'', just d (L3 (DoDelACL 11))]
           | Inl e \<Rightarrow> whenever (unsupported d e)
               (bad ''SetACL refused an unknown port with ErrUnsupported; that is a bad rule, not a missing capability'')),
           must_refuse d (L3 (DoSetACL noL4)) ''SetACL accepted an L4 port match without TCP or UDP'' [L3 (DoDelACL 12)],
           must d (L3 (DoDelACL 10)) ''DelACL: %v''
             (ask d (L3 DoACLs) (\<lambda>r. whenever (hasACL (acls_in r) 10) (bad ''rule 10 was deleted but is still listed''))),
           must_refuse d (L3 (DoDelACL 10)) ''DelACL of a rule that does not exist succeeded'' [],
           ask d (L3 (DoSetACL v6)) (\<lambda>r. checks
             [report (wantSupport (unsupported d) (c_ACL6 cp) (err_of r) ''SetACL with an IPv6 rule''),
              (case r of
                 Inl _ \<Rightarrow> fine
               | Inr _ \<Rightarrow> checks
                   [ask d (L3 DoACLs) (\<lambda>r. whenever (\<not> hasACL (acls_in r) 13) (bad ''IPv6 rule 13 was set but is not listed'')),
                    just d (L3 (DoDelACL 13))])])])))"

section \<open>Spanning tree\<close>

definition stp_config :: "bool \<Rightarrow> int \<Rightarrow> STPConfig" where
  "stp_config on pri = zero_stp\<lparr>stp_Enabled := on, stp_Priority := pri\<rparr>"

definition checkSTPPort :: "STPPort \<Rightarrow> ('s, 'e) suite" where
  "checkSTPPort p = checks
     [whenever (spt_Cost p \<noteq> 1234) (bad ''%s reports path cost %d, configured 1234''),
      whenever (spt_Priority p \<noteq> 64) (bad ''%s reports port priority %d, configured 64''),
      whenever (\<not> spt_BPDUGuard p \<or> \<not> spt_RootGuard p) (bad ''%s reports bpdu-guard %v, root-guard %v, configured both''),
      whenever (spt_Guard p \<noteq> []) (bad ''%s is held by %s with no neighbour to trip it''),
      whenever (spt_Role p \<notin> {''root'', ''designated'', ''alternate'', ''backup'', ''disabled''}) (bad ''%s has role %q''),
      whenever (spt_State p \<notin> {''discarding'', ''learning'', ''forwarding''}) (bad ''%s has state %q'')]"

text \<open>The tree with the port in it, from the report on.\<close>

definition checkSTPOn :: "('s, 'e) tested \<Rightarrow> Capabilities \<Rightarrow> string \<Rightarrow> ('s, 'e) suite" where
  "checkSTPOn d cp p0 =
     ask d (Stp DoSTP) (\<lambda>r. case r of
       Inl e \<Rightarrow> bad_err ''STP: %w'' e
     | Inr _ \<Rightarrow>
         (let st = stp_in r
          in checks
            [whenever (\<not> ss_Enabled st \<or> ss_Priority st \<noteq> 4096) (bad ''STP reports enabled=%v priority=%d after SetSTP(on, 4096)''),
             whenever (take 5 (ss_BridgeID st) \<noteq> ''1000.'') (bad ''bridge ID %q does not carry priority 4096 as 1000.<mac>''),
             whenever ((ss_RootPort st = []) \<noteq> (ss_RootID st = ss_BridgeID st))
               (bad ''root port %q and root %s disagree about whether this bridge (%s) is the root''),
             whenever (c_VLANs cp)
               (let here = filter (\<lambda>p. spt_Port p = p0) (ss_Ports st)
                in checks (map checkSTPPort here @ [whenever (here = []) (bad ''%s is in VLAN 301 but not in the spanning tree'')])),
             must d (Stp (DoSetSTP (stp_config False STPDefaultPriority))) ''SetSTP(off): %v''
               (ask d (Stp DoSTP) (\<lambda>r. case r of
                  Inl _ \<Rightarrow> fine
                | Inr _ \<Rightarrow> checks
                    (whenever (ss_Enabled (stp_in r)) (bad ''STP still enabled after SetSTP(off)'') #
                     map (\<lambda>p. whenever (spt_State p \<noteq> ''forwarding'') (bad ''spanning tree is off but %s is %s'')) (ss_Ports (stp_in r)))))]))"

definition checkSTP :: "('s, 'e) tested \<Rightarrow> Capabilities \<Rightarrow> string \<Rightarrow> ('s, 'e) suite" where
  "checkSTP d cp p0 = probe d (c_STP cp) (Stp (DoSetSTP (stp_config False STPDefaultPriority))) ''SetSTP''
     (deferring d [Stp (DoSetSTP (stp_config False STPDefaultPriority)), Stp (DoSetSTPPort p0 zero_stp_port)] (checks
       [must_refuse d (Stp (DoSetSTP (stp_config True 1000))) ''SetSTP accepted priority 1000, which is not a multiple of 4096'' [],
        must_refuse d (Stp (DoSetSTP ((stp_config True 4096)\<lparr>stp_HelloTime := 10, stp_MaxAge := 6\<rparr>)))
          ''SetSTP accepted hello 10 with max-age 6, which 802.1D forbids'' [],
        must_refuse d (Stp (DoSetSTPPort p0 (zero_stp_port\<lparr>sp_Priority := 100\<rparr>))) ''SetSTPPort accepted port priority 100, which is not a multiple of 16'' [],
        must d (Stp (DoSetSTP ((stp_config False 4096)\<lparr>stp_HelloTime := 1, stp_ForwardDelay := 4, stp_MaxAge := 6\<rparr>)))
          ''SetSTP(hello 1, forward-delay 4, max-age 6): %v''
          (ask d (Stp DoSTP) (\<lambda>r. case r of
             Inl _ \<Rightarrow> fine
           | Inr _ \<Rightarrow> whenever (ss_HelloTime (stp_in r) \<noteq> 1 \<or> ss_ForwardDelay (stp_in r) \<noteq> 4 \<or> ss_MaxAge (stp_in r) \<noteq> 6)
               (bad ''STP reads back times %d/%d/%d, set 1/4/6''))),
        must_refuse d (Stp (DoSetSTPPort ''swp-nonexistent'' zero_stp_port)) ''SetSTPPort on an unknown port succeeded'' [],
        must_refuse d (Stp (DoSetSTPPort p0 (zero_stp_port\<lparr>sp_Cost := -1\<rparr>))) ''SetSTPPort accepted cost -1'' [],
        must d (Stp (DoSetSTPPort p0 (zero_stp_port\<lparr>sp_Cost := 1234, sp_Priority := 64, sp_BPDUGuard := True, sp_RootGuard := True\<rparr>)))
          ''SetSTPPort(%s, cost 1234, priority 64, both guards): %v'' fine,
        must d (Stp (DoSetSTP (stp_config True 4096))) ''SetSTP(on, 4096): %w''
          (if c_VLANs cp then
             ask d (Vlan (DoAddVLAN 301)) (\<lambda>r. case r of
               Inl _ \<Rightarrow> checkSTPOn d cp p0
             | Inr _ \<Rightarrow> deferring d [Vlan (DoDelVLAN 301)]
                 (ask d (Vlan (DoSetPortVLAN p0 301 True)) (\<lambda>r. case r of
                    Inl e \<Rightarrow> also_check (bad_err ''SetPortVLAN(%s, 301): %v'' e) (checkSTPOn d cp p0)
                  | Inr _ \<Rightarrow> deferring d [Vlan (DoDelPortVLAN p0 301)] (checkSTPOn d cp p0))))
           else checkSTPOn d cp p0)]))"

section \<open>Link aggregation across two switches\<close>

definition peer_config :: "string \<Rightarrow> MLAGConfig" where
  "peer_config p = zero_mlag\<lparr>ml_Enabled := True, ml_PeerLink := p\<rparr>"

definition full_peer :: "string \<Rightarrow> MLAGConfig" where
  "full_peer p0 = (peer_config p0)\<lparr>ml_PeerAddress := ''192.0.2.2'', ml_Priority := 100, ml_HelloMs := 500, ml_DeadMs := 2000,
     ml_SettleMs := 3000, ml_HeartbeatPort := 47200, ml_ReloadDelay := 30\<rparr>"

definition checkMLAGConfig :: "('s, 'e) tested \<Rightarrow> string \<Rightarrow> ('s, 'e) suite" where
  "checkMLAGConfig d p0 =
     ask d (Stp DoMLAG) (\<lambda>r. case r of
       Inl e \<Rightarrow> bad_err ''MLAG: %v'' e
     | Inr _ \<Rightarrow>
         (let st = mlag_in r
          in if \<not> ms_Enabled st \<or> ms_PeerLink st \<noteq> p0 then bad ''MLAG reports enabled=%v peer-link %q after SetMLAG(on, %s)''
             else whenever (ms_HelloMs st \<noteq> 500 \<or> ms_DeadMs st \<noteq> 2000 \<or> ms_SettleMs st \<noteq> 3000 \<or> ms_HeartbeatPort st \<noteq> 47200 \<or>
                 ms_Priority st \<noteq> 100 \<or> ms_PeerAddress st \<noteq> ''192.0.2.2'' \<or> ms_ReloadDelay st \<noteq> 30)
               (bad ''MLAG reads back hello %d dead %d settle %d port %d priority %d peer %q reload-delay %d'')))"

definition checkMLAGInterface :: "('s, 'e) tested \<Rightarrow> ('s, 'e) suite" where
  "checkMLAGInterface d =
     ask d (Stp DoMLAG) (\<lambda>r. case r of
       Inl e \<Rightarrow> bad_err ''MLAG: %w'' e
     | Inr _ \<Rightarrow>
         (let st = mlag_in r; here = filter (\<lambda>i. mi_LAG i = ''po2'') (ms_Interfaces st)
          in checks
            (whenever (ms_Role st \<notin> {''primary'', ''secondary'', ''none''}) (bad ''MLAG role %q'') #
             map (\<lambda>i. checks
               [whenever (mi_ID i \<noteq> 5) (bad ''MLAG lists po2 with id %d, set 5''),
                whenever (mi_State i \<notin> {''active'', ''local'', ''peer'', ''down'', ''disabled''}) (bad ''MLAG interface po2 in state %q'')]) here @
             [whenever (here = []) (bad ''po2 has MLAG id 5 but MLAG does not list it''),
              must d (Stp (DoSetLAGMLAG ''po2'' 0)) ''SetLAGMLAG(po2, 0): %v''
                (ask d (Stp DoMLAG) (\<lambda>r. case r of
                   Inl _ \<Rightarrow> fine
                 | Inr _ \<Rightarrow> checks (map (\<lambda>i. whenever (mi_LAG i = ''po2'')
                     (bad ''po2 is still an MLAG interface after SetLAGMLAG(po2, 0)'')) (ms_Interfaces (mlag_in r)))))])))"

definition checkMLAG :: "('s, 'e) tested \<Rightarrow> Capabilities \<Rightarrow> string \<Rightarrow> string \<Rightarrow> ('s, 'e) suite" where
  "checkMLAG d cp p0 p1 = probe d (c_MLAG cp) (Stp (DoSetMLAG zero_mlag)) ''SetMLAG''
     (if \<not> c_LAGs cp then bad ''Capabilities.MLAG without Capabilities.LAGs: an MLAG interface is a LAG''
      else deferring d [Stp (DoSetMLAG zero_mlag), Lag (DoDelLAG ''po2''), Lag (DoDelLAG ''po3'')] (checks
        [must_refuse d (Stp (DoSetMLAG (peer_config ''swp-nonexistent''))) ''SetMLAG accepted a peer-link that does not exist'' [],
         must_refuse d (Stp (DoSetMLAG ((peer_config p0)\<lparr>ml_PeerAddress := ''bogus''\<rparr>))) ''SetMLAG accepted peer address %q'' [],
         must_refuse d (Stp (DoSetMLAG ((peer_config p0)\<lparr>ml_HelloMs := 1000, ml_DeadMs := 1500\<rparr>))) ''SetMLAG accepted a dead interval shorter than two hellos'' [],
         must_refuse d (Stp (DoSetMLAG ((peer_config p0)\<lparr>ml_ReloadDelay := 3601\<rparr>))) ''SetMLAG accepted a reload delay of 3601 s'' [],
         must d (Stp (DoSetMLAG (full_peer p0))) ''SetMLAG(peer-link %s): %w'' (checks
           [checkMLAGConfig d p0,
            must d (Lag (DoAddLAG ''po2'' False)) ''AddLAG(po2): %w'' (checks
              [must d (Lag (DoSetLAGMembers ''po2'' [p1])) ''SetLAGMembers(po2, %s): %v'' fine,
               must_refuse d (Stp (DoSetLAGMLAG ''po2'' (MLAGMaxID + 1))) ''SetLAGMLAG accepted id %d'' [],
               must d (Stp (DoSetLAGMLAG ''po2'' 5)) ''SetLAGMLAG(po2, 5): %w'' (checks
                 [ask d (Lag (DoAddLAG ''po3'' False)) (\<lambda>r. case r of
                    Inl _ \<Rightarrow> fine
                  | Inr _ \<Rightarrow> must_refuse d (Stp (DoSetLAGMLAG ''po3'' 5)) ''SetLAGMLAG gave po3 the id po2 already has'' []),
                  must_refuse d (Stp (DoSetMLAG (peer_config ''po2''))) ''SetMLAG made MLAG interface po2 the peer-link'' [],
                  ask d (Lag DoLAGs) (\<lambda>r. checks (map (\<lambda>l. whenever (lg_Name l = ''po2'' \<and> lg_MLAG l \<noteq> 5)
                    (bad ''po2 reports MLAG id %d, set 5'')) (lags_in r))),
                  checkMLAGInterface d])])])]))"

section \<open>Gateways, ages and tunnels\<close>

definition gateway4 :: Prefix where
  "gateway4 = prefix4 10 98 2 254 24"

definition gateway6 :: Prefix where
  "gateway6 = \<lparr>pAddr = IP6 0x2001 0xdb8 0x302 0 0 0 0 1 [], pBits = 64\<rparr>"

definition gateway_of :: "VirtualGateway list \<Rightarrow> Prefix \<Rightarrow> VirtualGateway option" where
  "gateway_of gs a = find (\<lambda>g. gw_SVI g = ''vlan302'' \<and> gw_Address g = a) gs"

definition has_gateway :: "('s, 'e) tested \<Rightarrow> (VirtualGateway option \<Rightarrow> ('s, 'e) suite) \<Rightarrow> ('s, 'e) suite" where
  "has_gateway d k =
     ask d (Gateway DoVirtualGateways) (\<lambda>r. case r of
       Inl e \<Rightarrow> also_check (bad_err ''VirtualGateways: %v'' e) (k None)
     | Inr _ \<Rightarrow> k (gateway_of (gateways_in r) gateway4))"

definition checkGateway6 :: "('s, 'e) tested \<Rightarrow> Capabilities \<Rightarrow> ('s, 'e) suite" where
  "checkGateway6 d cp =
     ask d (Gateway (DoAddVirtualGateway ''vlan302'' gateway6)) (\<lambda>r. case r of
       Inl e \<Rightarrow> whenever (c_VirtualGateway6 cp) (bad_err ''AddVirtualGateway(vlan302, %s): %v'' e)
     | Inr _ \<Rightarrow>
         (if \<not> c_VirtualGateway6 cp then bad ''AddVirtualGateway accepted an IPv6 address without Capabilities.VirtualGateway6''
          else checks
            [ask d (Gateway DoVirtualGateways) (\<lambda>r. whenever (gateway_of (gateways_in r) gateway6 = None)
               (bad ''vlan302 %s was added but VirtualGateways does not list it'')),
             must d (Gateway (DoDelVirtualGateway ''vlan302'' gateway6)) ''DelVirtualGateway(vlan302, %s): %v'' fine]))"

definition checkGateway :: "('s, 'e) tested \<Rightarrow> Capabilities \<Rightarrow> ('s, 'e) suite" where
  "checkGateway d cp = probe d (c_VirtualGateway cp) (Gateway (DoSetVirtualMAC DefaultVirtualMAC)) ''SetVirtualMAC'' (checks
     [must_refuse d (Gateway (DoSetVirtualMAC ''01:00:5e:00:00:01'')) ''SetVirtualMAC accepted a multicast MAC'' [],
      whenever (c_VLANs cp \<and> c_SVIs cp) (checks
        [must_refuse d (Gateway (DoAddVirtualGateway ''vlan302'' gateway4)) ''AddVirtualGateway accepted vlan302 before it was an SVI'' [],
         must d (Vlan (DoAddVLAN 302)) ''AddVLAN(302): %w'' (deferring d [Vlan (DoDelVLAN 302)]
           (must d (Vlan (DoAddSVI 302)) ''AddSVI(302): %w'' (deferring d [Vlan (DoDelSVI 302)] (checks
             [checkGateway6 d cp,
              must_refuse d (Gateway (DoAddVirtualGateway ''vlan302'' \<lparr>pAddr = IP6 0xfe80 0 0 0 0 0 0 1 [], pBits = 64\<rparr>))
                ''AddVirtualGateway accepted a link-local address'' [],
              must d (Gateway (DoAddVirtualGateway ''vlan302'' gateway4)) ''AddVirtualGateway(vlan302, %s): %w'' (checks
                [has_gateway d (\<lambda>g. case g of
                   None \<Rightarrow> bad ''vlan302 %s was added but VirtualGateways does not list it''
                 | Some x \<Rightarrow> whenever (gw_MAC x \<noteq> DefaultVirtualMAC) (bad ''the gateway reports MAC %q, set %s'')),
                 must d (Gateway (DoDelVirtualGateway ''vlan302'' gateway4)) ''DelVirtualGateway: %v''
                   (has_gateway d (\<lambda>g. whenever (g \<noteq> None) (bad ''vlan302 %s is still listed after DelVirtualGateway''))),
                 ask d (Gateway (DoAddVirtualGateway ''vlan302'' gateway4)) (\<lambda>r. case r of
                   Inl _ \<Rightarrow> fine
                 | Inr _ \<Rightarrow> must d (Vlan (DoDelSVI 302)) ''DelSVI(302): %v''
                     (has_gateway d (\<lambda>g. whenever (g \<noteq> None) (bad ''vlan302's gateway outlived vlan302''))))])]))))])])"

definition checkMACAging :: "('s, 'e) tested \<Rightarrow> Capabilities \<Rightarrow> ('s, 'e) suite" where
  "checkMACAging d cp = probe d (c_MACAging cp) (Gateway (DoSetMACAging DefaultMACAging)) ''SetMACAging''
     (deferring d [Gateway (DoSetMACAging DefaultMACAging)] (checks
       (map (\<lambda>n. must d (Gateway (DoSetMACAging n)) ''SetMACAging(%d): %v''
          (ask d (Gateway DoMACAging) (\<lambda>r. whenever (err_of r \<noteq> None \<or> seconds_in r \<noteq> n) (bad ''MACAging reads back %d (%v), set %d''))))
        [120, 0] @
        [must_refuse d (Gateway (DoSetMACAging 5)) ''SetMACAging accepted 5 s, below 802.1D's 10'' []])))"

definition checkQinQ :: "('s, 'e) tested \<Rightarrow> Capabilities \<Rightarrow> string \<Rightarrow> string \<Rightarrow> ('s, 'e) suite" where
  "checkQinQ d cp p0 p1 = whenever (c_VLANs cp)
     (must d (Vlan (DoAddVLAN 303)) ''AddVLAN(303): %w'' (deferring d [Vlan (DoDelVLAN 303)]
       (probe d (c_QinQ cp) (Vlan (DoSetPortTunnel p0 303)) ''SetPortTunnel'' (deferring d [Vlan (DoDelPortVLAN p0 303)]
         (must d (Vlan (DoSetPortVLAN p1 303 True)) ''SetPortVLAN(%s, 303, tagged): %w'' (deferring d [Vlan (DoDelPortVLAN p1 303)]
           (also_check (must d (Vlan (DoSetPortTPID p1 0x88a8)) ''SetPortTPID(%s, 0x88a8): %v'' fine)
             (deferring d [Vlan (DoSetPortTPID p1 0)] (checks
               [must_refuse d (Vlan (DoSetPortTPID p1 0x1234)) ''SetPortTPID accepted 0x1234'' [],
                vlan_member d 303 p0 (\<lambda>m. whenever (case m of None \<Rightarrow> True | Some x \<Rightarrow> \<not> vm_Tunnel x \<or> vm_Tagged x)
                  (bad ''%s is not reported as a tunnel port of vlan 303: %+v'')),
                vlan_member d 303 p1 (\<lambda>m. whenever (case m of None \<Rightarrow> True | Some x \<Rightarrow> vm_TPID x \<noteq> 0x88a8)
                  (bad ''%s reports tpid 0x%04x, set 0x88a8'')),
                must d (Vlan (DoDelPortVLAN p0 303)) ''DelPortVLAN(%s, 303): %v''
                  (vlan_member d 303 p0 (\<lambda>m. whenever (m \<noteq> None) (bad ''%s is still in vlan 303 after DelPortVLAN'')))])))))))))"

section \<open>The whole suite\<close>

definition checkAdmin :: "('s, 'e) tested \<Rightarrow> string \<Rightarrow> ('s, 'e) suite" where
  "checkAdmin d p0 = checks
     [must d (Port (DoSetPortAdmin p0 True)) ''SetPortAdmin(up): %v''
        (ask d (Port (DoPortStatus p0)) (\<lambda>r. case r of
           Inl e \<Rightarrow> bad_err ''PortStatus: %v'' e
         | Inr _ \<Rightarrow> whenever (\<not> admin_in r) (bad ''%s was set admin-up but does not report it''))),
      ask d (Port (DoSetPortAdmin p0 False)) (\<lambda>r. case r of
        Inl _ \<Rightarrow> fine
      | Inr _ \<Rightarrow> ask d (Port (DoPortStatus p0)) (\<lambda>r. whenever (admin_in r) (bad ''%s was set admin-down but still reports admin-up''))),
      just d (Port (DoSetPortAdmin p0 True)),
      must_refuse d (Port (DoPortStatus ''swp-nonexistent''))
        ''PortStatus on an unknown port succeeded; it must fail rather than return a zero value'' []]"

definition port_checks :: "('s, 'e) tested \<Rightarrow> Capabilities \<Rightarrow> nat \<Rightarrow> string \<Rightarrow> string \<Rightarrow> ('s, 'e) suite list" where
  "port_checks d cp n p0 p1 =
     [whenever (c_MaxPorts cp > 0 \<and> int n > c_MaxPorts cp) (bad ''Ports returned %d ports, more than the declared maximum of %d''),
      checkAdmin d p0,
      checkVLANs d cp p0,
      whenever (n \<ge> 2) (checks [checkLAGs d cp p0 p1, checkMLAG d cp p0 p1]),
      checkSTP d cp p0,
      checkMACAging d cp,
      whenever (n > 1) (checkQinQ d cp p0 p1),
      checkGateway d cp,
      checkL3 d cp p0,
      checkACLs d cp p0,
      ask d (Port (DoPortCounters p0)) (\<lambda>r. report (wantSupport (unsupported d) (c_Counters cp) (err_of r) ''PortCounters'')),
      ask d (Gateway DoFDB) (\<lambda>r. report (wantSupport (unsupported d) (c_L2Learning cp) (err_of r) ''FDB''))]"

definition check_ports :: "('s, 'e) tested \<Rightarrow> Capabilities \<Rightarrow> Port list \<Rightarrow> ('s, 'e) suite" where
  "check_ports d cp ps = checks (port_checks d cp (length ps) (pt_Name (ps ! 0)) (pt_Name (ps ! 1)))"

definition Check :: "('s, 'e) tested \<Rightarrow> ('s, 'e) suite" where
  "Check d s =
     (case capabilities d s of
        (cp, s1) \<Rightarrow>
          checks
            [whenever (c_Driver cp = []) (bad ''Capabilities().Driver is empty: an implementation must name itself''),
             whenever (c_Contract cp = []) (bad ''Capabilities().Contract is empty: an implementation must say which contract version it targets''),
             must d (Port DoStart) ''Start: %w'' (deferring d [Port DoClose]
               (ask d (Port DoPorts) (\<lambda>r. case r of
                  Inl e \<Rightarrow> bad_err ''Ports: %w'' e
                | Inr _ \<Rightarrow>
                    (if ports_in r = [] then bad ''Ports returned nothing: a datapath with no ports cannot be configured''
                     else check_ports d cp (ports_in r)))))] s1)"

section \<open>What a clean report shows\<close>

text \<open>A capability and the answer to the call it is about.\<close>

definition agrees :: "('e \<Rightarrow> bool) \<Rightarrow> bool \<Rightarrow> 'e + reply \<Rightarrow> bool" where
  "agrees uns declared r \<longleftrightarrow> (case r of Inl e \<Rightarrow> \<not> declared \<and> uns e | Inr _ \<Rightarrow> declared)"

lemma wantSupport_clean: "wantSupport uns declared (err_of r) op = [] \<longleftrightarrow> agrees uns declared r"
  by (auto simp: wantSupport_def err_of_def agrees_def split: sum.split)

text \<open>A check only changes the datapath by calling it, and a clean one has seen an answer agree with a capability.\<close>

definition calling :: "('s, 'e) tested \<Rightarrow> ('s, 'e) suite \<Rightarrow> bool" where
  "calling d f \<longleftrightarrow> (\<forall>s. \<exists>cs. snd (f s) = run (sw d) cs s)"

definition seen :: "('s, 'e) tested \<Rightarrow> bool \<Rightarrow> call \<Rightarrow> ('s, 'e) suite \<Rightarrow> bool" where
  "seen d b c f \<longleftrightarrow> (\<forall>s. fst (f s) = [] \<longrightarrow> (\<exists>cs. agrees (unsupported d) b (fst (sw d c (run (sw d) cs s)))))"

lemma calling_basic [intro!]: "calling d fine" "calling d (report ps)"
  by (auto simp: calling_def fine_def report_def intro!: exI [of _ "[]"])

lemma calling_also [intro!]:
  assumes "calling d f" and "calling d g"
  shows "calling d (also_check f g)"
  unfolding calling_def
proof
  fix s
  obtain cs where cs: "snd (f s) = run (sw d) cs s" using assms(1) by (auto simp: calling_def)
  obtain ds where "snd (g (snd (f s))) = run (sw d) ds (snd (f s))" using assms(2) by (auto simp: calling_def)
  then have "snd (also_check f g s) = run (sw d) (cs @ ds) s" using cs by (simp add: also_check_def run_append case_prod_unfold)
  then show "\<exists>cs. snd (also_check f g s) = run (sw d) cs s" by blast
qed

lemma calling_ask [intro!]:
  assumes "\<And>r. calling d (k r)"
  shows "calling d (ask d c k)"
  unfolding calling_def
proof
  fix s
  obtain cs where "snd (k (fst (sw d c s)) (snd (sw d c s))) = run (sw d) cs (snd (sw d c s))" using assms by (auto simp: calling_def)
  then have "snd (ask d c k s) = run (sw d) (c # cs) s" by (simp add: ask_def case_prod_unfold)
  then show "\<exists>cs. snd (ask d c k s) = run (sw d) cs s" by blast
qed

lemma calling_checks: "(\<And>f. f \<in> set fs \<Longrightarrow> calling d f) \<Longrightarrow> calling d (checks fs)"
  by (induction fs) auto

lemma calling_patterns [intro!]:
  "calling d (just d c)" "calling d k \<Longrightarrow> calling d (must d c t k)" "calling d (must_refuse d c t cs)"
  "calling d f \<Longrightarrow> calling d (whenever b f)" "calling d f \<Longrightarrow> calling d (deferring d cs f)"
  "calling d k \<Longrightarrow> calling d (probe d b c t k)"
proof -
  show just: "calling d (just d c)" for c by (auto simp: just_def)
  show "calling d (must_refuse d c t cs)" by (auto simp: must_refuse_def just intro!: calling_checks split: sum.split)
  show "calling d f \<Longrightarrow> calling d (deferring d cs f)" by (auto simp: deferring_def just intro!: calling_checks)
qed (auto simp: must_def whenever_def probe_def Let_def split: sum.split)

lemma calling_members [intro!]:
  "(\<And>m. calling d (k m)) \<Longrightarrow> calling d (vlan_member d vid p k)"
  by (auto simp: vlan_member_def split: sum.split)

lemma calling_lags [intro!]: "(\<And>m. calling d (k m)) \<Longrightarrow> calling d (lag_named d n k)"
  by (auto simp: lag_named_def split: sum.split)

lemma calling_gateways [intro!]: "(\<And>m. calling d (k m)) \<Longrightarrow> calling d (has_gateway d k)"
  by (auto simp: has_gateway_def split: sum.split)

lemma calling_suite:
  "calling d (checkAdmin d p0)" "calling d (checkVLANs d cp p0)" "calling d (checkLAGs d cp p0 p1)" "calling d (checkMLAG d cp p0 p1)"
  "calling d (checkSTP d cp p0)" "calling d (checkMACAging d cp)" "calling d (checkQinQ d cp p0 p1)" "calling d (checkGateway d cp)"
  "calling d (checkL3 d cp p0)" "calling d (checkACLs d cp p0)"
proof -
  have svis: "calling d (checkSVIs d cp)" by (auto simp: checkSVIs_def Let_def split: sum.split)
  show "calling d (checkVLANs d cp p0)" by (auto simp: checkVLANs_def svis)
  have stp: "calling d (checkSTPPort p)" for p by (auto simp: checkSTPPort_def)
  have on: "calling d (checkSTPOn d cp p0)" by (auto simp: checkSTPOn_def Let_def stp intro!: calling_checks split: sum.split)
  show "calling d (checkSTP d cp p0)" by (auto simp: checkSTP_def on split: sum.split)
  have "calling d (checkLACP d)" by (auto simp: checkLACP_def)
  moreover have "calling d (checkLAGVLAN d p0)" by (auto simp: checkLAGVLAN_def split: sum.split)
  ultimately show "calling d (checkLAGs d cp p0 p1)" by (auto simp: checkLAGs_def split: option.split)
  have "calling d (checkMLAGConfig d p0)" by (auto simp: checkMLAGConfig_def Let_def split: sum.split)
  moreover have "calling d (checkMLAGInterface d)" by (auto simp: checkMLAGInterface_def Let_def intro!: calling_checks split: sum.split)
  ultimately show "calling d (checkMLAG d cp p0 p1)" by (auto simp: checkMLAG_def intro!: calling_checks split: sum.split)
  have "calling d (checkGateway6 d cp)" by (auto simp: checkGateway6_def split: sum.split)
  then show "calling d (checkGateway d cp)" by (auto simp: checkGateway_def split: sum.split option.split)
  have "calling d (checkACLEntry v e)" "calling d (checkACLReplaced es)" for v e es
    by (auto simp: checkACLEntry_def checkACLReplaced_def Let_def intro!: calling_checks split: option.split)
  then show "calling d (checkACLs d cp p0)" by (auto simp: checkACLs_def Let_def split: sum.split)
qed (auto simp: checkAdmin_def checkMACAging_def checkQinQ_def checkL3_def Let_def split: sum.split)

lemma seen_later:
  assumes "seen d b c g" and "snd (f s) = run (sw d) cs s" and "fst (g (snd (f s))) = []"
  shows "\<exists>cs. agrees (unsupported d) b (fst (sw d c (run (sw d) cs s)))"
  using assms run_append unfolding seen_def by metis

lemma seen_also: "seen d b c f \<Longrightarrow> seen d b c (also_check f g)" "calling d f \<Longrightarrow> seen d b c g \<Longrightarrow> seen d b c (also_check f g)"
proof -
  show "seen d b c f \<Longrightarrow> seen d b c (also_check f g)"
    by (auto simp: seen_def also_check_def case_prod_unfold)
  assume "calling d f" "seen d b c g"
  then show "seen d b c (also_check f g)"
    unfolding seen_def [of d b c "also_check f g"]
    by (auto simp: also_check_def case_prod_unfold calling_def) (metis seen_later)
qed

lemma seen_checks: "\<lbrakk>f \<in> set fs; seen d b c f; \<And>g. g \<in> set fs \<Longrightarrow> calling d g\<rbrakk> \<Longrightarrow> seen d b c (checks fs)"
  by (induction fs) (auto intro: seen_also)

lemma seen_ask:
  assumes "\<And>r. seen d b c (k r)"
  shows "seen d b c (ask d c' k)"
  unfolding seen_def
proof (intro allI impI)
  fix s
  assume "fst (ask d c' k s) = []"
  then have "fst (k (fst (sw d c' s)) (snd (sw d c' s))) = []" by (simp add: ask_def case_prod_unfold)
  then obtain cs where "agrees (unsupported d) b (fst (sw d c (run (sw d) cs (snd (sw d c' s)))))"
    using assms by (auto simp: seen_def)
  then show "\<exists>cs. agrees (unsupported d) b (fst (sw d c (run (sw d) cs s)))"
    by (intro exI [of _ "c' # cs"]) simp
qed

lemma seen_here:
  assumes "\<And>r s. fst (k r s) = [] \<Longrightarrow> agrees (unsupported d) b r"
  shows "seen d b c (ask d c k)"
  using assms by (auto simp: seen_def ask_def case_prod_unfold intro!: exI [of _ "[]"])

lemma seen_patterns:
  "seen d b c (probe d b c t k)" "seen d b c k \<Longrightarrow> seen d b c (probe d True c' t k)"
  "seen d b c k \<Longrightarrow> seen d b c (must d c' t k)" "seen d b c f \<Longrightarrow> seen d b c (deferring d cs f)"
  "seen d b c (ask d c (\<lambda>r. report (wantSupport (unsupported d) b (err_of r) t)))"
proof -
  show "seen d b c (probe d b c t k)"
    unfolding probe_def by (rule seen_here) (auto simp: Let_def report_def wantSupport_clean split: if_splits)
  show "seen d b c (probe d True c' t k)" if "seen d b c k"
    unfolding probe_def by (rule seen_ask) (use that in \<open>auto simp: Let_def report_def seen_def\<close>)
  show "seen d b c (must d c' t k)" if "seen d b c k"
    unfolding must_def by (rule seen_ask) (use that in \<open>auto simp: report_def seen_def split: sum.split\<close>)
  show "seen d b c f \<Longrightarrow> seen d b c (deferring d cs f)"
    unfolding deferring_def by (rule seen_also)
  show "seen d b c (ask d c (\<lambda>r. report (wantSupport (unsupported d) b (err_of r) t)))"
    by (rule seen_here) (simp add: report_def wantSupport_clean)
qed

text \<open>The calls every run of the suite checks a capability by, and the two-path route where there is routing.\<close>

definition probes :: "Capabilities \<Rightarrow> string \<Rightarrow> (bool \<times> call) list" where
  "probes cp p0 =
     [(c_VLANs cp, Vlan (DoAddVLAN 100)),
      (c_STP cp, Stp (DoSetSTP (stp_config False STPDefaultPriority))),
      (c_MACAging cp, Gateway (DoSetMACAging DefaultMACAging)),
      (c_VirtualGateway cp, Gateway (DoSetVirtualMAC DefaultVirtualMAC)),
      (c_L3 cp, L3 (DoAddAddress p0 (prefix4 10 99 0 1 24))),
      (c_ACL cp, L3 (DoSetACL (rule_of 10 (''deny in '' @ p0 @ '' proto icmp src 192.0.2.0/24'')))),
      (c_Counters cp, Port (DoPortCounters p0)),
      (c_L2Learning cp, Gateway DoFDB)] @
     (if c_L3 cp then [(SupportsECMP cp 2, L3 (DoAddRoute (multi_route p0)))] else [])"

lemma seen_multi:
  "seen d (SupportsECMP cp 2) (L3 (DoAddRoute (multi_route p0))) (ask d (L3 (DoAddRoute (multi_route p0))) (\<lambda>r.
     if SupportsECMP cp 2 then
       (case r of
          Inl e \<Rightarrow> bad_err ''Capabilities claims ECMP, but a two-path route failed: %v'' e
        | Inr _ \<Rightarrow> just d (L3 (DoDelRoute (rt_Prefix (multi_route p0)))))
     else report (wantSupport (unsupported d) False (err_of r) ''AddRoute with two next-hops'')))"
  by (rule seen_here) (auto simp: report_def agrees_def wantSupport_clean split: sum.splits if_splits)

lemma seen_L3:
  assumes "c_L3 cp"
  shows "seen d (SupportsECMP cp 2) (L3 (DoAddRoute (multi_route p0))) (checkL3 d cp p0)"
proof -
  have "c_L3 cp = True" using assms by simp
  then show ?thesis
    unfolding checkL3_def Let_def
    by (simp only:) (intro seen_patterns(2,4), rule seen_checks [OF _ seen_multi], auto split: sum.split)
qed

lemma calling_port_checks: "f \<in> set (port_checks d cp n p0 p1) \<Longrightarrow> calling d f"
  by (auto simp: port_checks_def calling_suite)

lemma seen_ports:
  assumes "(b, c) \<in> set (probes cp (pt_Name (ps ! 0)))"
  shows "seen d b c (check_ports d cp ps)"
proof -
  define p0 where "p0 = pt_Name (ps ! 0)"
  have "seen d (c_VLANs cp) (Vlan (DoAddVLAN 100)) (checkVLANs d cp p0)"
    "seen d (c_STP cp) (Stp (DoSetSTP (stp_config False STPDefaultPriority))) (checkSTP d cp p0)"
    "seen d (c_MACAging cp) (Gateway (DoSetMACAging DefaultMACAging)) (checkMACAging d cp)"
    "seen d (c_VirtualGateway cp) (Gateway (DoSetVirtualMAC DefaultVirtualMAC)) (checkGateway d cp)"
    "seen d (c_L3 cp) (L3 (DoAddAddress p0 (prefix4 10 99 0 1 24))) (checkL3 d cp p0)"
    "seen d (c_ACL cp) (L3 (DoSetACL (rule_of 10 (''deny in '' @ p0 @ '' proto icmp src 192.0.2.0/24'')))) (checkACLs d cp p0)"
    by (simp_all add: checkVLANs_def checkSTP_def checkMACAging_def checkGateway_def checkL3_def checkACLs_def Let_def seen_patterns(1))
  note each = this seen_patterns(5) [of d "c_Counters cp"] seen_patterns(5) [of d "c_L2Learning cp"]
  have "\<exists>f \<in> set (port_checks d cp (length ps) p0 (pt_Name (ps ! 1))). seen d b c f"
  proof (cases "b = SupportsECMP cp 2 \<and> c = L3 (DoAddRoute (multi_route p0)) \<and> c_L3 cp")
    case True
    then show ?thesis using seen_L3 [of cp d p0] by (simp add: port_checks_def)
  next
    case False
    then show ?thesis using assms each by (auto simp: probes_def port_checks_def p0_def [symmetric] split: if_splits)
  qed
  then show ?thesis
    unfolding check_ports_def p0_def [symmetric] using seen_checks calling_port_checks by blast
qed

end
