(* ===== verification/Conformance_Mem.thy ===== *)
theory Conformance_Mem
  imports Conformance
begin

text \<open>
  The reference datapath and the conformance suite. The suite is run on a switch whose capabilities are
  arbitrary: each check leaves it as it was but for ports no name leads to any more, the state of the spanning tree, the
  virtual MAC and the age of entries, so the checks compose. The outcome is decided by the configuration alone.
\<close>

section \<open>Running the suite\<close>

definition mem_tested :: "(Switch, sw_error) tested" where
  "mem_tested = \<lparr>sw = exec, capabilities = (\<lambda>s. (Capabilities_of s, s)), unsupported = is_unsupported\<rparr>"

lemma mem_tested_simps:
  "sw mem_tested = exec" "capabilities mem_tested s = (Capabilities_of s, s)" "unsupported mem_tested = is_unsupported"
  by (simp_all add: mem_tested_def)

lemma runs:
  "fine s = ([], s)" "report ps s = (ps, s)" "whenever b f s = (if b then f s else ([], s))"
  "also_check f g s = (case f s of (ps, s1) \<Rightarrow> (case g s1 of (qs, s2) \<Rightarrow> (ps @ qs, s2)))"
  "checks [] s = ([], s)" "checks (f # fs) s = (case f s of (ps, s1) \<Rightarrow> (case checks fs s1 of (qs, s2) \<Rightarrow> (ps @ qs, s2)))"
  "just d c s = ([], snd (sw d c s))"
  "deferring d cs f s = (case f s of (ps, s1) \<Rightarrow> (ps, run (sw d) cs s1))"
  "must d c t k s = (case sw d c s of (Inl e, s1) \<Rightarrow> ([Problem t (Some e)], s1) | (Inr x, s1) \<Rightarrow> k s1)"
  "must_refuse d c t u s = (case sw d c s of (Inl e, s1) \<Rightarrow> ([], s1) | (Inr x, s1) \<Rightarrow> ([Problem t None], run (sw d) u s1))"
proof -
  show just: "just d c s = ([], snd (sw d c s))" for d c s by (simp add: just_def ask_def fine_def case_prod_unfold)
  have run: "checks (map (just d) cs) s = ([], run (sw d) cs s)" for d cs s
    by (induction cs arbitrary: s) (simp_all add: fine_def also_check_def just)
  show "deferring d cs f s = (case f s of (ps, s1) \<Rightarrow> (ps, run (sw d) cs s1))"
    by (simp add: deferring_def also_check_def run split: prod.split)
  show "must_refuse d c t u s = (case sw d c s of (Inl e, s1) \<Rightarrow> ([], s1) | (Inr x, s1) \<Rightarrow> ([Problem t None], run (sw d) u s1))"
    by (simp add: must_refuse_def ask_def fine_def report_def also_check_def run split: prod.split sum.split)
qed (simp_all add: fine_def report_def whenever_def also_check_def must_def ask_def split: prod.split sum.split)

lemma vlan_member_run:
  fixes d :: "('s, 'e) tested"
  shows "vlan_member d vid p k s = (case sw d (Vlan DoVLANs) s of
     (Inl e, s1) \<Rightarrow> (case k None s1 of (ps, s2) \<Rightarrow> (Problem ''VLANs: %v'' (Some e) # ps, s2))
   | (Inr x, s1) \<Rightarrow> k (member_of (vlans_in (Inr x :: 'e + reply)) vid p) s1)"
  by (auto simp: vlan_member_def ask_def also_check_def report_def split: prod.split sum.split)

lemma lag_named_run:
  fixes d :: "('s, 'e) tested"
  shows "lag_named d n k s = (case sw d (Lag DoLAGs) s of
     (Inl e, s1) \<Rightarrow> (case k None s1 of (ps, s2) \<Rightarrow> (Problem ''LAGs: %v'' (Some e) # ps, s2))
   | (Inr x, s1) \<Rightarrow> k (find (\<lambda>l. lg_Name l = n) (lags_in (Inr x :: 'e + reply))) s1)"
  by (auto simp: lag_named_def ask_def also_check_def report_def split: prod.split sum.split)

lemma has_gateway_run:
  fixes d :: "('s, 'e) tested"
  shows "has_gateway d k s = (case sw d (Gateway DoVirtualGateways) s of
     (Inl e, s1) \<Rightarrow> (case k None s1 of (ps, s2) \<Rightarrow> (Problem ''VirtualGateways: %v'' (Some e) # ps, s2))
   | (Inr x, s1) \<Rightarrow> k (gateway_of (gateways_in (Inr x :: 'e + reply)) gateway4) s1)"
  by (auto simp: has_gateway_def ask_def also_check_def report_def split: prod.split sum.split)

lemma probe_run:
  "sw d c s = (r, s1) \<Longrightarrow> probe d b c t k s = 
   (let ps = wantSupport (unsupported d) b (err_of r) t in if ps \<noteq> [] \<or> \<not> b then (ps, s1) else k s1)"
  by (auto simp: probe_def ask_def Let_def report_def)


text \<open>The switch between two checks: four ports, the first up or down, nothing configured on them.\<close>

definition front :: "bool \<Rightarrow> port list" where
  "front up = [(new_port ''swp1'')\<lparr>p_adminUp := up\<rparr>, new_port ''swp2'', new_port ''swp3'', new_port ''swp4'']"

definition idle :: "Config \<Rightarrow> bool \<Rightarrow> port list \<Rightarrow> stpState option \<Rightarrow> string \<Rightarrow> int option \<Rightarrow> Switch" where
  "idle c up extra ss vm ag =
     \<lparr>cfg = c, started = True, heap = front up @ extra, ports = [0, 1, 2, 3],
      byName = [(''swp1'', 0), (''swp2'', 1), (''swp3'', 2), (''swp4'', 3)],
      vlans = [], svis = [], lags = [], routes = [], acls = [], stpst = ss, mlag = zero_mlag, lacpPri = 0, vmac = vm,
      gws = [], aging = ag\<rparr>"

text \<open>A check that finds nothing and leaves the switch so, and one that finds something.\<close>

definition idles :: "Config \<Rightarrow> (Switch, sw_error) suite \<Rightarrow> bool" where
  "idles c f \<longleftrightarrow> (\<forall>up extra ss vm ag. \<exists>up' extra' ss' vm' ag'. f (idle c up extra ss vm ag) = ([], idle c up' extra' ss' vm' ag'))"

definition trips :: "Config \<Rightarrow> (Switch, sw_error) suite \<Rightarrow> bool" where
  "trips c f \<longleftrightarrow> (\<forall>up extra ss vm ag. fst (f (idle c up extra ss vm ag)) \<noteq> [])"

lemma idles_checks: "(\<And>f. f \<in> set fs \<Longrightarrow> idles c f) \<Longrightarrow> idles c (checks fs)"
proof (induction fs)
  case Nil
  show ?case unfolding idles_def by (simp add: fine_def) blast
next
  case (Cons f fs)
  then have f: "idles c f" and fs: "idles c (checks fs)" by simp_all
  show ?case unfolding idles_def
  proof (intro allI)
    fix up extra ss vm ag
    obtain up1 extra1 ss1 vm1 ag1 where 1: "f (idle c up extra ss vm ag) = ([], idle c up1 extra1 ss1 vm1 ag1)"
      using f unfolding idles_def by blast
    obtain up2 extra2 ss2 vm2 ag2 where 2: "checks fs (idle c up1 extra1 ss1 vm1 ag1) = ([], idle c up2 extra2 ss2 vm2 ag2)"
      using fs unfolding idles_def by blast
    have "checks (f # fs) (idle c up extra ss vm ag) = ([], idle c up2 extra2 ss2 vm2 ag2)" using 1 2 by (simp add: runs)
    then show "\<exists>up' extra' ss' vm' ag'. checks (f # fs) (idle c up extra ss vm ag) = ([], idle c up' extra' ss' vm' ag')" by blast
  qed
qed

lemma trips_checks:
  "(\<And>f. f \<in> set fs \<Longrightarrow> idles c f \<or> trips c f) \<Longrightarrow> \<exists>f \<in> set fs. trips c f \<Longrightarrow> trips c (checks fs)"
proof (induction fs)
  case (Cons f fs)
  show ?case
  proof (cases "trips c f")
    case True
    then show ?thesis by (auto simp: trips_def runs case_prod_unfold)
  next
    case False
    then have f: "idles c f" and fs: "trips c (checks fs)" using Cons by auto
    show ?thesis unfolding trips_def
    proof (intro allI)
      fix up extra ss vm ag
      obtain up1 extra1 ss1 vm1 ag1 where "f (idle c up extra ss vm ag) = ([], idle c up1 extra1 ss1 vm1 ag1)"
        using f unfolding idles_def by blast
      then show "fst (checks (f # fs) (idle c up extra ss vm ag)) \<noteq> []"
        using fs by (auto simp: trips_def runs case_prod_unfold)
    qed
  qed
qed simp

section \<open>The checks one by one\<close>

lemma names: "SVIName 200 = ''vlan200''" "SVIName 302 = ''vlan302''" "hex4 4096 = ''1000''"
  by code_simp+

lemmas running = runs vlan_member_run lag_named_run has_gateway_run mem_tested_simps probe_run ask_def idle_def front_def new_port_def
  modify_def lookup_def l3lookup_def reply_def wantSupport_def err_of_def Let_def nth_append list_update_append names

lemmas vlan_defs = AddVLAN_def DelVLAN_def SetPortVLAN_def DelPortVLAN_def VLANs_def AddSVI_def DelSVI_def switchable_def
  vlan_members_def tpidOr_def mhas_def DefaultTPID_def SetPortTunnel_def SetPortTPID_def ValidTPID_def member_of_def

lemmas l3_defs = AddAddress_def DelAddress_def AddRoute_def DelRoute_def Routes_def single_route_def multi_route_def hasRoute_def

lemma lag_names: "validLAGName ''po1'' = None" "validLAGName ''po2'' = None" "validLAGName ''po3'' = None"
   "validLAGName ''bogus'' = Some (Errorf ''%q is not a LAG name: po1, po2 ...'' [Str ''bogus''])"
  by code_simp+

lemmas lag_defs = AddLAG_def SetLAGMembers_def claim_def DelLAG_def LAGs_def SetLAGOptions_def SetLACPSystemPriority_def ValidLAGOptions_def ValidLACPPriority_def lag_names
  lagOptions_def lacpPriority_def LACPDefaultPriority_def zero_lag_options_def slow_options_def lag_has_def

lemma limits:
  "0 < (m::int) \<and> m \<le> 0 \<longleftrightarrow> False" "0 < (m::int) \<and> m < 1 \<longleftrightarrow> False" "0 < (m::int) \<and> m < 2 \<longleftrightarrow> m = 1" "0 < (m::int) \<and> m \<le> 1 \<longleftrightarrow> m = 1"
  by auto

lemma peer_addresses: "ParseAddr ''192.0.2.2'' = Some (IP4 192 0 2 2)" "ParseAddr ''bogus'' = None"
  by code_simp+

lemmas mlag_defs = peer_addresses SetMLAG_def SetLAGMLAG_def MLAG_def MLAGTimes_def ValidMLAG_def ValidMLAGTimes_def MLAGMaxID_def peer_config_def full_peer_def zero_mlag_def

lemmas stp_defs = SetSTP_def SetSTPPort_def STP_def stp_def stp_port_def STPTimes_def ValidSTPPriority_def ValidSTPTimes_def ValidSTPCost_def ValidSTPPortPriority_def zero_stp_def stp_config_def zero_stp_port_def
  STPDefaultPriority_def STPDefaultCost_def

lemma idles_admin: "idles c (checkAdmin mem_tested ''swp1'')"
  unfolding idles_def by (simp add: checkAdmin_def running SetPortAdmin_def PortStatus_of_def) blast

lemma idles_VLANs: "idles c (checkVLANs mem_tested (Caps c) ''swp1'')"
  unfolding idles_def
  by (cases "c_VLANs (Caps c)"; cases "c_SVIs (Caps c)"; cases "c_L3 (Caps c)")
     (simp_all add: checkVLANs_def checkSVIs_def running vlan_defs l3_defs)

lemma idles_QinQ: "idles c (checkQinQ mem_tested (Caps c) ''swp1'' ''swp2'')"
  unfolding idles_def
  by (cases "c_VLANs (Caps c)"; cases "c_QinQ (Caps c)") (simp_all add: checkQinQ_def running vlan_defs)

lemma idles_LAGs:
  "c_LAGs (Caps c) \<longrightarrow> c_MaxLAGMembers (Caps c) \<noteq> 1 \<Longrightarrow> idles c (checkLAGs mem_tested (Caps c) ''swp1'' ''swp2'')"
  unfolding idles_def
  by (cases "c_LAGs (Caps c)"; cases "c_LACP (Caps c)"; cases "c_VLANs (Caps c)"; cases "c_L3 (Caps c)")
     (simp_all add: checkLAGs_def checkLACP_def checkLAGVLAN_def running lag_defs vlan_defs l3_defs limits)

lemma trips_LAGs:
  "c_LAGs (Caps c) \<Longrightarrow> c_MaxLAGMembers (Caps c) = 1 \<Longrightarrow> trips c (checkLAGs mem_tested (Caps c) ''swp1'' ''swp2'')"
  unfolding trips_def
  by (cases "c_LACP (Caps c)") (simp_all add: checkLAGs_def checkLACP_def running lag_defs limits)

lemma idles_MLAG:
  "c_MLAG (Caps c) \<longrightarrow> c_LAGs (Caps c) \<Longrightarrow> idles c (checkMLAG mem_tested (Caps c) ''swp1'' ''swp2'')"
  unfolding idles_def
  by (cases "c_MLAG (Caps c)"; cases "c_MaxLAGs (Caps c) = 1")
     (simp_all add: checkMLAG_def checkMLAGConfig_def checkMLAGInterface_def running mlag_defs lag_defs limits)

lemma trips_MLAG:
  "c_MLAG (Caps c) \<Longrightarrow> \<not> c_LAGs (Caps c) \<Longrightarrow> trips c (checkMLAG mem_tested (Caps c) ''swp1'' ''swp2'')"
  unfolding trips_def by (simp add: checkMLAG_def running mlag_defs)

lemma idles_STP: "idles c (checkSTP mem_tested (Caps c) ''swp1'')"
proof -
  have "\<exists>ss'. checkSTP mem_tested (Caps c) ''swp1'' (idle c up extra ss vm ag) = ([], idle c up extra ss' vm ag)" for up extra ss vm ag
    by (cases "c_STP (Caps c)"; cases "c_VLANs (Caps c)"; cases ss)
       (simp_all add: checkSTP_def checkSTPOn_def checkSTPPort_def running stp_defs vlan_defs)
  then show ?thesis unfolding idles_def by blast
qed

lemma idles_MACAging: "idles c (checkMACAging mem_tested (Caps c))"
  unfolding idles_def
  by (cases "c_MACAging (Caps c)")
     (simp_all add: checkMACAging_def running SetMACAging_def MACAging_def DefaultMACAging_def ValidMACAging_def)

lemma idles_L3:
  "AllowECMPAnyway c \<and> c_L3 (Caps c) \<longrightarrow> SupportsECMP (Caps c) 2 \<Longrightarrow> idles c (checkL3 mem_tested (Caps c) ''swp1'')"
  unfolding idles_def
  by (cases "c_L3 (Caps c)"; cases "SupportsECMP (Caps c) 2") (simp_all add: checkL3_def running l3_defs)

lemma trips_L3:
  "AllowECMPAnyway c \<Longrightarrow> c_L3 (Caps c) \<Longrightarrow> \<not> SupportsECMP (Caps c) 2 \<Longrightarrow> trips c (checkL3 mem_tested (Caps c) ''swp1'')"
  unfolding trips_def by (simp add: checkL3_def running l3_defs)

lemma gateways_valid:
  "ValidVirtualMAC DefaultVirtualMAC = None" 
  "ValidVirtualMAC ''01:00:5e:00:00:01'' = Some (Errorf ''virtual mac %s is multicast; it must be unicast'' [Str ''01:00:5e:00:00:01''])"
  "ValidVirtualGateway gateway4 = None" "ValidVirtualGateway gateway6 = None"
  "ValidVirtualGateway \<lparr>pAddr = IP6 0xfe80 0 0 0 0 0 0 1 [], pBits = 64\<rparr> =
     Some (Errorf ''virtual gateway %s: a global or unique-local unicast address is needed'' [Pfx \<lparr>pAddr = IP6 0xfe80 0 0 0 0 0 0 1 [], pBits = 64\<rparr>])"
  by code_simp+

lemma gateway_families: "Is6 (pAddr gateway6)" "\<not> Is6 (pAddr gateway4)" "gateway4 \<noteq> gateway6"
  by (simp_all add: gateway4_def gateway6_def prefix4_def)

lemmas gateway_defs = SetVirtualMAC_def AddVirtualGateway_def DelVirtualGateway_def VirtualGateways_def gateway_of_def mac_def

lemma default_mac_set: "DefaultVirtualMAC \<noteq> []" by (simp add: DefaultVirtualMAC_def)

lemma idles_Gateway: "idles c (checkGateway mem_tested (Caps c))"
  unfolding idles_def
  by (cases "c_VirtualGateway (Caps c)"; cases "c_VirtualGateway6 (Caps c)"; cases "c_VLANs (Caps c)"; cases "c_SVIs (Caps c)")
     (simp_all add: checkGateway_def checkGateway6_def running gateway_defs gateways_valid gateway_families default_mac_set vlan_defs)

text \<open>The rules the suite writes, as they parse.\<close>

definition icmp4 :: "ACLAction \<Rightarrow> ACLRule" where
  "icmp4 act = \<lparr>Seq = 10, Family = 4, Action = act, InPort = ''swp1'', Proto = 1, Src = prefix4 192 0 2 0 24, Dst = zero_prefix, SrcPort = ACLAny, DstPort = ACLAny\<rparr>"

definition icmp6 :: ACLRule where
  "icmp6 = \<lparr>Seq = 13, Family = 6, Action = ACLDeny, InPort = ''swp1'', Proto = 58, Src = \<lparr>pAddr = IP6 0x2001 0xdb8 0 0 0 0 0 0 [], pBits = 32\<rparr>, Dst = zero_prefix, SrcPort = ACLAny, DstPort = ACLAny\<rparr>"

definition no_port :: ACLRule where
  "no_port = \<lparr>Seq = 11, Family = 4, Action = ACLDeny, InPort = ''swp-nonexistent'', Proto = 1, Src = zero_prefix, Dst = zero_prefix, SrcPort = ACLAny, DstPort = ACLAny\<rparr>"

lemma suite_rules:
  "rule_of 10 ''deny in swp1 proto icmp src 192.0.2.0/24'' = icmp4 ACLDeny"
  "rule_of 10 ''permit in swp1 proto icmp src 192.0.2.0/24'' = icmp4 ACLPermit"
  "rule_of 11 ''deny in swp-nonexistent proto icmp'' = no_port"
  "rule_of 13 ''deny in swp1 ipv6 proto icmpv6 src 2001:db8::/32'' = icmp6"
  by code_simp+

lemma suite_rules_are:
  "Seq (icmp4 a) = 10" "Family (icmp4 a) = 4" "Action (icmp4 a) = a" "Seq icmp6 = 13" "Family icmp6 = 6"
  "Seq no_port = 11" "Family no_port = 4" "Seq noL4 = 12" "Family noL4 = 4"
  by (simp_all add: icmp4_def icmp6_def no_port_def noL4_def)

lemma suite_rules_valid:
  "h ''swp1'' \<Longrightarrow> Validate (Some h) (icmp4 a) = None" "h ''swp1'' \<Longrightarrow> Validate (Some h) icmp6 = None"
  "\<not> h ''swp-nonexistent'' \<Longrightarrow> Validate (Some h) no_port = Some (Errorf (quoted '' is not a port on this switch'') [Str ''swp-nonexistent''])"
  "Validate (Some h) noL4 = Some (Errorf ''sport/dport need proto tcp or udp'' [])"
  by (simp_all add: Validate_def icmp4_def icmp6_def no_port_def noL4_def ACLMaxSeq_def IsValid_def zero_prefix_def prefix4_def needs_l4_proto_def ACLAny_def)

lemma idles_ACLs: "idles c (checkACLs mem_tested (Caps c) ''swp1'')"
  unfolding idles_def
  by (cases "c_ACL (Caps c)"; cases "c_ACL6 (Caps c)")
     (simp_all add: checkACLs_def suite_rules running SetACL_def ACLs_def DelACL_def suite_rules_valid suite_rules_are
       checkACLEntry_def checkACLReplaced_def findACL_def hasACL_def mhas_def)

section \<open>The whole suite on the reference datapath\<close>

text \<open>What a configuration must not claim or do: link aggregation across switches without link aggregation, aggregates
  of a single member, fewer ports than there are, and two-path routes that are installed although they are not supported.\<close>

definition honest_config :: "Config \<Rightarrow> bool" where
  "honest_config c \<longleftrightarrow>
     (c_MaxPorts (Caps c) > 0 \<longrightarrow> c_MaxPorts (Caps c) \<ge> 4) \<and>
     (c_LAGs (Caps c) \<longrightarrow> c_MaxLAGMembers (Caps c) \<noteq> 1) \<and>
     (c_MLAG (Caps c) \<longrightarrow> c_LAGs (Caps c)) \<and>
     (AllowECMPAnyway c \<and> c_L3 (Caps c) \<longrightarrow> SupportsECMP (Caps c) 2)"

lemma idles_basic: "idles c fine" "trips c (bad t)"
  unfolding idles_def trips_def by (simp_all add: fine_def report_def) blast

lemma idles_reads:
  "idles c (ask mem_tested (Port (DoPortCounters ''swp1'')) (\<lambda>r. report (wantSupport (unsupported mem_tested) (c_Counters (Caps c)) (err_of r) t)))"
  "idles c (ask mem_tested (Gateway DoFDB) (\<lambda>r. report (wantSupport (unsupported mem_tested) (c_L2Learning (Caps c)) (err_of r) t)))"
  unfolding idles_def
  by (cases "c_Counters (Caps c)"; cases "c_L2Learning (Caps c)"; simp add: running PortCounters_def FDB_def; blast)+

lemma LAG_checks:
  fixes c :: Config
  defines "two \<equiv> [checkLAGs mem_tested (Caps c) ''swp1'' ''swp2'', checkMLAG mem_tested (Caps c) ''swp1'' ''swp2'']"
  shows "if (c_LAGs (Caps c) \<longrightarrow> c_MaxLAGMembers (Caps c) \<noteq> 1) \<and> (c_MLAG (Caps c) \<longrightarrow> c_LAGs (Caps c))
         then idles c (checks two) else trips c (checks two)"
proof -
  have "idles c f \<or> trips c f" if "f \<in> set two" for f
    using that idles_LAGs [of c] trips_LAGs [of c] idles_MLAG [of c] trips_MLAG [of c] by (auto simp: two_def)
  then show ?thesis
    using idles_LAGs [of c] trips_LAGs [of c] idles_MLAG [of c] trips_MLAG [of c] idles_checks [of two c] trips_checks [of two c]
    by (auto simp: two_def)
qed

lemma ports_verdict:
  "if honest_config c then idles c (checks (port_checks mem_tested (Caps c) 4 ''swp1'' ''swp2''))
   else trips c (checks (port_checks mem_tested (Caps c) 4 ''swp1'' ''swp2''))"
proof -
  let ?fs = "port_checks mem_tested (Caps c) 4 ''swp1'' ''swp2''"
  note always = idles_admin [of c] idles_VLANs [of c] idles_STP [of c] idles_MACAging [of c] idles_QinQ [of c] idles_Gateway [of c]
    idles_ACLs [of c] idles_reads [of c]
  note decided = LAG_checks [of c] idles_L3 [of c] trips_L3 [of c] idles_basic [of c]
  have each: "idles c f \<or> trips c f" if "f \<in> set ?fs" for f
    using that always decided by (auto simp: port_checks_def whenever_def split: if_splits)
  show ?thesis
  proof (cases "honest_config c")
    case True
    then have "idles c f" if "f \<in> set ?fs" for f
      using that always decided by (auto simp: port_checks_def whenever_def honest_config_def split: if_splits)
    then show ?thesis using True idles_checks by simp
  next
    case False
    then have "\<exists>f \<in> set ?fs. trips c f"
      using decided by (auto simp: port_checks_def whenever_def honest_config_def split: if_splits)
    then show ?thesis using False trips_checks [of ?fs c] each by simp
  qed
qed

lemma New_idle:
  assumes "cfg_Ports c = 4"
  shows "New c = (idle (cfg (New c)) False [] None [] None)\<lparr>started := False\<rparr>"
proof -
  have "[0..<nat 4] = [0, 1, 2, 3]" by (simp add: upt_rec)
  moreover have "map (\<lambda>i. port_name (Suc i)) [0, 1, 2, 3] = [''swp1'', ''swp2'', ''swp3'', ''swp4'']" by code_simp
  ultimately show ?thesis
    using assms by (simp add: New_def Let_def idle_def front_def new_port_def)
qed

lemma New_named: "c_Driver (Caps (cfg (New c))) \<noteq> []" "c_Contract (Caps (cfg (New c))) \<noteq> []"
  by (simp_all add: New_def Let_def SwitchapiVersion_def)

lemma New_honest: "honest_config (cfg (New c)) = honest_config c"
  by (simp add: New_def Let_def honest_config_def SupportsECMP_def)

lemma idle_Ports: "exec (Port DoPorts) (idle c up extra ss vm ag) =
   (Inr (PortList [\<lparr>pt_Name = ''swp1'', pt_Index = 0\<rparr>, \<lparr>pt_Name = ''swp2'', pt_Index = 1\<rparr>,
                   \<lparr>pt_Name = ''swp3'', pt_Index = 2\<rparr>, \<lparr>pt_Name = ''swp4'', pt_Index = 3\<rparr>]), idle c up extra ss vm ag)"
  by (simp add: Ports_def reply_def idle_def front_def new_port_def)

lemma Check_New:
  assumes "cfg_Ports c = 4"
  shows "fst (Check mem_tested (New c)) =
     fst (checks (port_checks mem_tested (Caps (cfg (New c))) 4 ''swp1'' ''swp2'') (idle (cfg (New c)) False [] None [] None))"
proof -
  define c' where "c' = cfg (New c)"
  have "exec (Port DoStart) ((idle c' False [] None [] None)\<lparr>started := False\<rparr>) = (Inr Done, idle c' False [] None [] None)"
    by (simp add: Start_def reply_def idle_def)
  then have start: "exec (Port DoStart) (New c) = (Inr Done, idle c' False [] None [] None)"
    using New_idle [OF assms, folded c'_def] by simp
  have four: "check_ports mem_tested (Caps c') [\<lparr>pt_Name = ''swp1'', pt_Index = 0\<rparr>, \<lparr>pt_Name = ''swp2'', pt_Index = 1\<rparr>,
      \<lparr>pt_Name = ''swp3'', pt_Index = 2\<rparr>, \<lparr>pt_Name = ''swp4'', pt_Index = 3\<rparr>] =
    checks (port_checks mem_tested (Caps c') 4 ''swp1'' ''swp2'')"
    by (simp add: check_ports_def numeral_eq_Suc)
  show ?thesis
    unfolding c'_def [symmetric]
    by (simp add: Check_def mem_tested_simps Capabilities_of_def runs start idle_Ports ask_def four [simplified One_nat_def] case_prod_unfold
      New_named [of c] c'_def [symmetric] New_named [of c, folded c'_def] del: exec.simps)
qed

lemma New_verdict:
  assumes "cfg_Ports c = 4"
  shows "fst (Check mem_tested (New c)) = [] \<longleftrightarrow> honest_config c"
  using ports_verdict [of "cfg (New c)"] Check_New [OF assms] New_honest [of c]
  by (auto simp: idles_def trips_def split: if_splits) (metis fst_conv)

text \<open>C5: Which configurations of the reference datapath with four ports pass the suite, whatever its capabilities and
  limits are: exactly those that claim no aggregation across switches without aggregation, no aggregates of a single member
  and no fewer ports than there are, and do not install two-path routes they say they do not support. So it passes with any
  feature honestly absent, and the suite catches the silent downgrade of a multipath route.
\<close>

theorem mem_conforms_iff:
  assumes "cfg_Ports c = 4"
  shows "fst (Check mem_tested (New c)) = [] \<longleftrightarrow> honest_config c"
  using assms by (rule New_verdict)

theorem mem_conforms_iff_witness:
  "fst (Check mem_tested (New \<lparr>cfg_Ports = 4, Caps = DefaultCaps, AllowECMPAnyway = False\<rparr>)) = [] \<and>
   fst (Check mem_tested (New \<lparr>cfg_Ports = 4, Caps = zero_caps\<lparr>c_L3 := True\<rparr>, AllowECMPAnyway = True\<rparr>)) \<noteq> []"
  by (simp add: mem_conforms_iff honest_config_def DefaultCaps_def zero_caps_def SupportsECMP_def)



end
