(* ===== verification/Upgrade.thy ===== *)
theory Upgrade
  imports Filesystem "HOL-Library.Word"
begin

unbundle bit_operations_syntax

text \<open>
  Installing an image into a slot and moving the boot pointer: \<^verbatim>\<open>internal/upgrade\<close>, both layouts. What is
  not this program is a parameter: the partition table \<^verbatim>\<open>sfdisk\<close> prints, what \<^verbatim>\<open>debugfs\<close> answers and does
  to the file it is given, the names \<^verbatim>\<open>CreateTemp\<close> picks, what the kernel reports of loop devices and of
  the root file system, and the order in which Go ranges over a map. Sizes and offsets are 64-bit and
  wrap. The progress log is left out.
\<close>

section \<open>State\<close>

record State =
  Active :: string
  Trial :: string
  Tries :: int

record Disk =
  d_Path :: string
  d_Data :: string
  d_Files :: bool

record partition =
  pn_Start :: int
  pn_Size :: int
  pn_Name :: string

record env =
  sfdisk :: "string \<Rightarrow> partition list option"
  debugfs :: "bool \<Rightarrow> string \<Rightarrow> string \<Rightarrow> fsys \<Rightarrow> (bool \<times> string) \<times> fsys"
  temp_name :: "string \<Rightarrow> string \<Rightarrow> fsys \<Rightarrow> string"
  loop_files :: "string option list"
  cwd :: "string option"
  root_dev :: "64 word option"
  sys_block_start :: "64 word \<Rightarrow> 64 word \<Rightarrow> string option"
  map_order :: "(string \<times> string) list \<Rightarrow> (string \<times> string) list"

definition wrap64 :: "int \<Rightarrow> int" where
  "wrap64 i = (i + 2 ^ 63) mod 2 ^ 64 - 2 ^ 63"

section \<open>Slots as files\<close>

definition slotFileName :: "string \<Rightarrow> string" where
  "slotFileName slot = ''nosaic-slot-'' @ slot @ ''.sqsh''"

definition fileBacked :: "Disk \<Rightarrow> bool io" where
  "fileBacked d =
     (if d_Files d then return_io True
      else bind_io (attempt (Stat (d_Path d))) (\<lambda>r. return_io (r = Inr Directory)))"

definition bootloaderDir :: string where
  "bootloaderDir = ''/mnt/flash''"

definition dataDir :: "Disk \<Rightarrow> string" where
  "dataDir d = (if d_Data d \<noteq> [] then d_Data d else ''/mnt/data'')"

fun find_state_dir :: "string list \<Rightarrow> string io" where
  "find_state_dir [] = return_io []"
| "find_state_dir (dir # dirs) =
     bind_io (attempt (Stat dir)) (\<lambda>r. if r = Inr Directory then return_io dir else find_state_dir dirs)"

definition StateDir :: "string io" where
  "StateDir = find_state_dir [''/mnt/boot/boot'', ''/mnt/data/boot'']"

fun read_names :: "string \<Rightarrow> string list \<Rightarrow> (string, string) gomap \<Rightarrow> (string, string) gomap io" where
  "read_names dir [] out = return_io out"
| "read_names dir (name # names) out =
     bind_io (attempt (ReadFile (Join dir name))) (\<lambda>r.
       case r of Inl _ \<Rightarrow> read_names dir names out | Inr b \<Rightarrow> read_names dir names (mput name b out))"

definition state_names :: "string list" where
  "state_names = [''active'', ''trial'', ''tries'']"

definition readStateDir :: "string \<Rightarrow> (string, string) gomap io" where
  "readStateDir dir = read_names dir state_names []"

definition field_of :: "(string, string) gomap \<Rightarrow> string \<Rightarrow> string" where
  "field_of m k = (case mget m k of None \<Rightarrow> [] | Some v \<Rightarrow> v)"

fun find_slot_dir :: "string list \<Rightarrow> string \<Rightarrow> Disk \<Rightarrow> Disk io" where
  "find_slot_dir [] active d = return_io d"
| "find_slot_dir (cand # cands) active d =
     bind_io (attempt (Stat (Join cand (slotFileName active)))) (\<lambda>r.
       case r of Inr _ \<Rightarrow> return_io (d\<lparr>d_Path := cand\<rparr>) | Inl _ \<Rightarrow> find_slot_dir cands active d)"

definition Local :: "Disk io" where
  "Local = bind_io StateDir (\<lambda>dir.
     if dir = [] then fail_io (Refused ''this system has no mounted boot state: neither /mnt/boot/boot nor /mnt/data/boot is there'' [])
     else let data = Dirname dir;
              d = \<lparr>d_Path = data, d_Data = data, d_Files = True\<rparr>
          in bind_io (attempt (readStateDir dir)) (\<lambda>r.
               case r of
                 Inl _ \<Rightarrow> return_io d
               | Inr st \<Rightarrow>
                   let active = TrimSpace (field_of st ''active'')
                   in find_slot_dir [bootloaderDir, data] (if active = [] then ''a'' else active) d))"

definition syncDir :: "string \<Rightarrow> unit io" where
  "syncDir dir = then_io (Open dir) Sync"

definition not_exist :: "io_error \<Rightarrow> bool" where
  "not_exist e = (case e of NotExist _ \<Rightarrow> True | _ \<Rightarrow> False)"

definition write_entry :: "string \<Rightarrow> string \<times> string \<Rightarrow> unit io" where
  "write_entry dir = (\<lambda>(name, content).
     let p = Join dir name
     in if content = []
        then bind_io (attempt (Remove p)) (\<lambda>r.
               case r of Inl e \<Rightarrow> if not_exist e then return_io () else fail_io e | Inr _ \<Rightarrow> return_io ())
        else WriteFile p (content @ [CHR 0x0A]))"

definition writeStateDir :: "env \<Rightarrow> string \<Rightarrow> (string, string) gomap \<Rightarrow> unit io" where
  "writeStateDir e dir files =
     then_io (MkdirAll dir) (then_io (each_io (write_entry dir) (map_order e files)) (syncDir dir))"

definition TrimSuffix :: "string \<Rightarrow> string \<Rightarrow> string" where
  "TrimSuffix s suf = (if suffix suf s then take (length s - length suf) s else s)"

definition loopBackingFiles :: "env \<Rightarrow> string list" where
  "loopBackingFiles e = map (\<lambda>b. TrimSuffix (TrimSpace b) '' (deleted)'') (List.map_filter id (loop_files e))"

text \<open>\<^verbatim>\<open>filepath.Abs\<close>, which needs the working directory for a relative path.\<close>

definition Abs :: "env \<Rightarrow> string \<Rightarrow> string option" where
  "Abs e p =
     (if p \<noteq> [] \<and> hd p = slash then Some (Clean p)
      else case cwd e of None \<Rightarrow> None | Some c \<Rightarrow> Some (Join c p))"

definition checkSquashfs :: "string \<Rightarrow> unit io" where
  "checkSquashfs src =
     bind_io (ReadFile src) (\<lambda>c.
       if length c < 4 then fail_io (Refused ''reading the image: %w'' [Text ''EOF''])
       else if take 4 c \<noteq> ''hsqs'' then fail_io (Refused ''that is not a squashfs image (magic %q, wanted hsqs): the initramfs would refuse it and the trial would roll back'' [Text (take 4 c)])
       else return_io ())"

definition copy_to :: "string \<Rightarrow> string \<Rightarrow> nat \<Rightarrow> unit io" where
  "copy_to src dst off = bind_io (ReadFile src) (WriteAt dst off)"

text \<open>A step whose failure first removes the temporary file.\<close>

definition or_remove :: "string \<Rightarrow> unit io \<Rightarrow> unit io" where
  "or_remove tmp m =
     bind_io (attempt m) (\<lambda>r.
       case r of Inr _ \<Rightarrow> return_io () | Inl err \<Rightarrow> then_io (attempt (Remove tmp)) (fail_io err))"

definition slot_path :: "Disk \<Rightarrow> string \<Rightarrow> string" where
  "slot_path d slot = Join (d_Path d) (slotFileName slot)"

definition writeSlotFile :: "env \<Rightarrow> Disk \<Rightarrow> string \<Rightarrow> string \<Rightarrow> unit io" where
  "writeSlotFile e d slot img =
     (let dst = slot_path d slot; tmp = dst @ ''.new''
      in if (case Abs e dst of None \<Rightarrow> False | Some a \<Rightarrow> a \<in> set (loopBackingFiles e))
         then fail_io (Refused ''slot %s is loop-mounted right now (%s); writing it would corrupt the running system'' [Text slot, Text (the (Abs e dst))])
         else
           then_io (Open img)
           (then_io (Stat img)
           (then_io (checkSquashfs img)
           (then_io (Truncate tmp)
           (then_io (or_remove tmp (copy_to img tmp 0))
           (then_io (or_remove tmp Sync)
           (then_io (or_remove tmp CloseFile)
           (then_io (or_remove tmp (Rename tmp dst))
             (syncDir (d_Path d))))))))))"

definition clear_layer :: "string \<Rightarrow> string \<Rightarrow> string \<Rightarrow> unit io" where
  "clear_layer slot dir sub =
     (let p = Join dir sub
      in bind_io (attempt (Stat p)) (\<lambda>r.
           case r of
             Inl _ \<Rightarrow> return_io ()
           | Inr _ \<Rightarrow>
               bind_io (attempt (RemoveAll p)) (\<lambda>r'.
                 case r' of
                   Inl _ \<Rightarrow> fail_io (Refused ''clearing slot %s's %s layer: %w'' [Text slot, Text sub])
                 | Inr _ \<Rightarrow> MkdirAll p)))"

definition overlay_dir :: "Disk \<Rightarrow> string \<Rightarrow> string" where
  "overlay_dir d slot = Join (dataDir d) (''slot-'' @ slot)"

definition clearSlotOverlay :: "Disk \<Rightarrow> string \<Rightarrow> unit io" where
  "clearSlotOverlay d slot =
     bind_io (fileBacked d) (\<lambda>fb.
       if \<not> fb \<and> d_Data d = [] then return_io ()
       else bind_io (attempt (Stat (overlay_dir d slot))) (\<lambda>r.
              if r \<noteq> Inr Directory then return_io ()
              else then_io (each_io (clear_layer slot (overlay_dir d slot)) [''upper'', ''work''])
                     (syncDir (overlay_dir d slot))))"

section \<open>Slots as partitions\<close>

definition partitions :: "env \<Rightarrow> Disk \<Rightarrow> partition list io" where
  "partitions e d =
     fallible ''sfdisk'' (case sfdisk e (d_Path d) of
        None \<Rightarrow> fail_io (Refused ''reading the partition table of %s: %w'' [Text (d_Path d)])
      | Some ps \<Rightarrow> return_io ps)"

definition slotIndex :: "string \<Rightarrow> nat io" where
  "slotIndex slot =
     (if slot = ''a'' then return_io 1
      else if slot = ''b'' then return_io 2
      else fail_io (Refused ''unknown slot %q: slots are a and b'' [Text slot]))"

definition bootIndex :: nat where
  "bootIndex = 0"

definition CreateTemp :: "env \<Rightarrow> string \<Rightarrow> string \<Rightarrow> string io" where
  "CreateTemp e pre suf = fallible ''create'' (\<lambda>w.
     let p = temp_name e pre suf (fs w) in (Inr p, put_fs (mput p (File []) (fs w)) w))"

text \<open>A whole number of sectors as a byte offset; \<^verbatim>\<open>Seek\<close> refuses a negative one.\<close>

definition sector :: "int \<Rightarrow> int" where
  "sector n = wrap64 (n * 512)"

definition slice :: "int \<Rightarrow> int \<Rightarrow> string \<Rightarrow> string" where
  "slice off sz c = take (nat sz) (drop (nat off) c)"

definition write_back :: "string \<Rightarrow> Disk \<Rightarrow> int \<Rightarrow> int \<Rightarrow> unit io" where
  "write_back path d start sz =
     then_io (Open path)
     (then_io (Open (d_Path d))
       (if start < 0 then fail_io (IOFault ''seek'')
        else bind_io (ReadFile path) (\<lambda>c.
               then_io (WriteAt (d_Path d) (nat start) (take (nat sz) c)) Sync)))"

definition withData :: "env \<Rightarrow> Disk \<Rightarrow> bool \<Rightarrow> (string \<Rightarrow> 'a io) \<Rightarrow> 'a io" where
  "withData e d write fn =
     bind_io (attempt (partitions e d)) (\<lambda>r.
       case r of
         Inl _ \<Rightarrow> fn (d_Path d)
       | Inr parts \<Rightarrow>
           if length parts \<le> bootIndex then fn (d_Path d)
           else
             let start = sector (pn_Start (parts ! bootIndex));
                 sz = sector (pn_Size (parts ! bootIndex))
             in bind_io (CreateTemp e ''nosaic-data-'' ''.ext4'') (\<lambda>path.
                  deferred (Remove path)
                    (then_io (Open (d_Path d))
                    (then_io (bind_io (ReadFile (d_Path d)) (\<lambda>c. WriteAt path 0 (slice start sz c)))
                    (then_io CloseFile
                    (bind_io (fn path) (\<lambda>x.
                       if \<not> write then return_io x
                       else then_io (write_back path d start sz) (return_io x))))))))"

definition debugfsRun :: "env \<Rightarrow> string \<Rightarrow> bool \<Rightarrow> string \<Rightarrow> string io" where
  "debugfsRun e fsPath write request = fallible ''debugfs'' (\<lambda>w.
     case debugfs e write request fsPath (fs w) of
       ((ok, out), f) \<Rightarrow>
         ((if \<not> ok then Inl (Refused ''debugfs %q: %w'' [Text request, Text out])
           else if Index ''File not found'' out \<noteq> None then Inl (NotExist fsPath)
           else Inr out), put_fs f w))"

definition dump_name :: "env \<Rightarrow> string \<Rightarrow> string \<Rightarrow> (string, string) gomap \<Rightarrow> (string, string) gomap io" where
  "dump_name e fp name out =
     bind_io (CreateTemp e ''nosaic-state-'' []) (\<lambda>path.
       then_io (attempt (Remove path))
       (bind_io (attempt (debugfsRun e fp False (''dump /boot/'' @ name @ '' '' @ path))) (\<lambda>r.
          case r of
            Inl _ \<Rightarrow> return_io out
          | Inr _ \<Rightarrow>
              bind_io (attempt (ReadFile path)) (\<lambda>b.
                then_io (attempt (Remove path))
                  (return_io (case b of Inl _ \<Rightarrow> out | Inr c \<Rightarrow> mput name c out))))))"

text \<open>The loop fills a map the closure shares with its caller, so the map is carried beside it.\<close>

fun dump_names :: "env \<Rightarrow> string \<Rightarrow> string list \<Rightarrow> (string, string) gomap \<Rightarrow> (string, string) gomap io" where
  "dump_names e fp [] out = return_io out"
| "dump_names e fp (n # ns) out = bind_io (dump_name e fp n out) (dump_names e fp ns)"

definition readState :: "env \<Rightarrow> Disk \<Rightarrow> (string, string) gomap io" where
  "readState e d =
     bind_io (fileBacked d) (\<lambda>fb.
       if fb then readStateDir (Join (dataDir d) ''boot'')
       else withData e d False (\<lambda>fp. dump_names e fp state_names []))"

definition debugfs_entry :: "env \<Rightarrow> string \<Rightarrow> string \<times> string \<Rightarrow> unit io \<Rightarrow> unit io" where
  "debugfs_entry e fp = (\<lambda>(name, content) rest.
     bind_io (CreateTemp e ''nosaic-state-'' []) (\<lambda>tmp.
       then_io (WriteAt tmp 0 (content @ [CHR 0x0A]))
         (deferred (Remove tmp)
           (then_io (attempt (debugfsRun e fp True (''rm /boot/'' @ name)))
             (if content = [] then rest
              else then_io (debugfsRun e fp True (''write '' @ tmp @ '' boot/'' @ name)) rest)))))"

text \<open>The temporary files of the loop are removed when the whole loop is done.\<close>

fun debugfs_entries :: "env \<Rightarrow> string \<Rightarrow> (string \<times> string) list \<Rightarrow> unit io" where
  "debugfs_entries e fp [] = return_io ()"
| "debugfs_entries e fp (x # xs) = debugfs_entry e fp x (debugfs_entries e fp xs)"

definition writeState :: "env \<Rightarrow> Disk \<Rightarrow> (string, string) gomap \<Rightarrow> unit io" where
  "writeState e d files =
     bind_io (fileBacked d) (\<lambda>fb.
       if fb then writeStateDir e (Join (dataDir d) ''boot'') files
       else withData e d True (\<lambda>fp. debugfs_entries e fp (map_order e files)))"

section \<open>The boot pointer\<close>

definition read_pointer :: "(string, string) gomap \<Rightarrow> State" where
  "read_pointer files =
     (let v = TrimSpace (field_of files ''active'')
      in \<lparr>Active = (if v \<noteq> [] then v else ''a''),
          Trial = TrimSpace (field_of files ''trial''),
          Tries = (case Atoi (TrimSpace (field_of files ''tries'')) of None \<Rightarrow> 0 | Some n \<Rightarrow> n)\<rparr>)"

definition Status :: "env \<Rightarrow> Disk \<Rightarrow> State io" where
  "Status e d = bind_io (readState e d) (\<lambda>files. return_io (read_pointer files))"

definition unix_major :: "64 word \<Rightarrow> 64 word" where
  "unix_major dev = drop_bit 8 dev AND 0xfff"

definition unix_minor :: "64 word \<Rightarrow> 64 word" where
  "unix_minor dev = dev AND 0xff"

definition rootPartitionStart :: "env \<Rightarrow> int option" where
  "rootPartitionStart e =
     (case root_dev e of
        None \<Rightarrow> None
      | Some dev \<Rightarrow>
          (case sys_block_start e (unix_major dev) (unix_minor dev) of
             None \<Rightarrow> None
           | Some b \<Rightarrow> Atoi (TrimSpace b)))"

definition file_size :: "node \<Rightarrow> int" where
  "file_size n = (case n of Directory \<Rightarrow> 0 | File c \<Rightarrow> int (length c))"

definition installPartition :: "env \<Rightarrow> Disk \<Rightarrow> string \<Rightarrow> nat \<Rightarrow> string \<Rightarrow> unit io" where
  "installPartition e d slot idx img =
     bind_io (partitions e d) (\<lambda>parts.
       if idx \<ge> length parts then fail_io (Refused ''this disk has no slot %s'' [Text slot])
       else
         let p = parts ! idx; limit = sector (pn_Size p)
         in then_io (Open img) (bind_io (Stat img) (\<lambda>fi.
              if rootPartitionStart e = Some (pn_Start p)
              then fail_io (Refused ''slot %s is at sector %d, which is the partition this system is running from; the boot pointer and the kernel disagree about which slot is active, so nothing was written'' [Text slot, Count (pn_Start p)])
              else if file_size fi > limit
              then fail_io (Refused ''the image is %.1f MiB and slot %s is %.1f MiB'' [Count (file_size fi), Text slot, Count limit])
              else
                then_io (Open (d_Path d))
                (if sector (pn_Start p) < 0 then fail_io (IOFault ''seek'')
                 else
                   then_io (copy_to img (d_Path d) (nat (sector (pn_Start p))))
                   (then_io Sync
                   (then_io (clearSlotOverlay d slot)
                     (writeState e d [(''trial'', slot), (''tries'', ''0'')])))))))"

definition Install :: "env \<Rightarrow> Disk \<Rightarrow> string \<Rightarrow> string \<Rightarrow> unit io" where
  "Install e d slot img =
     bind_io (Status e d) (\<lambda>st.
       if slot = Active st
       then fail_io (Refused ''slot %s is the active slot; installing into it would overwrite the running image and leave nothing to roll back to'' [Text slot])
       else bind_io (slotIndex slot) (\<lambda>idx.
         then_io (Open img)
         (then_io (checkSquashfs img)
         (bind_io (fileBacked d) (\<lambda>fb.
            if fb then
              then_io (writeSlotFile e d slot img)
              (then_io (clearSlotOverlay d slot)
                (writeState e d [(''trial'', slot), (''tries'', ''0'')]))
            else installPartition e d slot idx img)))))"

definition Commit :: "env \<Rightarrow> Disk \<Rightarrow> string io" where
  "Commit e d =
     bind_io (Status e d) (\<lambda>st.
       if Trial st = [] then fail_io (Refused ''no trial is in progress: slot %s is already the committed one'' [Text (Active st)])
       else
         let slot = Trial st
         in then_io (writeState e d [(''active'', slot)])
            (then_io (writeState e d [(''trial'', []), (''tries'', [])])
              (return_io slot)))"

definition Inactive :: "env \<Rightarrow> Disk \<Rightarrow> string io" where
  "Inactive e d = bind_io (Status e d) (\<lambda>st. return_io (if Active st = ''b'' then ''a'' else ''b''))"

end
