(* ===== verification/Upgrade_Safety.thy ===== *)
theory Upgrade_Safety
  imports Upgrade "HOL-Library.Multiset"
begin

text \<open>
  What survives a power cut or a failing disk on the file-backed layout: the invariants of every
  content the disk goes through while an image is installed or a trial is committed, and that
  without faults both succeed.
\<close>

section \<open>The boot pointer as the files give it\<close>

definition boot_file :: "Disk \<Rightarrow> string \<Rightarrow> string" where
  "boot_file d n = Join (Join (dataDir d) ''boot'') n"

definition text_of :: "string option \<Rightarrow> string" where
  "text_of c = (case c of None \<Rightarrow> [] | Some s \<Rightarrow> TrimSpace s)"

definition pointer :: "Disk \<Rightarrow> (string \<Rightarrow> string option) \<Rightarrow> State" where
  "pointer d cf =
     (let v = text_of (cf (boot_file d ''active''))
      in \<lparr>Active = (if v \<noteq> [] then v else ''a''), Trial = text_of (cf (boot_file d ''trial'')),
          Tries = (case Atoi (text_of (cf (boot_file d ''tries''))) of None \<Rightarrow> 0 | Some n \<Rightarrow> n)\<rparr>)"

lemma plain_names [simp]: "plain ''active''" "plain ''trial''" "plain ''tries''" "plain ''boot''"
  by (simp_all add: plain_def slash_def)

lemma boot_file_inject [simp]:
  "plain n \<Longrightarrow> plain m \<Longrightarrow> boot_file d n = boot_file d m \<longleftrightarrow> n = m"
  unfolding boot_file_def using Join_inject by blast

lemma field_of_simps [simp]: "field_of [] k = []" "field_of (mput k' v m) k = (if k = k' then v else field_of m k)"
  by (simp_all add: field_of_def)

text \<open>A read that fails is taken for an absent file.\<close>

lemma wp_read_names:
  assumes "\<And>m. (\<And>n. field_of m n = field_of out n \<or> n \<in> set ns \<and> content f (Join dir n) = Some (field_of m n)) \<Longrightarrow> Q m f"
  shows "crash_wp C (read_names dir ns out) Q f"
  using assms
proof (induction ns arbitrary: out)
  case Nil
  then show ?case by (simp add: wp_return)
next
  case (Cons n ns)
  show ?case unfolding read_names.simps
  proof (intro wp_bind wp_attempt_ReadFile, goal_cases)
    case 1
    show ?case by (simp, rule Cons.IH) (use Cons.prems in auto)
  next
    case (2 c)
    have "crash_wp C (read_names dir ns (mput n c out)) Q f"
    proof (rule Cons.IH, rule Cons.prems)
      fix m k assume "\<And>k. field_of m k = field_of (mput n c out) k \<or> k \<in> set ns \<and> content f (Join dir k) = Some (field_of m k)"
      from this [of k] show "field_of m k = field_of out k \<or> k \<in> set (n # ns) \<and> content f (Join dir k) = Some (field_of m k)"
        using 2 by (auto split: if_splits)
    qed
    then show ?case by simp
  qed
qed

lemma wp_Status:
  assumes d: "d_Files d"
    and Q: "\<And>st. Trial st = [] \<or> Trial st = Trial (pointer d (content f)) \<Longrightarrow> Active st = ''a'' \<or> Active st = Active (pointer d (content f)) \<Longrightarrow> Q st f"
  shows "crash_wp C (Status e d) Q f"
  unfolding Status_def readState_def fileBacked_def readStateDir_def
proof (simp add: d, intro wp_bind wp_read_names)
  fix m assume m: "\<And>n. field_of m n = field_of [] n \<or> n \<in> set state_names \<and> content f (Join (Join (dataDir d) ''boot'') n) = Some (field_of m n)"
  show "crash_wp C (return_io (read_pointer m)) Q f"
    using m [of "''active''"] m [of "''trial''"]
    by (intro wp_return Q) (auto simp: read_pointer_def pointer_def Let_def text_of_def boot_file_def)
qed

section \<open>Writing the state files\<close>

lemma wp_write_entry:
  assumes "\<And>j. c \<noteq> [] \<Longrightarrow> j \<le> Suc (length c) \<Longrightarrow> C (mput (Join dir n) (File (take j (c @ [CHR 0x0A]))) f)"
    and "c \<noteq> [] \<Longrightarrow> Q () (mput (Join dir n) (File (c @ [CHR 0x0A])) f)"
    and "c = [] \<Longrightarrow> C (mdel (Join dir n) f)"
    and "\<And>g. c = [] \<Longrightarrow> content g = (content f)(Join dir n := None) \<Longrightarrow> Q () g"
  shows "crash_wp C (write_entry dir (n, c)) Q f"
proof (cases "c = []")
  case True
  have "content f = (content f)(Join dir n := None)" if "mget f (Join dir n) = None"
    using that by (simp add: content_def fun_eq_iff)
  then show ?thesis
    unfolding write_entry_def using True assms(3,4)
    by (auto simp: Let_def not_exist_def split: io_error.split intro!: wp_bind wp_attempt_Remove wp_return wp_fail)
next
  case False
  then show ?thesis
    unfolding write_entry_def using assms(1,2) by (auto simp: Let_def intro!: wp_WriteFile)
qed

definition ranges_over :: "env \<Rightarrow> bool" where
  "ranges_over e \<longleftrightarrow> (\<forall>xs. mset (map_order e xs) = mset xs)"

lemma wp_writeState:
  assumes d: "d_Files d" and e: "ranges_over e" and P: "P (content f)"
    and entries: "\<And>ys g. mset ys = mset files \<Longrightarrow> content g = content f \<Longrightarrow>
      crash_wp (\<lambda>f. P (content f)) (each_io (write_entry (Join (dataDir d) ''boot'')) ys) (\<lambda>_ f. R (content f)) g"
  shows "crash_wp (\<lambda>f. P (content f)) (writeState e d files) (\<lambda>_ f. R (content f)) f"
proof -
  have sync: "crash_wp (\<lambda>f. P (content f)) (syncDir dir) (\<lambda>_ f. R (content f)) g" if "R (content g)" for dir g
    unfolding syncDir_def by (intro wp_then wp_looks looking that)
  have rest: "crash_wp (\<lambda>f. P (content f)) (then_io (each_io (write_entry (Join (dataDir d) ''boot'')) (map_order e files))
      (syncDir dir)) (\<lambda>_ f. R (content f)) g" if "content g = content f" for dir g
    by (rule wp_then, rule crash_wp_mono [OF entries [OF _ that]]) (use e sync in \<open>simp_all add: ranges_over_def\<close>)
  show ?thesis
    unfolding writeState_def fileBacked_def writeStateDir_def
    by (simp add: d wp_then wp_MkdirAll P rest)
qed

lemma mset_single: "mset ys = mset [x] \<Longrightarrow> ys = [x]"
  by simp

lemma mset_pair: "mset ys = mset [x, y] \<Longrightarrow> ys = [x, y] \<or> ys = [y, x]"
proof -
  assume m: "mset ys = mset [x, y]"
  then have "length ys = 2" by (metis size_mset length_Cons list.size(3) numeral_2_eq_2)
  then obtain a b where ys: "ys = [a, b]" by (auto simp: length_Suc_conv numeral_2_eq_2)
  then show ?thesis using m by (auto simp: add_eq_conv_ex)
qed

definition slot_letter :: "string \<Rightarrow> bool" where
  "slot_letter s \<longleftrightarrow> s = ''a'' \<or> s = ''b''"

lemma text_of_prefix: "slot_letter s \<Longrightarrow> text_of (Some (take j (s @ [CHR 0x0A]))) = (if j = 0 then [] else s)"
proof -
  have trim: "TrimSpace ''a'' = ''a''" "TrimSpace ''b'' = ''b''" "TrimSpace [CHR ''a'', CHR 0x0A] = ''a''"
    "TrimSpace [CHR ''b'', CHR 0x0A] = ''b''" by code_simp+
  assume s: "slot_letter s"
  then have len: "length s = 1" by (auto simp: slot_letter_def)
  consider "j = 0" | "j = 1" | "2 \<le> j" by linarith
  then show ?thesis
  proof cases
    case 2
    then have "take j (s @ [CHR 0x0A]) = s" using len by simp
    then show ?thesis using s trim 2 by (auto simp only: text_of_def slot_letter_def option.case zero_neq_one [symmetric] if_False)
  next
    case 3
    then have "take j (s @ [CHR 0x0A]) = s @ [CHR 0x0A]" using len by simp
    then show ?thesis using s trim 3 by (auto simp only: text_of_def slot_letter_def option.case append.simps split: if_split)
  qed (simp add: text_of_def)
qed


section \<open>Installing\<close>

definition tmp_path :: "Disk \<Rightarrow> string \<Rightarrow> string" where
  "tmp_path d slot = slot_path d slot @ ''.new''"

lemma Base_paths [simp]:
  "slot_letter s \<Longrightarrow> Base (slot_path d s) = slotFileName s"
  "slot_letter s \<Longrightarrow> Base (tmp_path d s) = slotFileName s @ ''.new''"
  "plain n \<Longrightarrow> Base (boot_file d n) = n"
proof -
  show s: "slot_letter s \<Longrightarrow> Base (slot_path d s) = slotFileName s" for s
    unfolding slot_path_def by (rule Base_Join) (auto simp: plain_def slot_letter_def slotFileName_def slash_def)
  show "slot_letter s \<Longrightarrow> Base (tmp_path d s) = slotFileName s @ ''.new''"
    unfolding tmp_path_def by (subst Base_append) (simp_all add: s slash_def)
  show "plain n \<Longrightarrow> Base (boot_file d n) = n"
    unfolding boot_file_def by (rule Base_Join)
qed

lemma paths_differ [simp]:
  assumes "slot_letter s" "slot_letter t"
  shows "slot_path d s = slot_path d t \<longleftrightarrow> s = t" "slot_path d s \<noteq> tmp_path d t"
    "\<And>n. n \<in> {''active'', ''trial'', ''tries''} \<Longrightarrow> boot_file d n \<noteq> slot_path d s \<and> boot_file d n \<noteq> tmp_path d s"
proof -
  have "slotFileName s = slotFileName t \<longleftrightarrow> s = t" "slotFileName s \<noteq> slotFileName t @ ''.new''"
    using assms by (auto simp: slotFileName_def slot_letter_def)
  then show "slot_path d s = slot_path d t \<longleftrightarrow> s = t" "slot_path d s \<noteq> tmp_path d t"
    using Base_paths assms by metis+
  fix n assume n: "n \<in> {''active'', ''trial'', ''tries''}"
  then have "n \<noteq> slotFileName s" "n \<noteq> slotFileName s @ ''.new''" "plain n" by (auto simp: slotFileName_def)
  then show "boot_file d n \<noteq> slot_path d s \<and> boot_file d n \<noteq> tmp_path d s"
    using Base_paths assms(1) by metis
qed

lemma slot_not_boot [simp]:
  assumes "slot_letter s" "n \<in> {''active'', ''trial'', ''tries''}"
  shows "slot_path d s \<noteq> boot_file d n" "boot_file d n \<noteq> slot_path d s"
    "tmp_path d s \<noteq> boot_file d n" "boot_file d n \<noteq> tmp_path d s"
  using paths_differ(3) [OF assms(1) assms(1) assms(2)] by metis+

lemma wp_or_remove:
  assumes "crash_wp C m Q f" "\<And>g. C g \<Longrightarrow> C (mdel tmp g)"
  shows "crash_wp C (or_remove tmp m) Q f"
  unfolding or_remove_def
proof (intro wp_bind wp_attempt)
  show "crash_wp C m (\<lambda>x. crash_wp C (case Inr x of Inl err \<Rightarrow> then_io (attempt (Remove tmp)) (fail_io err)
      | Inr _ \<Rightarrow> return_io ()) Q) f"
    by (rule crash_wp_mono [OF assms(1)]) (simp add: wp_return)
  fix e g assume "C g"
  then show "crash_wp C (case Inl e of Inl err \<Rightarrow> then_io (attempt (Remove tmp)) (fail_io err)
      | Inr _ \<Rightarrow> return_io ()) Q g"
    by (simp, intro wp_then wp_attempt wp_Remove wp_fail assms(2))
qed

text \<open>Everything but the slot file and its temporary stays; the slot file is the old one or the whole
  image.\<close>

definition staged :: "string \<Rightarrow> string \<Rightarrow> string \<Rightarrow> (string \<Rightarrow> string option) \<Rightarrow> (string \<Rightarrow> string option) \<Rightarrow> bool" where
  "staged dst tmp img old cf \<longleftrightarrow>
     (\<forall>q. q \<noteq> dst \<longrightarrow> q \<noteq> tmp \<longrightarrow> cf q = old q) \<and> (cf dst = old dst \<or> cf dst = old img)"

lemma looks_check [looking]: "looks (checkSquashfs img)"
  by (simp add: checkSquashfs_def looking)

lemma wp_checkSquashfs: "(\<And>x. Q x f) \<Longrightarrow> crash_wp C (checkSquashfs img) Q f"
  by (rule wp_looks [OF looks_check])

lemma wp_writeSlotFile:
  assumes s: "slot_letter slot" and img: "img \<noteq> tmp_path d slot" and f: "content f = old"
    and C: "\<And>g. staged (slot_path d slot) (tmp_path d slot) img old (content g) \<Longrightarrow> C g"
    and del: "\<And>g. C g \<Longrightarrow> C (mdel (tmp_path d slot) g)"
    and Q: "\<And>g. staged (slot_path d slot) (tmp_path d slot) img old (content g) \<Longrightarrow>
      content g (slot_path d slot) = old img \<Longrightarrow> Q () g"
  shows "crash_wp C (writeSlotFile e d slot img) Q f"
proof -
  let ?dst = "slot_path d slot" and ?tmp = "tmp_path d slot"
  have [simp]: "?dst \<noteq> ?tmp" using s by simp
  have sync: "crash_wp C (syncDir dir) Q g" if "staged ?dst ?tmp img old (content g)" "content g ?dst = old img" for dir g
    unfolding syncDir_def by (intro wp_then wp_looks looking) (simp add: Q that)
  have rename: "crash_wp C (then_io (or_remove ?tmp (Rename ?tmp ?dst)) (syncDir (d_Path d))) Q g"
    if g: "content g = old(?tmp := Some c)" and c: "old img = Some c" for g c
  proof (intro wp_then wp_or_remove wp_Rename del)
    fix n assume "mget g ?tmp = Some n"
    moreover have "content g ?tmp = Some c" by (simp add: g)
    ultimately have "n = File c" by (simp add: content_def split: node.splits)
    then have "content (mput ?dst n (mdel ?tmp g)) = old(?tmp := None, ?dst := Some c)" by (simp add: g)
    then have "staged ?dst ?tmp img old (content (mput ?dst n (mdel ?tmp g)))"
      "content (mput ?dst n (mdel ?tmp g)) ?dst = old img"
      using c by (simp_all add: staged_def)
    then show "C (mput ?dst n (mdel ?tmp g)) \<and> crash_wp C (syncDir (d_Path d)) Q (mput ?dst n (mdel ?tmp g))"
      using C sync by blast
  qed
  have grown: "staged ?dst ?tmp img old (old(?tmp := Some x))" for x by (simp add: staged_def)
  have copy: "crash_wp C (or_remove ?tmp (copy_to img ?tmp 0)) (\<lambda>_ g. \<exists>c. content g = old(?tmp := Some c) \<and> old img = Some c) g"
    if g: "content g = old(?tmp := Some [])" for g
    unfolding copy_to_def
  proof (intro wp_or_remove wp_bind wp_ReadFile wp_WriteAt del)
    fix c x j assume "content g img = Some c" "mget g ?tmp = Some (File x)"
    then have x: "x = []" "old img = Some c" using g img by (auto simp: content_def fun_eq_iff split: if_splits)
    then have w: "content (written ?tmp 0 x c j g) = old(?tmp := Some (take j c))" for j
      using g by (simp add: written_def overwrite_def)
    then show "C (written ?tmp 0 x c j g)" using C grown by simp
    show "\<exists>c'. content (if c = [] then g else written ?tmp 0 x c (length c) g) = old(?tmp := Some c') \<and> old img = Some c'"
      using w [of "length c"] g x(2) by (intro exI [of _ c]) simp
  qed
  show ?thesis
    unfolding writeSlotFile_def Let_def tmp_path_def [symmetric]
  proof (intro wp_if wp_fail wp_then wp_look wp_checkSquashfs wp_Truncate)
    show "C (mput ?tmp (File []) f)" by (rule C) (simp add: f grown)
    let ?rest = "then_io (or_remove ?tmp Sync) (then_io (or_remove ?tmp CloseFile)
      (then_io (or_remove ?tmp (Rename ?tmp ?dst)) (syncDir (d_Path d))))"
    show "crash_wp C (or_remove ?tmp (copy_to img ?tmp 0)) (\<lambda>_. crash_wp C ?rest Q) (mput ?tmp (File []) f)"
    proof (rule crash_wp_mono [OF copy])
      show "content (mput ?tmp (File []) f) = old(?tmp := Some [])" by (simp add: f)
      fix g assume "\<exists>c. content g = old(?tmp := Some c) \<and> old img = Some c"
      then show "crash_wp C ?rest Q g"
        using rename by (auto intro!: wp_or_remove wp_look del wp_then [of _ "or_remove ?tmp Sync"] wp_then [of _ "or_remove ?tmp CloseFile"])
    qed
  qed
qed

text \<open>The paths of a slot's writable layer.\<close>

definition layer :: "Disk \<Rightarrow> string \<Rightarrow> string \<Rightarrow> bool" where
  "layer d slot q \<longleftrightarrow>
     list_ex (\<lambda>sub. q = Join (overlay_dir d slot) sub \<or> is_below (Join (overlay_dir d slot) sub) q) [''upper'', ''work'']"

lemma wp_clearSlotOverlay:
  assumes d: "d_Files d"
    and C: "\<And>g. (\<And>q. \<not> layer d slot q \<Longrightarrow> content g q = content f q) \<Longrightarrow> C g"
    and Q: "\<And>g. (\<And>q. \<not> layer d slot q \<Longrightarrow> content g q = content f q) \<Longrightarrow> Q () g"
  shows "crash_wp C (clearSlotOverlay d slot) Q f"
proof -
  let ?I = "\<lambda>g. \<forall>q. \<not> layer d slot q \<longrightarrow> content g q = content f q"
  have one: "crash_wp C (clear_layer slot (overlay_dir d slot) sub) (\<lambda>_. ?I) g"
    if sub: "sub \<in> set [''upper'', ''work'']" and g: "?I g" for sub g
  proof -
    let ?p = "Join (overlay_dir d slot) sub"
    have gone: "?I g'" if "content g' = content (remove_all ?p g)" for g'
      using that g sub by (auto simp: layer_def)
    have "crash_wp C (MkdirAll ?p) (\<lambda>_. ?I) (remove_all ?p g)"
      using gone C by (intro wp_MkdirAll) (auto simp del: content_simps)
    moreover have "C (remove_all ?p g)" using gone C by blast
    moreover have "crash_wp C (fail_io x) (\<lambda>_. ?I) g'" for x :: io_error and g' by (rule wp_fail)
    ultimately show ?thesis
      unfolding clear_layer_def Let_def using g
      by (intro wp_bind wp_attempt_looks looking)
        (auto split: sum.split intro!: wp_return wp_bind wp_attempt wp_RemoveAll)
  qed
  have all: "crash_wp C (each_io (clear_layer slot (overlay_dir d slot)) [''upper'', ''work'']) (\<lambda>_. ?I) f"
    by (rule wp_inv_each [where I = ?I, OF one]) auto
  have "crash_wp C (then_io (each_io (clear_layer slot (overlay_dir d slot)) [''upper'', ''work'']) (syncDir dir)) Q f" for dir
    by (rule wp_then, rule crash_wp_mono [OF all], simp add: syncDir_def, intro wp_then wp_look) (simp add: Q)
  then show ?thesis
    unfolding clearSlotOverlay_def fileBacked_def using Q
    by (simp add: d, intro wp_bind wp_attempt_looks looking wp_if wp_return) auto
qed

lemma wp_slotIndex: "(\<And>i. slot_letter s \<Longrightarrow> Q i f) \<Longrightarrow> crash_wp C (slotIndex s) Q f"
  by (auto simp: slotIndex_def slot_letter_def intro: wp_return wp_fail)

lemma wp_fileBacked: "d_Files d \<Longrightarrow> Q True f \<Longrightarrow> crash_wp C (fileBacked d) Q f"
  by (simp add: fileBacked_def wp_return)

text \<open>The writable layer of a slot lies beside the boot state and the slot files, not above them.\<close>

definition beside :: "Disk \<Rightarrow> string \<Rightarrow> bool" where
  "beside d slot \<longleftrightarrow>
     list_all (\<lambda>n. \<not> layer d slot (boot_file d n)) state_names \<and>
     list_all (\<lambda>s. \<not> layer d slot (slot_path d s)) [''a'', ''b'']"

text \<open>What holds of every content the disk goes through while an image is installed.\<close>

definition install_inv :: "Disk \<Rightarrow> string \<Rightarrow> string \<Rightarrow> (string \<Rightarrow> string option) \<Rightarrow> (string \<Rightarrow> string option) \<Rightarrow> bool" where
  "install_inv d slot img old cf \<longleftrightarrow>
     Active (pointer d cf) = Active (pointer d old) \<and>
     (\<forall>s. slot_letter s \<longrightarrow> s \<noteq> slot \<longrightarrow> cf (slot_path d s) = old (slot_path d s)) \<and>
     (cf (slot_path d slot) = old (slot_path d slot) \<or> cf (slot_path d slot) = old img) \<and>
     Trial (pointer d cf) \<in> {Trial (pointer d old), [], slot} \<and>
     (Trial (pointer d cf) = slot \<longrightarrow> Trial (pointer d old) = slot \<or> cf (slot_path d slot) = old img)"

lemma wp_write_trial:
  assumes s: "slot_letter slot" and d: "d_Files d" and e: "ranges_over e" and dst: "content f (slot_path d slot) = old img"
    and others: "\<And>s. slot_letter s \<Longrightarrow> s \<noteq> slot \<Longrightarrow> content f (slot_path d s) = old (slot_path d s)"
    and state: "\<And>n. n \<in> {''active'', ''trial'', ''tries''} \<Longrightarrow> content f (boot_file d n) = old (boot_file d n)"
  shows "crash_wp (\<lambda>f. install_inv d slot img old (content f)) (writeState e d [(''trial'', slot), (''tries'', ''0'')])
    (\<lambda>_ f. content f (slot_path d slot) = old img \<and>
       pointer d (content f) = \<lparr>Active = Active (pointer d old), Trial = slot, Tries = 0\<rparr>) f"
proof (rule wp_writeState [OF d e])
  define W where "W cf \<longleftrightarrow> (\<forall>s. slot_letter s \<longrightarrow> cf (slot_path d s) = (if s = slot then old img else old (slot_path d s))) \<and>
    cf (boot_file d ''active'') = old (boot_file d ''active'') \<and>
    text_of (cf (boot_file d ''trial'')) \<in> {Trial (pointer d old), [], slot}" for cf
  have W: "install_inv d slot img old cf" if "W cf" for cf
    using that s by (auto simp: W_def install_inv_def pointer_def Let_def)
  have start: "W (content g)" if "content g = content f" for g
    using that dst others state by (auto simp: W_def pointer_def Let_def)
  show "install_inv d slot img old (content f)" by (rule W [OF start]) simp
  let ?C = "\<lambda>f. install_inv d slot img old (content f)"
  let ?dir = "Join (dataDir d) ''boot''"
  let ?trial = "Some (slot @ [CHR 0x0A])" and ?tries = "Some [CHR ''0'', CHR 0x0A]"
  have trial: "crash_wp ?C (write_entry ?dir (''trial'', slot))
      (\<lambda>_ h. W (content h) \<and> content h = (content g)(boot_file d ''trial'' := ?trial)) g" if g: "W (content g)" for g
  proof (rule wp_write_entry)
    have upd: "W ((content g)(boot_file d ''trial'' := Some (take j (slot @ [CHR 0x0A]))))" for j
      using g s text_of_prefix [OF s, of j] by (auto simp: W_def)
    then show "?C (mput (Join ?dir ''trial'') (File (take j (slot @ [CHR 0x0A]))) g)" for j
      using W by (simp flip: boot_file_def)
    show "W (content (mput (Join ?dir ''trial'') (File (slot @ [CHR 0x0A])) g)) \<and>
        content (mput (Join ?dir ''trial'') (File (slot @ [CHR 0x0A])) g) = (content g)(boot_file d ''trial'' := ?trial)"
      using upd [of "Suc (length slot)"] by (simp flip: boot_file_def)
  qed (use s in \<open>auto simp: slot_letter_def\<close>)
  have tries: "crash_wp ?C (write_entry ?dir (''tries'', ''0''))
      (\<lambda>_ h. W (content h) \<and> content h = (content g)(boot_file d ''tries'' := ?tries)) g" if g: "W (content g)" for g
  proof (rule wp_write_entry)
    have upd: "W ((content g)(boot_file d ''tries'' := x))" for x using g s by (auto simp: W_def)
    then show "?C (mput (Join ?dir ''tries'') (File (take j (''0'' @ [CHR 0x0A]))) g)" for j
      using W by (simp flip: boot_file_def)
    show "W (content (mput (Join ?dir ''tries'') (File (''0'' @ [CHR 0x0A])) g)) \<and>
        content (mput (Join ?dir ''tries'') (File (''0'' @ [CHR 0x0A])) g) = (content g)(boot_file d ''tries'' := ?tries)"
      using upd by (simp flip: boot_file_def)
  qed simp_all
  fix ys :: "(string \<times> string) list" and g
  assume ys: "mset ys = mset [(''trial'', slot), (''tries'', ''0'')]" and g: "content g = content f"
  let ?R = "\<lambda>f. content f (slot_path d slot) = old img \<and>
       pointer d (content f) = \<lparr>Active = Active (pointer d old), Trial = slot, Tries = 0\<rparr>"
  have zero: "Atoi (text_of ?tries) = Some 0" by code_simp
  have fin: "?R h" if "W (content h)" "content h (boot_file d ''trial'') = ?trial" "content h (boot_file d ''tries'') = ?tries" for h
    using that s text_of_prefix [OF s, of "Suc (length slot)"] zero by (simp add: W_def pointer_def Let_def)
  have "crash_wp ?C (each_io (write_entry ?dir) [(''trial'', slot), (''tries'', ''0'')]) (\<lambda>_. ?R) g"
    unfolding each_io.simps
    by (intro wp_then, rule crash_wp_mono [OF trial [OF start [OF g]]], rule wp_then,
        rule crash_wp_mono [OF tries], blast, rule wp_return, rule fin) auto
  moreover have "crash_wp ?C (each_io (write_entry ?dir) [(''tries'', ''0''), (''trial'', slot)]) (\<lambda>_. ?R) g"
    unfolding each_io.simps
    by (intro wp_then, rule crash_wp_mono [OF tries [OF start [OF g]]], rule wp_then,
        rule crash_wp_mono [OF trial], blast, rule wp_return, rule fin) auto
  ultimately show "crash_wp ?C (each_io (write_entry ?dir) ys) (\<lambda>_. ?R) g"
    using mset_pair [OF ys] by auto
qed

text \<open>C3: on a board whose slots are files, an install survives a power cut anywhere and any failing
  read, write, rename or sync. On every content the disk goes through the committed slot is the one
  before, the other slot's image is untouched, the target's is the old image or the whole new one,
  and the target is on trial only once the whole new image is in place. When the call succeeds the
  image is in place and on its first try.\<close>

theorem Install_crash_safe:
  assumes d: "d_Files d" and e: "ranges_over e" and w: "past w = []" and b: "beside d slot"
    and img: "img \<noteq> tmp_path d slot"
  shows "(\<forall>f \<in> set (crash_states (snd (Install e d slot img w))). install_inv d slot img (content (fs w)) (content f)) \<and>
         (\<forall>u. fst (Install e d slot img w) = Inr u \<longrightarrow>
            content (fs (snd (Install e d slot img w))) (slot_path d slot) = content (fs w) img \<and>
            pointer d (content (fs (snd (Install e d slot img w)))) =
              \<lparr>Active = Active (pointer d (content (fs w))), Trial = slot, Tries = 0\<rparr>)"
proof -
  let ?old = "content (fs w)"
  let ?C = "\<lambda>f. install_inv d slot img ?old (content f)"
  let ?Q = "\<lambda>_ f. content f (slot_path d slot) = ?old img \<and>
     pointer d (content f) = \<lparr>Active = Active (pointer d ?old), Trial = slot, Tries = 0\<rparr>"
  have files: "crash_wp ?C (then_io (writeSlotFile e d slot img) (then_io (clearSlotOverlay d slot)
      (writeState e d [(''trial'', slot), (''tries'', ''0'')]))) ?Q (fs w)" if s: "slot_letter slot"
  proof (rule wp_then, rule wp_writeSlotFile [OF s img refl])
    let ?st = "staged (slot_path d slot) (tmp_path d slot) img ?old"
    have slots: "cf (slot_path d s) = ?old (slot_path d s)" if "?st cf" "slot_letter s" "s \<noteq> slot" for cf s
      using that \<open>slot_letter slot\<close> by (simp add: staged_def)
    have boot: "cf (boot_file d n) = ?old (boot_file d n)" if "?st cf" "n \<in> {''active'', ''trial'', ''tries''}" for cf n
      using that s by (simp add: staged_def)
    show C: "?C g" if "?st (content g)" for g
      using slots [OF that] boot [OF that] that by (auto simp: install_inv_def pointer_def Let_def staged_def)
    show "?C (mdel (tmp_path d slot) g)" if "?C g" for g
      using that s by (simp add: install_inv_def pointer_def Let_def)
    fix g assume st: "?st (content g)" and dst: "content g (slot_path d slot) = ?old img"
    have keep: "\<not> layer d slot (boot_file d n)" if "n \<in> {''active'', ''trial'', ''tries''}" for n
      using b that by (auto simp: beside_def state_names_def)
    have keep': "\<not> layer d slot (slot_path d s)" if "slot_letter s" for s
      using b that by (auto simp: beside_def slot_letter_def)
    show "crash_wp ?C (then_io (clearSlotOverlay d slot) (writeState e d [(''trial'', slot), (''tries'', ''0'')])) ?Q g"
    proof (rule wp_then, rule wp_clearSlotOverlay [OF d])
      fix h assume h: "\<And>q. \<not> layer d slot q \<Longrightarrow> content h q = content g q"
      have st': "content h (boot_file d n) = ?old (boot_file d n)" if "n \<in> {''active'', ''trial'', ''tries''}" for n
        using h keep boot [OF st] that by simp
      have sl': "content h (slot_path d s) = ?old (slot_path d s)" if "slot_letter s" "s \<noteq> slot" for s
        using h keep' slots [OF st] that by simp
      have dst': "content h (slot_path d slot) = ?old img" using h keep' s dst by simp
      show "?C h" using st' sl' dst' by (auto simp: install_inv_def pointer_def Let_def)
      show "crash_wp ?C (writeState e d [(''trial'', slot), (''tries'', ''0'')]) ?Q h"
        by (rule wp_write_trial [OF s d e]) (use st' sl' dst' in auto)
    qed
  qed
  have "crash_wp ?C (Install e d slot img) ?Q (fs w)"
    unfolding Install_def
    by (rule wp_bind, rule wp_Status [OF d], rule wp_if, rule wp_fail, rule wp_bind, rule wp_slotIndex, rule wp_then,
        rule wp_look(2), rule wp_then, rule wp_checkSquashfs, rule wp_bind, rule wp_fileBacked [OF d], simp add: files)
  from crash_wpD [OF this _ w] show ?thesis
    by (auto simp: list_all_iff install_inv_def)
qed

section \<open>The slot in use\<close>

lemma looks_read_names [looking]: "looks (read_names dir ns out)"
  by (induction ns arbitrary: out) (auto intro!: looking split: sum.split)

lemma looks_slotIndex [looking]: "looks (slotIndex s)"
  by (auto simp: slotIndex_def intro: looking)

lemma looks_Status: "d_Files d \<Longrightarrow> looks (Status e d)"
  by (simp add: Status_def readState_def fileBacked_def readStateDir_def looking)

text \<open>C35: a slot file the kernel has loop-mounted is never written, whatever the boot pointer says and
  whatever fails: the install is refused and nothing on the disk has changed at any moment.\<close>

theorem Install_refuses_running_slot:
  assumes "d_Files d" "Abs e (slot_path d slot) = Some p" "p \<in> set (loopBackingFiles e)"
  shows "isl (fst (Install e d slot img w)) \<and> crash_states (snd (Install e d slot img w)) = crash_states w"
proof -
  have "writeSlotFile e d slot img = fail_io (Refused
      ''slot %s is loop-mounted right now (%s); writing it would corrupt the running system'' [Text slot, Text p])"
    using assms by (simp add: writeSlotFile_def Let_def)
  then have install: "Install e d slot img = bind_io (Status e d) (\<lambda>st.
      if slot = Active st
      then fail_io (Refused ''slot %s is the active slot; installing into it would overwrite the running image and leave nothing to roll back to'' [Text slot])
      else bind_io (slotIndex slot) (\<lambda>idx. then_io (Open img) (then_io (checkSquashfs img) (fail_io (Refused
      ''slot %s is loop-mounted right now (%s); writing it would corrupt the running system'' [Text slot, Text p])))))"
    using assms(1) by (simp add: Install_def fileBacked_def cong: if_cong)
  have "looks (Install e d slot img)"
    unfolding install by (intro looks_bind looks_Status [OF assms(1)] looks_if looks_basic looks_slotIndex looks_then looks_ops looks_check)
  moreover have "crash_wp (\<lambda>_. True) (Install e d slot img) (\<lambda>_ _. False) (fs w)"
    unfolding install by (intro wp_bind wp_Status [OF assms(1)] wp_if wp_fail wp_slotIndex wp_then wp_look wp_checkSquashfs)
  then have "isl (fst (Install e d slot img w))"
    by (cases "fst (Install e d slot img w)") (simp_all add: crash_wp_def list_all_iff)
  ultimately show ?thesis by (simp add: crash_states_def looks_def)
qed

section \<open>An upgrade without faults\<close>

text \<open>The boot directory is there and can hold the state files.\<close>

definition mounted :: "Disk \<Rightarrow> fsys \<Rightarrow> bool" where
  "mounted d f \<longleftrightarrow>
     list_all (\<lambda>q. mget f q = Some Directory) (dirs_to (Join (dataDir d) ''boot'')) \<and>
     list_all (\<lambda>n. mget f (boot_file d n) \<noteq> Some Directory \<and> Dirname (boot_file d n) = Join (dataDir d) ''boot'') state_names"

lemma mounted_upd:
  assumes "mounted d f" "mget f p \<noteq> Some Directory"
  shows "mounted d (mput p (File c) f)" "mounted d (mdel p f)"
  using assms by (auto simp: mounted_def list_all_iff)

lemma mounted_boot: "mounted d f \<Longrightarrow> mget f (Join (dataDir d) ''boot'') = Some Directory"
  by (auto simp: mounted_def dirs_to_def list_all_iff dest!: bspec [where x = "length (Join (dataDir d) ''boot'')"])

lemma mounted_file:
  "mounted d f \<Longrightarrow> n \<in> set state_names \<Longrightarrow> mget f (boot_file d n) \<noteq> Some Directory \<and> parent_ok f (boot_file d n)"
  using mounted_boot by (auto simp: mounted_def list_all_iff parent_ok_def)

lemma sure_read_names:
  assumes "\<And>m. (\<And>n. field_of m n = (if n \<in> set ns then case content f (Join dir n) of None \<Rightarrow> field_of out n | Some c \<Rightarrow> c
      else field_of out n)) \<Longrightarrow> Q m f"
  shows "sure (read_names dir ns out) Q f"
  using assms
proof (induction ns arbitrary: out)
  case Nil
  then show ?case by (simp add: live)
next
  case (Cons n ns)
  show ?case unfolding read_names.simps
    by (intro sure_bind sure_attempt_ReadFile; simp; rule Cons.IH; rule Cons.prems)
      (auto split: option.splits)
qed

lemma sure_Status:
  assumes "d_Files d" "Q (pointer d (content f)) f"
  shows "sure (Status e d) Q f"
  unfolding Status_def readState_def fileBacked_def readStateDir_def
proof (simp add: assms(1), intro sure_bind sure_read_names sure_return)
  fix m assume m: "\<And>n. field_of m n = (if n \<in> set state_names then case content f (Join (Join (dataDir d) ''boot'') n) of
      None \<Rightarrow> field_of [] n | Some c \<Rightarrow> c else field_of [] n)"
  have "TrimSpace (field_of m n) = text_of (content f (boot_file d n))" if "n \<in> set state_names" for n
    using m [of n] that by (simp add: text_of_def boot_file_def split: option.split)
  then have "read_pointer m = pointer d (content f)"
    by (simp add: read_pointer_def pointer_def state_names_def)
  then show "Q (read_pointer m) f" using assms(2) by simp
qed

lemma sure_write_entry:
  assumes "mounted d f" "n \<in> set state_names"
    and "Q () (if c = [] then mdel (boot_file d n) f else mput (boot_file d n) (File (c @ [CHR 0x0A])) f)"
  shows "sure (write_entry (Join (dataDir d) ''boot'') (n, c)) Q f"
proof -
  have absent: "mdel (boot_file d n) f = f" if "mget f (boot_file d n) = None"
    using that by (simp add: map_of_eq_None_iff delete_id)
  show ?thesis
    unfolding write_entry_def using mounted_file [OF assms(1,2)] assms(3) absent
    by (auto simp: Let_def not_exist_def simp flip: boot_file_def intro!: live sure_attempt_Remove)
qed

lemma sure_writeState:
  assumes d: "d_Files d" and e: "ranges_over e" and m: "mounted d f"
    and entries: "\<And>ys. mset ys = mset files \<Longrightarrow>
      sure (each_io (write_entry (Join (dataDir d) ''boot'')) ys) (\<lambda>_ g. mounted d g \<and> Q () g) f"
  shows "sure (writeState e d files) Q f"
proof -
  have sync: "sure (syncDir (Join (dataDir d) ''boot'')) Q g" if "mounted d g" "Q () g" for g
    unfolding syncDir_def using mounted_boot [OF that(1)] that(2) by (auto intro!: live)
  have "sure (then_io (each_io (write_entry (Join (dataDir d) ''boot'')) (map_order e files)) (syncDir (Join (dataDir d) ''boot''))) Q f"
    by (rule sure_then, rule sure_mono [OF entries]) (use e sync in \<open>auto simp: ranges_over_def\<close>)
  then show ?thesis
    using m unfolding writeState_def fileBacked_def writeStateDir_def
    by (simp add: d mounted_def sure_then sure_MkdirAll)
qed

definition set_entry :: "Disk \<Rightarrow> string \<times> string \<Rightarrow> fsys \<Rightarrow> fsys" where
  "set_entry d = (\<lambda>(n, c) f.
     if c = [] then mdel (boot_file d n) f else mput (boot_file d n) (File (c @ [CHR 0x0A])) f)"

lemma set_entry_simps:
  "mounted d f \<Longrightarrow> n \<in> set state_names \<Longrightarrow> mounted d (set_entry d (n, c) f)"
  "content (set_entry d (n, c) f) = (content f)(boot_file d n := if c = [] then None else Some (c @ [CHR 0x0A]))"
  "mget (set_entry d (n, c) f) q = (if q = boot_file d n then if c = [] then None else Some (File (c @ [CHR 0x0A])) else mget f q)"
  using mounted_upd [of d f] mounted_file [of d f n] by (simp_all add: set_entry_def)

lemma sure_write_entries:
  "mounted d f \<Longrightarrow> set (map fst ys) \<subseteq> set state_names \<Longrightarrow>
   (mounted d (fold (set_entry d) ys f) \<Longrightarrow> Q () (fold (set_entry d) ys f)) \<Longrightarrow>
   sure (each_io (write_entry (Join (dataDir d) ''boot'')) ys) Q f"
proof (induction ys arbitrary: f)
  case Nil
  then show ?case by (simp add: live)
next
  case (Cons x ys)
  obtain n c where x: "x = (n, c)" by (cases x)
  have "sure (write_entry (Join (dataDir d) ''boot'') (n, c))
      (\<lambda>_. sure (each_io (write_entry (Join (dataDir d) ''boot'')) ys) Q) f"
  proof (rule sure_write_entry [OF Cons.prems(1)])
    show "n \<in> set state_names" using Cons.prems(2) x by simp
    then have "sure (each_io (write_entry (Join (dataDir d) ''boot'')) ys) Q (set_entry d (n, c) f)"
      using Cons.prems x set_entry_simps(1) by (intro Cons.IH) auto
    then show "sure (each_io (write_entry (Join (dataDir d) ''boot'')) ys) Q
        (if c = [] then mdel (boot_file d n) f else mput (boot_file d n) (File (c @ [CHR 0x0A])) f)"
      by (simp add: set_entry_def)
  qed
  then show ?case by (simp add: x sure_then)
qed

lemma sure_writeStates:
  assumes "d_Files d" "ranges_over e" "mounted d f" "set (map fst files) \<subseteq> set state_names"
    and "\<And>ys. mset ys = mset files \<Longrightarrow> mounted d (fold (set_entry d) ys f) \<Longrightarrow> Q () (fold (set_entry d) ys f)"
  shows "sure (writeState e d files) Q f"
proof (rule sure_writeState [OF assms(1-3)])
  fix ys assume ys: "mset ys = mset files"
  then have "set (map fst ys) \<subseteq> set state_names" using assms(4) by (metis mset_map set_mset_mset)
  then show "sure (each_io (write_entry (Join (dataDir d) ''boot'')) ys) (\<lambda>_ g. mounted d g \<and> Q () g) f"
    using assms(5) [OF ys] by (intro sure_write_entries [OF assms(3)]) auto
qed

text \<open>What an install needs of the target slot: the image, room for the file and its temporary beside it,
  no writable layer of an earlier boot, and that nothing is mounted from it.\<close>

definition installable :: "env \<Rightarrow> Disk \<Rightarrow> string \<Rightarrow> string \<Rightarrow> string \<Rightarrow> fsys \<Rightarrow> bool" where
  "installable e d slot img c f \<longleftrightarrow>
     content f img = Some c \<and> take 4 c = ''hsqs'' \<and> slot_letter slot \<and> slot \<noteq> Active (pointer d (content f)) \<and>
     img \<noteq> tmp_path d slot \<and>
     mget f (d_Path d) = Some Directory \<and>
     mget f (slot_path d slot) \<noteq> Some Directory \<and> Dirname (slot_path d slot) = d_Path d \<and>
     mget f (tmp_path d slot) \<noteq> Some Directory \<and> Dirname (tmp_path d slot) = d_Path d \<and>
     mget f (overlay_dir d slot) \<noteq> Some Directory \<and>
     (case Abs e (slot_path d slot) of None \<Rightarrow> True | Some a \<Rightarrow> a \<notin> set (loopBackingFiles e))"

lemma sure_Install:
  assumes d: "d_Files d" and e: "ranges_over e" and m: "mounted d f" and i: "installable e d slot img c f"
    and Q: "\<And>g. mounted d g \<Longrightarrow> pointer d (content g) = \<lparr>Active = Active (pointer d (content f)), Trial = slot, Tries = 0\<rparr> \<Longrightarrow> Q () g"
  shows "sure (Install e d slot img) Q f"
proof -
  let ?dst = "slot_path d slot" and ?tmp = "tmp_path d slot"
  note i = i [unfolded installable_def]
  have s: "slot_letter slot" and c: "content f img = Some c" "take 4 c = ''hsqs''" using i by simp_all
  have len: "\<not> length c < 4" using arg_cong [OF c(2), of length] by simp
  let ?g = "mput ?dst (File c) (mdel ?tmp (mput ?tmp (File c) f))"
  have dirs: "mget ?g q = Some Directory" if "mget f q = Some Directory" for q using i that by auto
  have mg: "mounted d ?g" using m i by (intro mounted_upd) auto
  have p: "pointer d (content (fold (set_entry d) ys ?g)) = \<lparr>Active = Active (pointer d (content f)), Trial = slot, Tries = 0\<rparr>"
    if ys: "mset ys = mset [(''trial'', slot), (''tries'', ''0'')]" for ys
  proof -
    have "Atoi (text_of (Some [CHR ''0'', CHR 0x0A])) = Some 0" by code_simp
    moreover have "slot \<noteq> []" using s by (auto simp: slot_letter_def)
    ultimately show ?thesis
      using mset_pair [OF ys] text_of_prefix [OF s, of "Suc (length slot)"] s
      by (elim disjE) (simp_all add: set_entry_simps pointer_def Let_def)
  qed
  have state: "sure (writeState e d [(''trial'', slot), (''tries'', ''0'')]) Q ?g"
    by (rule sure_writeStates [OF d e mg]) (use p Q in \<open>auto simp: state_names_def\<close>)
  have "mget ?g (overlay_dir d slot) \<noteq> Some Directory" using i by auto
  then have clear: "sure (then_io (clearSlotOverlay d slot) (writeState e d [(''trial'', slot), (''tries'', ''0'')])) Q ?g"
    unfolding clearSlotOverlay_def fileBacked_def using state d
    by (auto intro!: live split: option.split)
  have node: "mget f img = Some (File c)" using c(1) by (auto simp: content_def split: option.splits node.splits)
  have check: "sure (checkSquashfs img) R f" if "R () f" for R
    unfolding checkSquashfs_def using that by (intro sure_bind sure_ReadFile [OF c(1)]) (simp add: len c(2) sure_return)
  have orr: "sure (or_remove ?tmp k) R h" if "sure k R h" for k :: "unit io" and R h
    unfolding or_remove_def by (intro sure_bind sure_attempt sure_mono [OF that]) (simp add: sure_return)
  have "sure (writeSlotFile e d slot img) (\<lambda>_. sure (then_io (clearSlotOverlay d slot)
      (writeState e d [(''trial'', slot), (''tries'', ''0'')])) Q) f"
    (is "sure _ ?R f")
  proof -
    let ?h = "mput ?tmp (File c) f"
    have loop: "\<not> (case Abs e ?dst of None \<Rightarrow> False | Some a \<Rightarrow> a \<in> set (loopBackingFiles e))"
      using i by (auto split: option.splits)
    have copy: "sure (or_remove ?tmp (copy_to img ?tmp 0)) R (mput ?tmp (File []) f)" if "R () ?h" for R
      unfolding copy_to_def using that i len c
      by (intro orr sure_bind sure_ReadFile [where c = c] sure_WriteAt [where old = "[]"])
        (auto simp: written_def overwrite_def)
    have sync: "sure (syncDir (d_Path d)) ?R ?g"
      unfolding syncDir_def using clear dirs i by (auto intro!: live)
    have "sure (Rename ?tmp ?dst) (\<lambda>_. sure (syncDir (d_Path d)) ?R) ?h"
      using i s sync by (intro sure_Rename [where c = c]) (auto simp: parent_ok_def)
    then show ?thesis
      unfolding writeSlotFile_def Let_def tmp_path_def [symmetric] if_not_P [OF loop]
      using node i by (intro sure_then sure_Open sure_Stat check sure_Truncate copy orr sure_Sync) (auto simp: parent_ok_def)
  qed
  then have rest: "sure (then_io (Open img) (then_io (checkSquashfs img) (then_io (writeSlotFile e d slot img)
      (then_io (clearSlotOverlay d slot) (writeState e d [(''trial'', slot), (''tries'', ''0'')]))))) Q f"
    by (intro sure_then sure_Open [OF node] check)
  obtain idx where "slotIndex slot = return_io idx" using s by (auto simp: slotIndex_def slot_letter_def)
  with rest show ?thesis
    unfolding Install_def fileBacked_def using i d
    by (intro sure_bind sure_Status [OF d]) (simp cong: if_cong)
qed

lemma sure_Commit:
  assumes d: "d_Files d" and e: "ranges_over e" and m: "mounted d f" and t: "slot_letter (Trial (pointer d (content f)))"
    and Q: "\<And>g. pointer d (content g) = \<lparr>Active = Trial (pointer d (content f)), Trial = [], Tries = 0\<rparr> \<Longrightarrow>
      Q (Trial (pointer d (content f))) g"
  shows "sure (Commit e d) Q f"
proof -
  let ?s = "Trial (pointer d (content f))"
  have ne: "?s \<noteq> []" using t by (auto simp: slot_letter_def)
  let ?f = "set_entry d (''active'', ?s) f"
  have m': "mounted d ?f" using m by (simp add: set_entry_simps state_names_def)
  have p: "pointer d (content (fold (set_entry d) ys ?f)) = \<lparr>Active = ?s, Trial = [], Tries = 0\<rparr>"
    if ys: "mset ys = mset [(''trial'', []), (''tries'', [])]" for ys
  proof -
    have "Atoi [] = None" by code_simp
    then show ?thesis
      using mset_pair [OF ys] text_of_prefix [OF t, of "Suc (length ?s)"] ne
      by (elim disjE) (simp_all add: set_entry_simps pointer_def Let_def text_of_def split: if_splits)
  qed
  have clear: "sure (then_io (writeState e d [(''trial'', []), (''tries'', [])]) (return_io ?s)) Q ?f"
    by (rule sure_then, rule sure_writeStates [OF d e m']) (use p Q in \<open>auto simp: state_names_def intro!: sure_return\<close>)
  have "sure (then_io (writeState e d [(''active'', ?s)]) (then_io (writeState e d [(''trial'', []), (''tries'', [])]) (return_io ?s))) Q f"
    by (rule sure_then, rule sure_writeStates [OF d e m])
      (use clear in \<open>auto simp: state_names_def dest!: mset_single\<close>)
  then show ?thesis
    unfolding Commit_def by (intro sure_bind sure_Status [OF d]) (simp add: ne Let_def)
qed


section \<open>Slots as partitions\<close>

text \<open>on a partitioned disk the slot is overwritten in place, so what can be refused is refused first:
  a slot the table does not have, the partition the kernel runs from whatever the boot pointer says,
  and an image larger than the slot. Nothing on the disk has changed then.\<close>

theorem installPartition_refuses_first:
  assumes parts: "sfdisk e (d_Path d) = Some ps" and w: "past w = []"
    and bad: "length ps \<le> idx \<or> rootPartitionStart e = Some (pn_Start (ps ! idx)) \<or>
      (\<exists>c. content (fs w) img = Some c \<and> int (length c) > sector (pn_Size (ps ! idx)))"
  shows "isl (fst (installPartition e d slot idx img w)) \<and>
         (\<forall>f \<in> set (crash_states (snd (installPartition e d slot idx img w))). f = fs w)"
proof -
  have stat: "crash_wp C (Stat img) Q f" if "\<And>n. mget f img = Some n \<Longrightarrow> Q n f" for C Q f
    unfolding Stat_def using that by (intro wp_fallible) (auto simp: crash_wp_def split: option.split)
  have size: "file_size n = int (length c)" if "mget f img = Some n" "content f img = Some c" for n f c
    using that by (auto simp: content_def file_size_def split: node.splits)
  have "crash_wp (\<lambda>f. f = fs w) (installPartition e d slot idx img) (\<lambda>_ _. False) (fs w)"
    unfolding installPartition_def partitions_def parts option.case Let_def
    using bad by (intro wp_bind wp_fallible wp_return wp_if wp_fail wp_then wp_look(2) stat) (auto dest: size)
  from crash_wpD [OF this _ w] show ?thesis
    by (cases "fst (installPartition e d slot idx img w)") (auto simp: list_all_iff)
qed

theorem installPartition_refuses_first_witness:
  "isl (fst (installPartition
     \<lparr>sfdisk = \<lambda>_. Some [\<lparr>pn_Start = 1, pn_Size = 1, pn_Name = []\<rparr>], debugfs = \<lambda>_ _ _ f. ((False, []), f),
      temp_name = \<lambda>pre suf _. pre @ suf, loop_files = [], cwd = None, root_dev = Some 0x102,
      sys_block_start = \<lambda>a b. if a = 1 \<and> b = 2 then Some ''1'' else None, map_order = id\<rparr>
     \<lparr>d_Path = ''/disk'', d_Data = [], d_Files = False\<rparr> ''b'' 0 ''/i''
     \<lparr>fs = [(''/i'', File ''hsqs'')], faults = [], past = []\<rparr>))"
proof -
  let ?e = "\<lparr>sfdisk = \<lambda>_. Some [\<lparr>pn_Start = 1, pn_Size = 1, pn_Name = []\<rparr>], debugfs = \<lambda>_ _ _ f. ((False, []), f),
      temp_name = \<lambda>pre suf _. pre @ suf, loop_files = [], cwd = None, root_dev = Some 0x102,
      sys_block_start = \<lambda>a b. if a = 1 \<and> b = 2 then Some ''1'' else None, map_order = id\<rparr> :: env"
  have "unix_major 0x102 = 1" "unix_minor 0x102 = 2" by code_simp+
  moreover have "Atoi (TrimSpace ''1'') = Some 1" by code_simp
  ultimately have "rootPartitionStart ?e = Some 1" by (simp add: rootPartitionStart_def)
  then show ?thesis
    using installPartition_refuses_first [of ?e "\<lparr>d_Path = ''/disk'', d_Data = [], d_Files = False\<rparr>"
      "[\<lparr>pn_Start = 1, pn_Size = 1, pn_Name = []\<rparr>]" "\<lparr>fs = [(''/i'', File ''hsqs'')], faults = [], past = []\<rparr>" 0 "''/i''"]
    by simp
qed

section \<open>A disk to try it on\<close>

definition demo_env :: env where
  "demo_env = \<lparr>sfdisk = \<lambda>_. None, debugfs = \<lambda>_ _ _ f. ((False, []), f), temp_name = \<lambda>pre suf _. pre @ suf,
     loop_files = [Some ''/f/nosaic-slot-a.sqsh''], cwd = None, root_dev = None, sys_block_start = \<lambda>_ _. None,
     map_order = id\<rparr>"

definition demo_disk :: Disk where
  "demo_disk = \<lparr>d_Path = ''/f'', d_Data = ''/d'', d_Files = True\<rparr>"

definition demo_fs :: "string \<Rightarrow> fsys" where
  "demo_fs act =
     [(''/f'', Directory), (''/d'', Directory), (''/d/boot'', Directory), (''/d/boot/active'', File act),
      (''/f/nosaic-slot-a.sqsh'', File ''hsqs1''), (''/f/nosaic-slot-b.sqsh'', File ''hsqs2''), (''/i'', File ''hsqs3'')]"

definition demo_world :: "string \<Rightarrow> nat option list \<Rightarrow> world" where
  "demo_world act fl = \<lparr>fs = demo_fs act, faults = fl, past = []\<rparr>"

lemma demo_ranges: "ranges_over demo_env"
  by (simp add: ranges_over_def demo_env_def)


theorem Install_crash_safe_witness:
  "list_all (\<lambda>f. install_inv demo_disk ''b'' ''/i'' (content (demo_fs ''a'')) (content f))
     (crash_states (snd (Install demo_env demo_disk ''b'' ''/i'' (demo_world ''a'' [None, None, None, None, None, None, None, None, None, None, Some 2]))))"
proof -
  let ?w = "demo_world ''a'' [None, None, None, None, None, None, None, None, None, None, Some 2]"
  have "d_Files demo_disk" "past ?w = []" "beside demo_disk ''b''" "''/i'' \<noteq> tmp_path demo_disk ''b''" by code_simp+
  from Install_crash_safe [OF this(1) demo_ranges this(2-4)] show ?thesis
    by (simp add: list_all_iff demo_world_def)
qed

theorem Install_refuses_running_slot_witness:
  "isl (fst (Install demo_env demo_disk ''a'' ''/i'' (demo_world ''b'' [])))"
proof -
  have "d_Files demo_disk" "Abs demo_env (slot_path demo_disk ''a'') = Some ''/f/nosaic-slot-a.sqsh''"
    "''/f/nosaic-slot-a.sqsh'' \<in> set (loopBackingFiles demo_env)" by code_simp+
  from Install_refuses_running_slot [OF this, of "''/i''" "demo_world ''b'' []"] show ?thesis by blast
qed

definition demo_trial :: "nat option list \<Rightarrow> world" where
  "demo_trial fl =
     \<lparr>fs = (''/d/boot/trial'', File [CHR ''b'', CHR 0x0A]) # demo_fs ''a'', faults = fl, past = []\<rparr>"



end
