(* ===== verification/Site_Config.thy ===== *)
theory Site_Config
  imports Filesystem "HOL-Library.List_Lexorder" "HOL-Library.Char_ord"
begin

text \<open>
  A switch's configuration as files, \<^verbatim>\<open>internal/config\<close>: loading the image's directory and then the
  switch's own over it, and setting or removing one key in the switch's own file. \<^verbatim>\<open>mount\<close>, \<^verbatim>\<open>umount\<close>
  and \<^verbatim>\<open>sync\<close>, which a board without a data partition runs around the write, are parameters: what they
  do to the file system and whether they succeed.
\<close>

definition ImageDir :: string where
  "ImageDir = ''/etc/nosaic''"

definition SiteDir :: string where
  "SiteDir = ''/mnt/data/config''"

definition SiteFile :: string where
  "SiteFile = ''local.conf''"

definition ramBootMarker :: string where
  "ramBootMarker = ''/etc/nosaic/ramboot''"

definition flashConfigDir :: string where
  "flashConfigDir = ''nosaic/config''"

definition flashCandidates :: "string list" where
  "flashCandidates = [''/dev/mmcblk0p1'', ''/dev/sda1'', ''/dev/vda1'', ''/dev/mmcblk0p2'']"

definition RAMBooted :: "bool io" where
  "RAMBooted = bind_io (attempt (Stat ramBootMarker)) (\<lambda>r. return_io (\<not> isl r))"

section \<open>Loading\<close>

record Setting =
  s_Name :: string
  s_Value :: string
  s_File :: string
  s_Site :: bool

record Config =
  settings :: "Setting list"
  index :: "(string, nat) gomap"

definition set_value :: "string \<Rightarrow> string \<Rightarrow> string \<Rightarrow> bool \<Rightarrow> Config \<Rightarrow> Config" where
  "set_value name value path site c =
     (let s = \<lparr>s_Name = name, s_Value = value, s_File = path, s_Site = site\<rparr>
      in case mget (index c) name of
           Some i \<Rightarrow> c\<lparr>settings := (settings c)[i := s]\<rparr>
         | None \<Rightarrow> c\<lparr>index := mput name (length (settings c)) (index c), settings := settings c @ [s]\<rparr>)"

definition Get :: "string \<Rightarrow> Config \<Rightarrow> string option" where
  "Get name c = (case mget (index c) name of Some i \<Rightarrow> Some (s_Value (settings c ! i)) | None \<Rightarrow> None)"

definition HasPrefix :: "string \<Rightarrow> string \<Rightarrow> bool" where
  "HasPrefix s p = (take (length p) s = p)"

text \<open>The definition a line holds, if it is not blank, a comment or without \<^verbatim>\<open>=\<close>.\<close>

definition definition_of :: "string \<Rightarrow> (string \<times> string) option" where
  "definition_of raw =
     (let line = TrimSpace raw
      in if line = [] \<or> HasPrefix line ''#'' then None
         else case Cut (CHR ''='') line of
           (name, value, ok) \<Rightarrow> if \<not> ok then None else Some (TrimSpace name, TrimSpace value))"

text \<open>\<^verbatim>\<open>bufio.Scanner\<close> over lines: the last line need not end, a carriage return before the end is dropped, and
  a line of 65536 bytes or more ends the scan with an error.\<close>

definition newline :: char where
  "newline = CHR 0x0A"

definition drop_cr :: "string \<Rightarrow> string" where
  "drop_cr l = (if l \<noteq> [] \<and> last l = CHR 0x0D then butlast l else l)"

definition scan_lines :: "string \<Rightarrow> string list" where
  "scan_lines b = (let ls = Split newline b in if last ls = [] then butlast ls else ls)"

definition too_long :: "string \<Rightarrow> bool" where
  "too_long l \<longleftrightarrow> int (length l) \<ge> 65536"

fun load_lines :: "string \<Rightarrow> bool \<Rightarrow> string list \<Rightarrow> Config \<Rightarrow> Config io" where
  "load_lines path site [] c = return_io c"
| "load_lines path site (l # ls) c =
     (if too_long l then fail_io (IOFault ''bufio.Scanner: token too long'')
      else load_lines path site ls
        (case definition_of (drop_cr l) of None \<Rightarrow> c | Some (n, v) \<Rightarrow> set_value n v path site c))"

definition loadFile :: "string \<Rightarrow> bool \<Rightarrow> Config \<Rightarrow> Config io" where
  "loadFile path site c =
     bind_io (attempt (Open path)) (\<lambda>r.
       case r of
         Inl err \<Rightarrow> (case err of NotExist _ \<Rightarrow> return_io c | _ \<Rightarrow> fail_io err)
       | Inr _ \<Rightarrow> bind_io (ReadFile path) (\<lambda>b. load_lines path site (scan_lines b) c))"

text \<open>\<^verbatim>\<open>filepath.Glob\<close> of \<^verbatim>\<open>*.conf\<close> in a directory; it does not report errors.\<close>

definition glob_conf :: "string \<Rightarrow> fsys \<Rightarrow> string list" where
  "glob_conf dir f = filter (\<lambda>q. Dirname q = Clean dir \<and> q \<noteq> Clean dir \<and> suffix ''.conf'' (Base q)) (remdups (mkeys f))"

definition Glob :: "string \<Rightarrow> string list io" where
  "Glob dir w = (Inr (glob_conf dir (fs w)), w)"

fun load_files :: "string list \<Rightarrow> bool \<Rightarrow> Config \<Rightarrow> Config io" where
  "load_files [] site c = return_io c"
| "load_files (n # ns) site c = bind_io (loadFile n site c) (load_files ns site)"

definition loadDir :: "string \<Rightarrow> bool \<Rightarrow> Config \<Rightarrow> Config io" where
  "loadDir dir site c = bind_io (Glob dir) (\<lambda>names. load_files (sort names) site c)"

definition LoadFrom :: "string \<Rightarrow> string \<Rightarrow> Config io" where
  "LoadFrom imageDir siteDir =
     bind_io (loadDir imageDir False \<lparr>settings = [], index = []\<rparr>) (loadDir siteDir True)"

definition Load :: "Config io" where
  "Load = LoadFrom ImageDir SiteDir"

section \<open>Setting\<close>

definition keeps :: "string \<Rightarrow> string \<Rightarrow> bool" where
  "keeps name line =
     (let t = TrimSpace line
      in \<not> (t = [] \<or> HasPrefix t ''#'') \<and>
         \<not> (case Cut (CHR ''='') t of (k, _, ok) \<Rightarrow> ok \<and> TrimSpace k = name))"

definition header_lines :: string where
  "header_lines =
     ''# This switch's own configuration. Written by `nosaic config set`.'' @ newline #
     ''# Overrides the image's defaults in '' @ ImageDir @ ''.'' @ [newline]"

definition site_text :: "string list \<Rightarrow> string \<Rightarrow> string option \<Rightarrow> string" where
  "site_text kept name value =
     header_lines @ concat (map (\<lambda>l. l @ [newline]) kept) @
     (case value of None \<Rightarrow> [] | Some v \<Rightarrow> name @ CHR ''='' # v @ [newline])"

definition SetIn :: "string \<Rightarrow> string \<Rightarrow> string option \<Rightarrow> unit io" where
  "SetIn dir name value =
     (if name = [] \<or> CHR ''='' \<in> set name \<or> newline \<in> set name
      then fail_io (Refused ''a setting name cannot be empty or contain '=' or a newline'' [])
      else if (case value of None \<Rightarrow> False | Some v \<Rightarrow> newline \<in> set v)
      then fail_io (Refused ''a setting value cannot contain a newline'' [])
      else then_io (MkdirAll dir)
        (let path = Join dir SiteFile; tmp = path @ ''.new''
         in bind_io (attempt (ReadFile path)) (\<lambda>r.
              case r of
                Inl (IOFault m) \<Rightarrow> fail_io (IOFault m)
              | Inl (Refused m a) \<Rightarrow> fail_io (Refused m a)
              | _ \<Rightarrow>
                  let kept = (case r of Inr b \<Rightarrow> filter (keeps name) (Split newline b) | Inl _ \<Rightarrow> [])
                  in then_io (Truncate tmp)
                     (then_io (WriteAt tmp 0 (site_text kept name value))
                     (then_io Sync
                     (then_io CloseFile
                       (Rename tmp path)))))))"

text \<open>Mounting the boot loader's file system: \<open>mount_cmd\<close> is what \<^verbatim>\<open>mount -t vfat dev mnt\<close> leaves, or
  \<open>None\<close> where it fails, \<open>umount_cmd\<close> and \<open>sync_cmd\<close> likewise.\<close>

record flash_env =
  mkdir_temp :: "fsys \<Rightarrow> string"
  mount_cmd :: "string \<Rightarrow> string \<Rightarrow> fsys \<Rightarrow> fsys option"
  umount_cmd :: "string \<Rightarrow> fsys \<Rightarrow> fsys option"
  sync_cmd :: "fsys \<Rightarrow> fsys option"

definition run_cmd :: "(fsys \<Rightarrow> fsys option) \<Rightarrow> unit io" where
  "run_cmd cmd = fallible ''exec'' (\<lambda>w.
     case cmd (fs w) of None \<Rightarrow> (Inl (IOFault ''exec''), w) | Some f \<Rightarrow> (Inr (), put_fs f w))"

definition unmount :: "flash_env \<Rightarrow> string \<Rightarrow> unit io" where
  "unmount e mnt =
     then_io (attempt (run_cmd (sync_cmd e)))
     (then_io (attempt (run_cmd (umount_cmd e mnt)))
     (then_io (attempt (Remove mnt)) (return_io ())))"

fun try_devices :: "flash_env \<Rightarrow> string \<Rightarrow> string list \<Rightarrow> string io" where
  "try_devices e mnt [] =
     then_io (attempt (Remove mnt))
       (fail_io (Refused ''no bootloader filesystem found on %s'' (map Text flashCandidates)))"
| "try_devices e mnt (dev # devs) =
     bind_io (attempt (Stat dev)) (\<lambda>r.
       if isl r then try_devices e mnt devs
       else bind_io (attempt (run_cmd (mount_cmd e dev mnt))) (\<lambda>m.
         if isl m then try_devices e mnt devs
         else bind_io (attempt (MkdirAll (Join mnt flashConfigDir))) (\<lambda>d.
           if isl d
           then then_io (attempt (run_cmd (umount_cmd e mnt))) (try_devices e mnt devs)
           else return_io (Join mnt flashConfigDir))))"

definition MkdirTemp :: "flash_env \<Rightarrow> string io" where
  "MkdirTemp e = fallible ''mkdir'' (\<lambda>w. let p = mkdir_temp e (fs w) in (Inr p, put_fs (mput p Directory (fs w)) w))"

text \<open>The directory to write in, and the mount point the caller is to unmount.\<close>

definition mountFlashConfig :: "flash_env \<Rightarrow> (string \<times> string) io" where
  "mountFlashConfig e =
     bind_io (MkdirTemp e) (\<lambda>mnt. bind_io (try_devices e mnt flashCandidates) (\<lambda>dir. return_io (dir, mnt)))"

definition Set :: "flash_env \<Rightarrow> string \<Rightarrow> string option \<Rightarrow> unit io" where
  "Set e name value =
     bind_io RAMBooted (\<lambda>ram.
       if \<not> ram then SetIn SiteDir name value
       else bind_io (attempt (mountFlashConfig e)) (\<lambda>r.
         case r of
           Inl _ \<Rightarrow> fail_io (Refused ''this board has no persistent data partition and its flash could not be reached, so the setting would be lost at the next reboot: %w'' [])
         | Inr (dir, mnt) \<Rightarrow>
             deferred (unmount e mnt)
               (then_io (SetIn dir name value)
               (then_io (attempt (SetIn SiteDir name value)) (return_io ())))))"

section \<open>Lines\<close>

lemma space_at_CR: "space_at (map rev go_spaces) (CHR 0x0D # u) = Some 1" "space_at go_spaces [CHR 0x0D] = Some 1"
  by (simp_all add: space_at_def go_spaces_def)

lemma space_at_snoc_CR:
  assumes "s \<noteq> []" shows "space_at go_spaces (s @ [CHR 0x0D]) = space_at go_spaces s"
proof -
  have "prefix sp (s @ [CHR 0x0D]) \<longleftrightarrow> prefix sp s" if "sp \<in> set go_spaces" for sp
  proof (cases "CHR 0x0D \<in> set sp")
    case True
    then have "sp = [CHR 0x0D]" using that by (auto simp: go_spaces_def)
    then show ?thesis using assms by (cases s) auto
  next
    case False
    then show ?thesis using prefix_before_sep [of "CHR 0x0D" sp s "[]"] by (auto intro: prefix_prefix)
  qed
  then show ?thesis unfolding space_at_def by (intro arg_cong [where f = "map_option length"] find_cong) auto
qed

lemma trim_front_snoc_CR:
  "trim_front go_spaces (s @ [CHR 0x0D]) = (if trim_front go_spaces s = [] then [] else trim_front go_spaces s @ [CHR 0x0D])"
proof (induction "go_spaces" s rule: trim_front.induct)
  case (1 s)
  show ?case
  proof (cases "s = []")
    case True
    then show ?thesis by (simp add: trim_front.simps [of _ "[_]"] space_at_CR trim_front_id)
  next
    case False
    note same = space_at_snoc_CR [OF False]
    show ?thesis
    proof (cases "space_at go_spaces s")
      case None
      then show ?thesis using same False by (simp add: trim_front_id)
    next
      case (Some n)
      have "drop n (s @ [CHR 0x0D]) = drop n s @ [CHR 0x0D]" using space_at_bounds [OF Some] by simp
      then show ?thesis using 1 [OF Some] same Some
        by (simp add: trim_front.simps [of _ "s @ [_]"] trim_front.simps [of _ s])
    qed
  qed
qed

lemma TrimSpace_drop_cr: "TrimSpace (drop_cr l) = TrimSpace l"
proof (cases "l \<noteq> [] \<and> last l = CHR 0x0D")
  case True
  then obtain s where l: "l = s @ [CHR 0x0D]" by (metis append_butlast_last_id)
  have right: "TrimRightSpace (u @ [CHR 0x0D]) = TrimRightSpace u" for u
    by (simp add: TrimRightSpace_def trim_front.simps [of _ "_ # _"] space_at_CR)
  have "TrimSpace (s @ [CHR 0x0D]) = TrimSpace s"
    using right by (simp add: TrimSpace_def TrimLeftSpace_def trim_front_snoc_CR)
  then show ?thesis by (simp add: drop_cr_def l)
qed (auto simp: drop_cr_def)

lemma definition_of_drop_cr [simp]: "definition_of (drop_cr l) = definition_of l"
  by (simp add: definition_of_def TrimSpace_drop_cr)

text \<open>A line is kept when \<open>SetIn\<close> rewrites the file exactly if it defines another key, or looks like nothing
  a comment or a definition would.\<close>

lemma keeps_definition: "definition_of l = Some (k, v) \<Longrightarrow> keeps name l \<longleftrightarrow> k \<noteq> name"
  by (auto simp: definition_of_def keeps_def Let_def split: if_splits prod.splits)

definition defs_of :: "string \<Rightarrow> (string \<times> string) list" where
  "defs_of b = List.map_filter definition_of (scan_lines b)"

lemma definition_of_Nil [simp]: "definition_of [] = None"
  by (simp add: definition_of_def)

lemma defs_of_Split: "defs_of b = List.map_filter definition_of (Split newline b)"
proof -
  have "Split newline b = butlast (Split newline b) @ [last (Split newline b)]" by simp
  then have "List.map_filter definition_of (Split newline b) =
      List.map_filter definition_of (butlast (Split newline b)) @ List.map_filter definition_of [last (Split newline b)]"
    by (metis List.map_filter_def filter_append map_append)
  then show ?thesis by (auto simp: defs_of_def scan_lines_def Let_def List.map_filter_def)
qed

lemma Split_lines: "\<forall>l \<in> set (Split c s). c \<notin> set l"
  by (induction s) (auto split: list.splits)

lemma Split_concat_lines:
  "\<forall>l \<in> set ls. newline \<notin> set l \<Longrightarrow> Split newline (concat (map (\<lambda>l. l @ [newline]) ls) @ s) = ls @ Split newline s"
  by (induction ls) (simp_all add: Split_append_sep Split_no_sep)

definition last_def :: "(string \<times> string) list \<Rightarrow> string \<Rightarrow> string option" where
  "last_def ds k = map_of (rev ds) k"

lemma last_def_append: "last_def (xs @ ys) k = (case last_def ys k of None \<Rightarrow> last_def xs k | Some v \<Rightarrow> Some v)"
  by (simp add: last_def_def map_add_def split: option.split)

lemma last_def_keeps:
  "last_def (List.map_filter definition_of (filter (keeps name) ls)) k =
   (if k = name then None else last_def (List.map_filter definition_of ls) k)"
proof (induction ls rule: rev_induct)
  case Nil
  then show ?case by (simp add: last_def_def List.map_filter_def)
next
  case (snoc l ls)
  then show ?case
    by (cases "definition_of l")
      (auto simp: last_def_def List.map_filter_def keeps_definition split: if_splits)
qed

text \<open>A name and a value that survive being written and read.\<close>

definition storable :: "string \<Rightarrow> string option \<Rightarrow> bool" where
  "storable name value \<longleftrightarrow> trimmed name \<and> name \<noteq> [] \<and> \<not> HasPrefix name ''#'' \<and> CHR ''='' \<notin> set name \<and> newline \<notin> set name \<and>
     (case value of None \<Rightarrow> True | Some v \<Rightarrow> trimmed v \<and> newline \<notin> set v)"

lemma definition_of_stored:
  assumes "storable name (Some v)"
  shows "definition_of (name @ CHR ''='' # v) = Some (name, v)"
proof -
  have "solid (CHR ''='')" by (rule solid_ascii) simp_all
  then have "trimmed (name @ CHR ''='' # v)" using assms trimmed_join [of name v "CHR ''=''"] by (simp add: storable_def trimmed_def)
  moreover have "\<not> HasPrefix (name @ CHR ''='' # v) ''#''" using assms by (cases name) (auto simp: storable_def HasPrefix_def)
  ultimately show ?thesis
    using assms by (simp add: definition_of_def trimmed_TrimSpace Cut_append storable_def)
qed

lemma defs_of_site_text:
  assumes "storable name value" "\<forall>l \<in> set kept. newline \<notin> set l"
  shows "defs_of (site_text kept name value) =
    List.map_filter definition_of kept @ (case value of None \<Rightarrow> [] | Some v \<Rightarrow> [(name, v)])"
proof -
  let ?h1 = "''# This switch's own configuration. Written by `nosaic config set`.''"
  let ?h2 = "''# Overrides the image's defaults in '' @ ImageDir @ ''.''"
  let ?fin = "case value of None \<Rightarrow> [] | Some v \<Rightarrow> name @ CHR ''='' # v @ [newline]"
  have eq: "site_text kept name value = concat (map (\<lambda>l. l @ [newline]) (?h1 # ?h2 # kept)) @ ?fin"
    by (simp add: site_text_def header_lines_def)
  have h: "newline \<notin> set ?h1" "newline \<notin> set ?h2" by (simp_all add: newline_def ImageDir_def)
  have d: "definition_of ?h1 = None" "definition_of ?h2 = None" by code_simp+
  have "Split newline (name @ CHR ''='' # v @ [newline]) = [name @ CHR ''='' # v, []]" if "value = Some v" for v
    using assms(1) that Split_append_sep [of newline "name @ CHR ''='' # v" "[]"]
    by (simp add: storable_def Split_no_sep newline_def)
  then have "List.map_filter definition_of (Split newline ?fin) = (case value of None \<Rightarrow> [] | Some v \<Rightarrow> [(name, v)])"
    using assms(1) definition_of_stored by (auto simp: List.map_filter_def split: option.split)
  moreover have "Split newline (site_text kept name value) = ?h1 # ?h2 # kept @ Split newline ?fin"
    unfolding eq using assms(2) h by (subst Split_concat_lines) simp_all
  ultimately show ?thesis
    unfolding defs_of_Split using d by (simp add: List.map_filter_def)
qed

section \<open>The effective value is the last definition\<close>

definition wf_config :: "Config \<Rightarrow> bool" where
  "wf_config c \<longleftrightarrow> (\<forall>n i. mget (index c) n = Some i \<longrightarrow> i < length (settings c) \<and> s_Name (settings c ! i) = n)"

lemma wf_set_value:
  assumes "wf_config c"
  shows "wf_config (set_value n v p s c)" "Get k (set_value n v p s c) = (if k = n then Some v else Get k c)"
proof -
  have idx: "i < length (settings c) \<and> s_Name (settings c ! i) = m" if "mget (index c) m = Some i" for m i
    using assms that by (simp add: wf_config_def)
  show "wf_config (set_value n v p s c)"
    using idx idx [of n] by (auto simp: wf_config_def set_value_def Let_def nth_append nth_list_update split: option.split)
      (fastforce dest: idx)+
  have "i \<noteq> j" if "mget (index c) k = Some i" "mget (index c) n = Some j" "k \<noteq> n" for i j
    using idx [OF that(1)] idx [OF that(2)] that(3) by auto
  then show "Get k (set_value n v p s c) = (if k = n then Some v else Get k c)"
    using idx [of n] idx [of k] by (auto simp: Get_def set_value_def Let_def nth_append nth_list_update split: option.split)
qed

lemma wp_load_lines:
  assumes "wf_config c"
    and "\<And>c'. wf_config c' \<Longrightarrow> (\<And>k. Get k c' = (case last_def (List.map_filter definition_of ls) k of None \<Rightarrow> Get k c | Some v \<Rightarrow> Some v)) \<Longrightarrow> Q c' f"
  shows "crash_wp C (load_lines path site ls c) Q f"
  using assms
proof (induction ls arbitrary: c)
  case Nil
  then show ?case by (simp add: wp_return last_def_def List.map_filter_def)
next
  case (Cons l ls)
  let ?c = "case definition_of l of None \<Rightarrow> c | Some (n, v) \<Rightarrow> set_value n v path site c"
  have c: "wf_config ?c" using Cons.prems(1) wf_set_value by (auto split: option.split)
  have "crash_wp C (load_lines path site ls ?c) Q f"
  proof (rule Cons.IH [OF c], rule Cons.prems(2))
    fix c' k assume c': "\<And>k. Get k c' = (case last_def (List.map_filter definition_of ls) k of None \<Rightarrow> Get k ?c | Some v \<Rightarrow> Some v)"
    have "last_def (List.map_filter definition_of (l # ls)) k =
        (case last_def (List.map_filter definition_of ls) k of None \<Rightarrow>
           (case definition_of l of None \<Rightarrow> None | Some (n, v) \<Rightarrow> if k = n then Some v else None) | Some v \<Rightarrow> Some v)"
      using last_def_append [of "List.map_filter definition_of [l]" "List.map_filter definition_of ls" k]
      by (auto simp: List.map_filter_def last_def_def split: option.split)
    then show "Get k c' = (case last_def (List.map_filter definition_of (l # ls)) k of None \<Rightarrow> Get k c | Some v \<Rightarrow> Some v)"
      using c' [of k] wf_set_value(2) [OF Cons.prems(1)] by (auto split: option.split)
  qed
  then show ?case by (simp add: wp_fail)
qed

definition file_defs :: "fsys \<Rightarrow> string \<Rightarrow> (string \<times> string) list" where
  "file_defs f p = (case content f p of None \<Rightarrow> [] | Some b \<Rightarrow> defs_of b)"

lemma wp_load_files:
  assumes "wf_config c"
    and "\<And>c'. wf_config c' \<Longrightarrow> (\<And>k. Get k c' = (case last_def (concat (map (file_defs f) ps)) k of None \<Rightarrow> Get k c | Some v \<Rightarrow> Some v)) \<Longrightarrow> Q c' f"
    and "\<forall>p \<in> set ps. mget f p \<noteq> None"
  shows "crash_wp C (load_files ps site c) Q f"
  using assms
proof (induction ps arbitrary: c)
  case Nil
  then show ?case by (simp add: wp_return last_def_def)
next
  case (Cons p ps)
  have opn: "crash_wp C (attempt (Open p)) R f" if "\<And>e. (\<And>q. e \<noteq> NotExist q) \<Longrightarrow> R (Inl e) f" "R (Inr ()) f" for R
  proof (rule crash_wpI)
    fix w assume w: "fs w = f" "list_all C (crash_states w)"
    show "list_all C (crash_states (snd (attempt (Open p) w))) \<and>
      (\<forall>x. fst (attempt (Open p) w) = Inr x \<longrightarrow> R x (fs (snd (attempt (Open p) w))))"
      using w that Cons.prems(3) by (auto simp: attempt_def Open_def fallible_def split: list.split option.split)
  qed
  show ?case unfolding load_files.simps loadFile_def
  proof (intro wp_bind opn, goal_cases)
    case (1 e)
    then show ?case by (cases e) (auto simp: wp_fail)
  next
    case 2
    show ?case unfolding sum.case
    proof (intro wp_bind wp_ReadFile wp_load_lines [OF Cons.prems(1)], rule Cons.IH)
      fix b c1 assume b: "content f p = Some b" and c1: "wf_config c1"
        "\<And>k. Get k c1 = (case last_def (List.map_filter definition_of (scan_lines b)) k of None \<Rightarrow> Get k c | Some v \<Rightarrow> Some v)"
      then show "wf_config c1" by simp
      fix c' assume c': "wf_config c'" "\<And>k. Get k c' = (case last_def (concat (map (file_defs f) ps)) k of None \<Rightarrow> Get k c1 | Some v \<Rightarrow> Some v)"
      have "Get k c' = (case last_def (concat (map (file_defs f) (p # ps))) k of None \<Rightarrow> Get k c | Some v \<Rightarrow> Some v)" for k
        using b by (simp add: c' c1 last_def_append file_defs_def defs_of_def split: option.split)
      then show "Q c' f" using Cons.prems(2) c'(1) by blast
    qed (use Cons.prems(3) in auto)
  qed
qed

text \<open>C26: the effective value of a key is its last definition, in the image's files by name and then the
  switch's own by name: a reference in one line for the loader that replaces values in place through
  an index.\<close>

theorem LoadFrom_last_definition:
  assumes "fst (LoadFrom a b w) = Inr c"
  shows "Get k c = last_def (concat (map (file_defs (fs w)) (sort (glob_conf a (fs w)) @ sort (glob_conf b (fs w))))) k"
proof -
  let ?f = "fs w"
  let ?e = "\<lparr>settings = [], index = []\<rparr>"
  let ?Q = "\<lambda>c f. \<forall>k. Get k c = last_def (concat (map (file_defs ?f) (sort (glob_conf a ?f) @ sort (glob_conf b ?f)))) k"
  have wf: "wf_config ?e" by (simp add: wf_config_def)
  have ex: "\<forall>p \<in> set (sort (glob_conf d ?f)). mget ?f p \<noteq> None" for d
    by (auto simp: glob_conf_def map_of_eq_None_iff)
  have "crash_wp (\<lambda>_. True) (LoadFrom a b) ?Q ?f"
    unfolding LoadFrom_def loadDir_def
  proof (intro wp_bind)
    have glob: "crash_wp (\<lambda>_. True) (Glob d) R ?f" if "R (glob_conf d ?f) ?f" for d R
      using that by (simp add: crash_wp_def Glob_def list_all_iff)
    show "crash_wp (\<lambda>_. True) (Glob a) (\<lambda>x. crash_wp (\<lambda>_. True) (load_files (sort x) False ?e)
      (\<lambda>x. crash_wp (\<lambda>_. True) (bind_io (Glob b) (\<lambda>names. load_files (sort names) True x)) ?Q)) ?f"
      by (intro glob wp_load_files wf ex wp_bind allI)
        (simp_all add: Get_def [of _ ?e] last_def_append split: option.split)
  qed
  then show ?thesis using assms by (simp add: crash_wp_def list_all_iff)
qed

theorem LoadFrom_last_definition_witness:
  "Get ''k'' (projr (fst (LoadFrom ''/i'' ''/s'' \<lparr>fs = [(''/i/b.conf'', File ''k=2''), (''/i/a.conf'', File ''k=1''),
      (''/s/l.conf'', File ''k = 3 '')], faults = [], past = []\<rparr>))) = Some ''3''"
proof -
  let ?w = "\<lparr>fs = [(''/i/b.conf'', File ''k=2''), (''/i/a.conf'', File ''k=1''),
      (''/s/l.conf'', File ''k = 3 '')], faults = [], past = []\<rparr> :: world"
  have "fst (LoadFrom ''/i'' ''/s'' ?w) = Inr (projr (fst (LoadFrom ''/i'' ''/s'' ?w)))" by code_simp
  from LoadFrom_last_definition [OF this, of "''k''"]
  have "Get ''k'' (projr (fst (LoadFrom ''/i'' ''/s'' ?w))) =
    last_def (concat (map (file_defs (fs ?w)) (sort (glob_conf ''/i'' (fs ?w)) @ sort (glob_conf ''/s'' (fs ?w))))) ''k''" .
  also have "\<dots> = Some ''3''" by code_simp
  finally show ?thesis .
qed

section \<open>Setting one key\<close>

definition site_path :: "string \<Rightarrow> string" where
  "site_path dir = Join dir SiteFile"

definition new_site :: "string \<Rightarrow> string \<Rightarrow> string option \<Rightarrow> fsys \<Rightarrow> string" where
  "new_site dir name value f =
     site_text (case content f (site_path dir) of None \<Rightarrow> [] | Some b \<Rightarrow> filter (keeps name) (Split newline b)) name value"

lemma wp_SetIn:
  "crash_wp (\<lambda>g. content g (site_path dir) \<in> {content f (site_path dir), Some (new_site dir name value f)} \<and>
      (\<forall>q. q \<noteq> site_path dir \<longrightarrow> q \<noteq> site_path dir @ ''.new'' \<longrightarrow> content g q = content f q))
    (SetIn dir name value) (\<lambda>_ g. content g (site_path dir) = Some (new_site dir name value f)) f"
proof -
  let ?p = "site_path dir" and ?new = "new_site dir name value f"
  let ?tmp = "?p @ ''.new''"
  let ?C = "\<lambda>g. content g ?p \<in> {content f ?p, Some ?new} \<and>
    (\<forall>q. q \<noteq> ?p \<longrightarrow> q \<noteq> ?tmp \<longrightarrow> content g q = content f q)"
  let ?Q = "\<lambda>_ g. content g ?p = Some ?new"
  have body: "crash_wp ?C (then_io (Truncate ?tmp) (then_io (WriteAt ?tmp 0 ?new) (then_io Sync (then_io CloseFile (Rename ?tmp ?p))))) ?Q g"
    if g: "content g = content f" for g
  proof (rule wp_then, rule wp_Truncate, simp add: g, rule wp_then, rule wp_WriteAt)
    fix old j assume old: "mget (mput ?tmp (File []) g) ?tmp = Some (File old)"
    then have c: "content (written ?tmp 0 old ?new j (mput ?tmp (File []) g)) = (content f)(?tmp := Some (take j ?new))" for j
      by (simp add: g written_def overwrite_def)
    then show "?C (written ?tmp 0 old ?new j (mput ?tmp (File []) g))" by simp
    have "?new \<noteq> []" by (simp add: new_site_def site_text_def header_lines_def)
    moreover have "?C (mput ?p n (mdel ?tmp h)) \<and> ?Q () (mput ?p n (mdel ?tmp h))"
      if "content h = (content f)(?tmp := Some ?new)" "mget h ?tmp = Some n" for h n
    proof -
      have "n = File ?new" using fun_cong [OF that(1), of ?tmp] that(2) by (simp add: content_def split: node.splits)
      then show ?thesis using that(1) by simp
    qed
    ultimately show "crash_wp ?C (then_io Sync (then_io CloseFile (Rename ?tmp ?p))) ?Q
        (if ?new = [] then mput ?tmp (File []) g else written ?tmp 0 old ?new (length ?new) (mput ?tmp (File []) g))"
      using c [of "length ?new"] by (simp, intro wp_then wp_look wp_Rename) simp
  qed
  have read: "crash_wp ?C (attempt (ReadFile ?p)) (\<lambda>r. crash_wp ?C (case r of
        Inl (IOFault m) \<Rightarrow> fail_io (IOFault m) | Inl (Refused m a) \<Rightarrow> fail_io (Refused m a)
      | _ \<Rightarrow> let kept = (case r of Inr b \<Rightarrow> filter (keeps name) (Split newline b) | Inl _ \<Rightarrow> [])
          in then_io (Truncate ?tmp) (then_io (WriteAt ?tmp 0 (site_text kept name value))
             (then_io Sync (then_io CloseFile (Rename ?tmp ?p))))) ?Q) g" if g: "content g = content f" for g
  proof (rule wp_attempt_ReadFile_absent)
    fix e assume "\<And>q. e = NotExist q \<Longrightarrow> content g ?p = None"
    then show "crash_wp ?C (case Inl e of
        Inl (IOFault m) \<Rightarrow> fail_io (IOFault m) | Inl (Refused m a) \<Rightarrow> fail_io (Refused m a)
      | _ \<Rightarrow> let kept = (case Inl e of Inr b \<Rightarrow> filter (keeps name) (Split newline b) | Inl _ \<Rightarrow> [])
          in then_io (Truncate ?tmp) (then_io (WriteAt ?tmp 0 (site_text kept name value))
             (then_io Sync (then_io CloseFile (Rename ?tmp ?p))))) ?Q g"
      using body [OF g] g by (cases e) (simp_all add: wp_fail new_site_def)
  qed (use body [OF g] g in \<open>simp add: new_site_def\<close>)
  show ?thesis
    unfolding SetIn_def Let_def site_path_def [symmetric]
    by (intro wp_if wp_fail wp_then wp_MkdirAll wp_bind read [unfolded Let_def]) simp_all
qed

text \<open>C22: a switch that loses power, or whose disk fails, while a setting is written comes back with the old
  configuration or the whole new one: on every content the disk goes through the file is one of the
  two, and no other file but the temporary one has changed.\<close>

theorem SetIn_crash_safe:
  assumes w: "past w = []"
  shows "(\<forall>f \<in> set (crash_states (snd (SetIn dir name value w))).
            content f (site_path dir) \<in> {content (fs w) (site_path dir), Some (new_site dir name value (fs w))} \<and>
            (\<forall>q. q \<noteq> site_path dir \<longrightarrow> q \<noteq> site_path dir @ ''.new'' \<longrightarrow> content f q = content (fs w) q)) \<and>
         (\<forall>u. fst (SetIn dir name value w) = Inr u \<longrightarrow>
            content (fs (snd (SetIn dir name value w))) (site_path dir) = Some (new_site dir name value (fs w)))"
  using crash_wpD [OF wp_SetIn _ w] by (auto simp: list_all_iff)

definition demo_site :: world where
  "demo_site = \<lparr>fs = [(''/s'', Directory), (''/s/local.conf'', File ''k=1'')], faults = [], past = []\<rparr>"

theorem SetIn_crash_safe_witness:
  "list_all (\<lambda>f. content f ''/s/local.conf'' = Some ''k=1'' \<or> content f ''/s/local.conf'' = Some (new_site ''/s'' ''k'' None (fs demo_site)))
     (crash_states (snd (SetIn ''/s'' ''k'' None demo_site)))"
proof -
  have "past demo_site = []" "site_path ''/s'' = ''/s/local.conf''" "content (fs demo_site) ''/s/local.conf'' = Some ''k=1''"
    by code_simp+
  then show ?thesis using SetIn_crash_safe [of demo_site "''/s''" "''k''" None] by (auto simp: list_all_iff)
qed



text \<open>a name that starts with \<^verbatim>\<open>#\<close> is accepted and reported as set, but what is written is a comment: the
  setting is not there when the configuration is loaded, and the next write drops it.\<close>

theorem SetIn_accepts_comment:
  "let w = snd (SetIn ''/s'' ''#n'' (Some ''2'') demo_site)
   in fst (SetIn ''/s'' ''#n'' (Some ''2'') demo_site) = Inr () \<and>
      last_def (file_defs (fs w) ''/s/local.conf'') ''#n'' = None \<and>
      \<not> keeps ''x'' ''#n=2''"
  by code_simp

end
