(* ===== verification/Thermal.thy ===== *)
theory Thermal
  imports Go_Prelude "HOL-Library.Signed_Division"
begin

text \<open>
  The cooling loop, \<^verbatim>\<open>internal/thermal\<close>. What the board's hardware answers is the input: one record for
  each turn of the loop with the sensors, whether the fans took the command, what the lamps said and
  whether the context was cancelled while waiting. The loop is a function from these to the commands
  it gives the hardware and the error it returns, or \<open>None\<close> while it is still running. Integers are
  Go's \<^verbatim>\<open>int\<close> and division truncates; the fan and temperature values never come near the limits.
\<close>

record Curve =
  MinC :: int
  MaxC :: int
  SlewDownMax :: int
  Interval :: int

definition DefaultCurve :: Curve where
  "DefaultCurve = \<lparr>MinC = 35, MaxC = 65, SlewDownMax = 5, Interval = 10 * 1000000000\<rparr>"

definition WithDefaults :: "Curve \<Rightarrow> Curve" where
  "WithDefaults c =
     (let c1 = (if MinC c = 0 \<and> MaxC c = 0 then c\<lparr>MinC := MinC DefaultCurve, MaxC := MaxC DefaultCurve\<rparr> else c);
          c2 = (if SlewDownMax c1 \<le> 0 then c1\<lparr>SlewDownMax := SlewDownMax DefaultCurve\<rparr> else c1)
      in if Interval c2 \<le> 0 then c2\<lparr>Interval := Interval DefaultCurve\<rparr> else c2)"

definition Target :: "Curve \<Rightarrow> int \<Rightarrow> int \<Rightarrow> int" where
  "Target c0 hotC flr =
     (let c = WithDefaults c0
      in if hotC < 0 then 100
         else if hotC \<le> MinC c then flr
         else if hotC \<ge> MaxC c then 100
         else flr + ((hotC - MinC c) * (100 - flr)) sdiv (MaxC c - MinC c))"

text \<open>The readings are millidegrees by sensor; an error may come with some of them.\<close>

definition Hottest :: "(string, int) gomap \<times> bool \<Rightarrow> int" where
  "Hottest = (\<lambda>(temps, err).
     if err \<and> temps = [] then - 1
     else fold (\<lambda>milli hot. let c = milli sdiv 1000 in if c > hot then c else hot) (map snd temps) (- 1))"

record turn =
  t_sensors :: "(string, int) gomap \<times> bool"
  t_fans_ok :: bool
  t_lamp_err :: "string option"
  t_cancelled :: bool

datatype command = SetFanPercent int | HealthLamps int int | LampsUnmanaged | LampLog string

datatype run_error = CannotCommandFans

definition next_duty :: "Curve \<Rightarrow> int \<Rightarrow> int \<Rightarrow> int" where
  "next_duty curve want cur =
     (if want > cur then want
      else if cur - want > SlewDownMax curve then cur - SlewDownMax curve
      else want)"

text \<open>One turn: the new duty, the last lamp error reported, and the commands given.\<close>

definition turn_step :: "Curve \<Rightarrow> int \<Rightarrow> bool \<Rightarrow> turn \<Rightarrow> int \<times> string \<Rightarrow> (int \<times> string) \<times> command list" where
  "turn_step curve flr lamps t = (\<lambda>(cur, lastLampErr).
     let hot = Hottest (t_sensors t);
         cur' = next_duty curve (Target curve hot flr) cur
     in if \<not> lamps then ((cur', lastLampErr), [SetFanPercent cur'])
        else case t_lamp_err t of
          None \<Rightarrow> ((cur', []), [SetFanPercent cur', HealthLamps hot (MaxC curve)])
        | Some s \<Rightarrow>
            ((cur', s), [SetFanPercent cur', HealthLamps hot (MaxC curve)] @
                        (if s \<noteq> lastLampErr then [LampLog s] else [])))"

definition stopping :: "bool \<Rightarrow> command list" where
  "stopping lamps = (if lamps then [LampsUnmanaged] else []) @ [SetFanPercent 100]"

fun run_loop :: "Curve \<Rightarrow> int \<Rightarrow> bool \<Rightarrow> bool \<Rightarrow> int \<times> string \<Rightarrow> turn list \<Rightarrow> run_error option option \<times> command list" where
  "run_loop curve flr lamps once st [] = (None, [])"
| "run_loop curve flr lamps once st (t # ts) =
     (case turn_step curve flr lamps t st of
        (st', cmds) \<Rightarrow>
          if once \<or> t_cancelled t then (Some None, cmds @ stopping lamps)
          else (case run_loop curve flr lamps once st' ts of (r, rest) \<Rightarrow> (r, cmds @ rest)))"

definition Run :: "Curve \<Rightarrow> int \<Rightarrow> bool \<Rightarrow> bool \<Rightarrow> bool \<Rightarrow> turn list \<Rightarrow> run_error option option \<times> command list" where
  "Run curve flr lamps once first_ok ts =
     (if \<not> first_ok then (Some (Some CannotCommandFans), [SetFanPercent 100])
      else case run_loop (WithDefaults curve) flr lamps once (100, []) ts of
        (r, cmds) \<Rightarrow> (r, SetFanPercent 100 # cmds))"

section \<open>The curve\<close>

lemma WithDefaults_idem [simp]: "WithDefaults (WithDefaults c) = WithDefaults c"
  by (auto simp: WithDefaults_def Let_def DefaultCurve_def)

lemma Target_WithDefaults [simp]: "Target (WithDefaults c) = Target c"
  by (simp add: Target_def fun_eq_iff)

lemma SlewDownMax_pos: "0 < SlewDownMax (WithDefaults c)"
  by (auto simp: WithDefaults_def Let_def DefaultCurve_def)

lemma sdiv_pos: "0 \<le> a \<Longrightarrow> 0 < b \<Longrightarrow> a sdiv b = a div b" for a b :: int
  by (simp add: signed_divide_int_def sgn_if)

lemma slope_bounds:
  fixes x w r :: int
  assumes "0 \<le> x" "x \<le> w" "0 < w" "0 \<le> r"
  shows "0 \<le> (x * r) sdiv w" "(x * r) sdiv w \<le> r"
proof -
  have eq: "(x * r) sdiv w = x * r div w" using assms by (intro sdiv_pos) simp_all
  show "0 \<le> (x * r) sdiv w" unfolding eq using assms by (simp add: pos_imp_zdiv_nonneg_iff)
  have "x * r div w \<le> w * r div w" using assms by (intro zdiv_mono1) (simp_all add: mult_right_mono)
  then show "(x * r) sdiv w \<le> r" unfolding eq using assms by simp
qed

lemma Target_bounds: "0 \<le> flr \<Longrightarrow> flr \<le> 100 \<Longrightarrow> flr \<le> Target c h flr \<and> Target c h flr \<le> 100"
  using slope_bounds [of "h - MinC (WithDefaults c)" "MaxC (WithDefaults c) - MinC (WithDefaults c)" "100 - flr"]
  by (auto simp: Target_def Let_def)

text \<open>The duty a temperature asks for never leaves the floor and full cooling, never falls when the
  temperature rises, and is full where nothing could be read or the limit is reached.\<close>

theorem Target_monotone:
  assumes "0 \<le> flr" "flr \<le> 100" "0 \<le> h" "h \<le> h'"
  shows "flr \<le> Target c h flr \<and> Target c h flr \<le> Target c h' flr \<and> Target c h' flr \<le> 100 \<and>
         Target c (- 1) flr = 100 \<and>
         (MinC (WithDefaults c) < h \<longrightarrow> MaxC (WithDefaults c) \<le> h \<longrightarrow> Target c h flr = 100)"
proof -
  let ?c = "WithDefaults c"
  have "Target c h flr \<le> Target c h' flr"
  proof (cases "MinC ?c < h \<and> h' < MaxC ?c")
    case True
    then have w: "0 < MaxC ?c - MinC ?c" using assms by simp
    have "(h - MinC ?c) * (100 - flr) \<le> (h' - MinC ?c) * (100 - flr)"
      using assms by (intro mult_right_mono) simp_all
    moreover have "0 \<le> (h - MinC ?c) * (100 - flr)" using True assms by simp
    ultimately have "((h - MinC ?c) * (100 - flr)) sdiv (MaxC ?c - MinC ?c) \<le> ((h' - MinC ?c) * (100 - flr)) sdiv (MaxC ?c - MinC ?c)"
      using w by (subst sdiv_pos, simp, simp, subst sdiv_pos) (auto intro: zdiv_mono1)
    then show ?thesis using True assms by (simp add: Target_def Let_def)
  next
    case False
    then show ?thesis
      using assms Target_bounds [OF assms(1,2), of c h] Target_bounds [OF assms(1,2), of c h']
      by (auto simp: Target_def Let_def)
  qed
  moreover have "Target c (- 1) flr = 100" by (simp add: Target_def)
  moreover have "MinC ?c < h \<longrightarrow> MaxC ?c \<le> h \<longrightarrow> Target c h flr = 100" using assms by (simp add: Target_def Let_def)
  ultimately show ?thesis using Target_bounds [OF assms(1,2)] by blast
qed

theorem Target_monotone_witness: "Target DefaultCurve 40 30 \<le> Target DefaultCurve 50 30 \<and> Target DefaultCurve 50 30 = 65"
proof -
  have "Target DefaultCurve 50 30 = 65" by code_simp
  then show ?thesis using Target_monotone [of 30 40 50 DefaultCurve] by simp
qed

section \<open>The loop\<close>

fun fan_commands :: "command list \<Rightarrow> int list" where
  "fan_commands [] = []"
| "fan_commands (SetFanPercent p # cs) = p # fan_commands cs"
| "fan_commands (_ # cs) = fan_commands cs"

lemma fan_commands_append [simp]: "fan_commands (xs @ ys) = fan_commands xs @ fan_commands ys"
  by (induction xs rule: fan_commands.induct) simp_all

lemma turn_step_cases:
  obtains st cmds where "turn_step c f l t (cur, e) = ((next_duty c (Target c (Hottest (t_sensors t)) f) cur, st), cmds)"
    "fan_commands cmds = [next_duty c (Target c (Hottest (t_sensors t)) f) cur]"
  by (cases l; cases "t_lamp_err t") (auto simp: turn_step_def Let_def)

text \<open>The duties the loop commands, turn by turn.\<close>

fun duties :: "Curve \<Rightarrow> int \<Rightarrow> int \<Rightarrow> turn list \<Rightarrow> int list" where
  "duties c f cur [] = []"
| "duties c f cur (t # ts) =
     (let d = next_duty c (Target c (Hottest (t_sensors t)) f) cur in d # duties c f d ts)"

fun turns_run :: "bool \<Rightarrow> turn list \<Rightarrow> turn list" where
  "turns_run once [] = []"
| "turns_run once (t # ts) = (if once \<or> t_cancelled t then [t] else t # turns_run once ts)"

lemma run_loop_fans:
  "fan_commands (snd (run_loop c f l once (cur, e) ts)) =
     duties c f cur (turns_run once ts) @ (if fst (run_loop c f l once (cur, e) ts) = None then [] else [100])"
proof (induction ts arbitrary: cur e)
  case (Cons t ts)
  obtain e' cmds where s: "turn_step c f l t (cur, e) = ((next_duty c (Target c (Hottest (t_sensors t)) f) cur, e'), cmds)"
    "fan_commands cmds = [next_duty c (Target c (Hottest (t_sensors t)) f) cur]"
    by (rule turn_step_cases)
  let ?d = "next_duty c (Target c (Hottest (t_sensors t)) f) cur"
  show ?case
  proof (cases "once \<or> t_cancelled t")
    case True
    then show ?thesis using s by (auto simp: stopping_def Let_def)
  next
    case False
    obtain r rest where "run_loop c f l once (?d, e') ts = (r, rest)" by fastforce
    then show ?thesis using s False Cons.IH [of ?d e'] by (simp add: Let_def)
  qed
qed simp

lemma duties_bounds:
  assumes "0 \<le> flr" "flr \<le> 100" "flr \<le> cur" "cur \<le> 100" "0 < SlewDownMax c" "d \<in> set (duties c flr cur ts)"
  shows "flr \<le> d \<and> d \<le> 100"
  using assms
proof (induction ts arbitrary: cur)
  case (Cons t ts)
  let ?d = "next_duty c (Target c (Hottest (t_sensors t)) flr) cur"
  have "flr \<le> ?d \<and> ?d \<le> 100"
    using Cons.prems Target_bounds [of flr c "Hottest (t_sensors t)"] by (auto simp: next_duty_def)
  then show ?case using Cons by (auto simp: Let_def)
qed simp


definition hot_turn :: "int \<Rightarrow> bool \<Rightarrow> turn" where
  "hot_turn m stop = \<lparr>t_sensors = ([(''cpu'', m)], False), t_fans_ok = True, t_lamp_err = None, t_cancelled = stop\<rparr>"


text \<open>C37: the loop settles. While the temperature asks for the same duty, each turn brings the fans to it at
  once from below and by at most the slew from above, never past it, so after enough turns they are
  there and stay.\<close>

theorem duties_settle:
  assumes slew: "0 < SlewDownMax c" and same: "\<forall>t \<in> set ts. Target c (Hottest (t_sensors t)) flr = want"
    and enough: "cur - want \<le> int n * SlewDownMax c" and n: "n < length ts"
  shows "duties c flr cur ts ! n = want \<and> (\<forall>d \<in> set (drop n (duties c flr cur ts)). d = want)"
  using enough n same
proof (induction ts arbitrary: cur n)
  case (Cons t ts)
  let ?d = "next_duty c want cur"
  have t: "Target c (Hottest (t_sensors t)) flr = want" using Cons.prems by simp
  have rest: "\<forall>d \<in> set (duties c flr want ts'). d = want" if "\<forall>t \<in> set ts'. Target c (Hottest (t_sensors t)) flr = want" for ts'
    using that slew by (induction ts') (auto simp: Let_def next_duty_def)
  show ?case
  proof (cases n)
    case 0
    then have d: "?d = want" using Cons.prems(1) slew by (auto simp: next_duty_def)
    show ?thesis using rest [of ts] Cons.prems(3) by (simp add: 0 Let_def t d)
  next
    case (Suc m)
    have "?d - want \<le> int m * SlewDownMax c"
    proof -
      have "0 \<le> int m * SlewDownMax c" using slew by simp
      moreover have "cur - SlewDownMax c - want \<le> int m * SlewDownMax c"
        using Cons.prems(1) Suc by (simp add: algebra_simps)
      ultimately show ?thesis by (simp add: next_duty_def)
    qed
    moreover have "m < length ts" using Cons.prems(2) Suc by simp
    ultimately show ?thesis using Cons.IH [of ?d m] Cons.prems(3) by (simp add: Suc Let_def t)
  qed
qed simp

theorem duties_settle_witness:
  "duties DefaultCurve 30 75 (replicate 4 (hot_turn 50000 False)) ! 2 = 65"
proof -
  have slew: "0 < SlewDownMax DefaultCurve" by code_simp
  have same: "\<forall>t \<in> set (replicate 4 (hot_turn 50000 False)). Target DefaultCurve (Hottest (t_sensors t)) 30 = 65" by code_simp
  have enough: "75 - 65 \<le> int 2 * SlewDownMax DefaultCurve" by code_simp
  have n: "2 < length (replicate 4 (hot_turn 50000 False))" by simp
  show ?thesis by (rule duties_settle [OF slew same enough n, THEN conjunct1])
qed

end
