(* ===== verification/Health.thy ===== *)
theory Health
  imports Mem_Calls
begin

text \<open>
  Whether a freshly booted image is good enough to keep, \<^verbatim>\<open>internal/health\<close>, over any datapath that
  answers \<^verbatim>\<open>Ports\<close> and \<^verbatim>\<open>PortStatus\<close>, and what the check says of the reference datapath.
\<close>

record Result =
  r_Ports :: int
  r_AdminUp :: int
  r_OperUp :: int

datatype unhealthy =
    NoAnswer sw_error
  | NoPorts
  | NoStatus string sw_error
  | NotForwarding int

fun count_up :: "(string \<Rightarrow> 's \<Rightarrow> (sw_error + PortStatus) \<times> 's) \<Rightarrow> Port list \<Rightarrow> Result \<Rightarrow> 's \<Rightarrow> (unhealthy option \<times> Result) \<times> 's" where
  "count_up status [] r s = ((None, r), s)"
| "count_up status (p # ps) r s =
     (case status (pt_Name p) s of
        (Inl e, s') \<Rightarrow> ((Some (NoStatus (pt_Name p) e), r), s')
      | (Inr st, s') \<Rightarrow>
          (let r1 = (if ps_AdminUp st then r\<lparr>r_AdminUp := r_AdminUp r + 1\<rparr> else r);
               r2 = (if ps_OperUp st then r1\<lparr>r_OperUp := r_OperUp r1 + 1\<rparr> else r1)
           in count_up status ps r2 s'))"

definition Check ::
  "('s \<Rightarrow> (sw_error + Port list) \<times> 's) \<Rightarrow> (string \<Rightarrow> 's \<Rightarrow> (sw_error + PortStatus) \<times> 's) \<Rightarrow> 's \<Rightarrow> (unhealthy option \<times> Result) \<times> 's" where
  "Check ports_of status s =
     (let r = \<lparr>r_Ports = 0, r_AdminUp = 0, r_OperUp = 0\<rparr>
      in case ports_of s of
           (Inl e, s') \<Rightarrow> ((Some (NoAnswer e), r), s')
         | (Inr ps, s') \<Rightarrow>
             (let r = r\<lparr>r_Ports := int (length ps)\<rparr>
              in if ps = [] then ((Some NoPorts, r), s')
                 else case count_up status ps r s' of
                   ((Some e, r), s'') \<Rightarrow> ((Some e, r), s'')
                 | ((None, r), s'') \<Rightarrow>
                     if r_AdminUp r > 0 \<and> r_OperUp r = 0 then ((Some (NotForwarding (r_AdminUp r)), r), s'')
                     else ((None, r), s'')))"

text \<open>On the reference datapath every port the switch lists can be asked for its status.\<close>

lemma PortStatus_port:
  assumes "sw_inv s" "a \<in> set (ports s)"
  shows "\<exists>st. PortStatus_of (p_name (at s a)) s = (Inr st, s) \<and> ps_AdminUp st = p_adminUp (at s a) \<and> ps_OperUp st = p_adminUp (at s a)"
  using wf_namesD(1) [OF assms(1) [unfolded sw_inv_def, THEN conjunct1] assms(2)]
  by (simp add: PortStatus_of_def lookup_def)

definition ups :: "Switch \<Rightarrow> addr list \<Rightarrow> int" where
  "ups s as = int (length (filter (\<lambda>a. p_adminUp (at s a)) as))"

lemma count_up_mem:
  assumes inv: "sw_inv s"
  shows "set as \<subseteq> set (ports s) \<Longrightarrow>
    count_up PortStatus_of (map (\<lambda>(i, a). \<lparr>pt_Name = p_name (at s a), pt_Index = i\<rparr>) (enumerate n as)) r s =
    ((None, r\<lparr>r_AdminUp := r_AdminUp r + ups s as, r_OperUp := r_OperUp r + ups s as\<rparr>), s)"
proof (induction as arbitrary: n r)
  case Nil
  then show ?case by (simp add: ups_def)
next
  case (Cons a as)
  then obtain st where st: "PortStatus_of (p_name (at s a)) s = (Inr st, s)" "ps_AdminUp st = p_adminUp (at s a)"
    "ps_OperUp st = p_adminUp (at s a)"
    using PortStatus_port [OF inv, of a] by auto
  show ?case using Cons by (simp add: st Let_def ups_def)
qed

text \<open>the health check never declines the reference datapath, whatever was configured on it: after any
  run of calls it reports every front-panel port and the ports that are administratively up, all of
  them up, finds the image healthy, and leaves the switch as it was.\<close>

theorem Check_mem_healthy:
  assumes reach: "reachable exec fresh s" and ps: "ports s \<noteq> []"
  shows "Check Ports PortStatus_of s =
    ((None, \<lparr>r_Ports = int (length (ports s)), r_AdminUp = ups s (ports s), r_OperUp = ups s (ports s)\<rparr>), s)"
proof -
  have inv: "sw_inv s" by (rule mem.reachable_inv [OF reach])
  show ?thesis
    using count_up_mem [OF inv, of "ports s" 0] ps
    by (cases "ports s") (simp_all add: Check_def Ports_def Let_def)
qed

theorem Check_mem_healthy_witness:
  "fst (Check Ports PortStatus_of demo_switch) = (None, \<lparr>r_Ports = 3, r_AdminUp = 0, r_OperUp = 0\<rparr>)"
proof -
  have "ports demo_switch \<noteq> []" "length (ports demo_switch) = 3" "ups demo_switch (ports demo_switch) = 0" by code_simp+
  then show ?thesis using Check_mem_healthy [OF demo_reachable] by simp
qed

lemma count_up_ok:
  assumes status: "\<And>n. snd (status n s) = s"
  shows "\<forall>p \<in> set ps. \<not> isl (fst (status (pt_Name p) s)) \<Longrightarrow>
    count_up status ps r s = ((None,
      r\<lparr>r_AdminUp := r_AdminUp r + int (length (filter (\<lambda>p. ps_AdminUp (projr (fst (status (pt_Name p) s)))) ps)),
        r_OperUp := r_OperUp r + int (length (filter (\<lambda>p. ps_OperUp (projr (fst (status (pt_Name p) s)))) ps))\<rparr>), s)"
proof (induction ps arbitrary: r)
  case (Cons p ps)
  then obtain st where "status (pt_Name p) s = (Inr st, s)"
    using status [of "pt_Name p"] by (metis isl_def list.set_intros(1) prod.collapse sum.exhaust)
  then show ?case using Cons by (simp add: Let_def)
qed simp

lemma count_up_fails:
  assumes status: "\<And>n. snd (status n s) = s"
  shows "\<exists>p \<in> set ps. isl (fst (status (pt_Name p) s)) \<Longrightarrow> \<exists>e r'. count_up status ps r s = ((Some e, r'), s)"
proof (induction ps arbitrary: r)
  case (Cons p ps)
  obtain x where x: "status (pt_Name p) s = (x, s)" using status [of "pt_Name p"] by (metis prod.collapse)
  show ?case using Cons by (cases x) (auto simp: x Let_def)
qed simp

text \<open>the check declines an image exactly where there is evidence against it: the datapath does not
  answer, knows no port, cannot report on one it listed, or has ports configured up and none of them
  up. An image whose ports are all down is not declined for it.\<close>

theorem Check_declines_iff:
  assumes ports: "\<And>s. snd (ports_of s) = s" and status: "\<And>n s. snd (status n s) = s"
  shows "fst (fst (Check ports_of status s)) = None \<longleftrightarrow>
    (\<exists>ps. fst (ports_of s) = Inr ps \<and> ps \<noteq> [] \<and> (\<forall>p \<in> set ps. \<not> isl (fst (status (pt_Name p) s))) \<and>
      ((\<forall>p \<in> set ps. \<not> ps_AdminUp (projr (fst (status (pt_Name p) s)))) \<or>
       (\<exists>p \<in> set ps. ps_OperUp (projr (fst (status (pt_Name p) s))))))"
proof (cases "fst (ports_of s)")
  case (Inl e)
  then have "ports_of s = (Inl e, s)" using ports [of s] by (metis prod.collapse)
  then show ?thesis by (simp add: Check_def)
next
  case (Inr ps)
  then have p: "ports_of s = (Inr ps, s)" using ports [of s] by (metis prod.collapse)
  show ?thesis
  proof (cases "\<exists>p \<in> set ps. isl (fst (status (pt_Name p) s))")
    case True
    then obtain e r' where "count_up status ps \<lparr>r_Ports = int (length ps), r_AdminUp = 0, r_OperUp = 0\<rparr> s = ((Some e, r'), s)"
      using count_up_fails [where status = status and ps = ps, OF status] by blast
    then show ?thesis using True by (auto simp: Check_def p Let_def)
  next
    case False
    have zero: "(int (length (filter P ps)) = 0) = (\<forall>p \<in> set ps. \<not> P p)" for P :: "Port \<Rightarrow> bool"
      by (simp add: filter_empty_conv)
    have pos: "(0 < int (length (filter P ps))) = (\<exists>p \<in> set ps. P p)" for P :: "Port \<Rightarrow> bool"
      using zero [of P] by (metis of_nat_0_less_iff of_nat_eq_0_iff neq0_conv)
    show ?thesis
      using False count_up_ok [where status = status and ps = ps, OF status]
      by (simp add: Check_def p Let_def zero pos del: of_nat_0_less_iff of_nat_eq_0_iff length_0_conv length_greater_0_conv)
  qed
qed

theorem Check_declines_iff_witness:
  "fst (fst (Check (\<lambda>s. (Inr [\<lparr>pt_Name = ''swp1'', pt_Index = 0\<rparr>], s))
     (\<lambda>n s. (Inr \<lparr>ps_Name = n, ps_AdminUp = True, ps_OperUp = False, ps_SpeedMbps = 0, ps_FullDuplex = True, ps_MTU = 1500\<rparr>, s)) ())) \<noteq> None"
  using Check_declines_iff [of "\<lambda>s. (Inr [\<lparr>pt_Name = ''swp1'', pt_Index = 0\<rparr>], s)"
     "\<lambda>n s. (Inr \<lparr>ps_Name = n, ps_AdminUp = True, ps_OperUp = False, ps_SpeedMbps = 0, ps_FullDuplex = True, ps_MTU = 1500\<rparr>, s)" "()"]
  by simp

end
