(* ===== verification/Sff.thy ===== *)
theory Sff
  imports Go_Prelude "HOL-Library.Word" "HOL-Library.Signed_Division"
begin

unbundle bit_operations_syntax

text \<open>
  Decoding what a pluggable transceiver reports of itself, \<^verbatim>\<open>internal/platformhal/sff\<close>: SFF-8472 for the
  SFP family, SFF-8636 for the QSFP family. A page is a list of bytes; numbers are Go's \<^verbatim>\<open>int\<close>, and
  division truncates. \<^verbatim>\<open>DBm\<close> and \<^verbatim>\<open>FormatDBm\<close>, which take a logarithm in floating point for display, are
  left out.
\<close>

type_synonym byte = "8 word"

datatype Kind = UnknownKind | SFP | QSFP

definition Kind_String :: "Kind \<Rightarrow> string" where
  "Kind_String k = (case k of SFP \<Rightarrow> ''SFP'' | QSFP \<Rightarrow> ''QSFP'' | UnknownKind \<Rightarrow> ''unknown'')"

definition KindOf :: "byte \<Rightarrow> Kind" where
  "KindOf identifier =
     (if identifier = 0x03 then SFP
      else if identifier \<in> {0x0c, 0x0d, 0x11, 0x18, 0x19} then QSFP
      else UnknownKind)"

record Lane =
  Index_of :: int
  TXBiasUA :: int
  TXPowerUW :: int
  RXPowerUW :: int
  TXPowerOK :: bool

record Module =
  m_Kind :: Kind
  Identifier :: byte
  Vendor :: string
  PartNumber :: string
  SerialNumber :: string
  TempMilliC :: int
  VccMV :: int
  Lanes :: "Lane list"
  TempOK :: bool
  VccOK :: bool

definition empty_module :: "Kind \<Rightarrow> Module" where
  "empty_module k =
     \<lparr>m_Kind = k, Identifier = 0, Vendor = [], PartNumber = [], SerialNumber = [], TempMilliC = 0, VccMV = 0,
      Lanes = [], TempOK = False, VccOK = False\<rparr>"

definition DiagnosticsAllZero :: "Module \<Rightarrow> bool" where
  "DiagnosticsAllZero m =
     (if TempMilliC m \<noteq> 0 \<or> VccMV m \<noteq> 0 then False
      else if list_ex (\<lambda>l. TXBiasUA l \<noteq> 0 \<or> RXPowerUW l \<noteq> 0 \<or> TXPowerUW l \<noteq> 0) (Lanes m) then False
      else 0 < length (Lanes m))"

definition be16 :: "byte list \<Rightarrow> nat \<Rightarrow> int" where
  "be16 b off =
     (if off + 1 \<ge> length b then 0
      else push_bit 8 (uint (b ! off)) OR uint (b ! (off + 1)))"

definition sbe16 :: "byte list \<Rightarrow> nat \<Rightarrow> int" where
  "sbe16 b off = (let v = be16 b off in if v \<ge> 0x8000 then v - 0x10000 else v)"

definition text_at :: "byte list \<Rightarrow> nat \<Rightarrow> nat \<Rightarrow> string" where
  "text_at b off n =
     (if off + n > length b then []
      else TrimSpace (map (\<lambda>c. char_of (uint c)) (filter (\<lambda>c. c \<ge> 0x20 \<and> c < 0x7f) (take n (drop off b)))))"

definition sfpDiagType :: nat where
  "sfpDiagType = 92"

definition SFPA0Len :: nat where
  "SFPA0Len = 96"

definition SFPA2Len :: nat where
  "SFPA2Len = 112"

definition SFPHasDiagnostics :: "byte list \<Rightarrow> bool" where
  "SFPHasDiagnostics a0 =
     (if length a0 \<le> sfpDiagType then False
      else a0 ! sfpDiagType AND 0x40 \<noteq> 0 \<or> a0 ! sfpDiagType AND 0x20 \<noteq> 0)"

definition SFPExternallyCalibrated :: "byte list \<Rightarrow> bool" where
  "SFPExternallyCalibrated a0 =
     (if length a0 \<le> sfpDiagType then False else a0 ! sfpDiagType AND 0x10 \<noteq> 0)"

definition DecodeSFP :: "byte list \<Rightarrow> byte list \<Rightarrow> Module" where
  "DecodeSFP a0 a2 =
     (let m0 = empty_module SFP;
          m1 = (if length a0 > 0 then m0\<lparr>Identifier := a0 ! 0\<rparr> else m0);
          m2 = (if length a0 \<ge> SFPA0Len
                then m1\<lparr>Vendor := text_at a0 20 16, PartNumber := text_at a0 40 16, SerialNumber := text_at a0 68 16\<rparr>
                else m1)
      in if length a2 \<ge> SFPA2Len
         then m2\<lparr>TempMilliC := (sbe16 a2 96 * 1000) sdiv 256, VccMV := be16 a2 98 sdiv 10, TempOK := True, VccOK := True,
                  Lanes := [\<lparr>Index_of = 1, TXBiasUA = be16 a2 100 * 2, TXPowerUW = be16 a2 102 sdiv 10,
                             RXPowerUW = be16 a2 104 sdiv 10, TXPowerOK = True\<rparr>]\<rparr>
         else m2)"

definition QSFPLowerLen :: nat where
  "QSFPLowerLen = 86"

definition QSFPUpperLen :: nat where
  "QSFPUpperLen = 128"

definition QSFPDataReady :: "byte list \<Rightarrow> bool" where
  "QSFPDataReady lower = (if length lower \<le> 2 then False else lower ! 2 AND 0x01 = 0)"

definition DecodeQSFP :: "byte list \<Rightarrow> byte list \<Rightarrow> Module" where
  "DecodeQSFP lower upper =
     (let m0 = empty_module QSFP;
          m1 = (if length lower > 0 then m0\<lparr>Identifier := lower ! 0\<rparr> else m0);
          m2 = (if length lower \<ge> QSFPLowerLen
                then let txOK = list_ex (\<lambda>i. be16 lower (50 + 2 * i) \<noteq> 0) [0..<4]
                     in m1\<lparr>TempMilliC := (sbe16 lower 22 * 1000) sdiv 256, VccMV := be16 lower 26 sdiv 10,
                            TempOK := True, VccOK := True,
                            Lanes := map (\<lambda>i. \<lparr>Index_of = int i + 1, TXBiasUA = be16 lower (42 + 2 * i) * 2,
                                               TXPowerUW = be16 lower (50 + 2 * i) sdiv 10,
                                               RXPowerUW = be16 lower (34 + 2 * i) sdiv 10, TXPowerOK = txOK\<rparr>) [0..<4]\<rparr>
                else m1)
      in if length upper \<ge> QSFPUpperLen
         then m2\<lparr>Vendor := text_at upper 20 16, PartNumber := text_at upper 40 16, SerialNumber := text_at upper 68 16\<rparr>
         else m2)"

section \<open>Reading a module\<close>

text \<open>\<^verbatim>\<open>platformhal.ReadModule\<close> over a board that answers \<open>bytes_at cage addr page offset n\<close>, or fails.\<close>

datatype optics_error =
    NoSuchCage int int
  | ReadFailed int string
  | EmptyModule int
  | UnknownIdentifier int byte

definition addrA0 :: int where
  "addrA0 = 0x50"

definition addrA2 :: int where
  "addrA2 = 0x51"

definition ReadModule ::
  "(int \<Rightarrow> int \<Rightarrow> int \<Rightarrow> int \<Rightarrow> int \<Rightarrow> byte list option) \<Rightarrow> int \<Rightarrow> int \<Rightarrow> bool \<Rightarrow> optics_error option \<times> Module" where
  "ReadModule bytes_at cages cage identity =
     (let none = empty_module UnknownKind
      in if cage < 1 \<or> cage > cages then (Some (NoSuchCage cage cages), none)
         else case bytes_at cage addrA0 (- 1) 0 1 of
           None \<Rightarrow> (Some (ReadFailed cage ''reading the identifier''), none)
         | Some [] \<Rightarrow> (Some (EmptyModule cage), none)
         | Some (idb # _) \<Rightarrow>
             (case KindOf idb of
                QSFP \<Rightarrow>
                  (case bytes_at cage addrA0 (- 1) 0 (int QSFPLowerLen) of
                     None \<Rightarrow> (Some (ReadFailed cage ''reading diagnostics''), none)
                   | Some lower \<Rightarrow>
                       let upper = (if identity then case bytes_at cage addrA0 0 128 (int QSFPUpperLen) of None \<Rightarrow> [] | Some u \<Rightarrow> u else [])
                       in (None, DecodeQSFP lower upper))
              | SFP \<Rightarrow>
                  (case bytes_at cage addrA0 (- 1) 0 (int SFPA0Len) of
                     None \<Rightarrow> (Some (ReadFailed cage ''reading identity''), none)
                   | Some a0 \<Rightarrow>
                       let a2 = (if SFPHasDiagnostics a0 then case bytes_at cage addrA2 (- 1) 0 (int SFPA2Len) of None \<Rightarrow> [] | Some b \<Rightarrow> b else [])
                       in (None, DecodeSFP a0 a2))
              | UnknownKind \<Rightarrow> (Some (UnknownIdentifier cage idb), none\<lparr>Identifier := idb\<rparr>)))"

section \<open>Numbers\<close>

definition word16 :: "byte list \<Rightarrow> nat \<Rightarrow> 16 word" where
  "word16 b off = word_cat (b ! off) (b ! (off + 1))"

lemma uint_or_bytes: "push_bit 8 (uint h) OR uint l = uint (word_cat h l :: 16 word)" for h l :: byte
proof (rule bit_eqI)
  fix n
  have "n < 8" if "bit l n" using that bit_imp_le_length [OF that] by simp
  moreover have "n - 8 < 8" if "bit h (n - 8)" using bit_imp_le_length [OF that] by simp
  ultimately show "bit (push_bit 8 (uint h) OR uint l) n = bit (uint (word_cat h l :: 16 word)) n"
    by (auto simp: bit_simps)
qed

lemma uint_word16_bounds: "0 \<le> uint w" "uint w < 65536" for w :: "16 word"
  using uint_bounded [of w] by simp_all

lemma sint_word16: "sint w = (if uint w \<ge> 0x8000 then uint w - 0x10000 else uint w)" for w :: "16 word"
proof -
  have b: "bit (uint w) 15 \<longleftrightarrow> uint w \<ge> 32768"
  proof -
    have "uint w div 32768 = (if uint w \<ge> 32768 then 1 else 0)" using uint_word16_bounds [of w] by auto
    then show ?thesis by (simp add: bit_iff_odd)
  qed
  have "sint w = take_bit 16 (uint w) - 65536 * of_bool (bit (uint w) 15)"
    by (simp add: sint_uint signed_take_bit_eq_take_bit_minus)
  moreover have "take_bit 16 (uint w) = uint w" using uint_word16_bounds [of w] by (simp add: take_bit_int_eq_self_iff)
  ultimately show ?thesis using b by simp
qed

lemma be16_word16: "be16 b off = (if off + 1 < length b then uint (word16 b off) else 0)"
  by (simp add: be16_def word16_def uint_or_bytes)

text \<open>two bytes of a page are read as the standards define them: \<^verbatim>\<open>be16\<close> is the big-endian unsigned word and
  \<^verbatim>\<open>sbe16\<close> its two's complement reading, for every page long enough to hold them, and past its end
  the answer is zero instead of a fault.\<close>

theorem be16_reads_words:
  "be16 b off = (if off + 1 < length b then uint (word16 b off) else 0) \<and>
   sbe16 b off = (if off + 1 < length b then sint (word16 b off) else 0)"
  by (simp add: sbe16_def be16_word16 sint_word16)

lemma be16_bounds: "0 \<le> be16 b off" "be16 b off < 65536"
  using uint_word16_bounds by (simp_all add: be16_word16)

lemma sbe16_bounds: "- 32768 \<le> sbe16 b off" "sbe16 b off < 32768"
  using be16_bounds [of b off] by (simp_all add: sbe16_def Let_def)

section \<open>What a module can report\<close>

lemma sdiv_int: "a sdiv b = (if 0 \<le> a then a div b else - (- a div b))" if "0 < b" for a b :: int
  using that by (simp add: signed_divide_int_def sgn_if)

definition lane_ok :: "Lane \<Rightarrow> bool" where
  "lane_ok l \<longleftrightarrow> 0 \<le> TXBiasUA l \<and> TXBiasUA l \<le> 131070 \<and> 0 \<le> TXPowerUW l \<and> TXPowerUW l \<le> 6553 \<and>
     0 \<le> RXPowerUW l \<and> RXPowerUW l \<le> 6553"

lemma power_bounds: "0 \<le> be16 b off sdiv 10" "be16 b off sdiv 10 \<le> 6553"
  using be16_bounds [of b off] by (simp_all add: sdiv_int)

lemma temp_bounds: "- 128000 \<le> (sbe16 b off * 1000) sdiv 256" "(sbe16 b off * 1000) sdiv 256 \<le> 127996"
  using sbe16_bounds [of b off] by (auto simp: sdiv_int)

definition module_ok :: "nat \<Rightarrow> Module \<Rightarrow> bool" where
  "module_ok n m \<longleftrightarrow> - 128000 \<le> TempMilliC m \<and> TempMilliC m \<le> 127996 \<and> 0 \<le> VccMV m \<and> VccMV m \<le> 6553 \<and>
     list_all lane_ok (Lanes m) \<and> map Index_of (Lanes m) = (if TempOK m then map (\<lambda>i. int i + 1) [0..<n] else []) \<and>
     VccOK m = TempOK m"

lemma upt4: "[0..<4] = [0, 1, 2, 3 :: nat]"
  by (simp add: upt_rec)

text \<open>Whatever bytes a module returns, however short or wrong, decoding is total and every number lies in
  the range its field has in the standard: the temperature in millidegrees, the supply in millivolts,
  the bias in microamps and the powers in microwatts. An SFP has one lane and a QSFP four, numbered
  from one, exactly when the page is long enough, and only then are temperature and supply said to
  be good.\<close>

theorem decode_bounds:
  "module_ok 1 (DecodeSFP a0 a2) \<and> TempOK (DecodeSFP a0 a2) = (112 \<le> length a2) \<and>
   module_ok 4 (DecodeQSFP lower upper) \<and> TempOK (DecodeQSFP lower upper) = (86 \<le> length lower)"
proof -
  have bias: "0 \<le> be16 b off * 2" "be16 b off * 2 \<le> 131070" for b off using be16_bounds [of b off] by simp_all
  note facts = bias power_bounds temp_bounds
  have "module_ok 1 (DecodeSFP a0 a2)" "TempOK (DecodeSFP a0 a2) = (112 \<le> length a2)"
    using facts by (simp_all add: module_ok_def DecodeSFP_def empty_module_def Let_def lane_ok_def SFPA2Len_def)
  moreover have "module_ok 4 (DecodeQSFP lower upper)" "TempOK (DecodeQSFP lower upper) = (86 \<le> length lower)"
    using facts by (simp_all add: module_ok_def DecodeQSFP_def empty_module_def Let_def lane_ok_def QSFPLowerLen_def upt4)
  ultimately show ?thesis by blast
qed

lemma sdiv10_zero: "be16 b off sdiv 10 = 0 \<longleftrightarrow> be16 b off < 10"
  using be16_bounds [of b off] by (auto simp: sdiv_int div_eq_0_iff)

lemma temp_zero: "(sbe16 b off * 1000) sdiv 256 = 0 \<longleftrightarrow> sbe16 b off = 0"
proof -
  have "t * 1000 sdiv 256 \<noteq> 0" if "t \<noteq> 0" for t :: int
    using that by (cases "0 \<le> t") (auto simp: sdiv_int div_eq_0_iff)
  then show ?thesis by (cases "sbe16 b off = 0") simp_all
qed

text \<open>a diagnostic block is called all zero exactly when the page was long enough and every field of it
  reads below what the field can resolve.\<close>

theorem QSFP_all_zero_iff:
  "DiagnosticsAllZero (DecodeQSFP lower upper) \<longleftrightarrow>
     length lower \<ge> 86 \<and> sbe16 lower 22 = 0 \<and> be16 lower 26 < 10 \<and>
     list_all (\<lambda>i. be16 lower (42 + 2 * i) = 0 \<and> be16 lower (50 + 2 * i) < 10 \<and> be16 lower (34 + 2 * i) < 10) [0..<4]"
  by (auto simp: DiagnosticsAllZero_def DecodeQSFP_def empty_module_def Let_def QSFPLowerLen_def upt4 temp_zero sdiv10_zero)

text \<open>Light levels never cost a page select and never reach a diagnostic page that is not there. Where
  only they are asked for, the answer depends on the always-mapped page alone, so a board that can
  not select pages gives the same; and a module that says it has no diagnostics is never read at the
  second address, so what the bus floats to there does not matter, and no lane is reported for it.\<close>

theorem ReadModule_reads_only:
  assumes same: "\<And>cage addr offset n. bytes_at cage addr (- 1) offset n = bytes_at' cage addr (- 1) offset n"
    and a0: "\<And>n. bytes_at'' cage addrA0 (- 1) 0 n = bytes_at cage addrA0 (- 1) 0 n"
    and none: "\<And>n b. bytes_at cage addrA0 (- 1) 0 n = Some b \<Longrightarrow> \<not> SFPHasDiagnostics b"
  shows "ReadModule bytes_at cages cage False = ReadModule bytes_at' cages cage False \<and>
         ReadModule bytes_at'' cages cage False = ReadModule bytes_at cages cage False"
proof
  show "ReadModule bytes_at cages cage False = ReadModule bytes_at' cages cage False"
    unfolding ReadModule_def same if_False ..
  show "ReadModule bytes_at'' cages cage False = ReadModule bytes_at cages cage False"
  proof (cases "bytes_at cage addrA0 (- 1) 0 (int SFPA0Len)")
    case None
    then show ?thesis by (auto simp: ReadModule_def Let_def a0 split: option.split list.split Kind.split)
  next
    case (Some b)
    then have "\<not> SFPHasDiagnostics b" by (rule none)
    with Some show ?thesis by (auto simp: ReadModule_def Let_def a0 split: option.split list.split Kind.split)
  qed
qed

theorem ReadModule_reads_only_witness:
  "ReadModule (\<lambda>_ addr _ _ n. if addr = 0x50 then Some [3] else Some [0xff]) 4 1 False =
   ReadModule (\<lambda>_ _ _ _ _. Some [3]) 4 1 False"
  using ReadModule_reads_only [of "\<lambda>_ _ _ _ _. Some [3]" "\<lambda>_ _ _ _ _. Some [3]" "\<lambda>_ addr _ _ n. if addr = 0x50 then Some [3] else Some [0xff]" 1 4]
  by (simp add: addrA0_def SFPHasDiagnostics_def sfpDiagType_def)

end
