(* ===== verification/Identity_Eeprom.thy ===== *)
theory Identity_Eeprom
  imports Sff
begin

text \<open>
  What a board says it is, from its own EEPROM: the ONIE \<^verbatim>\<open>TlvInfo\<close> decoder of \<^verbatim>\<open>internal/platformhal/as4610\<close>
  and the Cisco ID PROM decoder of \<^verbatim>\<open>internal/platformhal/n3172tq\<close>. Bytes are words, text is the bytes as
  characters; reading the parts over i2c is not modelled.
\<close>

record Identity =
  Model :: string
  Serial :: string
  Revision :: string
  SID :: string
  MAC :: "byte list"
  MACCount :: int

definition blank_identity :: Identity where
  "blank_identity = \<lparr>Model = [], Serial = [], Revision = [], SID = [], MAC = [], MACCount = 0\<rparr>"

definition chars :: "byte list \<Rightarrow> string" where
  "chars = map (\<lambda>b. char_of (uint b))"

section \<open>ONIE TlvInfo\<close>

definition onieHeaderID :: "byte list" where
  "onieHeaderID = [0x54, 0x6c, 0x76, 0x49, 0x6e, 0x66, 0x6f, 0x00]"

definition onieHeaderLen :: nat where
  "onieHeaderLen = 11"

definition onieVersion :: byte where
  "onieVersion = 1"

datatype onie_error =
    TooFewBytes nat
  | NotTlvInfo "byte list"
  | WrongVersion byte
  | NoNameOrSerial

text \<open>\<^verbatim>\<open>strings.TrimRight\<close> of NULs and spaces.\<close>

definition trim_nul_space :: "byte list \<Rightarrow> byte list" where
  "trim_nul_space b = rev (dropWhile (\<lambda>c. c = 0 \<or> c = 0x20) (rev b))"

definition tlv_field :: "byte \<Rightarrow> byte list \<Rightarrow> Identity \<Rightarrow> Identity" where
  "tlv_field typ raw i =
     (let val = chars (trim_nul_space raw)
      in if typ = 0x21 then i\<lparr>Model := val\<rparr>
         else if typ = 0x23 then i\<lparr>Serial := val\<rparr>
         else if typ = 0x27 then i\<lparr>Revision := val\<rparr>
         else if typ = 0x26 then
           (if Revision i = [] \<and> length raw = 1 then i\<lparr>Revision := nat_dec (unat (raw ! 0))\<rparr> else i)
         else if typ = 0x28 then i\<lparr>SID := val\<rparr>
         else if typ = 0x22 then (if SID i = [] then i\<lparr>SID := val\<rparr> else i)
         else i)"

text \<open>The loop over the fields, from position \<open>p\<close> up to \<open>e\<close>.\<close>

function tlv_loop :: "byte list \<Rightarrow> nat \<Rightarrow> nat \<Rightarrow> Identity \<Rightarrow> Identity" where
  "tlv_loop raw e p i =
     (if p + 2 \<le> e then
        (let n = unat (raw ! (p + 1))
         in if p + 2 + n > e then i
            else tlv_loop raw e (p + 2 + n) (tlv_field (raw ! p) (take n (drop (p + 2) raw)) i))
      else i)"
  by pat_completeness auto
termination
  by (relation "measure (\<lambda>(_, e, p, _). e - p)") auto

declare tlv_loop.simps [simp del]

definition decodeONIE :: "byte list \<Rightarrow> onie_error option \<times> Identity" where
  "decodeONIE raw =
     (if length raw < onieHeaderLen then (Some (TooFewBytes (length raw)), blank_identity)
      else if take 8 raw \<noteq> onieHeaderID then (Some (NotTlvInfo (take 8 raw)), blank_identity)
      else if raw ! 8 \<noteq> onieVersion then (Some (WrongVersion (raw ! 8)), blank_identity)
      else
        let total = unat (word16 raw 9);
            e = min (onieHeaderLen + total) (length raw);
            i = tlv_loop raw e onieHeaderLen blank_identity
        in if Model i = [] \<and> Serial i = [] then (Some NoNameOrSerial, i) else (None, i))"

section \<open>Cisco ID PROM\<close>

record idprom =
  ip_Vendor :: string
  ip_Model :: string
  ip_Serial :: string
  ip_Part :: string
  ip_Rev :: string
  ip_MAC :: "byte list"
  ip_MACSize :: int

definition idpromRecordLen :: nat where
  "idpromRecordLen = 4096"

definition idpromFieldMax :: nat where
  "idpromFieldMax = 20"

definition indexByte :: "byte list \<Rightarrow> byte \<Rightarrow> int" where
  "indexByte b c = (case List.find (\<lambda>i. b ! i = c) [0..<length b] of None \<Rightarrow> - 1 | Some i \<Rightarrow> int i)"

text \<open>Ranging over a string decodes UTF-8; a byte of 0x80 or more begins or belongs to a rune beyond ASCII, or
  is the replacement rune, all of which the check refuses.\<close>

definition idpromString :: "byte list \<Rightarrow> nat \<Rightarrow> string" where
  "idpromString rec off =
     (if off + idpromFieldMax > length rec then []
      else let b = take idpromFieldMax (drop off rec);
               b' = (if indexByte b 0 \<ge> 0 then take (nat (indexByte b 0)) b else b);
               s = TrimSpace (chars b')
           in if list_ex (\<lambda>c. (of_char c :: int) < 0x20 \<or> (of_char c :: int) > 0x7e) s then [] else s)"

datatype idprom_error = ShortPROM nat nat | NoMagic nat byte byte

text \<open>Record \<open>n\<close> of the part; the two callers pass the constants 0 and 1.\<close>

definition parseIDPROMRecord :: "byte list \<Rightarrow> nat \<Rightarrow> idprom_error + idprom" where
  "parseIDPROMRecord img n =
     (let start = n * idpromRecordLen
      in if start + idpromRecordLen > length img then Inl (ShortPROM n (length img))
         else
           let rec = take idpromRecordLen (drop start img)
           in if rec ! 0 \<noteq> 0xab \<or> rec ! 1 \<noteq> 0xab then Inl (NoMagic n (rec ! 0) (rec ! 1))
              else
                let d = \<lparr>ip_Vendor = idpromString rec 14, ip_Model = idpromString rec 34, ip_Serial = idpromString rec 54,
                         ip_Part = idpromString rec 74, ip_Rev = idpromString rec 90, ip_MAC = [], ip_MACSize = 0\<rparr>;
                    mac = take 6 (drop 184 rec)
                in Inr (if list_all (\<lambda>c. c = 0) mac then d
                        else d\<lparr>ip_MAC := mac, ip_MACSize := push_bit 8 (uint (rec ! 190)) OR uint (rec ! 191)\<rparr>))"

section \<open>Fields that are written are read\<close>

text \<open>An EEPROM as ONIE writes it: the header, the length of the fields, the fields.\<close>

definition tlv_bytes :: "(byte \<times> byte list) list \<Rightarrow> byte list" where
  "tlv_bytes fs = concat (map (\<lambda>(t, v). t # of_nat (length v) # v) fs)"

definition onie_image :: "(byte \<times> byte list) list \<Rightarrow> byte list" where
  "onie_image fs =
     onieHeaderID @ [onieVersion, of_nat (length (tlv_bytes fs) div 256), of_nat (length (tlv_bytes fs) mod 256)] @ tlv_bytes fs"

definition wf_tlvs :: "(byte \<times> byte list) list \<Rightarrow> bool" where
  "wf_tlvs fs \<longleftrightarrow> list_all (\<lambda>(t, v). length v < 256) fs \<and> length (tlv_bytes fs) < 65536"

lemma tlv_loop_fields:
  "list_all (\<lambda>(t, v). length v < 256) fs \<Longrightarrow> p = length pre \<Longrightarrow> raw = pre @ tlv_bytes fs @ post \<Longrightarrow>
   e = p + length (tlv_bytes fs) \<Longrightarrow> tlv_loop raw e p i = fold (\<lambda>(t, v). tlv_field t v) fs i"
proof (induction fs arbitrary: pre p i)
  case Nil
  then show ?case by (subst tlv_loop.simps) (simp add: tlv_bytes_def)
next
  case (Cons f fs)
  obtain t v where f: "f = (t, v)" by (cases f)
  have v: "unat (of_nat (length v) :: byte) = length v" using Cons.prems(1) f by (simp add: unat_of_nat take_bit_nat_eq_self)
  have raw: "raw = pre @ t # of_nat (length v) # v @ tlv_bytes fs @ post" using Cons.prems(3) f by (simp add: tlv_bytes_def)
  have len: "length (tlv_bytes (f # fs)) = 2 + length v + length (tlv_bytes fs)" by (simp add: f tlv_bytes_def)
  have step: "tlv_loop raw e p i = tlv_loop raw e (p + 2 + length v) (tlv_field t v i)"
    using Cons.prems(2,4) len v by (subst tlv_loop.simps) (simp add: raw nth_append Let_def)
  show ?case unfolding step
    using Cons.prems len raw f
    by (subst Cons.IH [of "p + 2 + length v" "pre @ t # of_nat (length v) # v"]) simp_all
qed

lemma uint_word_cat: "uint (word_cat h l :: 16 word) = 256 * uint h + uint l" for h l :: byte
proof -
  have "uint h < 256" "uint l < 256" "0 \<le> uint h" "0 \<le> uint l"
    using uint_bounded [of h] uint_bounded [of l] by simp_all
  moreover have "uint (word_cat h l :: 16 word) = take_bit 16 (uint l + 256 * uint h)"
    using \<open>uint l < 256\<close> \<open>0 \<le> uint l\<close> unfolding word_cat_eq' concat_bit_eq uint_word_of_int_eq
    by (simp add: push_bit_eq_mult take_bit_int_eq_self mult.commute)
  ultimately show ?thesis by (simp add: take_bit_int_eq_self)
qed

lemma length_word: "unat (word_cat (of_nat (n div 256) :: byte) (of_nat (n mod 256) :: byte) :: 16 word) = n" if "n < 65536"
proof -
  have "n div 256 < 256" using that by simp
  then have "uint (of_nat (n div 256) :: byte) = int (n div 256)" "uint (of_nat (n mod 256) :: byte) = int (n mod 256)"
    by (simp_all only: uint_nat unat_of_nat take_bit_nat_eq_self) simp_all
  then have "uint (word_cat (of_nat (n div 256) :: byte) (of_nat (n mod 256) :: byte) :: 16 word) = int (256 * (n div 256) + n mod 256)"
    by (simp only: uint_word_cat of_nat_add of_nat_mult of_nat_numeral)
  also have "256 * (n div 256) + n mod 256 = n" by (rule mult_div_mod_eq)
  finally show ?thesis by (simp only: unat_eq_nat_uint nat_int)
qed

text \<open>C38: the ONIE decoder reads every EEPROM that is written as the format says: the fields are taken in
  order, each with its own bytes, to the last, whatever follows them, and the result is an error only
  where neither a name nor a serial is among them.\<close>

theorem decodeONIE_reads_fields:
  assumes "wf_tlvs fs"
  shows "snd (decodeONIE (onie_image fs @ post)) = fold (\<lambda>(t, v). tlv_field t v) fs blank_identity \<and>
         (fst (decodeONIE (onie_image fs @ post)) = None \<longleftrightarrow>
            (let i = fold (\<lambda>(t, v). tlv_field t v) fs blank_identity in Model i \<noteq> [] \<or> Serial i \<noteq> []))"
proof -
  define raw where "raw = onie_image fs @ post"
  define n where "n = length (tlv_bytes fs)"
  define hd where "hd = onieHeaderID @ [onieVersion, of_nat (n div 256), of_nat (n mod 256)]"
  have raw: "raw = hd @ tlv_bytes fs @ post" by (simp add: raw_def hd_def n_def onie_image_def)
  have hd: "length hd = 11" by (simp add: hd_def onieHeaderID_def)
  have n: "n < 65536" using assms by (simp add: wf_tlvs_def n_def)
  have "word16 raw 9 = word_cat (of_nat (n div 256) :: byte) (of_nat (n mod 256) :: byte)"
    by (simp add: word16_def raw hd_def onieHeaderID_def nth_append)
  then have total: "unat (word16 raw 9) = n" using n by (simp add: length_word)
  have e: "min (onieHeaderLen + n) (length raw) = length hd + length (tlv_bytes fs)"
    by (simp add: onieHeaderLen_def raw hd n_def)
  have loop: "tlv_loop raw (min (onieHeaderLen + n) (length raw)) onieHeaderLen blank_identity =
      fold (\<lambda>(t, v). tlv_field t v) fs blank_identity"
    unfolding e using tlv_loop_fields [OF _ _ raw refl] assms by (simp add: hd onieHeaderLen_def wf_tlvs_def)
  have "take 8 raw = onieHeaderID" "raw ! 8 = onieVersion" "\<not> length raw < onieHeaderLen"
    by (simp_all add: raw hd_def onieHeaderID_def onieHeaderLen_def nth_append)
  then show ?thesis unfolding raw_def [symmetric]
    by (simp add: decodeONIE_def total Let_def loop)
qed

theorem decodeONIE_reads_fields_witness:
  "wf_tlvs [(0x21, [0x41, 0x53, 0]), (0x26, [2]), (0x23, [0x37])] \<and>
   decodeONIE (onie_image [(0x21, [0x41, 0x53, 0]), (0x26, [2]), (0x23, [0x37])] @ [0xff]) =
     (None, blank_identity\<lparr>Model := ''AS'', Serial := ''7'', Revision := ''2''\<rparr>)"
proof -
  define fs :: "(byte \<times> byte list) list" where "fs = [(0x21, [0x41, 0x53, 0]), (0x26, [2]), (0x23, [0x37])]"
  have wf: "wf_tlvs fs" by (simp add: fs_def wf_tlvs_def tlv_bytes_def)
  have "fold (\<lambda>(t, v). tlv_field t v) fs blank_identity = blank_identity\<lparr>Model := ''AS'', Serial := ''7'', Revision := ''2''\<rparr>"
    unfolding fs_def by code_simp
  then show ?thesis using wf decodeONIE_reads_fields [OF wf, of "[0xff]"]
    unfolding fs_def [symmetric] by (cases "decodeONIE (onie_image fs @ [0xff])") (simp add: blank_identity_def)
qed

section \<open>No invented identity\<close>

definition printable :: "string \<Rightarrow> bool" where
  "printable s \<longleftrightarrow> list_all (\<lambda>c. 0x20 \<le> (of_char c :: int) \<and> (of_char c :: int) \<le> 0x7e) s \<and> TrimSpace s = s"

definition idprom_ok :: "idprom \<Rightarrow> bool" where
  "idprom_ok d \<longleftrightarrow> list_all printable [ip_Vendor d, ip_Model d, ip_Serial d, ip_Part d, ip_Rev d] \<and>
     (if ip_MAC d = [] then ip_MACSize d = 0
      else length (ip_MAC d) = 6 \<and> list_ex (\<lambda>c. c \<noteq> 0) (ip_MAC d) \<and> 0 \<le> ip_MACSize d \<and> ip_MACSize d < 65536)"

lemma idpromString_printable: "printable (idpromString rec off)"
proof -
  have "printable (if list_ex (\<lambda>c. (of_char c :: int) < 0x20 \<or> (of_char c :: int) > 0x7e) (TrimSpace s) then [] else TrimSpace s)" for s
    using trimmed_of_TrimSpace [of s] by (auto simp: printable_def list_all_iff list_ex_iff trimmed_iff)
  then show ?thesis by (simp add: idpromString_def Let_def printable_def)
qed

text \<open>the ID PROM decoder never invents an identity. A part that is too short or does not begin with the
  magic is refused with what was found; a record that is read gives fields that are trimmed printable
  ASCII or nothing, and an address of six bytes that are not all zero together with a count, or
  neither.\<close>

theorem parseIDPROMRecord_honest:
  "case parseIDPROMRecord img n of
     Inl (ShortPROM k l) \<Rightarrow> k = n \<and> l = length img \<and> l < (n + 1) * 4096
   | Inl (NoMagic k a b) \<Rightarrow> k = n \<and> take 2 (drop (n * 4096) img) = [a, b] \<and> [a, b] \<noteq> [0xab, 0xab]
   | Inr d \<Rightarrow> (n + 1) * 4096 \<le> length img \<and> take 2 (drop (n * 4096) img) = [0xab, 0xab] \<and> idprom_ok d"
proof (cases "n * 4096 + 4096 > length img")
  case True
  then show ?thesis by (simp add: parseIDPROMRecord_def idpromRecordLen_def)
next
  case False
  define rec where "rec = take 4096 (drop (n * 4096) img)"
  have len: "length rec = 4096" using False by (simp add: rec_def)
  have two: "take 2 (drop (n * 4096) img) = [rec ! 0, rec ! 1]"
    using False by (auto intro!: nth_equalityI simp: rec_def less_2_cases_iff)
  have mac: "length (take 6 (drop 184 rec)) = 6" using len by simp
  have size: "push_bit 8 (uint h) OR uint l = uint (word_cat h l :: 16 word)" for h l :: byte by (rule uint_or_bytes)
  show ?thesis
    using False mac
    by (auto simp: parseIDPROMRecord_def idpromRecordLen_def Let_def rec_def [symmetric] two idprom_ok_def
        idpromString_printable size list_all_iff list_ex_iff uint_word16_bounds [simplified])
qed

end
