(* ===== verification/Proto.thy ===== *)
theory Proto
  imports Wire_Values
begin

text \<open>
  The wire protocol, \<^verbatim>\<open>internal/nosd/proto\<close>: the requests and answers between the client and the daemon,
  the names of the operations and the shapes of their arguments, each with how it is written and read. What an
  error says is text the protocol only carries.
\<close>

section \<open>Operations\<close>

definition OpCapabilities :: string where
  "OpCapabilities = ''capabilities''"

definition OpPorts :: string where
  "OpPorts = ''ports''"

definition OpPortStatus :: string where
  "OpPortStatus = ''port.status''"

definition OpSetPortAdmin :: string where
  "OpSetPortAdmin = ''port.admin''"

definition OpSetPortMTU :: string where
  "OpSetPortMTU = ''port.mtu''"

definition OpPortCounters :: string where
  "OpPortCounters = ''port.counters''"

definition OpAddVLAN :: string where
  "OpAddVLAN = ''vlan.add''"

definition OpDelVLAN :: string where
  "OpDelVLAN = ''vlan.del''"

definition OpSetPortVLAN :: string where
  "OpSetPortVLAN = ''vlan.port''"

definition OpDelPortVLAN :: string where
  "OpDelPortVLAN = ''vlan.port.del''"

definition OpVLANs :: string where
  "OpVLANs = ''vlans''"

definition OpAddSVI :: string where
  "OpAddSVI = ''svi.add''"

definition OpDelSVI :: string where
  "OpDelSVI = ''svi.del''"

definition OpAddLAG :: string where
  "OpAddLAG = ''lag.add''"

definition OpSetLAGMembers :: string where
  "OpSetLAGMembers = ''lag.members''"

definition OpDelLAG :: string where
  "OpDelLAG = ''lag.del''"

definition OpLAGs :: string where
  "OpLAGs = ''lags''"

definition OpSetSTP :: string where
  "OpSetSTP = ''stp.set''"

definition OpSetSTPPort :: string where
  "OpSetSTPPort = ''stp.port''"

definition OpSTP :: string where
  "OpSTP = ''stp''"

definition OpSetMLAG :: string where
  "OpSetMLAG = ''mlag.set''"

definition OpSetLAGOptions :: string where
  "OpSetLAGOptions = ''lag.options''"

definition OpSetLACPPrio :: string where
  "OpSetLACPPrio = ''lacp.priority''"

definition OpSetMACAging :: string where
  "OpSetMACAging = ''mac.aging.set''"

definition OpSetPortTunnel :: string where
  "OpSetPortTunnel = ''vlan.tunnel''"

definition OpSetPortTPID :: string where
  "OpSetPortTPID = ''port.tpid''"

definition OpMACAging :: string where
  "OpMACAging = ''mac.aging''"

definition OpSetLAGMLAG :: string where
  "OpSetLAGMLAG = ''lag.mlag''"

definition OpMLAG :: string where
  "OpMLAG = ''mlag''"

definition OpSetVirtualMAC :: string where
  "OpSetVirtualMAC = ''gateway.mac''"

definition OpAddGateway :: string where
  "OpAddGateway = ''gateway.add''"

definition OpDelGateway :: string where
  "OpDelGateway = ''gateway.del''"

definition OpGateways :: string where
  "OpGateways = ''gateways''"

definition OpFDB :: string where
  "OpFDB = ''l2.fdb''"

definition OpAddAddress :: string where
  "OpAddAddress = ''l3.addr.add''"

definition OpDelAddress :: string where
  "OpDelAddress = ''l3.addr.del''"

definition OpAddRoute :: string where
  "OpAddRoute = ''l3.route.add''"

definition OpDelRoute :: string where
  "OpDelRoute = ''l3.route.del''"

definition OpRoutes :: string where
  "OpRoutes = ''l3.routes''"

definition OpACL :: string where
  "OpACL = ''acl''"

definition OpSetACL :: string where
  "OpSetACL = ''acl.set''"

definition OpDelACL :: string where
  "OpDelACL = ''acl.del''"

lemmas op_defs =
  OpCapabilities_def OpPorts_def OpPortStatus_def OpSetPortAdmin_def OpSetPortMTU_def OpPortCounters_def
  OpAddVLAN_def OpDelVLAN_def OpSetPortVLAN_def OpDelPortVLAN_def OpVLANs_def OpAddSVI_def OpDelSVI_def
  OpAddLAG_def OpSetLAGMembers_def OpDelLAG_def OpLAGs_def OpSetSTP_def OpSetSTPPort_def OpSTP_def
  OpSetMLAG_def OpSetLAGOptions_def OpSetLACPPrio_def OpSetMACAging_def OpSetPortTunnel_def OpSetPortTPID_def
  OpMACAging_def OpSetLAGMLAG_def OpMLAG_def OpSetVirtualMAC_def OpAddGateway_def OpDelGateway_def
  OpGateways_def OpFDB_def OpAddAddress_def OpDelAddress_def OpAddRoute_def OpDelRoute_def OpRoutes_def
  OpACL_def OpSetACL_def OpDelACL_def

section \<open>Requests and answers\<close>

definition omit_raw :: "string \<Rightarrow> json option \<Rightarrow> (string \<times> json) list" where
  "omit_raw key raw = (case raw of None \<Rightarrow> [] | Some j \<Rightarrow> [(key, j)])"

lemmas omitted = omitempty_def omit_raw_def

record Request =
  rq_Op :: string
  rq_Args :: "json option"

definition zero_Request :: Request where
  "zero_Request =
     \<lparr>rq_Op = [], rq_Args = None\<rparr>"

definition put_Request :: "Request \<Rightarrow> json" where
  "put_Request x =
     JObj ([(''op'', put_string (rq_Op x))] @ omit_raw ''args'' (rq_Args x))"

definition get_Request :: "Request reader" where
  "get_Request =
     get_struct [jfield ''op'' get_string rq_Op rq_Op_update, jfield ''args'' get_raw rq_Args rq_Args_update]"

definition Request_ok :: "Request \<Rightarrow> bool" where
  "Request_ok x \<longleftrightarrow> valid_utf8 (rq_Op x)"

interpretation Request_wire: codec put_Request get_Request zero_Request Request_ok
proof
  show "get_Request (put_Request x) zero_Request = Some x" if "Request_ok x" for x
    using that by (cases x) (simp add: get_Request_def put_Request_def zero_Request_def Request_ok_def struct_rt json_rt omitted split: option.split)
qed

record Response =
  rs_OK :: bool
  rs_Error :: string
  rs_Unsupported :: bool
  rs_Result :: "json option"
  rs_Partial :: bool

definition zero_Response :: Response where
  "zero_Response =
     \<lparr>rs_OK = False, rs_Error = [], rs_Unsupported = False, rs_Result = None, rs_Partial = False\<rparr>"

definition put_Response :: "Response \<Rightarrow> json" where
  "put_Response x =
     JObj ([(''ok'', JBool (rs_OK x))] @ omitempty (rs_Error x = []) ''error'' (put_string (rs_Error x)) @
           omitempty (\<not> rs_Unsupported x) ''unsupported'' (JBool (rs_Unsupported x)) @
           omit_raw ''result'' (rs_Result x) @
           omitempty (\<not> rs_Partial x) ''partial'' (JBool (rs_Partial x)))"

definition get_Response :: "Response reader" where
  "get_Response =
     get_struct [jfield ''ok'' get_bool rs_OK rs_OK_update,
                 jfield ''error'' get_string rs_Error rs_Error_update,
                 jfield ''unsupported'' get_bool rs_Unsupported rs_Unsupported_update,
                 jfield ''result'' get_raw rs_Result rs_Result_update,
                 jfield ''partial'' get_bool rs_Partial rs_Partial_update]"

definition Response_ok :: "Response \<Rightarrow> bool" where
  "Response_ok x \<longleftrightarrow> valid_utf8 (rs_Error x)"

interpretation Response_wire: codec put_Response get_Response zero_Response Response_ok
proof
  show "get_Response (put_Response x) zero_Response = Some x" if "Response_ok x" for x
    using that by (cases x) (simp add: get_Response_def put_Response_def zero_Response_def Response_ok_def struct_rt json_rt omitted split: option.split)
qed

section \<open>Arguments\<close>

record PortArgs =
  pa_Name :: string
  pa_Up :: bool
  pa_MTU :: int

definition zero_PortArgs :: PortArgs where
  "zero_PortArgs =
     \<lparr>pa_Name = [], pa_Up = False, pa_MTU = 0\<rparr>"

definition put_PortArgs :: "PortArgs \<Rightarrow> json" where
  "put_PortArgs x =
     JObj ([(''name'', put_string (pa_Name x))] @ omitempty (\<not> pa_Up x) ''up'' (JBool (pa_Up x)) @
           omitempty (pa_MTU x = 0) ''mtu'' (put_int (pa_MTU x)))"

definition get_PortArgs :: "PortArgs reader" where
  "get_PortArgs =
     get_struct [jfield ''name'' get_string pa_Name pa_Name_update, jfield ''up'' get_bool pa_Up pa_Up_update,
                 jfield ''mtu'' get_int pa_MTU pa_MTU_update]"

definition PortArgs_ok :: "PortArgs \<Rightarrow> bool" where
  "PortArgs_ok x \<longleftrightarrow> valid_utf8 (pa_Name x) \<and> is_int (pa_MTU x)"

interpretation PortArgs_wire: codec put_PortArgs get_PortArgs zero_PortArgs PortArgs_ok
proof
  show "get_PortArgs (put_PortArgs x) zero_PortArgs = Some x" if "PortArgs_ok x" for x
    using that by (cases x) (simp add: get_PortArgs_def put_PortArgs_def zero_PortArgs_def PortArgs_ok_def struct_rt json_rt omitted split: option.split)
qed

record VLANArgs =
  va_VID :: int
  va_Port :: string
  va_Tagged :: bool

definition zero_VLANArgs :: VLANArgs where
  "zero_VLANArgs =
     \<lparr>va_VID = 0, va_Port = [], va_Tagged = False\<rparr>"

definition put_VLANArgs :: "VLANArgs \<Rightarrow> json" where
  "put_VLANArgs x =
     JObj ([(''vid'', put_int (va_VID x))] @ omitempty (va_Port x = []) ''port'' (put_string (va_Port x)) @
           omitempty (\<not> va_Tagged x) ''tagged'' (JBool (va_Tagged x)))"

definition get_VLANArgs :: "VLANArgs reader" where
  "get_VLANArgs =
     get_struct [jfield ''vid'' get_int va_VID va_VID_update,
                 jfield ''port'' get_string va_Port va_Port_update,
                 jfield ''tagged'' get_bool va_Tagged va_Tagged_update]"

definition VLANArgs_ok :: "VLANArgs \<Rightarrow> bool" where
  "VLANArgs_ok x \<longleftrightarrow> is_int (va_VID x) \<and> valid_utf8 (va_Port x)"

interpretation VLANArgs_wire: codec put_VLANArgs get_VLANArgs zero_VLANArgs VLANArgs_ok
proof
  show "get_VLANArgs (put_VLANArgs x) zero_VLANArgs = Some x" if "VLANArgs_ok x" for x
    using that by (cases x) (simp add: get_VLANArgs_def put_VLANArgs_def zero_VLANArgs_def VLANArgs_ok_def struct_rt json_rt omitted split: option.split)
qed

record LAGArgs =
  la_Name :: string
  la_LACP :: bool
  la_Ports :: "string list"

definition zero_LAGArgs :: LAGArgs where
  "zero_LAGArgs =
     \<lparr>la_Name = [], la_LACP = False, la_Ports = []\<rparr>"

definition put_LAGArgs :: "LAGArgs \<Rightarrow> json" where
  "put_LAGArgs x =
     JObj ([(''name'', put_string (la_Name x))] @ omitempty (\<not> la_LACP x) ''lacp'' (JBool (la_LACP x)) @
           omitempty (la_Ports x = []) ''ports'' (put_list put_string (la_Ports x)))"

definition get_LAGArgs :: "LAGArgs reader" where
  "get_LAGArgs =
     get_struct [jfield ''name'' get_string la_Name la_Name_update,
                 jfield ''lacp'' get_bool la_LACP la_LACP_update,
                 jfield ''ports'' (get_list [] get_string) la_Ports la_Ports_update]"

definition LAGArgs_ok :: "LAGArgs \<Rightarrow> bool" where
  "LAGArgs_ok x \<longleftrightarrow> valid_utf8 (la_Name x) \<and> list_all valid_utf8 (la_Ports x)"

interpretation LAGArgs_wire: codec put_LAGArgs get_LAGArgs zero_LAGArgs LAGArgs_ok
proof
  show "get_LAGArgs (put_LAGArgs x) zero_LAGArgs = Some x" if "LAGArgs_ok x" for x
    using that by (cases x) (simp add: get_LAGArgs_def put_LAGArgs_def zero_LAGArgs_def LAGArgs_ok_def struct_rt json_rt omitted split: option.split)
qed

record STPArgs =
  sa_Enabled :: bool
  sa_Priority :: int
  sa_HelloTime :: int
  sa_ForwardDelay :: int
  sa_MaxAge :: int

definition zero_STPArgs :: STPArgs where
  "zero_STPArgs =
     \<lparr>sa_Enabled = False, sa_Priority = 0, sa_HelloTime = 0, sa_ForwardDelay = 0, sa_MaxAge = 0\<rparr>"

definition put_STPArgs :: "STPArgs \<Rightarrow> json" where
  "put_STPArgs x =
     JObj [(''enabled'', JBool (sa_Enabled x)), (''priority'', put_int (sa_Priority x)),
           (''hello_time'', put_int (sa_HelloTime x)), (''forward_delay'', put_int (sa_ForwardDelay x)),
           (''max_age'', put_int (sa_MaxAge x))]"

definition get_STPArgs :: "STPArgs reader" where
  "get_STPArgs =
     get_struct [jfield ''enabled'' get_bool sa_Enabled sa_Enabled_update,
                 jfield ''priority'' get_int sa_Priority sa_Priority_update,
                 jfield ''hello_time'' get_int sa_HelloTime sa_HelloTime_update,
                 jfield ''forward_delay'' get_int sa_ForwardDelay sa_ForwardDelay_update,
                 jfield ''max_age'' get_int sa_MaxAge sa_MaxAge_update]"

definition STPArgs_ok :: "STPArgs \<Rightarrow> bool" where
  "STPArgs_ok x \<longleftrightarrow> is_int (sa_Priority x) \<and> is_int (sa_HelloTime x) \<and> is_int (sa_ForwardDelay x) \<and>
     is_int (sa_MaxAge x)"

interpretation STPArgs_wire: codec put_STPArgs get_STPArgs zero_STPArgs STPArgs_ok
  by unfold_locales (simp add: get_STPArgs_def put_STPArgs_def zero_STPArgs_def STPArgs_ok_def struct_rt json_rt)

record STPPortArgs =
  spa_Name :: string
  spa_Edge :: bool
  spa_Cost :: int
  spa_Priority :: int
  spa_BPDUGuard :: bool
  spa_RootGuard :: bool

definition zero_STPPortArgs :: STPPortArgs where
  "zero_STPPortArgs =
     \<lparr>spa_Name = [], spa_Edge = False, spa_Cost = 0, spa_Priority = 0, spa_BPDUGuard = False,
       spa_RootGuard = False\<rparr>"

definition put_STPPortArgs :: "STPPortArgs \<Rightarrow> json" where
  "put_STPPortArgs x =
     JObj [(''name'', put_string (spa_Name x)), (''edge'', JBool (spa_Edge x)),
           (''cost'', put_int (spa_Cost x)), (''port_priority'', put_int (spa_Priority x)),
           (''bpdu_guard'', JBool (spa_BPDUGuard x)), (''root_guard'', JBool (spa_RootGuard x))]"

definition get_STPPortArgs :: "STPPortArgs reader" where
  "get_STPPortArgs =
     get_struct [jfield ''name'' get_string spa_Name spa_Name_update,
                 jfield ''edge'' get_bool spa_Edge spa_Edge_update,
                 jfield ''cost'' get_int spa_Cost spa_Cost_update,
                 jfield ''port_priority'' get_int spa_Priority spa_Priority_update,
                 jfield ''bpdu_guard'' get_bool spa_BPDUGuard spa_BPDUGuard_update,
                 jfield ''root_guard'' get_bool spa_RootGuard spa_RootGuard_update]"

definition STPPortArgs_ok :: "STPPortArgs \<Rightarrow> bool" where
  "STPPortArgs_ok x \<longleftrightarrow> valid_utf8 (spa_Name x) \<and> is_int (spa_Cost x) \<and> is_int (spa_Priority x)"

interpretation STPPortArgs_wire: codec put_STPPortArgs get_STPPortArgs zero_STPPortArgs STPPortArgs_ok
  by unfold_locales (simp add: get_STPPortArgs_def put_STPPortArgs_def zero_STPPortArgs_def STPPortArgs_ok_def struct_rt json_rt)

record MLAGArgs =
  ma_Enabled :: bool
  ma_PeerLink :: string
  ma_PeerAddress :: string
  ma_Priority :: int
  ma_HelloMs :: int
  ma_DeadMs :: int
  ma_SettleMs :: int
  ma_HeartbeatPort :: int
  ma_ReloadDelay :: int

definition zero_MLAGArgs :: MLAGArgs where
  "zero_MLAGArgs =
     \<lparr>ma_Enabled = False, ma_PeerLink = [], ma_PeerAddress = [], ma_Priority = 0, ma_HelloMs = 0,
       ma_DeadMs = 0, ma_SettleMs = 0, ma_HeartbeatPort = 0, ma_ReloadDelay = 0\<rparr>"

definition put_MLAGArgs :: "MLAGArgs \<Rightarrow> json" where
  "put_MLAGArgs x =
     JObj [(''enabled'', JBool (ma_Enabled x)), (''peer_link'', put_string (ma_PeerLink x)),
           (''peer_address'', put_string (ma_PeerAddress x)), (''priority'', put_int (ma_Priority x)),
           (''hello_ms'', put_int (ma_HelloMs x)), (''dead_ms'', put_int (ma_DeadMs x)),
           (''settle_ms'', put_int (ma_SettleMs x)), (''heartbeat_port'', put_int (ma_HeartbeatPort x)),
           (''reload_delay'', put_int (ma_ReloadDelay x))]"

definition get_MLAGArgs :: "MLAGArgs reader" where
  "get_MLAGArgs =
     get_struct [jfield ''enabled'' get_bool ma_Enabled ma_Enabled_update,
                 jfield ''peer_link'' get_string ma_PeerLink ma_PeerLink_update,
                 jfield ''peer_address'' get_string ma_PeerAddress ma_PeerAddress_update,
                 jfield ''priority'' get_int ma_Priority ma_Priority_update,
                 jfield ''hello_ms'' get_int ma_HelloMs ma_HelloMs_update,
                 jfield ''dead_ms'' get_int ma_DeadMs ma_DeadMs_update,
                 jfield ''settle_ms'' get_int ma_SettleMs ma_SettleMs_update,
                 jfield ''heartbeat_port'' get_int ma_HeartbeatPort ma_HeartbeatPort_update,
                 jfield ''reload_delay'' get_int ma_ReloadDelay ma_ReloadDelay_update]"

definition MLAGArgs_ok :: "MLAGArgs \<Rightarrow> bool" where
  "MLAGArgs_ok x \<longleftrightarrow> valid_utf8 (ma_PeerLink x) \<and> valid_utf8 (ma_PeerAddress x) \<and> is_int (ma_Priority x) \<and>
     is_int (ma_HelloMs x) \<and> is_int (ma_DeadMs x) \<and> is_int (ma_SettleMs x) \<and>
     is_int (ma_HeartbeatPort x) \<and> is_int (ma_ReloadDelay x)"

interpretation MLAGArgs_wire: codec put_MLAGArgs get_MLAGArgs zero_MLAGArgs MLAGArgs_ok
  by unfold_locales (simp add: get_MLAGArgs_def put_MLAGArgs_def zero_MLAGArgs_def MLAGArgs_ok_def struct_rt json_rt)

record LAGOptionsArgs =
  lo_Name :: string
  lo_Rate :: string
  lo_Passive :: bool
  lo_PortPriority :: int

definition zero_LAGOptionsArgs :: LAGOptionsArgs where
  "zero_LAGOptionsArgs =
     \<lparr>lo_Name = [], lo_Rate = [], lo_Passive = False, lo_PortPriority = 0\<rparr>"

definition put_LAGOptionsArgs :: "LAGOptionsArgs \<Rightarrow> json" where
  "put_LAGOptionsArgs x =
     JObj [(''name'', put_string (lo_Name x)), (''rate'', put_string (lo_Rate x)),
           (''passive'', JBool (lo_Passive x)), (''port_priority'', put_int (lo_PortPriority x))]"

definition get_LAGOptionsArgs :: "LAGOptionsArgs reader" where
  "get_LAGOptionsArgs =
     get_struct [jfield ''name'' get_string lo_Name lo_Name_update,
                 jfield ''rate'' get_string lo_Rate lo_Rate_update,
                 jfield ''passive'' get_bool lo_Passive lo_Passive_update,
                 jfield ''port_priority'' get_int lo_PortPriority lo_PortPriority_update]"

definition LAGOptionsArgs_ok :: "LAGOptionsArgs \<Rightarrow> bool" where
  "LAGOptionsArgs_ok x \<longleftrightarrow> valid_utf8 (lo_Name x) \<and> valid_utf8 (lo_Rate x) \<and> is_int (lo_PortPriority x)"

interpretation LAGOptionsArgs_wire: codec put_LAGOptionsArgs get_LAGOptionsArgs zero_LAGOptionsArgs LAGOptionsArgs_ok
  by unfold_locales (simp add: get_LAGOptionsArgs_def put_LAGOptionsArgs_def zero_LAGOptionsArgs_def LAGOptionsArgs_ok_def struct_rt json_rt)

record PriorityArgs =
  pr_Priority :: int

definition zero_PriorityArgs :: PriorityArgs where
  "zero_PriorityArgs =
     \<lparr>pr_Priority = 0\<rparr>"

definition put_PriorityArgs :: "PriorityArgs \<Rightarrow> json" where
  "put_PriorityArgs x =
     JObj [(''priority'', put_int (pr_Priority x))]"

definition get_PriorityArgs :: "PriorityArgs reader" where
  "get_PriorityArgs =
     get_struct [jfield ''priority'' get_int pr_Priority pr_Priority_update]"

definition PriorityArgs_ok :: "PriorityArgs \<Rightarrow> bool" where
  "PriorityArgs_ok x \<longleftrightarrow> is_int (pr_Priority x)"

interpretation PriorityArgs_wire: codec put_PriorityArgs get_PriorityArgs zero_PriorityArgs PriorityArgs_ok
  by unfold_locales (simp add: get_PriorityArgs_def put_PriorityArgs_def zero_PriorityArgs_def PriorityArgs_ok_def struct_rt json_rt)

record LAGMLAGArgs =
  lma_Name :: string
  lma_ID :: int

definition zero_LAGMLAGArgs :: LAGMLAGArgs where
  "zero_LAGMLAGArgs =
     \<lparr>lma_Name = [], lma_ID = 0\<rparr>"

definition put_LAGMLAGArgs :: "LAGMLAGArgs \<Rightarrow> json" where
  "put_LAGMLAGArgs x =
     JObj [(''name'', put_string (lma_Name x)), (''mlag'', put_int (lma_ID x))]"

definition get_LAGMLAGArgs :: "LAGMLAGArgs reader" where
  "get_LAGMLAGArgs =
     get_struct [jfield ''name'' get_string lma_Name lma_Name_update,
                 jfield ''mlag'' get_int lma_ID lma_ID_update]"

definition LAGMLAGArgs_ok :: "LAGMLAGArgs \<Rightarrow> bool" where
  "LAGMLAGArgs_ok x \<longleftrightarrow> valid_utf8 (lma_Name x) \<and> is_int (lma_ID x)"

interpretation LAGMLAGArgs_wire: codec put_LAGMLAGArgs get_LAGMLAGArgs zero_LAGMLAGArgs LAGMLAGArgs_ok
  by unfold_locales (simp add: get_LAGMLAGArgs_def put_LAGMLAGArgs_def zero_LAGMLAGArgs_def LAGMLAGArgs_ok_def struct_rt json_rt)

record GatewayArgs =
  ga_SVI :: string
  ga_Prefix :: string
  ga_MAC :: string

definition zero_GatewayArgs :: GatewayArgs where
  "zero_GatewayArgs =
     \<lparr>ga_SVI = [], ga_Prefix = [], ga_MAC = []\<rparr>"

definition put_GatewayArgs :: "GatewayArgs \<Rightarrow> json" where
  "put_GatewayArgs x =
     JObj (omitempty (ga_SVI x = []) ''svi'' (put_string (ga_SVI x)) @
           omitempty (ga_Prefix x = []) ''prefix'' (put_string (ga_Prefix x)) @
           omitempty (ga_MAC x = []) ''mac'' (put_string (ga_MAC x)))"

definition get_GatewayArgs :: "GatewayArgs reader" where
  "get_GatewayArgs =
     get_struct [jfield ''svi'' get_string ga_SVI ga_SVI_update,
                 jfield ''prefix'' get_string ga_Prefix ga_Prefix_update,
                 jfield ''mac'' get_string ga_MAC ga_MAC_update]"

definition GatewayArgs_ok :: "GatewayArgs \<Rightarrow> bool" where
  "GatewayArgs_ok x \<longleftrightarrow> valid_utf8 (ga_SVI x) \<and> valid_utf8 (ga_Prefix x) \<and> valid_utf8 (ga_MAC x)"

interpretation GatewayArgs_wire: codec put_GatewayArgs get_GatewayArgs zero_GatewayArgs GatewayArgs_ok
proof
  show "get_GatewayArgs (put_GatewayArgs x) zero_GatewayArgs = Some x" if "GatewayArgs_ok x" for x
    using that by (cases x) (simp add: get_GatewayArgs_def put_GatewayArgs_def zero_GatewayArgs_def GatewayArgs_ok_def struct_rt json_rt omitted split: option.split)
qed

record AddrArgs =
  aa_Port :: string
  aa_Prefix :: string

definition zero_AddrArgs :: AddrArgs where
  "zero_AddrArgs =
     \<lparr>aa_Port = [], aa_Prefix = []\<rparr>"

definition put_AddrArgs :: "AddrArgs \<Rightarrow> json" where
  "put_AddrArgs x =
     JObj [(''port'', put_string (aa_Port x)), (''prefix'', put_string (aa_Prefix x))]"

definition get_AddrArgs :: "AddrArgs reader" where
  "get_AddrArgs =
     get_struct [jfield ''port'' get_string aa_Port aa_Port_update,
                 jfield ''prefix'' get_string aa_Prefix aa_Prefix_update]"

definition AddrArgs_ok :: "AddrArgs \<Rightarrow> bool" where
  "AddrArgs_ok x \<longleftrightarrow> valid_utf8 (aa_Port x) \<and> valid_utf8 (aa_Prefix x)"

interpretation AddrArgs_wire: codec put_AddrArgs get_AddrArgs zero_AddrArgs AddrArgs_ok
  by unfold_locales (simp add: get_AddrArgs_def put_AddrArgs_def zero_AddrArgs_def AddrArgs_ok_def struct_rt json_rt)

record NextHopArgs =
  na_Via :: string
  na_Port :: string

definition zero_NextHopArgs :: NextHopArgs where
  "zero_NextHopArgs =
     \<lparr>na_Via = [], na_Port = []\<rparr>"

definition put_NextHopArgs :: "NextHopArgs \<Rightarrow> json" where
  "put_NextHopArgs x =
     JObj [(''via'', put_string (na_Via x)), (''port'', put_string (na_Port x))]"

definition get_NextHopArgs :: "NextHopArgs reader" where
  "get_NextHopArgs =
     get_struct [jfield ''via'' get_string na_Via na_Via_update,
                 jfield ''port'' get_string na_Port na_Port_update]"

definition NextHopArgs_ok :: "NextHopArgs \<Rightarrow> bool" where
  "NextHopArgs_ok x \<longleftrightarrow> valid_utf8 (na_Via x) \<and> valid_utf8 (na_Port x)"

interpretation NextHopArgs_wire: codec put_NextHopArgs get_NextHopArgs zero_NextHopArgs NextHopArgs_ok
  by unfold_locales (simp add: get_NextHopArgs_def put_NextHopArgs_def zero_NextHopArgs_def NextHopArgs_ok_def struct_rt json_rt)

record RouteArgs =
  ra_Prefix :: string
  ra_NextHops :: "NextHopArgs list"

definition zero_RouteArgs :: RouteArgs where
  "zero_RouteArgs =
     \<lparr>ra_Prefix = [], ra_NextHops = []\<rparr>"

definition put_RouteArgs :: "RouteArgs \<Rightarrow> json" where
  "put_RouteArgs x =
     JObj ([(''prefix'', put_string (ra_Prefix x))] @
           omitempty (ra_NextHops x = []) ''nexthops'' (put_list put_NextHopArgs (ra_NextHops x)))"

definition get_RouteArgs :: "RouteArgs reader" where
  "get_RouteArgs =
     get_struct [jfield ''prefix'' get_string ra_Prefix ra_Prefix_update,
                 jfield ''nexthops'' (get_list zero_NextHopArgs get_NextHopArgs) ra_NextHops ra_NextHops_update]"

definition RouteArgs_ok :: "RouteArgs \<Rightarrow> bool" where
  "RouteArgs_ok x \<longleftrightarrow> valid_utf8 (ra_Prefix x) \<and> list_all NextHopArgs_ok (ra_NextHops x)"

interpretation RouteArgs_wire: codec put_RouteArgs get_RouteArgs zero_RouteArgs RouteArgs_ok
proof
  show "get_RouteArgs (put_RouteArgs x) zero_RouteArgs = Some x" if "RouteArgs_ok x" for x
    using that by (cases x) (simp add: get_RouteArgs_def put_RouteArgs_def zero_RouteArgs_def RouteArgs_ok_def struct_rt json_rt omitted split: option.split)
qed

record ACLSetArgs =
  as_Seq :: int
  as_Rule :: string

definition zero_ACLSetArgs :: ACLSetArgs where
  "zero_ACLSetArgs =
     \<lparr>as_Seq = 0, as_Rule = []\<rparr>"

definition put_ACLSetArgs :: "ACLSetArgs \<Rightarrow> json" where
  "put_ACLSetArgs x =
     JObj [(''seq'', put_int (as_Seq x)), (''rule'', put_string (as_Rule x))]"

definition get_ACLSetArgs :: "ACLSetArgs reader" where
  "get_ACLSetArgs =
     get_struct [jfield ''seq'' get_int as_Seq as_Seq_update, jfield ''rule'' get_string as_Rule as_Rule_update]"

definition ACLSetArgs_ok :: "ACLSetArgs \<Rightarrow> bool" where
  "ACLSetArgs_ok x \<longleftrightarrow> is_int (as_Seq x) \<and> valid_utf8 (as_Rule x)"

interpretation ACLSetArgs_wire: codec put_ACLSetArgs get_ACLSetArgs zero_ACLSetArgs ACLSetArgs_ok
  by unfold_locales (simp add: get_ACLSetArgs_def put_ACLSetArgs_def zero_ACLSetArgs_def ACLSetArgs_ok_def struct_rt json_rt)

record ACLDelArgs =
  ad_Seq :: int

definition zero_ACLDelArgs :: ACLDelArgs where
  "zero_ACLDelArgs =
     \<lparr>ad_Seq = 0\<rparr>"

definition put_ACLDelArgs :: "ACLDelArgs \<Rightarrow> json" where
  "put_ACLDelArgs x =
     JObj [(''seq'', put_int (ad_Seq x))]"

definition get_ACLDelArgs :: "ACLDelArgs reader" where
  "get_ACLDelArgs =
     get_struct [jfield ''seq'' get_int ad_Seq ad_Seq_update]"

definition ACLDelArgs_ok :: "ACLDelArgs \<Rightarrow> bool" where
  "ACLDelArgs_ok x \<longleftrightarrow> is_int (ad_Seq x)"

interpretation ACLDelArgs_wire: codec put_ACLDelArgs get_ACLDelArgs zero_ACLDelArgs ACLDelArgs_ok
  by unfold_locales (simp add: get_ACLDelArgs_def put_ACLDelArgs_def zero_ACLDelArgs_def ACLDelArgs_ok_def struct_rt json_rt)

record WireACLEntry =
  we_Seq :: int
  we_Family :: int
  we_Rule :: string
  we_Parsed :: bool
  we_Installed :: bool
  we_Packets :: "64 word"
  we_Error :: string

definition zero_WireACLEntry :: WireACLEntry where
  "zero_WireACLEntry =
     \<lparr>we_Seq = 0, we_Family = 0, we_Rule = [], we_Parsed = False, we_Installed = False, we_Packets = 0,
       we_Error = []\<rparr>"

definition put_WireACLEntry :: "WireACLEntry \<Rightarrow> json" where
  "put_WireACLEntry x =
     JObj [(''Seq'', put_int (we_Seq x)), (''Family'', put_int (we_Family x)),
           (''Rule'', put_string (we_Rule x)), (''Parsed'', JBool (we_Parsed x)),
           (''Installed'', JBool (we_Installed x)), (''Packets'', put_word (we_Packets x)),
           (''Error'', put_string (we_Error x))]"

definition get_WireACLEntry :: "WireACLEntry reader" where
  "get_WireACLEntry =
     get_struct [jfield ''Seq'' get_int we_Seq we_Seq_update,
                 jfield ''Family'' get_int we_Family we_Family_update,
                 jfield ''Rule'' get_string we_Rule we_Rule_update,
                 jfield ''Parsed'' get_bool we_Parsed we_Parsed_update,
                 jfield ''Installed'' get_bool we_Installed we_Installed_update,
                 jfield ''Packets'' get_word we_Packets we_Packets_update,
                 jfield ''Error'' get_string we_Error we_Error_update]"

definition WireACLEntry_ok :: "WireACLEntry \<Rightarrow> bool" where
  "WireACLEntry_ok x \<longleftrightarrow> is_int (we_Seq x) \<and> is_int (we_Family x) \<and> valid_utf8 (we_Rule x) \<and> valid_utf8 (we_Error x)"

interpretation WireACLEntry_wire: codec put_WireACLEntry get_WireACLEntry zero_WireACLEntry WireACLEntry_ok
  by unfold_locales (simp add: get_WireACLEntry_def put_WireACLEntry_def zero_WireACLEntry_def WireACLEntry_ok_def struct_rt json_rt)

record WireACLList =
  wl_Available :: bool
  wl_Total :: int
  wl_Free :: int
  wl_Available6 :: bool
  wl_Total6 :: int
  wl_Free6 :: int
  wl_Rules :: "WireACLEntry list"

definition zero_WireACLList :: WireACLList where
  "zero_WireACLList =
     \<lparr>wl_Available = False, wl_Total = 0, wl_Free = 0, wl_Available6 = False, wl_Total6 = 0, wl_Free6 = 0,
       wl_Rules = []\<rparr>"

definition put_WireACLList :: "WireACLList \<Rightarrow> json" where
  "put_WireACLList x =
     JObj [(''Available'', JBool (wl_Available x)), (''Total'', put_int (wl_Total x)),
           (''Free'', put_int (wl_Free x)), (''Available6'', JBool (wl_Available6 x)),
           (''Total6'', put_int (wl_Total6 x)), (''Free6'', put_int (wl_Free6 x)),
           (''Rules'', put_list put_WireACLEntry (wl_Rules x))]"

definition get_WireACLList :: "WireACLList reader" where
  "get_WireACLList =
     get_struct [jfield ''Available'' get_bool wl_Available wl_Available_update,
                 jfield ''Total'' get_int wl_Total wl_Total_update,
                 jfield ''Free'' get_int wl_Free wl_Free_update,
                 jfield ''Available6'' get_bool wl_Available6 wl_Available6_update,
                 jfield ''Total6'' get_int wl_Total6 wl_Total6_update,
                 jfield ''Free6'' get_int wl_Free6 wl_Free6_update,
                 jfield ''Rules'' (get_list zero_WireACLEntry get_WireACLEntry) wl_Rules wl_Rules_update]"

definition WireACLList_ok :: "WireACLList \<Rightarrow> bool" where
  "WireACLList_ok x \<longleftrightarrow> is_int (wl_Total x) \<and> is_int (wl_Free x) \<and> is_int (wl_Total6 x) \<and>
     is_int (wl_Free6 x) \<and> list_all WireACLEntry_ok (wl_Rules x)"

interpretation WireACLList_wire: codec put_WireACLList get_WireACLList zero_WireACLList WireACLList_ok
  by unfold_locales (simp add: get_WireACLList_def put_WireACLList_def zero_WireACLList_def WireACLList_ok_def struct_rt json_rt)

record MACAgingArgs =
  mg_Seconds :: int

definition zero_MACAgingArgs :: MACAgingArgs where
  "zero_MACAgingArgs =
     \<lparr>mg_Seconds = 0\<rparr>"

definition put_MACAgingArgs :: "MACAgingArgs \<Rightarrow> json" where
  "put_MACAgingArgs x =
     JObj [(''seconds'', put_int (mg_Seconds x))]"

definition get_MACAgingArgs :: "MACAgingArgs reader" where
  "get_MACAgingArgs =
     get_struct [jfield ''seconds'' get_int mg_Seconds mg_Seconds_update]"

definition MACAgingArgs_ok :: "MACAgingArgs \<Rightarrow> bool" where
  "MACAgingArgs_ok x \<longleftrightarrow> is_int (mg_Seconds x)"

interpretation MACAgingArgs_wire: codec put_MACAgingArgs get_MACAgingArgs zero_MACAgingArgs MACAgingArgs_ok
  by unfold_locales (simp add: get_MACAgingArgs_def put_MACAgingArgs_def zero_MACAgingArgs_def MACAgingArgs_ok_def struct_rt json_rt)

record PortTunnelArgs =
  tu_Name :: string
  tu_SVID :: int

definition zero_PortTunnelArgs :: PortTunnelArgs where
  "zero_PortTunnelArgs =
     \<lparr>tu_Name = [], tu_SVID = 0\<rparr>"

definition put_PortTunnelArgs :: "PortTunnelArgs \<Rightarrow> json" where
  "put_PortTunnelArgs x =
     JObj [(''name'', put_string (tu_Name x)), (''svid'', put_int (tu_SVID x))]"

definition get_PortTunnelArgs :: "PortTunnelArgs reader" where
  "get_PortTunnelArgs =
     get_struct [jfield ''name'' get_string tu_Name tu_Name_update,
                 jfield ''svid'' get_int tu_SVID tu_SVID_update]"

definition PortTunnelArgs_ok :: "PortTunnelArgs \<Rightarrow> bool" where
  "PortTunnelArgs_ok x \<longleftrightarrow> valid_utf8 (tu_Name x) \<and> is_int (tu_SVID x)"

interpretation PortTunnelArgs_wire: codec put_PortTunnelArgs get_PortTunnelArgs zero_PortTunnelArgs PortTunnelArgs_ok
  by unfold_locales (simp add: get_PortTunnelArgs_def put_PortTunnelArgs_def zero_PortTunnelArgs_def PortTunnelArgs_ok_def struct_rt json_rt)

record PortTPIDArgs =
  tp_Name :: string
  tp_TPID :: int

definition zero_PortTPIDArgs :: PortTPIDArgs where
  "zero_PortTPIDArgs =
     \<lparr>tp_Name = [], tp_TPID = 0\<rparr>"

definition put_PortTPIDArgs :: "PortTPIDArgs \<Rightarrow> json" where
  "put_PortTPIDArgs x =
     JObj [(''name'', put_string (tp_Name x)), (''tpid'', put_int (tp_TPID x))]"

definition get_PortTPIDArgs :: "PortTPIDArgs reader" where
  "get_PortTPIDArgs =
     get_struct [jfield ''name'' get_string tp_Name tp_Name_update,
                 jfield ''tpid'' get_int tp_TPID tp_TPID_update]"

definition PortTPIDArgs_ok :: "PortTPIDArgs \<Rightarrow> bool" where
  "PortTPIDArgs_ok x \<longleftrightarrow> valid_utf8 (tp_Name x) \<and> is_int (tp_TPID x)"

interpretation PortTPIDArgs_wire: codec put_PortTPIDArgs get_PortTPIDArgs zero_PortTPIDArgs PortTPIDArgs_ok
  by unfold_locales (simp add: get_PortTPIDArgs_def put_PortTPIDArgs_def zero_PortTPIDArgs_def PortTPIDArgs_ok_def struct_rt json_rt)

end
