(* ===== verification/Server.thy ===== *)
theory Server
  imports Proto Mem_Calls
begin

text \<open>
  The daemon's side of the socket, \<^verbatim>\<open>internal/nosd/server\<close>. A datapath is whatever answers the calls of the
  contract, as the Go server holds a \<^verbatim>\<open>switchapi.Switch\<close>: a function of the call and its state, and another
  that tells what it can do. A connection is open until a request can not be decoded. The server answers every
  request it decodes once; a nil pointer followed in a datapath takes the daemon with it, so there is no answer.
  What an error says is a function of the error, \<open>msg\<close>, which stands for the rendering in package \<^verbatim>\<open>fmt\<close>
  and the wording of \<^verbatim>\<open>encoding/json\<close> and \<^verbatim>\<open>net/netip\<close>. Writing the answers of the contract as JSON can not
  fail, so that branch of \<^verbatim>\<open>ok\<close> is not there.
\<close>

type_synonym 's datapath = "call \<Rightarrow> 's \<Rightarrow> (sw_error + reply) \<times> 's"

datatype go_error =
    Api sw_error
  | BadArgs "json option"
  | BadAddress string
  | UnknownOperation string

fun is_unsupported_error :: "go_error \<Rightarrow> bool" where
  "is_unsupported_error (Api e) = is_unsupported e"
| "is_unsupported_error _ = False"

definition ErrorResponse :: "(go_error \<Rightarrow> string) \<Rightarrow> go_error \<Rightarrow> Response" where
  "ErrorResponse msg e = zero_Response\<lparr>rs_Error := msg e, rs_Unsupported := is_unsupported_error e\<rparr>"

definition ok_response :: "json \<Rightarrow> Response" where
  "ok_response j = zero_Response\<lparr>rs_OK := True, rs_Result := Some j\<rparr>"

definition done_response :: Response where
  "done_response = zero_Response\<lparr>rs_OK := True\<rparr>"

section \<open>Answers as JSON\<close>

definition encodeRoute :: "Route \<Rightarrow> RouteArgs" where
  "encodeRoute r =
     \<lparr>ra_Prefix = Prefix_String (rt_Prefix r),
      ra_NextHops = map (\<lambda>nh. \<lparr>na_Via = Addr_String (Via nh), na_Port = nh_Port nh\<rparr>) (NextHops r)\<rparr>"

definition encodeRoutes :: "Route list \<Rightarrow> RouteArgs list" where
  "encodeRoutes = map encodeRoute"

fun decode_hops :: "NextHopArgs list \<Rightarrow> go_error + NextHop list" where
  "decode_hops [] = Inr []"
| "decode_hops (nh # nhs) =
     (case ParseAddr (na_Via nh) of
        None \<Rightarrow> Inl (BadAddress (na_Via nh))
      | Some via \<Rightarrow>
          (case decode_hops nhs of Inl e \<Rightarrow> Inl e | Inr hs \<Rightarrow> Inr (\<lparr>Via = via, nh_Port = na_Port nh\<rparr> # hs)))"

definition decodeRoute :: "RouteArgs \<Rightarrow> go_error + Route" where
  "decodeRoute r =
     (case ParsePrefix (ra_Prefix r) of
        None \<Rightarrow> Inl (BadAddress (ra_Prefix r))
      | Some p \<Rightarrow>
          (case decode_hops (ra_NextHops r) of Inl e \<Rightarrow> Inl e | Inr hs \<Rightarrow> Inr \<lparr>rt_Prefix = p, NextHops = hs\<rparr>))"

definition encode_entry :: "ACLEntry \<Rightarrow> WireACLEntry" where
  "encode_entry e =
     \<lparr>we_Seq = ae_Seq e, we_Family = (if ae_Parsed e then Family (ae_Rule e) else 0),
      we_Rule = (if ae_Parsed e then ACLRule_String (ae_Rule e) else ae_Text e), we_Parsed = ae_Parsed e,
      we_Installed = ae_Installed e, we_Packets = ae_Packets e, we_Error = ae_Error e\<rparr>"

text \<open>The loop takes one from the room of a family for every rule that parsed.\<close>

definition encodeACLs :: "Capabilities \<Rightarrow> ACLEntry list \<Rightarrow> WireACLList" where
  "encodeACLs cap es =
     fold (\<lambda>e l.
         let l' = (if \<not> ae_Parsed e then l
                   else if Family (ae_Rule e) = 6 then l\<lparr>wl_Free6 := wl_Free6 l - 1\<rparr>
                   else l\<lparr>wl_Free := wl_Free l - 1\<rparr>)
         in l'\<lparr>wl_Rules := wl_Rules l' @ [encode_entry e]\<rparr>)
       es
       \<lparr>wl_Available = c_ACL cap, wl_Total = c_ACLEntries cap, wl_Free = c_ACLEntries cap,
        wl_Available6 = c_ACL6 cap, wl_Total6 = c_ACL6Entries cap, wl_Free6 = c_ACL6Entries cap, wl_Rules = []\<rparr>"

text \<open>What each call answers with: nothing, or the value the handler marshals.\<close>

fun reply_json :: "Capabilities \<Rightarrow> reply \<Rightarrow> Response" where
  "reply_json cap Done = done_response"
| "reply_json cap (PortList ps) = ok_response (put_list put_Port ps)"
| "reply_json cap (Status st) = ok_response (put_PortStatus st)"
| "reply_json cap (CounterValues c) = ok_response (put_Counters c)"
| "reply_json cap (VLANList vs) = ok_response (put_list put_VLAN vs)"
| "reply_json cap (LAGList ls) = ok_response (put_list put_LAG ls)"
| "reply_json cap (STPReport st) = ok_response (put_STPStatus st)"
| "reply_json cap (MLAGReport st) = ok_response (put_MLAGStatus st)"
| "reply_json cap (GatewayList gs) = ok_response (put_list put_VirtualGateway gs)"
| "reply_json cap (Seconds n) = ok_response (put_MACAgingArgs \<lparr>mg_Seconds = n\<rparr>)"
| "reply_json cap (FDBList fs) = ok_response (put_list put_FDBEntry fs)"
| "reply_json cap (ACLList es) = ok_response (put_WireACLList (encodeACLs cap es))"
| "reply_json cap (RouteList rs) = ok_response (put_list put_RouteArgs (encodeRoutes rs))"

section \<open>Dispatch\<close>

text \<open>A handler: the answer, or none where the daemon went down.\<close>

type_synonym 's handler = "'s \<Rightarrow> Response option \<times> 's"

definition refuse :: "(go_error \<Rightarrow> string) \<Rightarrow> go_error \<Rightarrow> 's handler" where
  "refuse msg e s = (Some (ErrorResponse msg e), s)"

definition perform :: "(go_error \<Rightarrow> string) \<Rightarrow> 's datapath \<Rightarrow> ('s \<Rightarrow> Capabilities) \<Rightarrow> call \<Rightarrow> 's handler" where
  "perform msg sw cap c s =
     (case sw c s of
        (Inl Panic, s') \<Rightarrow> (None, s')
      | (Inl e, s') \<Rightarrow> (Some (ErrorResponse msg (Api e)), s')
      | (Inr r, s') \<Rightarrow> (Some (reply_json (cap s') r), s'))"

text \<open>The access-list calls answer \<^verbatim>\<open>ok(nil)\<close>, a result of \<^verbatim>\<open>null\<close>.\<close>

definition perform_null :: "(go_error \<Rightarrow> string) \<Rightarrow> 's datapath \<Rightarrow> call \<Rightarrow> 's handler" where
  "perform_null msg sw c s =
     (case sw c s of
        (Inl Panic, s') \<Rightarrow> (None, s')
      | (Inl e, s') \<Rightarrow> (Some (ErrorResponse msg (Api e)), s')
      | (Inr r, s') \<Rightarrow> (Some (ok_response JNull), s'))"

definition with_args :: "(go_error \<Rightarrow> string) \<Rightarrow> 'a reader \<Rightarrow> 'a \<Rightarrow> Request \<Rightarrow> ('a \<Rightarrow> 's handler) \<Rightarrow> 's handler" where
  "with_args msg rd z req k s =
     (case Unmarshal rd z (rq_Args req) of
        None \<Rightarrow> refuse msg (BadArgs (rq_Args req)) s
      | Some a \<Rightarrow> k a s)"

definition with_prefix :: "(go_error \<Rightarrow> string) \<Rightarrow> string \<Rightarrow> (Prefix \<Rightarrow> 's handler) \<Rightarrow> 's handler" where
  "with_prefix msg t k s = (case ParsePrefix t of None \<Rightarrow> refuse msg (BadAddress t) s | Some p \<Rightarrow> k p s)"

text \<open>The cases of the switch in \<^verbatim>\<open>dispatch\<close>, group by group; none means that the operation is not of the group.\<close>

definition dispatch_ports ::
  "(go_error \<Rightarrow> string) \<Rightarrow> 's datapath \<Rightarrow> ('s \<Rightarrow> Capabilities) \<Rightarrow> Request \<Rightarrow> 's handler option" where
  "dispatch_ports msg sw cap req =
     (let op = rq_Op req; go = perform msg sw cap;
          args = with_args msg get_PortArgs zero_PortArgs req
      in if op = OpCapabilities then Some (\<lambda>s. (Some (ok_response (put_Capabilities (cap s))), s))
         else if op = OpPorts then Some (go (Port DoPorts))
         else if op = OpPortStatus then Some (args (\<lambda>p. go (Port (DoPortStatus (pa_Name p)))))
         else if op = OpSetPortAdmin then Some (args (\<lambda>p. go (Port (DoSetPortAdmin (pa_Name p) (pa_Up p)))))
         else if op = OpSetPortMTU then Some (args (\<lambda>p. go (Port (DoSetPortMTU (pa_Name p) (pa_MTU p)))))
         else if op = OpPortCounters then Some (args (\<lambda>p. go (Port (DoPortCounters (pa_Name p)))))
         else None)"

definition dispatch_vlans ::
  "(go_error \<Rightarrow> string) \<Rightarrow> 's datapath \<Rightarrow> ('s \<Rightarrow> Capabilities) \<Rightarrow> Request \<Rightarrow> 's handler option" where
  "dispatch_vlans msg sw cap req =
     (let op = rq_Op req; go = perform msg sw cap;
          args = with_args msg get_VLANArgs zero_VLANArgs req
      in if op = OpAddVLAN then Some (args (\<lambda>v. go (Vlan (DoAddVLAN (va_VID v)))))
         else if op = OpDelVLAN then Some (args (\<lambda>v. go (Vlan (DoDelVLAN (va_VID v)))))
         else if op = OpSetPortVLAN then Some (args (\<lambda>v. go (Vlan (DoSetPortVLAN (va_Port v) (va_VID v) (va_Tagged v)))))
         else if op = OpDelPortVLAN then Some (args (\<lambda>v. go (Vlan (DoDelPortVLAN (va_Port v) (va_VID v)))))
         else if op = OpVLANs then Some (go (Vlan DoVLANs))
         else None)"

definition dispatch_lags ::
  "(go_error \<Rightarrow> string) \<Rightarrow> 's datapath \<Rightarrow> ('s \<Rightarrow> Capabilities) \<Rightarrow> Request \<Rightarrow> 's handler option" where
  "dispatch_lags msg sw cap req =
     (let op = rq_Op req; go = perform msg sw cap;
          args = with_args msg get_LAGArgs zero_LAGArgs req
      in if op = OpAddLAG then Some (args (\<lambda>l. go (Lag (DoAddLAG (la_Name l) (la_LACP l)))))
         else if op = OpSetLAGMembers then Some (args (\<lambda>l. go (Lag (DoSetLAGMembers (la_Name l) (la_Ports l)))))
         else if op = OpDelLAG then Some (args (\<lambda>l. go (Lag (DoDelLAG (la_Name l)))))
         else if op = OpLAGs then Some (go (Lag DoLAGs))
         else None)"

definition dispatch_stp ::
  "(go_error \<Rightarrow> string) \<Rightarrow> 's datapath \<Rightarrow> ('s \<Rightarrow> Capabilities) \<Rightarrow> Request \<Rightarrow> 's handler option" where
  "dispatch_stp msg sw cap req =
     (let op = rq_Op req; go = perform msg sw cap
      in if op = OpSetSTP then
           Some (with_args msg get_STPArgs zero_STPArgs req (\<lambda>a.
             go (Stp (DoSetSTP
               \<lparr>stp_Enabled = sa_Enabled a, stp_Priority = sa_Priority a, stp_HelloTime = sa_HelloTime a,
                stp_ForwardDelay = sa_ForwardDelay a, stp_MaxAge = sa_MaxAge a\<rparr>))))
         else if op = OpSetSTPPort then
           Some (with_args msg get_STPPortArgs zero_STPPortArgs req (\<lambda>a.
             go (Stp (DoSetSTPPort (spa_Name a)
               \<lparr>sp_Edge = spa_Edge a, sp_Cost = spa_Cost a, sp_Priority = spa_Priority a,
                sp_BPDUGuard = spa_BPDUGuard a, sp_RootGuard = spa_RootGuard a\<rparr>))))
         else if op = OpSTP then Some (go (Stp DoSTP))
         else if op = OpSetMLAG then
           Some (with_args msg get_MLAGArgs zero_MLAGArgs req (\<lambda>a.
             go (Stp (DoSetMLAG
               \<lparr>ml_Enabled = ma_Enabled a, ml_PeerLink = ma_PeerLink a, ml_PeerAddress = ma_PeerAddress a,
                ml_Priority = ma_Priority a, ml_HelloMs = ma_HelloMs a, ml_DeadMs = ma_DeadMs a,
                ml_SettleMs = ma_SettleMs a, ml_HeartbeatPort = ma_HeartbeatPort a, ml_ReloadDelay = ma_ReloadDelay a\<rparr>))))
         else None)"

definition dispatch_options ::
  "(go_error \<Rightarrow> string) \<Rightarrow> 's datapath \<Rightarrow> ('s \<Rightarrow> Capabilities) \<Rightarrow> Request \<Rightarrow> 's handler option" where
  "dispatch_options msg sw cap req =
     (let op = rq_Op req; go = perform msg sw cap
      in if op = OpSetLAGOptions then
           Some (with_args msg get_LAGOptionsArgs zero_LAGOptionsArgs req (\<lambda>a.
             go (Lag (DoSetLAGOptions (lo_Name a)
               \<lparr>Rate = lo_Rate a, Passive = lo_Passive a, PortPriority = lo_PortPriority a\<rparr>))))
         else if op = OpSetLACPPrio then
           Some (with_args msg get_PriorityArgs zero_PriorityArgs req (\<lambda>a. go (Lag (DoSetLACPSystemPriority (pr_Priority a)))))
         else if op = OpSetMACAging then
           Some (with_args msg get_MACAgingArgs zero_MACAgingArgs req (\<lambda>a. go (Gateway (DoSetMACAging (mg_Seconds a)))))
         else if op = OpSetPortTunnel then
           Some (with_args msg get_PortTunnelArgs zero_PortTunnelArgs req (\<lambda>a. go (Vlan (DoSetPortTunnel (tu_Name a) (tu_SVID a)))))
         else if op = OpSetPortTPID then
           Some (with_args msg get_PortTPIDArgs zero_PortTPIDArgs req (\<lambda>a. go (Vlan (DoSetPortTPID (tp_Name a) (tp_TPID a)))))
         else if op = OpMACAging then Some (go (Gateway DoMACAging))
         else if op = OpSetLAGMLAG then
           Some (with_args msg get_LAGMLAGArgs zero_LAGMLAGArgs req (\<lambda>a. go (Stp (DoSetLAGMLAG (lma_Name a) (lma_ID a)))))
         else if op = OpMLAG then Some (go (Stp DoMLAG))
         else None)"

definition dispatch_gateways ::
  "(go_error \<Rightarrow> string) \<Rightarrow> 's datapath \<Rightarrow> ('s \<Rightarrow> Capabilities) \<Rightarrow> Request \<Rightarrow> 's handler option" where
  "dispatch_gateways msg sw cap req =
     (let op = rq_Op req; go = perform msg sw cap;
          args = with_args msg get_GatewayArgs zero_GatewayArgs req
      in if op = OpSetVirtualMAC then Some (args (\<lambda>a. go (Gateway (DoSetVirtualMAC (ga_MAC a)))))
         else if op = OpAddGateway then
           Some (args (\<lambda>a. with_prefix msg (ga_Prefix a) (\<lambda>p. go (Gateway (DoAddVirtualGateway (ga_SVI a) p)))))
         else if op = OpDelGateway then
           Some (args (\<lambda>a. with_prefix msg (ga_Prefix a) (\<lambda>p. go (Gateway (DoDelVirtualGateway (ga_SVI a) p)))))
         else if op = OpGateways then Some (go (Gateway DoVirtualGateways))
         else None)"

definition dispatch_interfaces ::
  "(go_error \<Rightarrow> string) \<Rightarrow> 's datapath \<Rightarrow> ('s \<Rightarrow> Capabilities) \<Rightarrow> Request \<Rightarrow> 's handler option" where
  "dispatch_interfaces msg sw cap req =
     (let op = rq_Op req; go = perform msg sw cap;
          args = with_args msg get_VLANArgs zero_VLANArgs req;
          addr = with_args msg get_AddrArgs zero_AddrArgs req
      in if op = OpAddSVI then Some (args (\<lambda>v. go (Vlan (DoAddSVI (va_VID v)))))
         else if op = OpDelSVI then Some (args (\<lambda>v. go (Vlan (DoDelSVI (va_VID v)))))
         else if op = OpFDB then Some (go (Gateway DoFDB))
         else if op = OpAddAddress then
           Some (addr (\<lambda>a. with_prefix msg (aa_Prefix a) (\<lambda>p. go (L3 (DoAddAddress (aa_Port a) p)))))
         else if op = OpDelAddress then
           Some (addr (\<lambda>a. with_prefix msg (aa_Prefix a) (\<lambda>p. go (L3 (DoDelAddress (aa_Port a) p)))))
         else None)"

definition dispatch_routes ::
  "(go_error \<Rightarrow> string) \<Rightarrow> 's datapath \<Rightarrow> ('s \<Rightarrow> Capabilities) \<Rightarrow> Request \<Rightarrow> 's handler option" where
  "dispatch_routes msg sw cap req =
     (let op = rq_Op req; go = perform msg sw cap;
          args = with_args msg get_RouteArgs zero_RouteArgs req
      in if op = OpAddRoute then
           Some (args (\<lambda>r. case decodeRoute r of Inl e \<Rightarrow> refuse msg e | Inr rt \<Rightarrow> go (L3 (DoAddRoute rt))))
         else if op = OpDelRoute then Some (args (\<lambda>r. with_prefix msg (ra_Prefix r) (\<lambda>p. go (L3 (DoDelRoute p)))))
         else if op = OpRoutes then Some (go (L3 DoRoutes))
         else None)"

definition dispatch_acls ::
  "(go_error \<Rightarrow> string) \<Rightarrow> 's datapath \<Rightarrow> ('s \<Rightarrow> Capabilities) \<Rightarrow> Request \<Rightarrow> 's handler option" where
  "dispatch_acls msg sw cap req =
     (let op = rq_Op req; go = perform msg sw cap
      in if op = OpACL then Some (go (L3 DoACLs))
         else if op = OpSetACL then
           Some (with_args msg get_ACLSetArgs zero_ACLSetArgs req (\<lambda>a.
             case ParseACLRule (as_Seq a) (as_Rule a) of
               Inl e \<Rightarrow> refuse msg (Api e)
             | Inr r \<Rightarrow> perform_null msg sw (L3 (DoSetACL r))))
         else if op = OpDelACL then
           Some (with_args msg get_ACLDelArgs zero_ACLDelArgs req (\<lambda>a. perform_null msg sw (L3 (DoDelACL (ad_Seq a)))))
         else None)"

fun first_handler :: "'s handler option list \<Rightarrow> 's handler \<Rightarrow> 's handler" where
  "first_handler [] h = h"
| "first_handler (Some k # ks) h = k"
| "first_handler (None # ks) h = first_handler ks h"

definition dispatch :: "(go_error \<Rightarrow> string) \<Rightarrow> 's datapath \<Rightarrow> ('s \<Rightarrow> Capabilities) \<Rightarrow> Request \<Rightarrow> 's handler" where
  "dispatch msg sw cap req =
     first_handler
       [dispatch_ports msg sw cap req, dispatch_vlans msg sw cap req, dispatch_lags msg sw cap req,
        dispatch_stp msg sw cap req, dispatch_options msg sw cap req, dispatch_gateways msg sw cap req,
        dispatch_interfaces msg sw cap req, dispatch_routes msg sw cap req, dispatch_acls msg sw cap req]
       (refuse msg (UnknownOperation (rq_Op req)))"

section \<open>A connection\<close>

text \<open>One request of a connection, which is open or closed: the answer and the connection it leaves.\<close>

definition serve_one ::
  "(go_error \<Rightarrow> string) \<Rightarrow> 's datapath \<Rightarrow> ('s \<Rightarrow> Capabilities) \<Rightarrow> json \<Rightarrow> bool \<times> 's \<Rightarrow> json option \<times> bool \<times> 's" where
  "serve_one msg sw cap j conn =
     (case conn of (open, s) \<Rightarrow>
        if \<not> open then (None, False, s)
        else case get_Request j zero_Request of
          None \<Rightarrow> (None, False, s)
        | Some req \<Rightarrow>
            (case dispatch msg sw cap req s of
               (None, s') \<Rightarrow> (None, False, s')
             | (Some resp, s') \<Rightarrow> (Some (put_Response resp), True, s')))"

fun serve ::
  "(go_error \<Rightarrow> string) \<Rightarrow> 's datapath \<Rightarrow> ('s \<Rightarrow> Capabilities) \<Rightarrow> json list \<Rightarrow> 's \<Rightarrow> json list \<times> 's" where
  "serve msg sw cap [] s = ([], s)"
| "serve msg sw cap (j # js) s =
     (case serve_one msg sw cap j (True, s) of
        (Some resp, True, s') \<Rightarrow> (case serve msg sw cap js s' of (resps, s'') \<Rightarrow> (resp # resps, s''))
      | (_, _, s') \<Rightarrow> ([], s'))"

section \<open>Any request at all\<close>

text \<open>What a handler may do: answer without touching the datapath, or make one call of the contract and answer
  with what it answered. Only a panic leaves it without an answer, and only a refused call or no call at all is
  answered with an error.\<close>

definition one_call :: "'s datapath \<Rightarrow> 's handler \<Rightarrow> bool" where
  "one_call sw h \<longleftrightarrow> (\<forall>s.
     (\<exists>r. h s = (Some r, s)) \<or>
     (\<exists>c. snd (h s) = snd (sw c s) \<and> (fst (h s) = None \<longleftrightarrow> fst (sw c s) = Inl Panic) \<and>
          (\<forall>r. fst (h s) = Some r \<longrightarrow> (rs_OK r \<longleftrightarrow> \<not> isl (fst (sw c s))))))"

lemma one_call_refuse: "one_call sw (refuse msg e)"
  by (simp add: one_call_def refuse_def)

lemma rs_OK_simps [simp]:
  "\<not> rs_OK (ErrorResponse msg e)" "rs_OK (ok_response j)" "rs_OK done_response" "rs_OK (reply_json cap r)"
proof -
  show "\<not> rs_OK (ErrorResponse msg e)" "rs_OK (ok_response j)" "rs_OK done_response"
    by (simp_all add: ErrorResponse_def ok_response_def done_response_def zero_Response_def)
  then show "rs_OK (reply_json cap r)"
    by (cases r) (simp_all add: ok_response_def done_response_def zero_Response_def)
qed

lemma one_call_perform: "one_call sw (perform msg sw cap c)" "one_call sw (perform_null msg sw c)"
proof -
  have "snd (h s) = snd (sw c s) \<and> (fst (h s) = None \<longleftrightarrow> fst (sw c s) = Inl Panic) \<and>
      (\<forall>r. fst (h s) = Some r \<longrightarrow> (rs_OK r \<longleftrightarrow> \<not> isl (fst (sw c s))))"
    if "h = perform msg sw cap c \<or> h = perform_null msg sw c" for h s
    using that by (cases "sw c s") (auto simp: perform_def perform_null_def split: sum.splits sw_error.splits)
  then show "one_call sw (perform msg sw cap c)" "one_call sw (perform_null msg sw c)"
    unfolding one_call_def by blast+
qed

lemma one_call_args: "(\<And>a. one_call sw (k a)) \<Longrightarrow> one_call sw (with_args msg rd z req k)"
  by (cases "Unmarshal rd z (rq_Args req)") (simp_all add: one_call_def with_args_def refuse_def)

lemma one_call_prefix: "(\<And>p. one_call sw (k p)) \<Longrightarrow> one_call sw (with_prefix msg t k)"
  by (cases "ParsePrefix t") (simp_all add: one_call_def with_prefix_def refuse_def)

lemmas one_calls = one_call_refuse one_call_perform one_call_args one_call_prefix

lemma one_call_groups:
  "dispatch_ports msg sw cap req = Some h \<Longrightarrow> one_call sw h"
  "dispatch_vlans msg sw cap req = Some h \<Longrightarrow> one_call sw h"
  "dispatch_lags msg sw cap req = Some h \<Longrightarrow> one_call sw h"
  "dispatch_stp msg sw cap req = Some h \<Longrightarrow> one_call sw h"
  "dispatch_options msg sw cap req = Some h \<Longrightarrow> one_call sw h"
  "dispatch_gateways msg sw cap req = Some h \<Longrightarrow> one_call sw h"
  "dispatch_interfaces msg sw cap req = Some h \<Longrightarrow> one_call sw h"
  "dispatch_routes msg sw cap req = Some h \<Longrightarrow> one_call sw h"
  "dispatch_acls msg sw cap req = Some h \<Longrightarrow> one_call sw h"
proof -
  have caps: "one_call sw (\<lambda>s. (Some (ok_response (put_Capabilities (cap s))), s))" by (simp add: one_call_def)
  have route: "one_call sw (case decodeRoute r of Inl e \<Rightarrow> refuse msg e | Inr rt \<Rightarrow> perform msg sw cap (L3 (DoAddRoute rt)))" for r
    by (simp add: one_calls split: sum.split)
  have rule: "one_call sw (case ParseACLRule q t of Inl e \<Rightarrow> refuse msg (Api e) | Inr r \<Rightarrow> perform_null msg sw (L3 (DoSetACL r)))" for q t
    by (simp add: one_calls split: sum.split)
  show "dispatch_ports msg sw cap req = Some h \<Longrightarrow> one_call sw h"
    by (auto simp: dispatch_ports_def Let_def intro!: one_calls caps route rule split: if_splits)
  show "dispatch_vlans msg sw cap req = Some h \<Longrightarrow> one_call sw h"
    by (auto simp: dispatch_vlans_def Let_def intro!: one_calls caps route rule split: if_splits)
  show "dispatch_lags msg sw cap req = Some h \<Longrightarrow> one_call sw h"
    by (auto simp: dispatch_lags_def Let_def intro!: one_calls caps route rule split: if_splits)
  show "dispatch_stp msg sw cap req = Some h \<Longrightarrow> one_call sw h"
    by (auto simp: dispatch_stp_def Let_def intro!: one_calls caps route rule split: if_splits)
  show "dispatch_options msg sw cap req = Some h \<Longrightarrow> one_call sw h"
    by (auto simp: dispatch_options_def Let_def intro!: one_calls caps route rule split: if_splits)
  show "dispatch_gateways msg sw cap req = Some h \<Longrightarrow> one_call sw h"
    by (auto simp: dispatch_gateways_def Let_def intro!: one_calls caps route rule split: if_splits)
  show "dispatch_interfaces msg sw cap req = Some h \<Longrightarrow> one_call sw h"
    by (auto simp: dispatch_interfaces_def Let_def intro!: one_calls caps route rule split: if_splits)
  show "dispatch_routes msg sw cap req = Some h \<Longrightarrow> one_call sw h"
    by (auto simp: dispatch_routes_def Let_def intro!: one_calls caps route rule split: if_splits)
  show "dispatch_acls msg sw cap req = Some h \<Longrightarrow> one_call sw h"
    by (auto simp: dispatch_acls_def Let_def intro!: one_calls caps route rule split: if_splits)
qed

lemma one_call_first: "(\<And>k. Some k \<in> set ks \<Longrightarrow> one_call sw k) \<Longrightarrow> one_call sw h \<Longrightarrow> one_call sw (first_handler ks h)"
  by (induction ks h rule: first_handler.induct) auto

lemma one_call_dispatch: "one_call sw (dispatch msg sw cap req)"
  unfolding dispatch_def by (rule one_call_first) (auto intro: one_call_groups one_call_refuse)

definition decodable :: "json \<Rightarrow> bool" where
  "decodable j \<longleftrightarrow> get_Request j zero_Request \<noteq> None"

text \<open>A datapath that can be served: its calls keep an invariant, refuse without effect and do not panic.\<close>

locale served = refusing sw start inv
  for sw :: "'s datapath" and start inv +
  assumes no_panic: "inv s \<Longrightarrow> fst (sw c s) \<noteq> Inl Panic"
begin

lemma dispatch_answers:
  assumes "inv s"
  obtains r s' where "dispatch msg sw cap req s = (Some r, s')" and "inv s'" and "rs_OK r \<or> s' = s"
    and "s' = s \<or> (\<exists>c. s' = snd (sw c s))"
proof -
  consider (stay) r where "dispatch msg sw cap req s = (Some r, s)"
    | (go) c where "snd (dispatch msg sw cap req s) = snd (sw c s)"
        "fst (dispatch msg sw cap req s) = None \<longleftrightarrow> fst (sw c s) = Inl Panic"
        "\<And>r. fst (dispatch msg sw cap req s) = Some r \<Longrightarrow> rs_OK r \<longleftrightarrow> \<not> isl (fst (sw c s))"
    using one_call_dispatch [of sw msg cap req, unfolded one_call_def] by meson
  then show thesis
  proof cases
    case stay
    then show thesis using that assms by blast
  next
    case go
    obtain r where r: "fst (dispatch msg sw cap req s) = Some r" using go(2) no_panic [OF assms] by auto
    have "snd (sw c s) = s" if "\<not> rs_OK r"
      using go(3) [OF r] that refused [OF assms] by (cases "fst (sw c s)") auto
    then show thesis
      using that [of r "snd (sw c s)"] r go(1) step_inv [OF assms] by (metis prod.collapse)
  qed
qed

lemma serve_answers:
  assumes "reachable sw start s"
  shows "length (fst (serve msg sw cap js s)) = length (takeWhile decodable js) \<and>
         reachable sw start (snd (serve msg sw cap js s))"
  using assms
proof (induction js arbitrary: s)
  case (Cons j js)
  show ?case
  proof (cases "get_Request j zero_Request")
    case None
    then show ?thesis using Cons.prems by (simp add: serve_one_def decodable_def)
  next
    case (Some req)
    obtain r s' where d: "dispatch msg sw cap req s = (Some r, s')" "s' = s \<or> (\<exists>c. s' = snd (sw c s))"
      by (rule dispatch_answers [OF reachable_inv [OF Cons.prems]])
    have "reachable sw start s'" using d(2) Cons.prems by (auto intro: reachable.step)
    then show ?thesis using Some d Cons.IH [of s']
      by (cases "serve msg sw cap js s'") (simp add: serve_one_def decodable_def)
  qed
qed simp

end

interpretation mem_served: served exec fresh sw_inv
proof
  show "fst (exec c s) \<noteq> Inl Panic" if "sw_inv s" for c s
    using errs_exec [OF that, of c] by (auto simp: errs_def)
qed

text \<open>C10: nothing that arrives on the socket can bring the daemon down or bend the switch. Whatever JSON is sent, each
  request that can be decoded gets exactly one answer, in order, until one that cannot ends the
  connection; the switch is then in a state the calls of the contract reach; and a request answered
  with an error, be it malformed arguments, a bad address, an unknown operation or a refused call,
  has left no trace.\<close>

theorem serve_any_requests:
  assumes "reachable exec fresh s"
  shows "length (fst (serve msg exec Capabilities_of js s)) = length (takeWhile decodable js) \<and>
         reachable exec fresh (snd (serve msg exec Capabilities_of js s)) \<and>
         (\<exists>r s'. dispatch msg exec Capabilities_of req s = (Some r, s') \<and> (rs_OK r \<or> s' = s))"
  using mem_served.serve_answers [OF assms] mem_served.dispatch_answers [OF mem.reachable_inv [OF assms], of msg Capabilities_of req]
  by metis

definition demo_requests :: "json list" where
  "demo_requests =
     [JObj [(''op'', JStr ''vlan.add''), (''args'', JObj [(''VID'', JNum ''7'')])],
      JObj [(''op'', JStr ''vlan.add''), (''args'', JObj [(''vid'', JStr ''8'')])],
      JObj [(''op'', JStr ''no.such'')], JObj [(''op'', JBool True)], JNull]"

theorem serve_any_requests_witness:
  "length (fst (serve (\<lambda>_. ''refused'') exec Capabilities_of demo_requests (New demo_config))) = 3 \<and>
   snd (serve (\<lambda>_. ''refused'') exec Capabilities_of demo_requests (New demo_config)) = snd (exec (Vlan (DoAddVLAN 7)) (New demo_config))"
proof -
  have "reachable exec fresh (New demo_config)" by (rule reachable.initial) (auto simp: fresh_def)
  note serve_any_requests [OF this, of "\<lambda>_. ''refused''" demo_requests zero_Request]
  moreover have "length (takeWhile decodable demo_requests) = 3" by code_simp
  moreover have "snd (serve (\<lambda>_. ''refused'') exec Capabilities_of demo_requests (New demo_config)) = snd (exec (Vlan (DoAddVLAN 7)) (New demo_config))"
    by code_simp
  ultimately show ?thesis by simp
qed

end
