(* ===== verification/Client.thy ===== *)
theory Client
  imports Server
begin

text \<open>
  The client's side of the socket, \<^verbatim>\<open>internal/nosd/client\<close>, which is a datapath itself: every call of the
  contract becomes a request and its answer is read back. The far side is a function of the request and
  the connection, which is open or not; no answer is a connection that broke. Where the code returns a
  variable beside the call that fills it, the call is made first, as the Go compiler does; the language
  leaves that order open. The value beside an error is not modelled. The methods for one vendor's
  silicon, which are not of the contract, are not here.
\<close>

datatype client_error = Remote string bool | Transport | BadAnswer

type_synonym 's conn = "bool \<times> 's"

type_synonym 's peer = "json \<Rightarrow> 's conn \<Rightarrow> json option \<times> 's conn"

type_synonym ('s, 'a) remote = "'s conn \<Rightarrow> (client_error + 'a) \<times> 's conn"

definition Response_Err :: "Response \<Rightarrow> client_error option" where
  "Response_Err r = (if rs_OK r then None else Some (Remote (rs_Error r) (rs_Unsupported r)))"

text \<open>\<^verbatim>\<open>errors.Is(err, ErrUnsupported)\<close> on what the client returns, through \<^verbatim>\<open>Unwrap\<close>.\<close>

fun remote_unsupported :: "client_error \<Rightarrow> bool" where
  "remote_unsupported (Remote _ u) = u"
| "remote_unsupported _ = False"

definition Client_call :: "'s peer \<Rightarrow> string \<Rightarrow> json option \<Rightarrow> ('s, json option) remote" where
  "Client_call peer op args conn =
     (case peer (put_Request \<lparr>rq_Op = op, rq_Args = args\<rparr>) conn of
        (None, conn') \<Rightarrow> (Inl Transport, conn')
      | (Some j, conn') \<Rightarrow>
          (case get_Response j zero_Response of
             None \<Rightarrow> (Inl BadAnswer, conn')
           | Some resp \<Rightarrow>
               (case Response_Err resp of
                  Some e \<Rightarrow> (Inl e, conn')
                | None \<Rightarrow> (Inr (rs_Result resp), conn'))))"

text \<open>A call for its effect, and one that reads the result into a variable.\<close>

definition call_done :: "'s peer \<Rightarrow> string \<Rightarrow> json \<Rightarrow> ('s, unit) remote" where
  "call_done peer op args conn =
     (case Client_call peer op (Some args) conn of (Inl e, conn') \<Rightarrow> (Inl e, conn') | (Inr _, conn') \<Rightarrow> (Inr (), conn'))"

definition call_out :: "'s peer \<Rightarrow> 'a reader \<Rightarrow> 'a \<Rightarrow> string \<Rightarrow> json option \<Rightarrow> ('s, 'a) remote" where
  "call_out peer rd z op args conn =
     (case Client_call peer op args conn of
        (Inl e, conn') \<Rightarrow> (Inl e, conn')
      | (Inr None, conn') \<Rightarrow> (Inr z, conn')
      | (Inr (Some j), conn') \<Rightarrow> (case rd j z of None \<Rightarrow> (Inl BadAnswer, conn') | Some x \<Rightarrow> (Inr x, conn')))"

section \<open>The calls\<close>

text \<open>A daemon that can not be reached can do nothing.\<close>

definition Client_Capabilities :: "'s peer \<Rightarrow> 's conn \<Rightarrow> Capabilities \<times> 's conn" where
  "Client_Capabilities peer conn =
     (case call_out peer get_Capabilities zero_Capabilities OpCapabilities None conn of
        (Inl e, conn') \<Rightarrow> (zero_Capabilities, conn')
      | (Inr c, conn') \<Rightarrow> (c, conn'))"

definition Client_Start :: "('s, unit) remote" where
  "Client_Start conn = (Inr (), conn)"

definition Client_Close :: "('s, unit) remote" where
  "Client_Close conn = (Inr (), False, snd conn)"

definition Client_Ports :: "'s peer \<Rightarrow> ('s, Port list) remote" where
  "Client_Ports peer = call_out peer (get_list zero_Port get_Port) [] OpPorts None"

definition Client_PortStatus :: "'s peer \<Rightarrow> string \<Rightarrow> ('s, PortStatus) remote" where
  "Client_PortStatus peer name =
     call_out peer get_PortStatus zero_PortStatus OpPortStatus (Some (put_PortArgs (zero_PortArgs\<lparr>pa_Name := name\<rparr>)))"

definition Client_SetPortAdmin :: "'s peer \<Rightarrow> string \<Rightarrow> bool \<Rightarrow> ('s, unit) remote" where
  "Client_SetPortAdmin peer name up =
     call_done peer OpSetPortAdmin (put_PortArgs (zero_PortArgs\<lparr>pa_Name := name, pa_Up := up\<rparr>))"

definition Client_SetPortMTU :: "'s peer \<Rightarrow> string \<Rightarrow> int \<Rightarrow> ('s, unit) remote" where
  "Client_SetPortMTU peer name mtu =
     call_done peer OpSetPortMTU (put_PortArgs (zero_PortArgs\<lparr>pa_Name := name, pa_MTU := mtu\<rparr>))"

definition Client_PortCounters :: "'s peer \<Rightarrow> string \<Rightarrow> ('s, Counters) remote" where
  "Client_PortCounters peer name =
     call_out peer get_Counters zero_Counters OpPortCounters (Some (put_PortArgs (zero_PortArgs\<lparr>pa_Name := name\<rparr>)))"

definition Client_AddVLAN :: "'s peer \<Rightarrow> int \<Rightarrow> ('s, unit) remote" where
  "Client_AddVLAN peer vid = call_done peer OpAddVLAN (put_VLANArgs (zero_VLANArgs\<lparr>va_VID := vid\<rparr>))"

definition Client_DelVLAN :: "'s peer \<Rightarrow> int \<Rightarrow> ('s, unit) remote" where
  "Client_DelVLAN peer vid = call_done peer OpDelVLAN (put_VLANArgs (zero_VLANArgs\<lparr>va_VID := vid\<rparr>))"

definition Client_SetPortVLAN :: "'s peer \<Rightarrow> string \<Rightarrow> int \<Rightarrow> bool \<Rightarrow> ('s, unit) remote" where
  "Client_SetPortVLAN peer name vid tagged =
     call_done peer OpSetPortVLAN (put_VLANArgs \<lparr>va_VID = vid, va_Port = name, va_Tagged = tagged\<rparr>)"

definition Client_DelPortVLAN :: "'s peer \<Rightarrow> string \<Rightarrow> int \<Rightarrow> ('s, unit) remote" where
  "Client_DelPortVLAN peer name vid =
     call_done peer OpDelPortVLAN (put_VLANArgs (zero_VLANArgs\<lparr>va_VID := vid, va_Port := name\<rparr>))"

definition Client_VLANs :: "'s peer \<Rightarrow> ('s, VLAN list) remote" where
  "Client_VLANs peer = call_out peer (get_list zero_VLAN get_VLAN) [] OpVLANs None"

definition Client_AddSVI :: "'s peer \<Rightarrow> int \<Rightarrow> ('s, unit) remote" where
  "Client_AddSVI peer vid = call_done peer OpAddSVI (put_VLANArgs (zero_VLANArgs\<lparr>va_VID := vid\<rparr>))"

definition Client_DelSVI :: "'s peer \<Rightarrow> int \<Rightarrow> ('s, unit) remote" where
  "Client_DelSVI peer vid = call_done peer OpDelSVI (put_VLANArgs (zero_VLANArgs\<lparr>va_VID := vid\<rparr>))"

definition Client_SetPortTunnel :: "'s peer \<Rightarrow> string \<Rightarrow> int \<Rightarrow> ('s, unit) remote" where
  "Client_SetPortTunnel peer name svid = call_done peer OpSetPortTunnel (put_PortTunnelArgs \<lparr>tu_Name = name, tu_SVID = svid\<rparr>)"

definition Client_SetPortTPID :: "'s peer \<Rightarrow> string \<Rightarrow> int \<Rightarrow> ('s, unit) remote" where
  "Client_SetPortTPID peer name tpid = call_done peer OpSetPortTPID (put_PortTPIDArgs \<lparr>tp_Name = name, tp_TPID = tpid\<rparr>)"

definition Client_AddLAG :: "'s peer \<Rightarrow> string \<Rightarrow> bool \<Rightarrow> ('s, unit) remote" where
  "Client_AddLAG peer name lacp = call_done peer OpAddLAG (put_LAGArgs (zero_LAGArgs\<lparr>la_Name := name, la_LACP := lacp\<rparr>))"

text \<open>The membership is sent in a structure of its own, in which it is never left out.\<close>

definition Client_SetLAGMembers :: "'s peer \<Rightarrow> string \<Rightarrow> string list \<Rightarrow> ('s, unit) remote" where
  "Client_SetLAGMembers peer name members =
     call_done peer OpSetLAGMembers (JObj [(''name'', put_string name), (''ports'', put_list put_string members)])"

definition Client_DelLAG :: "'s peer \<Rightarrow> string \<Rightarrow> ('s, unit) remote" where
  "Client_DelLAG peer name = call_done peer OpDelLAG (put_LAGArgs (zero_LAGArgs\<lparr>la_Name := name\<rparr>))"

definition Client_LAGs :: "'s peer \<Rightarrow> ('s, LAG list) remote" where
  "Client_LAGs peer = call_out peer (get_list zero_LAG get_LAG) [] OpLAGs None"

definition Client_SetLAGOptions :: "'s peer \<Rightarrow> string \<Rightarrow> LAGOptions \<Rightarrow> ('s, unit) remote" where
  "Client_SetLAGOptions peer name opts =
     call_done peer OpSetLAGOptions
       (put_LAGOptionsArgs \<lparr>lo_Name = name, lo_Rate = Rate opts, lo_Passive = Passive opts, lo_PortPriority = PortPriority opts\<rparr>)"

definition Client_SetLACPSystemPriority :: "'s peer \<Rightarrow> int \<Rightarrow> ('s, unit) remote" where
  "Client_SetLACPSystemPriority peer p = call_done peer OpSetLACPPrio (put_PriorityArgs \<lparr>pr_Priority = p\<rparr>)"

definition Client_SetSTP :: "'s peer \<Rightarrow> STPConfig \<Rightarrow> ('s, unit) remote" where
  "Client_SetSTP peer conf =
     call_done peer OpSetSTP
       (put_STPArgs \<lparr>sa_Enabled = stp_Enabled conf, sa_Priority = stp_Priority conf, sa_HelloTime = stp_HelloTime conf,
                     sa_ForwardDelay = stp_ForwardDelay conf, sa_MaxAge = stp_MaxAge conf\<rparr>)"

definition Client_SetSTPPort :: "'s peer \<Rightarrow> string \<Rightarrow> STPPortConfig \<Rightarrow> ('s, unit) remote" where
  "Client_SetSTPPort peer name conf =
     call_done peer OpSetSTPPort
       (put_STPPortArgs \<lparr>spa_Name = name, spa_Edge = sp_Edge conf, spa_Cost = sp_Cost conf, spa_Priority = sp_Priority conf,
                         spa_BPDUGuard = sp_BPDUGuard conf, spa_RootGuard = sp_RootGuard conf\<rparr>)"

definition Client_STP :: "'s peer \<Rightarrow> ('s, STPStatus) remote" where
  "Client_STP peer = call_out peer get_STPStatus zero_STPStatus OpSTP None"

definition Client_SetMLAG :: "'s peer \<Rightarrow> MLAGConfig \<Rightarrow> ('s, unit) remote" where
  "Client_SetMLAG peer conf =
     call_done peer OpSetMLAG
       (put_MLAGArgs \<lparr>ma_Enabled = ml_Enabled conf, ma_PeerLink = ml_PeerLink conf, ma_PeerAddress = ml_PeerAddress conf,
                      ma_Priority = ml_Priority conf, ma_HelloMs = ml_HelloMs conf, ma_DeadMs = ml_DeadMs conf,
                      ma_SettleMs = ml_SettleMs conf, ma_HeartbeatPort = ml_HeartbeatPort conf,
                      ma_ReloadDelay = ml_ReloadDelay conf\<rparr>)"

definition Client_SetLAGMLAG :: "'s peer \<Rightarrow> string \<Rightarrow> int \<Rightarrow> ('s, unit) remote" where
  "Client_SetLAGMLAG peer name mid = call_done peer OpSetLAGMLAG (put_LAGMLAGArgs \<lparr>lma_Name = name, lma_ID = mid\<rparr>)"

definition Client_MLAG :: "'s peer \<Rightarrow> ('s, MLAGStatus) remote" where
  "Client_MLAG peer = call_out peer get_MLAGStatus zero_MLAGStatus OpMLAG None"

definition Client_SetVirtualMAC :: "'s peer \<Rightarrow> string \<Rightarrow> ('s, unit) remote" where
  "Client_SetVirtualMAC peer hw = call_done peer OpSetVirtualMAC (put_GatewayArgs (zero_GatewayArgs\<lparr>ga_MAC := hw\<rparr>))"

definition Client_AddVirtualGateway :: "'s peer \<Rightarrow> string \<Rightarrow> Prefix \<Rightarrow> ('s, unit) remote" where
  "Client_AddVirtualGateway peer svi addr =
     call_done peer OpAddGateway (put_GatewayArgs (zero_GatewayArgs\<lparr>ga_SVI := svi, ga_Prefix := Prefix_String addr\<rparr>))"

definition Client_DelVirtualGateway :: "'s peer \<Rightarrow> string \<Rightarrow> Prefix \<Rightarrow> ('s, unit) remote" where
  "Client_DelVirtualGateway peer svi addr =
     call_done peer OpDelGateway (put_GatewayArgs (zero_GatewayArgs\<lparr>ga_SVI := svi, ga_Prefix := Prefix_String addr\<rparr>))"

definition Client_VirtualGateways :: "'s peer \<Rightarrow> ('s, VirtualGateway list) remote" where
  "Client_VirtualGateways peer = call_out peer (get_list zero_VirtualGateway get_VirtualGateway) [] OpGateways None"

definition Client_SetMACAging :: "'s peer \<Rightarrow> int \<Rightarrow> ('s, unit) remote" where
  "Client_SetMACAging peer seconds = call_done peer OpSetMACAging (put_MACAgingArgs \<lparr>mg_Seconds = seconds\<rparr>)"

definition Client_MACAging :: "'s peer \<Rightarrow> ('s, int) remote" where
  "Client_MACAging peer conn =
     (case call_out peer get_MACAgingArgs zero_MACAgingArgs OpMACAging None conn of
        (Inl e, conn') \<Rightarrow> (Inl e, conn')
      | (Inr a, conn') \<Rightarrow> (Inr (mg_Seconds a), conn'))"

definition Client_FDB :: "'s peer \<Rightarrow> ('s, FDBEntry list) remote" where
  "Client_FDB peer = call_out peer (get_list zero_FDBEntry get_FDBEntry) [] OpFDB None"

definition Client_AddAddress :: "'s peer \<Rightarrow> string \<Rightarrow> Prefix \<Rightarrow> ('s, unit) remote" where
  "Client_AddAddress peer port addr = call_done peer OpAddAddress (put_AddrArgs \<lparr>aa_Port = port, aa_Prefix = Prefix_String addr\<rparr>)"

definition Client_DelAddress :: "'s peer \<Rightarrow> string \<Rightarrow> Prefix \<Rightarrow> ('s, unit) remote" where
  "Client_DelAddress peer port addr = call_done peer OpDelAddress (put_AddrArgs \<lparr>aa_Port = port, aa_Prefix = Prefix_String addr\<rparr>)"

definition Client_AddRoute :: "'s peer \<Rightarrow> Route \<Rightarrow> ('s, unit) remote" where
  "Client_AddRoute peer r =
     call_done peer OpAddRoute
       (put_RouteArgs
          \<lparr>ra_Prefix = Prefix_String (rt_Prefix r),
           ra_NextHops = map (\<lambda>nh. \<lparr>na_Via = Addr_String (Via nh), na_Port = nh_Port nh\<rparr>) (NextHops r)\<rparr>)"

definition Client_DelRoute :: "'s peer \<Rightarrow> Prefix \<Rightarrow> ('s, unit) remote" where
  "Client_DelRoute peer p = call_done peer OpDelRoute (put_RouteArgs (zero_RouteArgs\<lparr>ra_Prefix := Prefix_String p\<rparr>))"

text \<open>The loop that reads the routes back: the first address that does not parse ends it.\<close>

definition read_hop :: "NextHopArgs \<Rightarrow> NextHop option" where
  "read_hop nh = map_option (\<lambda>via. \<lparr>Via = via, nh_Port = na_Port nh\<rparr>) (ParseAddr (na_Via nh))"

definition read_route :: "RouteArgs \<Rightarrow> Route option" where
  "read_route r =
     (case ParsePrefix (ra_Prefix r) of
        None \<Rightarrow> None
      | Some p \<Rightarrow> map_option (\<lambda>hs. \<lparr>rt_Prefix = p, NextHops = hs\<rparr>) (all_some (map read_hop (ra_NextHops r))))"

definition Client_Routes :: "'s peer \<Rightarrow> ('s, Route list) remote" where
  "Client_Routes peer conn =
     (case call_out peer (get_list zero_RouteArgs get_RouteArgs) [] OpRoutes None conn of
        (Inl e, conn') \<Rightarrow> (Inl e, conn')
      | (Inr raw, conn') \<Rightarrow>
          (case all_some (map read_route raw) of None \<Rightarrow> (Inl BadAnswer, conn') | Some rs \<Rightarrow> (Inr rs, conn')))"

definition Client_ACLList :: "'s peer \<Rightarrow> ('s, WireACLList) remote" where
  "Client_ACLList peer = call_out peer get_WireACLList zero_WireACLList OpACL None"

definition zero_ACLRule :: ACLRule where
  "zero_ACLRule =
     \<lparr>Seq = 0, Family = 0, Action = ACLPermit, InPort = [], Proto = 0, Src = zero_prefix, Dst = zero_prefix, SrcPort = 0, DstPort = 0\<rparr>"

definition read_entry :: "WireACLEntry \<Rightarrow> ACLEntry" where
  "read_entry w =
     (let e = \<lparr>ae_Seq = we_Seq w, ae_Text = we_Rule w, ae_Rule = zero_ACLRule, ae_Parsed = False,
               ae_Installed = we_Installed w, ae_Packets = we_Packets w, ae_Error = we_Error w\<rparr>
      in if we_Parsed w then
           (case ParseACLRule (we_Seq w) (we_Rule w) of Inl _ \<Rightarrow> e | Inr r \<Rightarrow> e\<lparr>ae_Rule := r, ae_Parsed := True\<rparr>)
         else e)"

definition Client_ACLs :: "'s peer \<Rightarrow> ('s, ACLEntry list) remote" where
  "Client_ACLs peer conn =
     (case Client_ACLList peer conn of
        (Inl e, conn') \<Rightarrow> (Inl e, conn')
      | (Inr l, conn') \<Rightarrow> (Inr (map read_entry (wl_Rules l)), conn'))"

definition Client_SetACL :: "'s peer \<Rightarrow> ACLRule \<Rightarrow> ('s, unit) remote" where
  "Client_SetACL peer r = call_done peer OpSetACL (put_ACLSetArgs \<lparr>as_Seq = Seq r, as_Rule = ACLRule_String r\<rparr>)"

definition Client_DelACL :: "'s peer \<Rightarrow> int \<Rightarrow> ('s, unit) remote" where
  "Client_DelACL peer seq = call_done peer OpDelACL (put_ACLDelArgs \<lparr>ad_Seq = seq\<rparr>)"

end
