(* ===== verification/Wire_Spec.thy ===== *)
theory Wire_Spec
  imports Client
begin

text \<open>
  The socket is transparent: client, protocol and daemon around a datapath behave as the datapath does. The
  datapath is one of the locale \<open>wired\<close>, which adds to a served one that each call has an answer of its own
  kind; the reference datapath is an instance.
\<close>

section \<open>The client as a datapath\<close>

definition replied :: "('a \<Rightarrow> reply) \<Rightarrow> (client_error + 'a) \<times> 's conn \<Rightarrow> (client_error + reply) \<times> 's conn" where
  "replied f r = (case fst r of Inl e \<Rightarrow> Inl e | Inr x \<Rightarrow> Inr (f x), snd r)"

abbreviation sent :: "(client_error + unit) \<times> 's conn \<Rightarrow> (client_error + reply) \<times> 's conn" where
  "sent \<equiv> replied (\<lambda>_. Done)"

fun client_port :: "'s peer \<Rightarrow> port_call \<Rightarrow> ('s, reply) remote" where
  "client_port peer DoStart c = sent (Client_Start c)"
| "client_port peer DoClose c = sent (Client_Close c)"
| "client_port peer DoPorts c = replied PortList (Client_Ports peer c)"
| "client_port peer (DoPortStatus n) c = replied Status (Client_PortStatus peer n c)"
| "client_port peer (DoSetPortAdmin n up) c = sent (Client_SetPortAdmin peer n up c)"
| "client_port peer (DoSetPortMTU n mtu) c = sent (Client_SetPortMTU peer n mtu c)"
| "client_port peer (DoPortCounters n) c = replied CounterValues (Client_PortCounters peer n c)"

fun client_vlan :: "'s peer \<Rightarrow> vlan_call \<Rightarrow> ('s, reply) remote" where
  "client_vlan peer (DoAddVLAN v) c = sent (Client_AddVLAN peer v c)"
| "client_vlan peer (DoDelVLAN v) c = sent (Client_DelVLAN peer v c)"
| "client_vlan peer (DoSetPortVLAN n v t) c = sent (Client_SetPortVLAN peer n v t c)"
| "client_vlan peer (DoDelPortVLAN n v) c = sent (Client_DelPortVLAN peer n v c)"
| "client_vlan peer DoVLANs c = replied VLANList (Client_VLANs peer c)"
| "client_vlan peer (DoAddSVI v) c = sent (Client_AddSVI peer v c)"
| "client_vlan peer (DoDelSVI v) c = sent (Client_DelSVI peer v c)"
| "client_vlan peer (DoSetPortTunnel n v) c = sent (Client_SetPortTunnel peer n v c)"
| "client_vlan peer (DoSetPortTPID n t) c = sent (Client_SetPortTPID peer n t c)"

fun client_lag :: "'s peer \<Rightarrow> lag_call \<Rightarrow> ('s, reply) remote" where
  "client_lag peer (DoAddLAG n lacp) c = sent (Client_AddLAG peer n lacp c)"
| "client_lag peer (DoSetLAGOptions n opts) c = sent (Client_SetLAGOptions peer n opts c)"
| "client_lag peer (DoSetLACPSystemPriority p) c = sent (Client_SetLACPSystemPriority peer p c)"
| "client_lag peer (DoSetLAGMembers n ms) c = sent (Client_SetLAGMembers peer n ms c)"
| "client_lag peer (DoDelLAG n) c = sent (Client_DelLAG peer n c)"
| "client_lag peer DoLAGs c = replied LAGList (Client_LAGs peer c)"

fun client_stp :: "'s peer \<Rightarrow> stp_call \<Rightarrow> ('s, reply) remote" where
  "client_stp peer (DoSetSTP x) c = sent (Client_SetSTP peer x c)"
| "client_stp peer (DoSetSTPPort n x) c = sent (Client_SetSTPPort peer n x c)"
| "client_stp peer DoSTP c = replied STPReport (Client_STP peer c)"
| "client_stp peer (DoSetMLAG x) c = sent (Client_SetMLAG peer x c)"
| "client_stp peer (DoSetLAGMLAG n mid) c = sent (Client_SetLAGMLAG peer n mid c)"
| "client_stp peer DoMLAG c = replied MLAGReport (Client_MLAG peer c)"

fun client_gateway :: "'s peer \<Rightarrow> gateway_call \<Rightarrow> ('s, reply) remote" where
  "client_gateway peer (DoSetVirtualMAC m) c = sent (Client_SetVirtualMAC peer m c)"
| "client_gateway peer (DoAddVirtualGateway n a) c = sent (Client_AddVirtualGateway peer n a c)"
| "client_gateway peer (DoDelVirtualGateway n a) c = sent (Client_DelVirtualGateway peer n a c)"
| "client_gateway peer DoVirtualGateways c = replied GatewayList (Client_VirtualGateways peer c)"
| "client_gateway peer (DoSetMACAging n) c = sent (Client_SetMACAging peer n c)"
| "client_gateway peer DoMACAging c = replied Seconds (Client_MACAging peer c)"
| "client_gateway peer DoFDB c = replied FDBList (Client_FDB peer c)"

fun client_l3 :: "'s peer \<Rightarrow> l3_call \<Rightarrow> ('s, reply) remote" where
  "client_l3 peer DoACLs c = replied ACLList (Client_ACLs peer c)"
| "client_l3 peer (DoSetACL r) c = sent (Client_SetACL peer r c)"
| "client_l3 peer (DoDelACL q) c = sent (Client_DelACL peer q c)"
| "client_l3 peer (DoAddAddress n a) c = sent (Client_AddAddress peer n a c)"
| "client_l3 peer (DoDelAddress n a) c = sent (Client_DelAddress peer n a c)"
| "client_l3 peer (DoAddRoute r) c = sent (Client_AddRoute peer r c)"
| "client_l3 peer (DoDelRoute p) c = sent (Client_DelRoute peer p c)"
| "client_l3 peer DoRoutes c = replied RouteList (Client_Routes peer c)"

fun client_exec :: "'s peer \<Rightarrow> call \<Rightarrow> ('s, reply) remote" where
  "client_exec peer (Port x) c = client_port peer x c"
| "client_exec peer (Vlan x) c = client_vlan peer x c"
| "client_exec peer (Lag x) c = client_lag peer x c"
| "client_exec peer (Stp x) c = client_stp peer x c"
| "client_exec peer (Gateway x) c = client_gateway peer x c"
| "client_exec peer (L3 x) c = client_l3 peer x c"

section \<open>What can be sent as it is\<close>

text \<open>Values the wire carries unchanged. Starting and closing are the client's own.\<close>

definition good_prefix_arg :: "Prefix \<Rightarrow> bool" where
  "good_prefix_arg p \<longleftrightarrow> wf_prefix p \<and> IsValid p"

definition hop_ok :: "NextHop \<Rightarrow> bool" where
  "hop_ok nh \<longleftrightarrow> Via nh \<noteq> NoAddr \<and> valid_utf8 (Addr_String (Via nh)) \<and> valid_utf8 (nh_Port nh)"

definition route_ok :: "Route \<Rightarrow> bool" where
  "route_ok r \<longleftrightarrow> good_prefix_arg (rt_Prefix r) \<and> list_all hop_ok (NextHops r)"

definition rule_ok :: "ACLRule \<Rightarrow> bool" where
  "rule_ok r \<longleftrightarrow> wf_rule r \<and> valid_utf8 (ACLRule_String r)"

fun call_ok :: "call \<Rightarrow> bool" where
  "call_ok (Port DoStart) = False"
| "call_ok (Port DoClose) = False"
| "call_ok (Port (DoPortStatus n)) = valid_utf8 n"
| "call_ok (Port (DoSetPortAdmin n _)) = valid_utf8 n"
| "call_ok (Port (DoSetPortMTU n mtu)) = (valid_utf8 n \<and> is_int mtu)"
| "call_ok (Port (DoPortCounters n)) = valid_utf8 n"
| "call_ok (Vlan (DoAddVLAN v)) = is_int v"
| "call_ok (Vlan (DoDelVLAN v)) = is_int v"
| "call_ok (Vlan (DoSetPortVLAN n v _)) = (valid_utf8 n \<and> is_int v)"
| "call_ok (Vlan (DoDelPortVLAN n v)) = (valid_utf8 n \<and> is_int v)"
| "call_ok (Vlan (DoAddSVI v)) = is_int v"
| "call_ok (Vlan (DoDelSVI v)) = is_int v"
| "call_ok (Vlan (DoSetPortTunnel n v)) = (valid_utf8 n \<and> is_int v)"
| "call_ok (Vlan (DoSetPortTPID n v)) = (valid_utf8 n \<and> is_int v)"
| "call_ok (Lag (DoAddLAG n _)) = valid_utf8 n"
| "call_ok (Lag (DoSetLAGOptions n opts)) = (valid_utf8 n \<and> LAGOptions_ok opts)"
| "call_ok (Lag (DoSetLACPSystemPriority p)) = is_int p"
| "call_ok (Lag (DoSetLAGMembers n ms)) = (valid_utf8 n \<and> list_all valid_utf8 ms)"
| "call_ok (Lag (DoDelLAG n)) = valid_utf8 n"
| "call_ok (Stp (DoSetSTP x)) = (is_int (stp_Priority x) \<and> is_int (stp_HelloTime x) \<and> is_int (stp_ForwardDelay x) \<and> is_int (stp_MaxAge x))"
| "call_ok (Stp (DoSetSTPPort n x)) = (valid_utf8 n \<and> is_int (sp_Cost x) \<and> is_int (sp_Priority x))"
| "call_ok (Stp (DoSetMLAG x)) =
     (valid_utf8 (ml_PeerLink x) \<and> valid_utf8 (ml_PeerAddress x) \<and>
      list_all is_int [ml_Priority x, ml_HelloMs x, ml_DeadMs x, ml_SettleMs x, ml_HeartbeatPort x, ml_ReloadDelay x])"
| "call_ok (Stp (DoSetLAGMLAG n v)) = (valid_utf8 n \<and> is_int v)"
| "call_ok (Gateway (DoSetVirtualMAC m)) = valid_utf8 m"
| "call_ok (Gateway (DoAddVirtualGateway n a)) = (valid_utf8 n \<and> good_prefix_arg a)"
| "call_ok (Gateway (DoDelVirtualGateway n a)) = (valid_utf8 n \<and> good_prefix_arg a)"
| "call_ok (Gateway (DoSetMACAging v)) = is_int v"
| "call_ok (L3 (DoSetACL r)) = rule_ok r"
| "call_ok (L3 (DoDelACL q)) = is_int q"
| "call_ok (L3 (DoAddAddress n a)) = (valid_utf8 n \<and> good_prefix_arg a)"
| "call_ok (L3 (DoDelAddress n a)) = (valid_utf8 n \<and> good_prefix_arg a)"
| "call_ok (L3 (DoAddRoute r)) = route_ok r"
| "call_ok (L3 (DoDelRoute p)) = good_prefix_arg p"
| "call_ok _ = True"

definition entry_ok :: "ACLEntry \<Rightarrow> bool" where
  "entry_ok e \<longleftrightarrow>
     (if ae_Parsed e then rule_ok (ae_Rule e) \<and> ae_Seq e = Seq (ae_Rule e) \<and> ae_Text e = ACLRule_String (ae_Rule e)
      else ae_Rule e = zero_ACLRule)"

fun reply_ok :: "Capabilities \<Rightarrow> reply \<Rightarrow> bool" where
  "reply_ok cap Done = True"
| "reply_ok cap (PortList ps) = list_all Port_ok ps"
| "reply_ok cap (Status st) = PortStatus_ok st"
| "reply_ok cap (CounterValues c) = True"
| "reply_ok cap (VLANList vs) = list_all VLAN_ok vs"
| "reply_ok cap (LAGList ls) = list_all LAG_ok ls"
| "reply_ok cap (STPReport st) = STPStatus_ok st"
| "reply_ok cap (MLAGReport st) = MLAGStatus_ok st"
| "reply_ok cap (GatewayList gs) = list_all VirtualGateway_ok gs"
| "reply_ok cap (Seconds n) = is_int n"
| "reply_ok cap (FDBList fs) = list_all FDBEntry_ok fs"
| "reply_ok cap (ACLList es) = (list_all entry_ok es \<and> WireACLList_ok (encodeACLs cap es))"
| "reply_ok cap (RouteList rs) = list_all route_ok rs"

definition over_wire :: "(go_error \<Rightarrow> string) \<Rightarrow> sw_error + reply \<Rightarrow> client_error + reply" where
  "over_wire msg r = (case r of Inl e \<Rightarrow> Inl (Remote (coerce_utf8 (msg (Api e))) (is_unsupported e)) | Inr x \<Rightarrow> Inr x)"

section \<open>One request\<close>

lemma coerce_Nil_iff [simp]: "coerce_utf8 s = [] \<longleftrightarrow> s = []"
proof (cases s)
  case (Cons c t)
  then show ?thesis by (simp add: replacement_def split: nat.split)
qed simp

lemma get_put_any_Response:
  "get_Response (put_Response r) zero_Response = Some (r\<lparr>rs_Error := coerce_utf8 (rs_Error r)\<rparr>)"
  by (cases r) (simp add: get_Response_def put_Response_def zero_Response_def struct_rt get_put_string omitted split: option.split)

lemma Client_call_served:
  assumes "valid_utf8 op"
  shows "Client_call (serve_one msg sw cap) op args (True, s) =
     (case dispatch msg sw cap \<lparr>rq_Op = op, rq_Args = args\<rparr> s of
        (None, s') \<Rightarrow> (Inl Transport, False, s')
      | (Some r, s') \<Rightarrow>
          (if rs_OK r then Inr (rs_Result r) else Inl (Remote (coerce_utf8 (rs_Error r)) (rs_Unsupported r)), True, s'))"
proof -
  have "get_Request (put_Request \<lparr>rq_Op = op, rq_Args = args\<rparr>) zero_Request = Some \<lparr>rq_Op = op, rq_Args = args\<rparr>"
    using assms by (simp add: Request_wire.get_put Request_ok_def)
  then show ?thesis
    by (simp add: Client_call_def serve_one_def get_put_any_Response Response_Err_def split: option.split prod.split)
qed

lemma ops_valid: "list_all valid_utf8 [OpCapabilities, OpPorts, OpPortStatus, OpSetPortAdmin, OpSetPortMTU, OpPortCounters, OpAddVLAN,
  OpDelVLAN, OpSetPortVLAN, OpDelPortVLAN, OpVLANs, OpAddSVI, OpDelSVI, OpAddLAG, OpSetLAGMembers, OpDelLAG, OpLAGs, OpSetSTP,
  OpSetSTPPort, OpSTP, OpSetMLAG, OpSetLAGOptions, OpSetLACPPrio, OpSetMACAging, OpSetPortTunnel, OpSetPortTPID, OpMACAging,
  OpSetLAGMLAG, OpMLAG, OpSetVirtualMAC, OpAddGateway, OpDelGateway, OpGateways, OpFDB, OpAddAddress, OpDelAddress, OpAddRoute,
  OpDelRoute, OpRoutes, OpACL, OpSetACL, OpDelACL]"
  by code_simp

lemmas op_valid = ops_valid [simplified, unfolded op_defs]

lemmas dispatching =
  dispatch_def dispatch_ports_def dispatch_vlans_def dispatch_lags_def dispatch_stp_def dispatch_options_def dispatch_gateways_def
  dispatch_interfaces_def dispatch_routes_def dispatch_acls_def Let_def op_defs with_args_def with_prefix_def

text \<open>The two shapes of a call: one made for its effect and one that reads an answer.\<close>

definition through :: "(go_error \<Rightarrow> string) \<Rightarrow> 's datapath \<Rightarrow> call \<Rightarrow> 's \<Rightarrow> (client_error + reply) \<times> 's conn" where
  "through msg sw c s = (over_wire msg (fst (sw c s)), True, snd (sw c s))"

lemma sent_through:
  assumes "dispatch msg sw cap \<lparr>rq_Op = op, rq_Args = Some args\<rparr> s \<in> {perform msg sw cap c s, perform_null msg sw c s}"
    and "valid_utf8 op" and "fst (sw c s) \<noteq> Inl Panic" and "\<And>r. fst (sw c s) = Inr r \<Longrightarrow> r = Done"
  shows "sent (call_done (serve_one msg sw cap) op args (True, s)) = through msg sw c s"
  using assms
  by (cases "sw c s")
    (auto simp: call_done_def Client_call_served replied_def through_def over_wire_def perform_def perform_null_def
      ErrorResponse_def ok_response_def done_response_def zero_Response_def split: sum.splits sw_error.splits)

lemma asked_through:
  assumes "dispatch msg sw cap \<lparr>rq_Op = op, rq_Args = args\<rparr> s = perform msg sw cap c s"
    and "valid_utf8 op" and "fst (sw c s) \<noteq> Inl Panic"
    and "\<And>r. fst (sw c s) = Inr r \<Longrightarrow> \<exists>x j. r = f x \<and> reply_json (cap (snd (sw c s))) r = ok_response j \<and> rd j z = Some x"
  shows "replied f (call_out (serve_one msg sw cap) rd z op args (True, s)) = through msg sw c s"
  using assms
  by (cases "sw c s")
    (force simp: call_out_def Client_call_served replied_def through_def over_wire_def perform_def
      ErrorResponse_def ok_response_def zero_Response_def split: sum.splits sw_error.splits option.splits)

lemma ok_response_inject [simp]: "ok_response j = ok_response k \<longleftrightarrow> j = k"
  by (simp add: ok_response_def zero_Response_def)

text \<open>The answer each call has.\<close>

fun fits :: "call \<Rightarrow> reply \<Rightarrow> bool" where
  "fits (Port DoPorts) r = (\<exists>x. r = PortList x)"
| "fits (Port (DoPortStatus _)) r = (\<exists>x. r = Status x)"
| "fits (Port (DoPortCounters _)) r = (\<exists>x. r = CounterValues x)"
| "fits (Vlan DoVLANs) r = (\<exists>x. r = VLANList x)"
| "fits (Lag DoLAGs) r = (\<exists>x. r = LAGList x)"
| "fits (Stp DoSTP) r = (\<exists>x. r = STPReport x)"
| "fits (Stp DoMLAG) r = (\<exists>x. r = MLAGReport x)"
| "fits (Gateway DoVirtualGateways) r = (\<exists>x. r = GatewayList x)"
| "fits (Gateway DoMACAging) r = (\<exists>x. r = Seconds x)"
| "fits (Gateway DoFDB) r = (\<exists>x. r = FDBList x)"
| "fits (L3 DoACLs) r = (\<exists>x. r = ACLList x)"
| "fits (L3 DoRoutes) r = (\<exists>x. r = RouteList x)"
| "fits _ r = (r = Done)"

lemma valid_utf8_Nil [simp]: "valid_utf8 []"
  by (simp add: valid_utf8_def)

lemma is_int_0 [simp]: "is_int 0"
  by (simp add: is_int_def int_min_def int_max_def)

lemmas args_ok =
  PortArgs_ok_def VLANArgs_ok_def LAGArgs_ok_def STPArgs_ok_def STPPortArgs_ok_def MLAGArgs_ok_def LAGOptionsArgs_ok_def
  PriorityArgs_ok_def LAGMLAGArgs_ok_def GatewayArgs_ok_def AddrArgs_ok_def NextHopArgs_ok_def RouteArgs_ok_def ACLSetArgs_ok_def
  ACLDelArgs_ok_def MACAgingArgs_ok_def PortTunnelArgs_ok_def PortTPIDArgs_ok_def LAGOptions_ok_def

lemma args_zero:
  "pa_Name zero_PortArgs = []" "pa_Up zero_PortArgs = False" "pa_MTU zero_PortArgs = 0"
  "va_VID zero_VLANArgs = 0" "va_Port zero_VLANArgs = []" "va_Tagged zero_VLANArgs = False"
  "la_Name zero_LAGArgs = []" "la_LACP zero_LAGArgs = False" "la_Ports zero_LAGArgs = []"
  "ga_SVI zero_GatewayArgs = []" "ga_Prefix zero_GatewayArgs = []" "ga_MAC zero_GatewayArgs = []"
  "ra_Prefix zero_RouteArgs = []" "ra_NextHops zero_RouteArgs = []"
  by (simp_all add: zero_PortArgs_def zero_VLANArgs_def zero_LAGArgs_def zero_GatewayArgs_def zero_RouteArgs_def)

lemma rebuilt [simp]:
  "\<lparr>Rate = Rate x, Passive = Passive x, PortPriority = PortPriority x\<rparr> = x"
  "\<lparr>stp_Enabled = stp_Enabled y, stp_Priority = stp_Priority y, stp_HelloTime = stp_HelloTime y,
    stp_ForwardDelay = stp_ForwardDelay y, stp_MaxAge = stp_MaxAge y\<rparr> = y"
  "\<lparr>sp_Edge = sp_Edge z, sp_Cost = sp_Cost z, sp_Priority = sp_Priority z, sp_BPDUGuard = sp_BPDUGuard z,
    sp_RootGuard = sp_RootGuard z\<rparr> = z"
  "\<lparr>ml_Enabled = ml_Enabled m, ml_PeerLink = ml_PeerLink m, ml_PeerAddress = ml_PeerAddress m, ml_Priority = ml_Priority m,
    ml_HelloMs = ml_HelloMs m, ml_DeadMs = ml_DeadMs m, ml_SettleMs = ml_SettleMs m, ml_HeartbeatPort = ml_HeartbeatPort m,
    ml_ReloadDelay = ml_ReloadDelay m\<rparr> = m"
  by simp_all

lemma addr_char_ascii: "addr_char c \<Longrightarrow> byte_of c < 0x80"
  by (auto simp: addr_char_def isHex_def Let_def)

lemma prefix_sent:
  assumes "good_prefix_arg p"
  shows "ParsePrefix (Prefix_String p) = Some p" and "valid_utf8 (Prefix_String p)"
proof -
  show "ParsePrefix (Prefix_String p) = Some p" using assms by (simp add: good_prefix_arg_def ParsePrefix_String)
  note wf = wf_valid_prefix [OF assms [unfolded good_prefix_arg_def, THEN conjunct1] assms [unfolded good_prefix_arg_def, THEN conjunct2]]
  have "\<forall>c \<in> set (Prefix_String p). addr_char c \<or> c = CHR ''/''"
    using assms addr_chars [OF wf(1,2)] Itoa_digits [OF wf(3)]
    by (auto simp: good_prefix_arg_def Prefix_String_def addr_char_def isDigit_isHex)
  then show "valid_utf8 (Prefix_String p)" by (intro ascii_valid_utf8) (auto dest: addr_char_ascii)
qed

lemma hops_sent:
  assumes "list_all hop_ok hs"
  shows "decode_hops (map (\<lambda>nh. \<lparr>na_Via = Addr_String (Via nh), na_Port = nh_Port nh\<rparr>) hs) = Inr hs"
    and "all_some (map read_hop (map (\<lambda>nh. \<lparr>na_Via = Addr_String (Via nh), na_Port = nh_Port nh\<rparr>) hs)) = Some hs"
    and "list_all NextHopArgs_ok (map (\<lambda>nh. \<lparr>na_Via = Addr_String (Via nh), na_Port = nh_Port nh\<rparr>) hs)"
  using assms by (induction hs) (simp_all add: hop_ok_def ParseAddr_String read_hop_def NextHopArgs_ok_def)

lemma route_sent:
  assumes "route_ok r"
  shows "decodeRoute (encodeRoute r) = Inr r" and "read_route (encodeRoute r) = Some r" and "RouteArgs_ok (encodeRoute r)"
  using assms hops_sent [of "NextHops r"] prefix_sent [of "rt_Prefix r"]
  by (simp_all add: route_ok_def decodeRoute_def encodeRoute_def read_route_def RouteArgs_ok_def)

lemma rule_sent:
  assumes "rule_ok r"
  shows "ParseACLRule (Seq r) (ACLRule_String r) = Inr r" and "is_int (Seq r)" and "valid_utf8 (ACLRule_String r)"
  using assms printed_rule_parses [of r]
  by (simp_all add: rule_ok_def wf_rule_def is_int_def int_min_def int_max_def ACLMaxSeq_def)

definition read_routes :: "Route list reader" where
  "read_routes j z =
     (case get_list zero_RouteArgs get_RouteArgs j [] of None \<Rightarrow> None | Some raw \<Rightarrow> all_some (map read_route raw))"

lemma Client_Routes_out: "Client_Routes peer conn = call_out peer read_routes [] OpRoutes None conn"
  by (simp add: Client_Routes_def call_out_def read_routes_def split: prod.split sum.split option.split)

lemma routes_sent: "list_all route_ok rs \<Longrightarrow> read_routes (put_list put_RouteArgs (encodeRoutes rs)) z = Some rs"
proof -
  assume rs: "list_all route_ok rs"
  then have "list_all RouteArgs_ok (encodeRoutes rs)" by (induction rs) (simp_all add: encodeRoutes_def route_sent)
  moreover have "all_some (map read_route (encodeRoutes rs)) = Some rs"
    using rs by (induction rs) (simp_all add: encodeRoutes_def route_sent)
  ultimately show ?thesis by (simp add: read_routes_def json_rt)
qed

definition read_entries :: "ACLEntry list reader" where
  "read_entries j z = map_option (\<lambda>l. map read_entry (wl_Rules l)) (get_WireACLList j zero_WireACLList)"

lemma Client_ACLs_out: "Client_ACLs peer conn = call_out peer read_entries [] OpACL None conn"
  by (simp add: Client_ACLs_def Client_ACLList_def call_out_def read_entries_def zero_WireACLList_def
      split: prod.split sum.split option.split)

lemma encodeACLs_Rules: "wl_Rules (encodeACLs cap es) = map encode_entry es"
proof -
  have "wl_Rules (fold (\<lambda>e l.
         let l' = (if \<not> ae_Parsed e then l
                   else if Family (ae_Rule e) = 6 then l\<lparr>wl_Free6 := wl_Free6 l - 1\<rparr>
                   else l\<lparr>wl_Free := wl_Free l - 1\<rparr>)
         in l'\<lparr>wl_Rules := wl_Rules l' @ [encode_entry e]\<rparr>) es l) = wl_Rules l @ map encode_entry es" for l :: WireACLList
    by (induction es arbitrary: l) (simp_all add: Let_def)
  then show ?thesis by (simp add: encodeACLs_def)
qed

lemma entry_sent: "entry_ok e \<Longrightarrow> read_entry (encode_entry e) = e"
  by (auto simp: entry_ok_def read_entry_def encode_entry_def rule_sent Let_def split: if_splits)

lemma entries_sent:
  assumes "list_all entry_ok es" and "WireACLList_ok (encodeACLs cap es)"
  shows "read_entries (put_WireACLList (encodeACLs cap es)) z = Some es"
proof -
  have "map read_entry (map encode_entry es) = es" using assms(1) by (induction es) (simp_all add: entry_sent)
  then show ?thesis using assms(2) by (simp add: read_entries_def encodeACLs_Rules json_rt)
qed

definition answer_ok :: "Capabilities \<Rightarrow> sw_error + reply \<Rightarrow> bool" where
  "answer_ok cap r = (case r of Inl _ \<Rightarrow> True | Inr x \<Rightarrow> reply_ok cap x)"

locale wired = served sw start inv
  for sw :: "'s datapath" and start inv +
  fixes cap :: "'s \<Rightarrow> Capabilities" and msg :: "go_error \<Rightarrow> string"
  assumes fitting: "inv s \<Longrightarrow> fst (sw c s) = Inr r \<Longrightarrow> fits c r"
    and same_cap: "inv s \<Longrightarrow> cap (snd (sw c s)) = cap s"
begin

lemma sent_call:
  assumes "inv s" and "fits c = (\<lambda>r. r = Done)" and "valid_utf8 op"
    and "dispatch msg sw cap \<lparr>rq_Op = op, rq_Args = Some args\<rparr> = perform msg sw cap c \<or>
         dispatch msg sw cap \<lparr>rq_Op = op, rq_Args = Some args\<rparr> = perform_null msg sw c"
  shows "sent (call_done (serve_one msg sw cap) op args (True, s)) = through msg sw c s"
  by (rule sent_through) (use assms fitting [OF assms(1), of c] no_panic [OF assms(1), of c] in auto)

lemma asked_call:
  assumes "inv s" and "\<And>r. fst (sw c s) = Inr r \<Longrightarrow> reply_ok (cap (snd (sw c s))) r"
    and "\<And>cp x. reply_ok cp (f x) \<Longrightarrow> \<exists>j. reply_json cp (f x) = ok_response j \<and> rd j z = Some x"
    and "fits c = (\<lambda>r. \<exists>x. r = f x)" and "valid_utf8 op" and "dispatch msg sw cap \<lparr>rq_Op = op, rq_Args = args\<rparr> = perform msg sw cap c"
  shows "replied f (call_out (serve_one msg sw cap) rd z op args (True, s)) = through msg sw c s"
proof (rule asked_through)
  fix r
  assume r: "fst (sw c s) = Inr r"
  then obtain x where x: "r = f x" using fitting [OF assms(1) r] assms(4) by auto
  with assms(3) [of "cap (snd (sw c s))" x] assms(2) [OF r]
  show "\<exists>x j. r = f x \<and> reply_json (cap (snd (sw c s))) r = ok_response j \<and> rd j z = Some x" by blast
qed (use assms no_panic in simp_all)

lemma port_through:
  assumes s: "inv s" and "call_ok (Port c)" and ok: "\<And>r. fst (sw (Port c) s) = Inr r \<Longrightarrow> reply_ok (cap (snd (sw (Port c) s))) r"
  shows "client_port (serve_one msg sw cap) c (True, s) = through msg sw (Port c) s"
proof (cases c)
  case DoPorts
  show ?thesis unfolding DoPorts client_port.simps Client_Ports_def
    by (rule asked_call [OF s ok [unfolded DoPorts]]) (simp_all add: op_valid dispatching json_rt fun_eq_iff)
next
  case (DoPortStatus n)
  show ?thesis unfolding DoPortStatus client_port.simps Client_PortStatus_def
    by (rule asked_call [OF s ok [unfolded DoPortStatus]])
       (use assms(2) DoPortStatus in \<open>simp_all add: op_valid dispatching json_rt args_ok args_zero fun_eq_iff\<close>)
next
  case (DoPortCounters n)
  show ?thesis unfolding DoPortCounters client_port.simps Client_PortCounters_def
    by (rule asked_call [OF s ok [unfolded DoPortCounters]])
       (use assms(2) DoPortCounters in \<open>simp_all add: op_valid dispatching json_rt args_ok args_zero Counters_ok_def fun_eq_iff\<close>)
qed (use assms(2) in \<open>simp_all add: Client_SetPortAdmin_def Client_SetPortMTU_def sent_call [OF s] dispatching json_rt args_ok
    args_zero op_valid fun_eq_iff\<close>)

lemma vlan_through:
  assumes s: "inv s" and "call_ok (Vlan c)" and ok: "\<And>r. fst (sw (Vlan c) s) = Inr r \<Longrightarrow> reply_ok (cap (snd (sw (Vlan c) s))) r"
  shows "client_vlan (serve_one msg sw cap) c (True, s) = through msg sw (Vlan c) s"
proof (cases c)
  case DoVLANs
  show ?thesis unfolding DoVLANs client_vlan.simps Client_VLANs_def
    by (rule asked_call [OF s ok [unfolded DoVLANs]]) (simp_all add: op_valid dispatching json_rt fun_eq_iff)
qed (use assms(2) in \<open>simp_all add: Client_AddVLAN_def Client_DelVLAN_def Client_SetPortVLAN_def Client_DelPortVLAN_def
    Client_AddSVI_def Client_DelSVI_def Client_SetPortTunnel_def Client_SetPortTPID_def sent_call [OF s] dispatching json_rt args_ok
    args_zero op_valid fun_eq_iff\<close>)

lemma lag_through:
  assumes s: "inv s" and "call_ok (Lag c)" and ok: "\<And>r. fst (sw (Lag c) s) = Inr r \<Longrightarrow> reply_ok (cap (snd (sw (Lag c) s))) r"
  shows "client_lag (serve_one msg sw cap) c (True, s) = through msg sw (Lag c) s"
proof (cases c)
  case DoLAGs
  show ?thesis unfolding DoLAGs client_lag.simps Client_LAGs_def
    by (rule asked_call [OF s ok [unfolded DoLAGs]]) (simp_all add: op_valid dispatching json_rt fun_eq_iff)
next
  case (DoSetLAGMembers n ms)
  then have "Unmarshal get_LAGArgs zero_LAGArgs (Some (JObj [(''name'', put_string n), (''ports'', put_list put_string ms)])) =
      Some (zero_LAGArgs\<lparr>la_Name := n, la_Ports := ms\<rparr>)"
    using assms(2) by (simp add: Unmarshal_def get_LAGArgs_def zero_LAGArgs_def struct_rt json_rt)
  then show ?thesis unfolding DoSetLAGMembers client_lag.simps Client_SetLAGMembers_def
    by (intro sent_call [OF s]) (simp_all add: op_valid dispatching fun_eq_iff args_zero)
qed (use assms(2) in \<open>simp_all add: Client_AddLAG_def Client_SetLAGOptions_def Client_SetLACPSystemPriority_def Client_DelLAG_def
    sent_call [OF s] dispatching json_rt args_ok args_zero op_valid fun_eq_iff\<close>)

lemma stp_through:
  assumes s: "inv s" and "call_ok (Stp c)" and ok: "\<And>r. fst (sw (Stp c) s) = Inr r \<Longrightarrow> reply_ok (cap (snd (sw (Stp c) s))) r"
  shows "client_stp (serve_one msg sw cap) c (True, s) = through msg sw (Stp c) s"
proof (cases c)
  case DoSTP
  show ?thesis unfolding DoSTP client_stp.simps Client_STP_def
    by (rule asked_call [OF s ok [unfolded DoSTP]]) (simp_all add: op_valid dispatching json_rt fun_eq_iff)
next
  case DoMLAG
  show ?thesis unfolding DoMLAG client_stp.simps Client_MLAG_def
    by (rule asked_call [OF s ok [unfolded DoMLAG]]) (simp_all add: op_valid dispatching json_rt fun_eq_iff)
qed (use assms(2) in \<open>simp_all add: Client_SetSTP_def Client_SetSTPPort_def Client_SetMLAG_def Client_SetLAGMLAG_def
    sent_call [OF s] dispatching json_rt args_ok args_zero op_valid fun_eq_iff\<close>)

lemma gateway_through:
  assumes s: "inv s" and "call_ok (Gateway c)" and ok: "\<And>r. fst (sw (Gateway c) s) = Inr r \<Longrightarrow> reply_ok (cap (snd (sw (Gateway c) s))) r"
  shows "client_gateway (serve_one msg sw cap) c (True, s) = through msg sw (Gateway c) s"
proof (cases c)
  case DoVirtualGateways
  show ?thesis unfolding DoVirtualGateways client_gateway.simps Client_VirtualGateways_def
    by (rule asked_call [OF s ok [unfolded DoVirtualGateways]]) (simp_all add: op_valid dispatching json_rt fun_eq_iff)
next
  case DoFDB
  show ?thesis unfolding DoFDB client_gateway.simps Client_FDB_def
    by (rule asked_call [OF s ok [unfolded DoFDB]]) (simp_all add: op_valid dispatching json_rt fun_eq_iff)
next
  case DoMACAging
  have "replied Seconds (Client_MACAging peer conn) = replied (\<lambda>a. Seconds (mg_Seconds a)) (call_out peer get_MACAgingArgs zero_MACAgingArgs OpMACAging None conn)"
    for peer :: "'s peer" and conn
    by (simp add: Client_MACAging_def replied_def split: prod.split sum.split)
  moreover have "\<exists>a :: MACAgingArgs. x = mg_Seconds a" for x by (rule exI [of _ "\<lparr>mg_Seconds = x\<rparr>"]) simp
  ultimately show ?thesis unfolding DoMACAging client_gateway.simps
    by (simp only:) (rule asked_call [OF s ok [unfolded DoMACAging]], simp_all add: op_valid dispatching json_rt fun_eq_iff args_ok, metis)
qed (use assms(2) in \<open>simp_all add: Client_SetVirtualMAC_def Client_AddVirtualGateway_def Client_DelVirtualGateway_def Client_SetMACAging_def
    sent_call [OF s] dispatching json_rt args_ok args_zero op_valid fun_eq_iff prefix_sent\<close>)

lemma l3_through:
  assumes s: "inv s" and "call_ok (L3 c)" and ok: "\<And>r. fst (sw (L3 c) s) = Inr r \<Longrightarrow> reply_ok (cap (snd (sw (L3 c) s))) r"
  shows "client_l3 (serve_one msg sw cap) c (True, s) = through msg sw (L3 c) s"
proof (cases c)
  case (DoAddRoute r)
  then have "route_ok r" using assms(2) by simp
  then show ?thesis unfolding DoAddRoute client_l3.simps Client_AddRoute_def encodeRoute_def [symmetric]
    by (intro sent_call [OF s]) (simp_all add: op_valid dispatching json_rt route_sent fun_eq_iff)
next
  case (DoSetACL r)
  then have "rule_ok r" using assms(2) by simp
  then show ?thesis unfolding DoSetACL client_l3.simps Client_SetACL_def
    by (intro sent_call [OF s]) (simp_all add: op_valid dispatching json_rt rule_sent args_ok fun_eq_iff)
next
  case DoRoutes
  show ?thesis unfolding DoRoutes client_l3.simps Client_Routes_out
    by (rule asked_call [OF s ok [unfolded DoRoutes]])
       (simp_all add: op_valid dispatching routes_sent fun_eq_iff)
next
  case DoACLs
  show ?thesis unfolding DoACLs client_l3.simps Client_ACLs_out
    by (rule asked_call [OF s ok [unfolded DoACLs]])
       (simp_all add: op_valid dispatching json_rt entries_sent fun_eq_iff)
qed (use assms(2) in \<open>simp_all add: Client_DelACL_def Client_AddAddress_def Client_DelAddress_def Client_DelRoute_def
    sent_call [OF s] dispatching json_rt args_ok args_zero op_valid fun_eq_iff prefix_sent\<close>)

lemma call_through:
  assumes "inv s" and "call_ok c" and "\<And>r. fst (sw c s) = Inr r \<Longrightarrow> reply_ok (cap (snd (sw c s))) r"
  shows "client_exec (serve_one msg sw cap) c (True, s) = through msg sw c s"
  using assms by (cases c) (simp_all add: port_through vlan_through lag_through stp_through gateway_through l3_through)

lemma session_through:
  assumes "inv s" and "list_all call_ok cs" and "list_all (answer_ok (cap s)) (answers sw cs s)"
  shows "answers (client_exec (serve_one msg sw cap)) cs (True, s) = map (over_wire msg) (answers sw cs s) \<and>
         run (client_exec (serve_one msg sw cap)) cs (True, s) = (True, run sw cs s)"
  using assms
proof (induction cs arbitrary: s)
  case (Cons c cs)
  have "client_exec (serve_one msg sw cap) c (True, s) = through msg sw c s"
    by (rule call_through) (use Cons.prems same_cap in \<open>simp_all add: answer_ok_def\<close>)
  then show ?case
    using Cons.IH [of "snd (sw c s)"] Cons.prems same_cap [OF Cons.prems(1), of c] step_inv [OF Cons.prems(1), of c]
    by (simp add: through_def)
qed simp

end

lemma exec_fits: "fst (exec c s) = Inr r \<Longrightarrow> fits c r"
proof (cases c)
  case (Port x)
  then show "fst (exec c s) = Inr r \<Longrightarrow> fits c r" by (cases x) (auto simp: reply_def split: sum.splits)
next
  case (Vlan x)
  then show "fst (exec c s) = Inr r \<Longrightarrow> fits c r" by (cases x) (auto simp: reply_def split: sum.splits)
next
  case (Lag x)
  then show "fst (exec c s) = Inr r \<Longrightarrow> fits c r" by (cases x) (auto simp: reply_def split: sum.splits)
next
  case (Stp x)
  then show "fst (exec c s) = Inr r \<Longrightarrow> fits c r" by (cases x) (auto simp: reply_def split: sum.splits)
next
  case (Gateway x)
  then show "fst (exec c s) = Inr r \<Longrightarrow> fits c r" by (cases x) (auto simp: reply_def split: sum.splits)
next
  case (L3 x)
  then show "fst (exec c s) = Inr r \<Longrightarrow> fits c r" by (cases x) (auto simp: reply_def split: sum.splits)
qed

section \<open>The reference datapath behind the socket\<close>

lemma cfg_modify [simp]: "cfg (modify a f s) = cfg s"
  by (simp add: modify_def)

lemma cfg_fold: "(\<And>x s. cfg (g x s) = cfg s) \<Longrightarrow> cfg (fold g xs s) = cfg s"
  by (induction xs arbitrary: s) simp_all

lemma cfg_release [simp]: "cfg (snd (release ns s)) = cfg s"
  by (induction ns arbitrary: s) (simp_all split: option.split)

lemma cfg_stp [simp]: "cfg (snd (stp s)) = cfg s"
  by (simp add: stp_def Let_def split: option.split)

lemma cfg_exec_port: "cfg (snd (exec_port c s)) = cfg s"
  by (cases c) (simp_all add: Start_def Close_def SetPortAdmin_def SetPortMTU_def split: sum.split)

lemma cfg_exec_vlan: "cfg (snd (exec_vlan c s)) = cfg s"
  by (cases c) (simp_all add: AddVLAN_def DelVLAN_def SetPortVLAN_def DelPortVLAN_def AddSVI_def DelSVI_def
      SetPortTunnel_def SetPortTPID_def Let_def cfg_fold split: sum.split option.split)

lemma cfg_claim [simp]: "cfg (claim n ms s) = cfg s"
  by (simp add: claim_def cfg_fold)

lemma cfg_SetLAGMembers: "cfg (snd (SetLAGMembers n ms s)) = cfg s"
  by (simp add: SetLAGMembers_def Let_def case_prod_unfold split: option.split sum.split)

lemma cfg_DelLAG: "cfg (snd (DelLAG n s)) = cfg s"
  by (simp add: DelLAG_def Let_def case_prod_unfold split: option.split sum.split)

lemma cfg_exec_lag: "cfg (snd (exec_lag c s)) = cfg s"
  by (cases c) (simp_all add: cfg_SetLAGMembers cfg_DelLAG AddLAG_def SetLAGOptions_def SetLACPSystemPriority_def
      Let_def split: option.split)

lemma cfg_exec_stp: "cfg (snd (exec_stp c s)) = cfg s"
  by (cases c) (simp_all add: SetSTP_def SetSTPPort_def STP_def SetMLAG_def SetLAGMLAG_def
      Let_def case_prod_unfold split: option.split sum.split)

lemma cfg_exec_gateway: "cfg (snd (exec_gateway c s)) = cfg s"
  by (cases c) (simp_all add: SetVirtualMAC_def AddVirtualGateway_def DelVirtualGateway_def SetMACAging_def Let_def split: option.split sum.split)

lemma cfg_exec_l3: "cfg (snd (exec_l3 c s)) = cfg s"
  by (cases c) (simp_all add: SetACL_def DelACL_def AddAddress_def DelAddress_def AddRoute_def DelRoute_def Let_def split: option.split sum.split)

lemma cfg_exec: "cfg (snd (exec c s)) = cfg s"
  by (cases c) (simp_all add: cfg_exec_port cfg_exec_vlan cfg_exec_lag cfg_exec_stp cfg_exec_gateway cfg_exec_l3)

interpretation mem_wired: wired exec fresh sw_inv Capabilities_of msg for msg
  by unfold_locales (auto simp: exec_fits Capabilities_of_def cfg_exec)

lemma Client_Capabilities_through:
  assumes "Capabilities_ok (cap s)"
  shows "Client_Capabilities (serve_one msg sw cap) (True, s) = (cap s, True, s)"
proof -
  have "dispatch msg sw cap \<lparr>rq_Op = OpCapabilities, rq_Args = None\<rparr> s = (Some (ok_response (put_Capabilities (cap s))), s)"
    by (simp add: dispatching)
  moreover have "valid_utf8 OpCapabilities" by (simp add: op_valid op_defs)
  ultimately show ?thesis using assms
    by (simp add: Client_Capabilities_def call_out_def Client_call_served Capabilities_wire.get_put)
       (simp add: ok_response_def Capabilities_wire.get_put)
qed

text \<open>C2: the socket is transparent. Any run of calls made through the client over the wire protocol to the daemon
  leaves the reference datapath in the state the same calls made in its own process leave it, and every answer
  comes back: the same value, or an error with the same message that is unsupported exactly if the
  datapath's error was. What is asked of the calls and the answers is what JSON carries unchanged: integers
  of the machine, valid UTF-8, prefixes and rules that are well formed.\<close>

theorem socket_transparent:
  assumes "reachable exec fresh s" and "list_all call_ok cs" and "list_all (answer_ok (Capabilities_of s)) (answers exec cs s)"
  shows "answers (client_exec (serve_one msg exec Capabilities_of)) cs (True, s) = map (over_wire msg) (answers exec cs s) \<and>
         run (client_exec (serve_one msg exec Capabilities_of)) cs (True, s) = (True, run exec cs s)"
  using mem_wired.session_through [OF mem.reachable_inv [OF assms(1)] assms(2,3)] .

definition wire_calls :: "call list" where
  "wire_calls =
     [Vlan (DoAddVLAN 7), Vlan (DoSetPortVLAN ''swp2'' 7 True), Vlan (DoAddVLAN 5000), Lag (DoAddLAG ''po1'' True),
      Lag (DoSetLAGMembers ''po1'' [''swp1'']), L3 (DoSetACL sample_rule),
      L3 (DoAddRoute \<lparr>rt_Prefix = \<lparr>pAddr = IP4 10 0 0 0, pBits = 8\<rparr>, NextHops = [\<lparr>Via = IP4 1 0 0 1, nh_Port = ''swp1''\<rparr>]\<rparr>),
      Vlan DoVLANs, Lag DoLAGs, L3 DoRoutes, L3 DoACLs, Port (DoPortStatus ''swp2'')]"

theorem socket_transparent_witness:
  "answers (client_exec (serve_one (\<lambda>_. ''refused'') exec Capabilities_of)) wire_calls (True, New demo_config) =
     map (over_wire (\<lambda>_. ''refused'')) (answers exec wire_calls (New demo_config)) \<and>
   isl (answers exec wire_calls (New demo_config) ! 2) \<and> \<not> isl (answers exec wire_calls (New demo_config) ! 10)"
proof -
  have "reachable exec fresh (New demo_config)" by (rule reachable.initial) (auto simp: fresh_def)
  moreover have "list_all call_ok wire_calls" by code_simp
  moreover have "list_all (answer_ok (Capabilities_of (New demo_config))) (answers exec wire_calls (New demo_config))" by code_simp
  ultimately have "answers (client_exec (serve_one (\<lambda>_. ''refused'') exec Capabilities_of)) wire_calls (True, New demo_config) =
     map (over_wire (\<lambda>_. ''refused'')) (answers exec wire_calls (New demo_config))"
    using socket_transparent by blast
  moreover have "isl (answers exec wire_calls (New demo_config) ! 2)" "\<not> isl (answers exec wire_calls (New demo_config) ! 10)" by code_simp+
  ultimately show ?thesis by blast
qed

end
