(* ===== verification/Registers.thy ===== *)
theory Registers
  imports Go_Prelude "HOL-Library.Word"
begin

unbundle bit_operations_syntax

text \<open>
  Programs over memory-mapped registers, as the board drivers of \<^verbatim>\<open>internal/platformhal\<close> make them, and
  the bounds-checked access of \<^verbatim>\<open>scd/mmio.go\<close>. The hardware is a parameter: what a register reads as is any
  function of every access made before. A program's result is its value, or \<open>None\<close> where the Go code panics, with
  the accesses it made in order; \<open>spec\<close> says what holds of both, whatever the hardware answers.
\<close>

datatype access = Rd int "32 word" | Wr int "32 word" | Act string

type_synonym device = "access list \<Rightarrow> int \<Rightarrow> 32 word"

type_synonym 'a driver = "device \<Rightarrow> access list \<Rightarrow> 'a option \<times> access list"

datatype hal_error = ErrUnsupported string | Fault string | Within string hal_error

type_synonym 'a fallible = "(hal_error + 'a) driver"

section \<open>Programs\<close>

definition ret :: "'a \<Rightarrow> 'a driver" where
  "ret x dev tr = (Some x, tr)"

definition panic :: "'a driver" where
  "panic dev tr = (None, tr)"

definition bnd :: "'a driver \<Rightarrow> ('a \<Rightarrow> 'b driver) \<Rightarrow> 'b driver" where
  "bnd f g dev tr = (case f dev tr of (None, tr') \<Rightarrow> (None, tr') | (Some x, tr') \<Rightarrow> g x dev tr')"

text \<open>\<^verbatim>\<open>if err != nil { return err }\<close>: go on with the value, or end with the error.\<close>

definition go_on :: "'a fallible \<Rightarrow> ('a \<Rightarrow> 'b fallible) \<Rightarrow> 'b fallible" where
  "go_on f g = bnd f (\<lambda>r. case r of Inl e \<Rightarrow> ret (Inl e) | Inr x \<Rightarrow> g x)"

section \<open>Bounds-checked access\<close>

definition bar_check :: "int \<Rightarrow> int \<Rightarrow> bool" where
  "bar_check len off \<longleftrightarrow> 0 \<le> off \<and> off + 4 \<le> len \<and> off mod 4 = 0"

definition read32 :: "int \<Rightarrow> int \<Rightarrow> 32 word driver" where
  "read32 len off dev tr = (if bar_check len off then (Some (dev tr off), tr @ [Rd off (dev tr off)]) else (None, tr))"

definition write32 :: "int \<Rightarrow> int \<Rightarrow> 32 word \<Rightarrow> unit driver" where
  "write32 len off v dev tr = (if bar_check len off then (Some (), tr @ [Wr off v]) else (None, tr))"

text \<open>An act of the operating system: a wait that may be cut short, a file looked for or written. The answer is
  whether it went well, as a function of what was done before.\<close>

type_synonym os_acts = "access list \<Rightarrow> string \<Rightarrow> bool"

definition ask_os :: "os_acts \<Rightarrow> string \<Rightarrow> bool driver" where
  "ask_os os what dev tr = (Some (os tr what), tr @ [Act what])"

section \<open>What holds of a program\<close>

definition spec :: "'a driver \<Rightarrow> ('a option \<Rightarrow> access list \<Rightarrow> bool) \<Rightarrow> bool" where
  "spec f Q \<longleftrightarrow> (\<forall>dev tr. \<exists>r new. f dev tr = (r, tr @ new) \<and> Q r new)"

lemma specD: "spec f Q \<Longrightarrow> \<exists>r new. f dev tr = (r, tr @ new) \<and> Q r new"
  by (simp add: spec_def)

lemma spec_weaken: "spec f P \<Longrightarrow> (\<And>r new. P r new \<Longrightarrow> Q r new) \<Longrightarrow> spec f Q"
  by (fastforce simp: spec_def)

lemma spec_ret: "Q (Some x) [] \<Longrightarrow> spec (ret x) Q"
  by (simp add: spec_def ret_def)

lemma spec_panic: "Q None [] \<Longrightarrow> spec panic Q"
  by (simp add: spec_def panic_def)

lemma spec_bnd:
  assumes f: "spec f P" and g: "\<And>x new. P (Some x) new \<Longrightarrow> spec (g x) (\<lambda>r new'. Q r (new @ new'))"
    and n: "\<And>new. P None new \<Longrightarrow> Q None new"
  shows "spec (bnd f g) Q"
  unfolding spec_def
proof (intro allI)
  fix dev tr
  obtain r new where r: "f dev tr = (r, tr @ new)" "P r new" using f unfolding spec_def by blast
  show "\<exists>r new. bnd f g dev tr = (r, tr @ new) \<and> Q r new"
  proof (cases r)
    case None
    then show ?thesis using r n by (auto simp: bnd_def)
  next
    case (Some x)
    then have "spec (g x) (\<lambda>r new'. Q r (new @ new'))" using g r by simp
    then obtain r' new' where "g x dev (tr @ new) = (r', (tr @ new) @ new')" "Q r' (new @ new')" unfolding spec_def by blast
    then show ?thesis using r Some by (auto simp: bnd_def)
  qed
qed

lemma spec_read32:
  "(\<And>v. bar_check len off \<Longrightarrow> Q (Some v) [Rd off v]) \<Longrightarrow> (\<not> bar_check len off \<Longrightarrow> Q None []) \<Longrightarrow> spec (read32 len off) Q"
  by (auto simp: spec_def read32_def)

lemma spec_write32:
  "(bar_check len off \<Longrightarrow> Q (Some ()) [Wr off v]) \<Longrightarrow> (\<not> bar_check len off \<Longrightarrow> Q None []) \<Longrightarrow> spec (write32 len off v) Q"
  by (auto simp: spec_def write32_def)

lemma spec_ask_os: "(\<And>b. Q (Some b) [Act what]) \<Longrightarrow> spec (ask_os os what) Q"
  by (auto simp: spec_def ask_os_def)

text \<open>A program that never panics, makes at most so many accesses, and only such ones.\<close>

definition within :: "nat \<Rightarrow> (access \<Rightarrow> bool) \<Rightarrow> 'a driver \<Rightarrow> bool" where
  "within n A f = spec f (\<lambda>r new. r \<noteq> None \<and> list_all A new \<and> length new \<le> n)"

named_theorems driver_intros \<open>a program stays within its bounds\<close>

lemma within_mono: "within n A f \<Longrightarrow> n \<le> m \<Longrightarrow> within m A f"
  unfolding within_def by (erule spec_weaken) auto

lemma within_weaken: "within n A f \<Longrightarrow> (\<And>a. A a \<Longrightarrow> B a) \<Longrightarrow> within n B f"
  unfolding within_def by (erule spec_weaken) (auto simp: list_all_iff)

lemma within_ret [driver_intros]: "within n A (ret x)"
  by (simp add: within_def spec_ret)

lemma within_bnd: "within n A f \<Longrightarrow> (\<And>x. within m A (g x)) \<Longrightarrow> within (n + m) A (bnd f g)"
  unfolding within_def by (erule spec_bnd) (fastforce intro: spec_weaken)+

lemma within_go_on: "within n A f \<Longrightarrow> (\<And>x. within m A (g x)) \<Longrightarrow> within (n + m) A (go_on f g)"
  unfolding go_on_def by (rule within_bnd) (auto split: sum.split intro: within_ret)

lemma within_read32: "bar_check len off \<Longrightarrow> (\<And>v. A (Rd off v)) \<Longrightarrow> 0 < n \<Longrightarrow> within n A (read32 len off)"
  unfolding within_def by (rule spec_read32) auto

lemma within_write32: "bar_check len off \<Longrightarrow> A (Wr off v) \<Longrightarrow> 0 < n \<Longrightarrow> within n A (write32 len off v)"
  unfolding within_def by (rule spec_write32) auto

lemma within_ask_os: "A (Act what) \<Longrightarrow> 0 < n \<Longrightarrow> within n A (ask_os os what)"
  unfolding within_def by (rule spec_ask_os) auto

lemma withinD: "within n A f \<Longrightarrow> \<exists>x new. f dev tr = (Some x, tr @ new) \<and> list_all A new \<and> length new \<le> n"
  unfolding within_def spec_def by (fastforce simp: not_None_eq)

text \<open>The register writes among a program's accesses.\<close>

definition writes :: "access list \<Rightarrow> (int \<times> 32 word) list" where
  "writes tr = concat (map (\<lambda>a. case a of Wr off v \<Rightarrow> [(off, v)] | _ \<Rightarrow> []) tr)"

lemma writes_simps [simp]:
  "writes [] = []" "writes (Rd off v # tr) = writes tr" "writes (Wr off v # tr) = (off, v) # writes tr"
  "writes (Act s # tr) = writes tr" "writes (tr @ tr') = writes tr @ writes tr'"
  by (simp_all add: writes_def)

text \<open>Programs that write no register.\<close>

definition quiet :: "'a driver \<Rightarrow> bool" where
  "quiet f = spec f (\<lambda>r new. r \<noteq> None \<and> writes new = [])"

lemma quiet_ret: "quiet (ret x)"
  by (simp add: quiet_def spec_ret)

lemma quiet_bnd: "quiet f \<Longrightarrow> (\<And>x. quiet (g x)) \<Longrightarrow> quiet (bnd f g)"
  unfolding quiet_def by (erule spec_bnd) (auto intro: spec_weaken)

lemma quiet_read32: "bar_check len off \<Longrightarrow> quiet (read32 len off)"
  unfolding quiet_def by (rule spec_read32) auto

lemma quiet_ask_os: "quiet (ask_os os what)"
  unfolding quiet_def by (rule spec_ask_os) auto

lemma quietD: "quiet f \<Longrightarrow> \<exists>r new. f dev tr = (Some r, tr @ new) \<and> writes new = []"
  unfolding quiet_def spec_def by (fastforce simp: not_None_eq)

end
