(* ===== verification/Smbus.thy ===== *)
theory Smbus
  imports Registers
begin

text \<open>
  The SMBus accelerators of the board controller, \<^verbatim>\<open>internal/platformhal/scdsmbus/smbus.go\<close>: the packing of
  a request, bringing an accelerator to rest, and one register read or written on a device of its bus. Register
  access is the controller's own, \<open>Registers\<close>. Waiting is not modelled: a poll is one access and their number is
  the source's.
\<close>

record Master =
  mapped :: int
  bases :: "int list"

definition smbStride :: int where "smbStride = 128"

definition smbBase0 :: int where "smbBase0 = 32768"

definition smbReqOff :: int where "smbReqOff = 16"

definition smbCSOff :: int where "smbCSOff = 32"

definition smbRespOff :: int where "smbRespOff = 48"

definition smbParamT :: "32 word" where "smbParamT = 1"

definition smbParamED :: "32 word" where "smbParamED = 0"

definition smbRst :: "32 word" where "smbRst = push_bit 31 1"

lemmas smb_consts = smbStride_def smbBase0_def smbReqOff_def smbCSOff_def smbRespOff_def

definition base_of :: "Master \<Rightarrow> int \<Rightarrow> int" where
  "base_of m accel =
     (if 0 \<le> accel \<and> accel < int (length (bases m)) \<and> bases m ! nat accel > 0 then bases m ! nat accel
      else smbBase0 + smbStride * accel)"

definition smbReq :: "32 word \<Rightarrow> 32 word \<Rightarrow> 32 word \<Rightarrow> 32 word \<Rightarrow> 32 word \<Rightarrow> 32 word \<Rightarrow> 32 word \<Rightarrow> 32 word \<Rightarrow> 32 word \<Rightarrow>
    32 word \<Rightarrow> 32 word \<Rightarrow> 32 word" where
  "smbReq d ss ed br t sp da dod st bs ti =
     d AND 255 OR push_bit 8 (ss AND 63) OR push_bit 14 (ed AND 1) OR push_bit 15 (br AND 1) OR
     push_bit 18 (t AND 3) OR push_bit 20 (sp AND 1) OR push_bit 21 (da AND 1) OR push_bit 22 (dod AND 1) OR
     push_bit 23 (st AND 1) OR push_bit 24 (bs AND 15) OR push_bit 28 (ti AND 15)"

definition csNRS :: "32 word \<Rightarrow> 32 word" where "csNRS v = v AND 1023"

definition csNRQ :: "32 word \<Rightarrow> 32 word" where "csNRQ v = drop_bit 16 v AND 1023"

definition csBRB :: "32 word \<Rightarrow> 32 word" where "csBRB v = drop_bit 26 v AND 1"

definition csFE :: "32 word \<Rightarrow> 32 word" where "csFE v = drop_bit 30 v AND 1"

definition at_rest :: "32 word \<Rightarrow> bool" where
  "at_rest cs \<longleftrightarrow> csFE cs = 0 \<and> csBRB cs = 0 \<and> csNRQ cs = 0 \<and> csNRS cs = 0"

section \<open>Entering a transfer\<close>

text \<open>The reset is polled after 1, 2, 4 and 8 milliseconds.\<close>

fun reset_polls :: "Master \<Rightarrow> int \<Rightarrow> nat \<Rightarrow> unit fallible" where
  "reset_polls m base 0 = ret (Inl (Fault ''SMBus accelerator would not reset, cs=%#08x''))"
| "reset_polls m base (Suc n) =
     bnd (read32 (mapped m) (base + smbCSOff)) (\<lambda>cs.
       if at_rest cs then bnd (write32 (mapped m) (base + smbCSOff) (cs AND NOT smbRst)) (\<lambda>_. ret (Inr ()))
       else reset_polls m base n)"

definition smbEnter :: "Master \<Rightarrow> int \<Rightarrow> unit fallible" where
  "smbEnter m base =
     bnd (read32 (mapped m) (base + smbCSOff)) (\<lambda>cs0.
     bnd (if cs0 AND smbRst \<noteq> 0
          then bnd (write32 (mapped m) (base + smbCSOff) (cs0 AND NOT smbRst)) (\<lambda>_. read32 (mapped m) (base + smbCSOff))
          else ret cs0) (\<lambda>cs.
     if at_rest cs then ret (Inr ())
     else bnd (write32 (mapped m) (base + smbCSOff) (cs OR smbRst)) (\<lambda>_. reset_polls m base 4)))"

section \<open>Transfers\<close>

fun send_requests :: "Master \<Rightarrow> int \<Rightarrow> 32 word list \<Rightarrow> unit driver" where
  "send_requests m base [] = ret ()"
| "send_requests m base (w # ws) = bnd (write32 (mapped m) (base + smbReqOff) w) (\<lambda>_. send_requests m base ws)"

text \<open>The loop that waits for the responses, at most two hundred reads.\<close>

fun await :: "Master \<Rightarrow> int \<Rightarrow> 32 word \<Rightarrow> nat \<Rightarrow> unit driver" where
  "await m base ss 0 = ret ()"
| "await m base ss (Suc n) =
     bnd (read32 (mapped m) (base + smbCSOff)) (\<lambda>cs. if csNRS cs \<ge> ss then ret () else await m base ss n)"

fun last_response :: "Master \<Rightarrow> int \<Rightarrow> nat \<Rightarrow> 32 word \<Rightarrow> 32 word driver" where
  "last_response m base 0 resp = ret resp"
| "last_response m base (Suc n) resp = bnd (read32 (mapped m) (base + smbRespOff)) (\<lambda>r. last_response m base n r)"

fun acknowledged :: "Master \<Rightarrow> int \<Rightarrow> nat \<Rightarrow> unit fallible" where
  "acknowledged m base 0 = ret (Inr ())"
| "acknowledged m base (Suc n) =
     bnd (read32 (mapped m) (base + smbRespOff)) (\<lambda>resp.
       if bit resp 8 \<or> bit resp 9 \<or> bit resp 10 then ret (Inl (Fault ''SMBus %#02x reg %#02x: write not acknowledged''))
       else acknowledged m base n)"

definition read_words :: "int \<Rightarrow> int \<Rightarrow> int \<Rightarrow> 32 word list" where
  "read_words bus addr reg =
     (let b = word_of_int bus; a = push_bit 1 (word_of_int addr)
      in [smbReq a 4 0 0 smbParamT 0 0 1 1 b 0,
          smbReq (word_of_int reg) 0 smbParamED 0 smbParamT 0 0 1 0 b 1,
          smbReq (a OR 1) 0 0 0 smbParamT 0 0 1 1 b 2,
          smbReq 0 0 smbParamED 0 smbParamT 1 0 0 0 b 3])"

definition write_words :: "int \<Rightarrow> int \<Rightarrow> int \<Rightarrow> 8 word \<Rightarrow> 32 word list" where
  "write_words bus addr reg val =
     (let b = word_of_int bus
      in [smbReq (push_bit 1 (word_of_int addr)) 3 0 0 smbParamT 0 0 1 1 b 0,
          smbReq (word_of_int reg AND 255) 0 0 0 smbParamT 0 0 1 0 b 1,
          smbReq (ucast val) 0 smbParamED 0 smbParamT 1 0 1 0 b 2])"

definition read_answer :: "Master \<Rightarrow> int \<Rightarrow> 32 word \<Rightarrow> 8 word fallible" where
  "read_answer m base cs =
     (if csNRS cs = 0 then ret (Inl (Fault ''SMBus a%d b%d %#02x reg %#02x: no response, cs=%#08x''))
      else bnd (last_response m base (unat (csNRS cs)) 0) (\<lambda>resp. ret (
        if bit resp 10 then Inl (Fault ''SMBus %#02x reg %#02x: no acknowledgement (nothing at that address)'')
        else if bit resp 9 then Inl (Fault ''SMBus %#02x reg %#02x: timeout'')
        else if bit resp 8 then Inl (Fault ''SMBus %#02x reg %#02x: bus error'')
        else Inr (ucast (resp AND 255)))))"

definition write_answer :: "Master \<Rightarrow> int \<Rightarrow> 32 word \<Rightarrow> unit fallible" where
  "write_answer m base cs =
     (if csNRS cs = 0 then ret (Inl (Fault ''SMBus a%d b%d %#02x reg %#02x: no response to write, cs=%#08x''))
      else acknowledged m base (min (unat (csNRS cs)) 8))"

text \<open>The requests, the wait, and the answer taken from the status the wait ends with.\<close>

definition transfer :: "Master \<Rightarrow> int \<Rightarrow> 32 word list \<Rightarrow> (32 word \<Rightarrow> 'a fallible) \<Rightarrow> 'a fallible" where
  "transfer m base ws answer =
     bnd (send_requests m base ws) (\<lambda>_.
     bnd (await m base (of_nat (length ws)) 200) (\<lambda>_.
     bnd (read32 (mapped m) (base + smbCSOff)) answer))"

definition ReadReg :: "Master \<Rightarrow> int \<Rightarrow> int \<Rightarrow> int \<Rightarrow> int \<Rightarrow> 8 word fallible" where
  "ReadReg m accel bus addr reg =
     (let base = base_of m accel
      in if base + smbRespOff + 4 > mapped m then ret (Inl (Fault ''SMBus accelerator %d is past the mapped BAR''))
         else go_on (smbEnter m base) (\<lambda>_. transfer m base (read_words bus addr reg) (read_answer m base)))"

definition WriteReg :: "Master \<Rightarrow> int \<Rightarrow> int \<Rightarrow> int \<Rightarrow> int \<Rightarrow> 8 word \<Rightarrow> unit fallible" where
  "WriteReg m accel bus addr reg val =
     (let base = base_of m accel
      in if base + smbRespOff + 4 > mapped m then ret (Inl (Fault ''SMBus accelerator %d is past the mapped BAR''))
         else go_on (smbEnter m base) (\<lambda>_. transfer m base (write_words bus addr reg val) (write_answer m base)))"

section \<open>What a transfer touches\<close>

text \<open>A base the controller can address: its block is mapped and aligned.\<close>

definition addressable :: "Master \<Rightarrow> int \<Rightarrow> bool" where
  "addressable m base \<longleftrightarrow> 0 \<le> base \<and> base mod 4 = 0 \<and> base + smbRespOff + 4 \<le> mapped m"

definition polling :: "int \<Rightarrow> access \<Rightarrow> bool" where
  "polling base a =
     (case a of
        Rd off _ \<Rightarrow> off = base + smbCSOff \<or> off = base + smbRespOff
      | Wr off _ \<Rightarrow> off = base + smbCSOff
      | Act _ \<Rightarrow> False)"

definition of_accelerator :: "int \<Rightarrow> access \<Rightarrow> bool" where
  "of_accelerator base a \<longleftrightarrow> polling base a \<or> (\<exists>w. a = Wr (base + smbReqOff) w)"

definition sent :: "int \<Rightarrow> access list \<Rightarrow> 32 word list" where
  "sent base tr = map snd (filter (\<lambda>(off, v). off = base + smbReqOff) (writes tr))"

lemma sent_simps [simp]:
  "sent base [] = []" "sent base (tr @ tr') = sent base tr @ sent base tr'"
  "sent base (map (Wr (base + smbReqOff)) ws) = ws"
proof -
  show "sent base (map (Wr (base + smbReqOff)) ws) = ws" by (induction ws) (simp_all add: sent_def)
qed (simp_all add: sent_def)

lemma polling_sends_nothing: "list_all (polling base) tr \<Longrightarrow> sent base tr = []"
  by (induction tr) (auto simp: sent_def polling_def smb_consts split: access.splits)

lemma polling_of_accelerator: "list_all (polling base) tr \<Longrightarrow> list_all (of_accelerator base) tr"
  by (auto simp: list_all_iff of_accelerator_def)

lemma requests_of_accelerator: "list_all (of_accelerator base) (map (Wr (base + smbReqOff)) ws)"
  by (simp add: list_all_iff of_accelerator_def)

lemma addressable_offsets:
  assumes "addressable m base"
  shows "bar_check (mapped m) (base + smbCSOff)" "bar_check (mapped m) (base + smbReqOff)" "bar_check (mapped m) (base + smbRespOff)"
proof -
  have "(base + 4 * k) mod 4 = 0" for k using assms by (simp add: addressable_def)
  from this [of 8] this [of 4] this [of 12]
  show "bar_check (mapped m) (base + smbCSOff)" "bar_check (mapped m) (base + smbReqOff)" "bar_check (mapped m) (base + smbRespOff)"
    using assms by (simp_all add: addressable_def bar_check_def smb_consts)
qed

lemma accelerator_access:
  assumes "addressable m base" "0 < n"
  shows "within n (polling base) (read32 (mapped m) (base + smbCSOff))"
    and "within n (polling base) (read32 (mapped m) (base + smbRespOff))"
    and "within n (polling base) (write32 (mapped m) (base + smbCSOff) v)"
  using assms addressable_offsets [OF assms(1)]
  by (auto intro!: within_read32 within_write32 simp: polling_def)

lemmas one_access = accelerator_access [where n = 1, simplified]

lemma within_if: "within n A f \<Longrightarrow> within n A g \<Longrightarrow> within n A (if c then f else g)"
  by simp

lemma within_first: "within 1 A f \<Longrightarrow> 0 < n \<Longrightarrow> (\<And>x. within (n - 1) A (g x)) \<Longrightarrow> within n A (bnd f g)"
  using within_bnd [of 1 A f "n - 1" g] by simp

lemma within_reset_polls: "addressable m base \<Longrightarrow> n < k \<Longrightarrow> within k (polling base) (reset_polls m base n)"
  by (induction n arbitrary: k) (auto intro!: within_first one_access within_ret)

lemma within_smbEnter:
  assumes "addressable m base"
  shows "within 9 (polling base) (smbEnter m base)"
proof -
  have first: "within 2 (polling base)
      (if cs AND smbRst \<noteq> 0 then bnd (write32 (mapped m) (base + smbCSOff) (cs AND NOT smbRst)) (\<lambda>_. read32 (mapped m) (base + smbCSOff))
       else ret cs)" for cs
    using assms by (auto intro!: within_first accelerator_access within_ret)
  have last: "within 6 (polling base)
      (if at_rest cs then ret (Inr ()) else bnd (write32 (mapped m) (base + smbCSOff) (cs OR smbRst)) (\<lambda>_. reset_polls m base 4))" for cs
    using assms by (auto intro!: within_first one_access within_ret within_reset_polls)
  show ?thesis
    unfolding smbEnter_def using within_bnd [OF first last]
    by (intro within_first [OF accelerator_access(1) [OF assms]]) auto
qed

lemma within_await: "addressable m base \<Longrightarrow> n \<le> k \<Longrightarrow> within k (polling base) (await m base ss n)"
  by (induction n arbitrary: k) (auto intro!: within_ret within_first one_access)

lemma within_last_response: "addressable m base \<Longrightarrow> n \<le> k \<Longrightarrow> within k (polling base) (last_response m base n r)"
  by (induction n arbitrary: k r) (auto intro!: within_ret within_first one_access)

lemma within_acknowledged: "addressable m base \<Longrightarrow> n \<le> k \<Longrightarrow> within k (polling base) (acknowledged m base n)"
  by (induction n arbitrary: k) (auto intro!: within_ret within_first one_access)

lemma csNRS_le: "unat (csNRS cs) \<le> 1023"
proof -
  have "csNRS cs \<le> 1023" by (simp add: csNRS_def word_and_le1)
  then show ?thesis by (simp add: word_le_nat_alt)
qed

lemma length_words [simp]: "length (read_words bus addr reg) = 4" "length (write_words bus addr reg val) = 3"
  by (simp_all add: read_words_def write_words_def Let_def)

lemma within_read_answer: "addressable m base \<Longrightarrow> within 1023 (polling base) (read_answer m base cs)"
  unfolding read_answer_def
  by (rule within_if, rule within_ret, rule within_mono [OF within_bnd [OF within_last_response [OF _ csNRS_le] within_ret [where n = 0]]]) simp_all

lemma within_write_answer: "addressable m base \<Longrightarrow> within 8 (polling base) (write_answer m base cs)"
  by (simp add: write_answer_def within_ret within_acknowledged)

lemma spec_send:
  assumes "addressable m base"
  shows "spec (send_requests m base ws) (\<lambda>r new. r = Some () \<and> new = map (Wr (base + smbReqOff)) ws)"
proof (induction ws)
  case (Cons w ws)
  have "spec (write32 (mapped m) (base + smbReqOff) w) (\<lambda>r new. r = Some () \<and> new = [Wr (base + smbReqOff) w])"
    using addressable_offsets(2) [OF assms] by (intro spec_write32) simp_all
  then show ?case unfolding send_requests.simps
    by (rule spec_bnd) (auto intro: spec_weaken [OF Cons])
qed (simp add: spec_ret)

text \<open>A transfer sends its requests and makes no other access but the accelerator's polls.\<close>

lemma spec_transfer:
  assumes ok: "addressable m base" and answer: "\<And>cs. within k (polling base) (answer cs)"
  shows "spec (transfer m base ws answer)
    (\<lambda>r new. r \<noteq> None \<and> list_all (of_accelerator base) new \<and> length new \<le> length ws + (200 + (1 + k)) \<and> sent base new = ws)"
proof -
  have "within (200 + (1 + k)) (polling base) (bnd (await m base (of_nat (length ws)) 200) (\<lambda>_. bnd (read32 (mapped m) (base + smbCSOff)) answer))"
    by (intro within_bnd within_await accelerator_access(1) ok answer order_refl zero_less_one)
  then have rest: "spec (bnd (await m base (of_nat (length ws)) 200) (\<lambda>_. bnd (read32 (mapped m) (base + smbCSOff)) answer))
      (\<lambda>r new. r \<noteq> None \<and> list_all (polling base) new \<and> length new \<le> 200 + (1 + k))"
    by (simp add: within_def)
  show ?thesis unfolding transfer_def
    by (rule spec_bnd [OF spec_send [OF ok]])
       (auto intro!: spec_weaken [OF rest] simp: requests_of_accelerator polling_of_accelerator polling_sends_nothing)
qed

text \<open>A base that is aligned either is addressable or is past the mapping, where the transfer is refused.\<close>

definition aligned :: "Master \<Rightarrow> int \<Rightarrow> bool" where
  "aligned m accel \<longleftrightarrow> 0 \<le> base_of m accel \<and> base_of m accel mod 4 = 0"

lemma aligned_cases:
  "aligned m accel \<Longrightarrow> \<not> base_of m accel + smbRespOff + 4 > mapped m \<Longrightarrow> addressable m (base_of m accel)"
  by (simp add: addressable_def aligned_def)

text \<open>What every transfer keeps to, refused or not: it ends without a panic, after at most so many accesses, all to the
  accelerator's own registers, and what it sends is nothing or all of its requests.\<close>

definition keeps_to :: "nat \<Rightarrow> int \<Rightarrow> 32 word list \<Rightarrow> 'a fallible \<Rightarrow> bool" where
  "keeps_to n base ws f = spec f (\<lambda>r new. r \<noteq> None \<and> list_all (of_accelerator base) new \<and> length new \<le> n \<and>
     (sent base new = ws \<or> sent base new = [] \<and> (\<exists>e. r = Some (Inl e))))"

lemma keeps_toD:
  "keeps_to n base ws f \<Longrightarrow> \<exists>r new. f dev tr = (Some r, tr @ new) \<and> length new \<le> n \<and> list_all (of_accelerator base) new \<and>
     (sent base new = ws \<or> sent base new = [] \<and> isl r)"
  unfolding keeps_to_def spec_def by (fastforce simp: not_None_eq)

lemma keeps_to_transfer:
  assumes "aligned m accel" and "addressable m (base_of m accel) \<Longrightarrow> (\<And>cs. within k (polling (base_of m accel)) (answer cs))"
    and "9 + (length ws + (200 + (1 + k))) \<le> n"
  shows "keeps_to n (base_of m accel) ws
    (if base_of m accel + smbRespOff + 4 > mapped m then ret (Inl e)
     else go_on (smbEnter m (base_of m accel)) (\<lambda>_. transfer m (base_of m accel) ws answer))"
proof (cases "base_of m accel + smbRespOff + 4 > mapped m")
  case False
  note ok = aligned_cases [OF assms(1) False]
  have enter: "spec (smbEnter m (base_of m accel)) (\<lambda>r new. r \<noteq> None \<and> list_all (polling (base_of m accel)) new \<and> length new \<le> 9)"
    using within_smbEnter [OF ok] by (simp add: within_def)
  show ?thesis
    using False assms(3) unfolding keeps_to_def go_on_def
    by (simp, intro spec_bnd [OF enter])
       (auto split: sum.split intro!: spec_ret spec_weaken [OF spec_transfer [OF ok assms(2) [OF ok]]]
          simp: polling_of_accelerator polling_sends_nothing)
qed (simp add: keeps_to_def spec_ret)

lemma keeps_to_ReadReg: "aligned m accel \<Longrightarrow> keeps_to 1237 (base_of m accel) (read_words bus addr reg) (ReadReg m accel bus addr reg)"
  unfolding ReadReg_def Let_def by (rule keeps_to_transfer [OF _ within_read_answer]) simp_all

lemma keeps_to_WriteReg: "aligned m accel \<Longrightarrow> keeps_to 221 (base_of m accel) (write_words bus addr reg val) (WriteReg m accel bus addr reg val)"
  unfolding WriteReg_def Let_def by (rule keeps_to_transfer [OF _ within_write_answer]) simp_all

section \<open>What a request says\<close>

lemma masks: "(255 :: 32 word) = mask 8" "(63 :: 32 word) = mask 6" "(15 :: 32 word) = mask 4" "(3 :: 32 word) = mask 2"
  by (simp_all add: mask_eq_exp_minus_1)

lemma smbReq_fields:
  "smbReq d ss ed br t sp da dod st bs ti AND 255 = d AND 255"
  "drop_bit 24 (smbReq d ss ed br t sp da dod st bs ti) AND 15 = bs AND 15"
  "drop_bit 28 (smbReq d ss ed br t sp da dod st bs ti) AND 15 = ti AND 15"
  "bit (smbReq d ss ed br t sp da dod st bs ti) 20 = bit sp 0"
  "bit (smbReq d ss ed br t sp da dod st bs ti) 23 = bit st 0"
proof -
  show "smbReq d ss ed br t sp da dod st bs ti AND 255 = d AND 255"
    by (rule bit_word_eqI) (auto simp: smbReq_def masks bit_simps)
  show "drop_bit 24 (smbReq d ss ed br t sp da dod st bs ti) AND 15 = bs AND 15"
    by (rule bit_word_eqI) (auto simp: smbReq_def masks bit_simps)
  show "drop_bit 28 (smbReq d ss ed br t sp da dod st bs ti) AND 15 = ti AND 15"
    by (rule bit_word_eqI) (auto simp: smbReq_def masks bit_simps)
  show "bit (smbReq d ss ed br t sp da dod st bs ti) 20 = bit sp 0"
    by (simp add: smbReq_def masks bit_simps)
  show "bit (smbReq d ss ed br t sp da dod st bs ti) 23 = bit st 0"
    by (simp add: smbReq_def masks bit_simps)
qed

section \<open>A read on an accelerator that answers\<close>

definition taken :: "int \<Rightarrow> access list \<Rightarrow> nat" where
  "taken base tr = length (filter (\<lambda>a. case a of Rd off _ \<Rightarrow> off = base + smbRespOff | _ \<Rightarrow> False) tr)"

definition answering :: "device \<Rightarrow> access list \<Rightarrow> int \<Rightarrow> (32 word list \<Rightarrow> 8 word) \<Rightarrow> bool" where
  "answering dev tr base contents \<longleftrightarrow>
     (\<forall>new. dev (tr @ new) (base + smbCSOff) = of_nat (length (sent base new) - taken base new) \<and>
            dev (tr @ new) (base + smbRespOff) = (if taken base new = 3 then ucast (contents (sent base new)) else 0))"

lemma ucast_bits: "\<not> bit (ucast (v :: 8 word) :: 32 word) 8" "\<not> bit (ucast (v :: 8 word) :: 32 word) 9" "\<not> bit (ucast (v :: 8 word) :: 32 word) 10"
  by (auto simp: bit_simps dest: bit_imp_le_length)

lemma ucast_back: "ucast ((ucast (v :: 8 word) :: 32 word) AND 255) = v"
  by (rule bit_word_eqI) (auto simp: masks bit_simps dest: bit_imp_le_length)

lemma offsets_differ: "smbCSOff \<noteq> smbRespOff" "smbRespOff \<noteq> smbCSOff" "smbCSOff \<noteq> smbReqOff" "smbReqOff \<noteq> smbCSOff"
  by (simp_all add: smb_consts)

lemma smbEnter_run:
  "bar_check (mapped m) (base + smbCSOff) \<Longrightarrow> dev tr (base + smbCSOff) = 0 \<Longrightarrow>
     smbEnter m base dev tr = (Some (Inr ()), tr @ [Rd (base + smbCSOff) 0])"
  by (simp add: smbEnter_def bnd_def read32_def ret_def at_rest_def csFE_def csBRB_def csNRQ_def csNRS_def)

lemma send_run:
  "bar_check (mapped m) (base + smbReqOff) \<Longrightarrow> send_requests m base ws dev tr = (Some (), tr @ map (Wr (base + smbReqOff)) ws)"
  by (induction ws arbitrary: tr) (simp_all add: ret_def bnd_def write32_def)

lemma await_run:
  "bar_check (mapped m) (base + smbCSOff) \<Longrightarrow> csNRS (dev tr (base + smbCSOff)) \<ge> ss \<Longrightarrow> 0 < n \<Longrightarrow>
     await m base ss n dev tr = (Some (), tr @ [Rd (base + smbCSOff) (dev tr (base + smbCSOff))])"
  by (cases n) (simp_all add: ret_def bnd_def read32_def)

lemma four_responses: "last_response m base 4 r =
    bnd (read32 (mapped m) (base + smbRespOff)) (\<lambda>_. bnd (read32 (mapped m) (base + smbRespOff)) (\<lambda>_.
    bnd (read32 (mapped m) (base + smbRespOff)) (\<lambda>_. bnd (read32 (mapped m) (base + smbRespOff)) ret)))"
proof -
  have "last_response m base 0 = ret" "last_response m base (Suc n) = (\<lambda>_. bnd (read32 (mapped m) (base + smbRespOff)) (last_response m base n))" for n
    by (simp_all add: fun_eq_iff)
  then show ?thesis by (simp add: numeral_eq_Suc)
qed

lemma ReadReg_answering:
  assumes "aligned m accel" "base_of m accel + smbRespOff + 4 \<le> mapped m" and a: "answering dev tr (base_of m accel) contents"
  shows "fst (ReadReg m accel bus addr reg dev tr) = Some (Inr (contents (read_words bus addr reg)))"
proof -
  define base where "base = base_of m accel"
  have bars: "bar_check (mapped m) (base + smbCSOff)" "bar_check (mapped m) (base + smbReqOff)" "bar_check (mapped m) (base + smbRespOff)"
    using addressable_offsets aligned_cases [OF assms(1)] assms(2) by (auto simp: base_def)
  have cs: "dev (tr @ new) (base + smbCSOff) = of_nat (length (sent base new) - taken base new)"
    and resp: "dev (tr @ new) (base + smbRespOff) = (if taken base new = 3 then ucast (contents (sent base new)) else 0)" for new
    using a by (auto simp: answering_def base_def)
  have cs0: "dev tr (base + smbCSOff) = 0" using cs [of "[]"] by simp
  define ws where "ws = read_words bus addr reg"
  have len: "length ws = 4" by (simp add: ws_def)
  have four: "csNRS 4 = 4" by (simp add: csNRS_def)
  have st: "sent base (Rd off v # new) = sent base new" "sent base (Wr (base + smbCSOff) v # new) = sent base new" for off v new
    by (simp_all add: sent_def smb_consts)
  have tk: "taken base [] = 0" "taken base (a @ b) = taken base a + taken base b" "taken base (map (Wr (base + smbReqOff)) ws) = 0"
    "taken base (Rd (base + smbCSOff) v # new) = taken base new" "taken base (Rd (base + smbRespOff) v # new) = Suc (taken base new)" for a b v new
    by (simp_all add: taken_def offsets_differ filter_empty_conv)
  have answer: "fst (read_answer m base 4 dev (tr @ Rd (base + smbCSOff) 0 # map (Wr (base + smbReqOff)) ws @ [Rd (base + smbCSOff) 4, Rd (base + smbCSOff) 4])) =
      Some (Inr (contents ws))"
    by (simp add: read_answer_def four bnd_def read32_def ret_def bars resp st tk four_responses ucast_bits ucast_back)
  have "transfer m base ws (read_answer m base) dev (tr @ [Rd (base + smbCSOff) 0]) =
      read_answer m base 4 dev (tr @ Rd (base + smbCSOff) 0 # map (Wr (base + smbReqOff)) ws @ [Rd (base + smbCSOff) 4, Rd (base + smbCSOff) 4])"
    by (simp add: transfer_def bnd_def send_run bars await_run read32_def cs st tk len four)
  then show ?thesis
    using answer assms(2)
    by (simp add: ReadReg_def Let_def go_on_def bnd_def smbEnter_run bars cs0 flip: base_def ws_def)
qed

text \<open>C28: A transfer keeps to its accelerator, whatever the hardware answers: reading or writing a register of a device,
  on an accelerator whose block is aligned, always ends, without a panic, after a bounded number of accesses, every
  one to that accelerator's own status, request or response register, and sends all of its request words or, where it
  is refused, none.\<close>

theorem transfers_confined:
  assumes "aligned m accel"
  shows "(\<exists>r new. ReadReg m accel bus addr reg dev tr = (Some r, tr @ new) \<and> length new \<le> 1237 \<and>
            list_all (of_accelerator (base_of m accel)) new \<and>
            (sent (base_of m accel) new = read_words bus addr reg \<or> sent (base_of m accel) new = [] \<and> isl r)) \<and>
         (\<exists>r new. WriteReg m accel bus addr reg val dev tr = (Some r, tr @ new) \<and> length new \<le> 221 \<and>
            list_all (of_accelerator (base_of m accel)) new \<and>
            (sent (base_of m accel) new = write_words bus addr reg val \<or> sent (base_of m accel) new = [] \<and> isl r))"
  using keeps_toD [OF keeps_to_ReadReg [OF assms]] keeps_toD [OF keeps_to_WriteReg [OF assms]] by fast

theorem transfers_confined_witness:
  "\<exists>r new. WriteReg \<lparr>mapped = 65536, bases = []\<rparr> 2 1 96 16 255 (\<lambda>_ _. 0) [] = (Some r, new) \<and> length new \<le> 221 \<and>
     list_all (of_accelerator 33024) new"
  using transfers_confined [of "\<lparr>mapped = 65536, bases = []\<rparr>" 2 1 96 16 "\<lambda>_ _. 0" "[]" 255]
  by (auto simp: aligned_def base_of_def smb_consts)

text \<open>A register read on an accelerator that answers gives the byte it holds: where the status counts the requests
  not yet taken as responses, and the fourth response carries what the device holds at what was asked for, the read
  returns that, for every device address and register.\<close>

theorem ReadReg_reads:
  assumes "aligned m accel" and "base_of m accel + smbRespOff + 4 \<le> mapped m"
    and "answering dev tr (base_of m accel) contents"
  shows "fst (ReadReg m accel bus addr reg dev tr) = Some (Inr (contents (read_words bus addr reg)))"
  using assms by (rule ReadReg_answering)

definition echo_device :: "int \<Rightarrow> device" where
  "echo_device base tr off =
     (if off = base + smbCSOff then of_nat (length (sent base tr) - taken base tr)
      else if off = base + smbRespOff \<and> taken base tr = 3 then ucast (ucast (sent base tr ! 1) :: 8 word) else 0)"

theorem ReadReg_reads_witness:
  "fst (ReadReg \<lparr>mapped = 65536, bases = []\<rparr> 0 1 72 33 (echo_device 32768) []) = Some (Inr 33)"
proof -
  have "answering (echo_device 32768) [] 32768 (\<lambda>ws. ucast (ws ! 1))"
    by (simp add: answering_def echo_device_def smb_consts)
  then have "fst (ReadReg \<lparr>mapped = 65536, bases = []\<rparr> 0 1 72 33 (echo_device 32768) []) = Some (Inr (ucast (read_words 1 72 33 ! 1)))"
    by (intro ReadReg_reads) (simp_all add: aligned_def base_of_def smb_consts)
  moreover have "(ucast (read_words 1 72 33 ! 1) :: 8 word) = 33" by code_simp
  ultimately show ?thesis by simp
qed

end
