(* ===== verification/Board_Map.thy ===== *)
theory Board_Map
  imports Go_Prelude
begin

text \<open>
  What a board states of its own wiring, \<^verbatim>\<open>internal/platformhal/smbus.go\<close>: where sensors, fans and a repeater sit
  on the controller's SMBus, the table of transceiver cages, the reset lines to release, and the checks made of all
  of it before any of it reaches the hardware. An embedded Go struct is a record extension. A pointer that may be
  nil is an \<open>option\<close>.
\<close>

record SMBusAddr =
  Accel :: int
  Bus :: int
  Addr :: int

record SMBusSensor = SMBusAddr +
  sn_Name :: string
  sn_Part :: string

record FanController = SMBusAddr +
  fc_Part :: string
  Count :: int
  MaxPWM :: int
  FloorPercent :: int

record SMBusMap =
  Accelerators :: "int list"
  Sensors :: "SMBusSensor list"
  map_Fans :: "FanController option"
  Retimer :: "SMBusAddr option"

definition SMBusParts :: "(string, int) gomap" where
  "SMBusParts = [(''max6658'', 0), (''max6658-remote'', 1), (''lm73'', 0)]"

definition SMBusAddr_validate :: "'a SMBusAddr_scheme \<Rightarrow> string option" where
  "SMBusAddr_validate a =
     (if Accel a < 0 \<or> Accel a > 15 then Some ''%s: accelerator %d is outside 0..15''
      else if Bus a < 0 \<or> Bus a > 15 then Some ''%s: bus %d is outside 0..15''
      else if Addr a < 8 \<or> Addr a > 119 then Some ''%s: address %#02x is not a 7-bit SMBus address''
      else None)"

fun validate_sensors :: "SMBusSensor list \<Rightarrow> string set \<Rightarrow> string option" where
  "validate_sensors [] seen = None"
| "validate_sensors (s # ss) seen =
     (if sn_Name s = [] then Some ''smbus sensor %d has no name''
      else if sn_Name s \<in> seen then Some ''smbus sensor %q is listed twice''
      else if mget SMBusParts (sn_Part s) = None then Some ''smbus sensor %q: unknown part %q''
      else case SMBusAddr_validate s of
        Some e \<Rightarrow> Some e
      | None \<Rightarrow> validate_sensors ss (insert (sn_Name s) seen))"

definition validate_fans :: "FanController \<Rightarrow> string option" where
  "validate_fans f =
     (case SMBusAddr_validate f of
        Some e \<Rightarrow> Some e
      | None \<Rightarrow>
          (if Count f < 1 \<or> Count f > 16 then Some ''fan controller: %d bays is outside 1..16''
           else if MaxPWM f < 1 \<or> MaxPWM f > 255 then Some ''fan controller: max_pwm %d is outside 1..255''
           else if FloorPercent f < 1 \<or> FloorPercent f > 100 then Some ''fan controller: floor_percent %d is outside 1..100''
           else None))"

definition SMBusMap_Validate :: "SMBusMap option \<Rightarrow> string option" where
  "SMBusMap_Validate mo =
     (case mo of
        None \<Rightarrow> None
      | Some m \<Rightarrow>
          (if list_ex (\<lambda>b. b < 0 \<or> b > 1048575) (Accelerators m) then Some ''smbus accelerator %d: base %#x is not a register offset''
           else case validate_sensors (Sensors m) {} of
             Some e \<Rightarrow> Some e
           | None \<Rightarrow>
               (case (case Retimer m of None \<Rightarrow> None | Some a \<Rightarrow> SMBusAddr_validate a) of
                  Some e \<Rightarrow> Some e
                | None \<Rightarrow> (case map_Fans m of None \<Rightarrow> None | Some f \<Rightarrow> validate_fans f))))"

record CageEEPROM =
  AccelBase :: int
  BusesPerAccel :: int

record CageTable =
  ct_Base :: int
  Stride :: int
  ct_Count :: int
  SFPCount :: int
  SFPEEPROM :: "CageEEPROM option"
  QSFPEEPROM :: "CageEEPROM option"

definition validate_eeprom :: "CageEEPROM option \<Rightarrow> string option" where
  "validate_eeprom eo =
     (case eo of
        None \<Rightarrow> None
      | Some e \<Rightarrow>
          (if AccelBase e < 0 \<or> AccelBase e > 15 then Some ''cages: %s accel_base %d is outside 0..15''
           else if BusesPerAccel e < 1 \<or> BusesPerAccel e > 16 then Some ''cages: %s buses_per_accel %d is outside 1..16''
           else None))"

text \<open>Go ranges over the two layouts in no fixed order, which only decides which of two errors is reported.\<close>

definition CageTable_Validate :: "CageTable option \<Rightarrow> string option" where
  "CageTable_Validate co =
     (case co of
        None \<Rightarrow> None
      | Some c \<Rightarrow>
          (if ct_Base c \<le> 0 then Some ''cages: base %#x is not a register offset''
           else if Stride c \<le> 0 then Some ''cages: stride %d must be positive''
           else if ct_Count c < 1 \<or> ct_Count c > 256 then Some ''cages: count %d is outside 1..256''
           else if SFPCount c < 0 \<or> SFPCount c > ct_Count c then Some ''cages: sfp_count %d is outside 0..%d''
           else if SFPCount c > 0 \<and> SFPEEPROM c = None then Some ''cages: %d SFP+ cages but no sfp_eeprom''
           else if SFPCount c < ct_Count c \<and> QSFPEEPROM c = None then Some ''cages: %d QSFP+ cages but no qsfp_eeprom''
           else case validate_eeprom (SFPEEPROM c) of
             Some e \<Rightarrow> Some e
           | None \<Rightarrow> validate_eeprom (QSFPEEPROM c)))"

text \<open>The cage's position in its range, across the buses of consecutive accelerators. A range is asked for only with
  a positive number of buses, which the check demands.\<close>

definition CageSMBus :: "CageTable \<Rightarrow> int \<Rightarrow> int \<times> int" where
  "CageSMBus c cage =
     (let (e, idx) = (if cage \<le> SFPCount c then (SFPEEPROM c, cage - 1) else (QSFPEEPROM c, cage - 1 - SFPCount c))
      in case e of
        None \<Rightarrow> (- 1, - 1)
      | Some e \<Rightarrow> (AccelBase e + idx div BusesPerAccel e, idx mod BusesPerAccel e))"

record ResetLine =
  rl_Name :: string
  Bit :: nat

fun validate_resets :: "ResetLine list \<Rightarrow> nat set \<Rightarrow> string option" where
  "validate_resets [] seen = None"
| "validate_resets (r # rs) seen =
     (if rl_Name r = [] then Some ''reset on bit %d has no name''
      else if Bit r > 31 then Some ''reset %q: bit %d is outside a 32-bit register''
      else if Bit r \<le> 1 then Some ''reset %q: bit %d is the switch chip's own and is released by the bring-up sequence''
      else if Bit r \<in> seen then Some ''reset %q: bit %d is listed twice''
      else validate_resets rs (insert (Bit r) seen))"

definition ValidateResets :: "ResetLine list \<Rightarrow> string option" where
  "ValidateResets rs = validate_resets rs {}"

section \<open>What the checks establish\<close>

lemma validate_fans_ok:
  "validate_fans f = None \<longleftrightarrow>
     SMBusAddr_validate f = None \<and> Count f \<in> {1..16} \<and> MaxPWM f \<in> {1..255} \<and> FloorPercent f \<in> {1..100}"
  by (auto simp: validate_fans_def split: option.splits if_splits)

lemma SMBusAddr_validate_ok:
  "SMBusAddr_validate a = None \<longleftrightarrow> Accel a \<in> {0..15} \<and> Bus a \<in> {0..15} \<and> Addr a \<in> {8..119}"
  by (auto simp: SMBusAddr_validate_def split: if_splits)

lemma Validate_fans: "SMBusMap_Validate (Some m) = None \<Longrightarrow> map_Fans m = Some f \<Longrightarrow> validate_fans f = None"
  by (auto simp: SMBusMap_Validate_def split: option.splits if_splits)

lemma Validate_retimer: "SMBusMap_Validate (Some m) = None \<Longrightarrow> Retimer m = Some a \<Longrightarrow> SMBusAddr_validate a = None"
  by (auto simp: SMBusMap_Validate_def split: option.splits if_splits)

lemma validate_sensors_ok:
  "validate_sensors ss seen = None \<longleftrightarrow>
     distinct (map sn_Name ss) \<and> set (map sn_Name ss) \<inter> insert [] seen = {} \<and>
     (\<forall>s \<in> set ss. mget SMBusParts (sn_Part s) \<noteq> None \<and> SMBusAddr_validate s = None)"
  by (induction ss arbitrary: seen) (auto split: option.splits)

lemma validate_resets_ok:
  "validate_resets rs seen = None \<longleftrightarrow>
     distinct (map Bit rs) \<and> Bit ` set rs \<inter> seen = {} \<and> (\<forall>r \<in> set rs. rl_Name r \<noteq> [] \<and> 2 \<le> Bit r \<and> Bit r \<le> 31)"
  by (induction rs arbitrary: seen) auto

text \<open>Two cages of one range never share a bus.\<close>

lemma layout_inj:
  "(0 :: int) < n \<Longrightarrow> (b + i div n, i mod n) = (b + j div n, j mod n) \<Longrightarrow> i = j"
  by (metis add_left_cancel div_mult_mod_eq prod.inject)

end
