(* ===== verification/Scd.thy ===== *)
theory Scd
  imports Smbus Board_Map Sff
begin

text \<open>
  The driver of the board controller, \<^verbatim>\<open>internal/platformhal/scd\<close>: watchdog, reset lines, power supplies,
  temperatures and fans, transceiver cages and the modules in them. A lamp map and the repeater's tuning come from
  files and are in \<open>Scd_Panel\<close>. The trace log is not modelled.
\<close>

record SCD =
  bar_len :: int
  smbusMap :: "SMBusMap option"
  cages :: "CageTable option"
  resets :: "ResetLine list"

definition smb :: "SCD \<Rightarrow> Master" where
  "smb s = \<lparr>mapped = bar_len s, bases = (case smbusMap s of None \<Rightarrow> [] | Some m \<Rightarrow> Accelerators m)\<rparr>"

definition SMBusReadReg :: "SCD \<Rightarrow> int \<Rightarrow> int \<Rightarrow> int \<Rightarrow> int \<Rightarrow> 8 word fallible" where
  "SMBusReadReg s accel bus addr reg =
     (if accel < 0 \<or> bus < 0 \<or> addr < 8 \<or> addr > 119 \<or> reg < 0 \<or> reg > 255
      then ret (Inl (Fault ''smbus read %d/%d/%#02x reg %#02x: out of range''))
      else ReadReg (smb s) accel bus addr reg)"

section \<open>The watchdog\<close>

definition watchdogReg :: int where "watchdogReg = 288"

definition wdEnable :: "32 word" where "wdEnable = push_bit 31 1"

definition wdActionPowerCycle :: "32 word" where "wdActionPowerCycle = push_bit 29 2"

definition wdTimeoutMask :: "32 word" where "wdTimeoutMask = 65535"

definition wdTimeoutUnitMS :: int where "wdTimeoutUnitMS = 10"

definition wdHighMask :: "32 word" where "wdHighMask = push_bit 16 8191"

definition Armed :: "SCD \<Rightarrow> (bool \<times> int) driver" where
  "Armed s = bnd (read32 (bar_len s) watchdogReg) (\<lambda>v.
     ret (v AND wdEnable \<noteq> 0, uint (v AND wdTimeoutMask) * wdTimeoutUnitMS))"

definition Arm :: "SCD \<Rightarrow> int \<Rightarrow> unit fallible" where
  "Arm s timeoutMS =
     (let maxMS = uint wdTimeoutMask * wdTimeoutUnitMS
      in if timeoutMS < wdTimeoutUnitMS \<or> timeoutMS > maxMS then ret (Inl (Fault ''watchdog timeout %d ms is outside %d..%d ms''))
         else if timeoutMS mod wdTimeoutUnitMS \<noteq> 0 then
           ret (Inl (Fault ''watchdog timeout %d ms is not a multiple of %d ms, which is this register's resolution''))
         else let count = word_of_int (timeoutMS div wdTimeoutUnitMS)
           in bnd (read32 (bar_len s) watchdogReg) (\<lambda>v.
              bnd (write32 (bar_len s) watchdogReg (wdEnable OR wdActionPowerCycle OR count OR (v AND wdHighMask))) (\<lambda>_.
              bnd (Armed s) (\<lambda>(armed, got).
                if \<not> armed then ret (Inl (Fault ''the watchdog did not arm; it reads back disabled''))
                else if got \<noteq> timeoutMS then ret (Inl (Fault ''the watchdog armed with %d ms, not the %d ms asked for''))
                else ret (Inr ())))))"

definition Disarm :: "SCD \<Rightarrow> unit fallible" where
  "Disarm s =
     bnd (read32 (bar_len s) watchdogReg) (\<lambda>v.
     bnd (write32 (bar_len s) watchdogReg (v AND NOT wdEnable)) (\<lambda>_.
     bnd (Armed s) (\<lambda>(armed, _).
       if armed then ret (Inl (Fault ''the watchdog did not disarm; it still reads as enabled'')) else ret (Inr ()))))"

definition Pet :: "SCD \<Rightarrow> unit fallible" where
  "Pet s =
     bnd (read32 (bar_len s) watchdogReg) (\<lambda>v.
       if v AND wdEnable = 0 then ret (Inl (Fault ''the watchdog is not armed, so there is nothing to pet''))
       else bnd (write32 (bar_len s) watchdogReg v) (\<lambda>_. ret (Inr ())))"

definition WriteRaw :: "SCD \<Rightarrow> 32 word \<Rightarrow> 32 word driver" where
  "WriteRaw s v = bnd (write32 (bar_len s) watchdogReg v) (\<lambda>_. read32 (bar_len s) watchdogReg)"

section \<open>Reset lines\<close>

definition resetBase :: int where "resetBase = 16384"

definition resetClear :: int where "resetClear = resetBase + 16"

definition resetStatus :: int where "resetStatus = resetBase + 32"

definition bitSwitchCore :: nat where "bitSwitchCore = 0"

definition bitSwitchPCIe :: nat where "bitSwitchPCIe = 1"

definition resetBit :: "string \<Rightarrow> hal_error + nat" where
  "resetBit r =
     (if r = ''switch-core'' then Inr bitSwitchCore
      else if r = ''switch-pcie'' then Inr bitSwitchPCIe
      else Inl (ErrUnsupported ''reset %q''))"

definition ResetState :: "SCD \<Rightarrow> string \<Rightarrow> bool fallible" where
  "ResetState s r =
     (case resetBit r of
        Inl e \<Rightarrow> ret (Inl e)
      | Inr b \<Rightarrow> bnd (read32 (bar_len s) resetBase) (\<lambda>v. ret (Inr (v AND push_bit b 1 \<noteq> 0))))"

fun release_lines :: "SCD \<Rightarrow> 32 word \<Rightarrow> ResetLine list \<Rightarrow> unit driver" where
  "release_lines s before [] = ret ()"
| "release_lines s before (r # rs) =
     (if before AND push_bit (Bit r) 1 = 0 then release_lines s before rs
      else bnd (write32 (bar_len s) resetClear (push_bit (Bit r) 1)) (\<lambda>_.
           bnd (read32 (bar_len s) resetBase) (\<lambda>_. release_lines s before rs)))"

definition releaseBoardResets :: "SCD \<Rightarrow> 32 word \<Rightarrow> unit driver" where
  "releaseBoardResets s before = release_lines s before (resets s)"

text \<open>The PCI command register of the chip, through its configuration file: whether it opens, what the first read
  gives, whether the write is taken and what reads back. The answer is the values before and after or the error, with
  what was written.\<close>

record pci_config =
  cfg_opens :: bool
  cfg_before :: "16 word option"
  cfg_takes :: bool
  cfg_after :: "16 word option"

definition pciCmdMemorySpace :: "16 word" where "pciCmdMemorySpace = push_bit 1 1"

definition enableMemorySpace :: "pci_config \<Rightarrow> (hal_error + 16 word \<times> 16 word) \<times> 16 word option" where
  "enableMemorySpace c =
     (if \<not> cfg_opens c then (Inl (Fault ''opening PCI config for %s: %w''), None)
      else case cfg_before c of
        None \<Rightarrow> (Inl (Fault ''reading the COMMAND register of %s: %w''), None)
      | Some before \<Rightarrow>
          (if before AND pciCmdMemorySpace \<noteq> 0 then (Inr (before, before), None)
           else let v = before OR pciCmdMemorySpace
             in if \<not> cfg_takes c then (Inl (Fault ''enabling memory space on %s: %w''), Some v)
                else case cfg_after c of
                  None \<Rightarrow> (Inl (Fault ''COMMAND register''), Some v)
                | Some after \<Rightarrow>
                    (if after AND pciCmdMemorySpace = 0
                     then (Inl (Fault ''memory space did not enable on %s: COMMAND reads %#04x after writing %#04x''), Some v)
                     else (Inr (before, after), Some v))))"

text \<open>A look for the chip's device node, and what follows once it is there.\<close>

definition look_for_chip :: "os_acts \<Rightarrow> pci_config \<Rightarrow> unit fallible \<Rightarrow> unit fallible" where
  "look_for_chip os c absent =
     bnd (ask_os os ''stat'') (\<lambda>there.
       if there then
         bnd (ask_os os ''asicYieldTime'') (\<lambda>ok.
           if \<not> ok then ret (Inl (Fault ''context''))
           else case fst (enableMemorySpace c) of Inl e \<Rightarrow> ret (Inl e) | Inr _ \<Rightarrow> ret (Inr ()))
       else absent)"

text \<open>The wait for it: the number is how many more looks fit before the deadline.\<close>

fun wait_for_chip :: "SCD \<Rightarrow> os_acts \<Rightarrow> pci_config \<Rightarrow> nat \<Rightarrow> unit fallible" where
  "wait_for_chip s os c 0 =
     look_for_chip os c (bnd (read32 (bar_len s) resetBase) (\<lambda>_.
       ret (Inl (Fault ''the switch chip did not appear at %s within %s of releasing reset''))))"
| "wait_for_chip s os c (Suc k) =
     look_for_chip os c (bnd (ask_os os ''100ms'') (\<lambda>ok.
       if \<not> ok then ret (Inl (Fault ''context'')) else wait_for_chip s os c k))"

definition enableAndWaitFrom :: "SCD \<Rightarrow> os_acts \<Rightarrow> pci_config \<Rightarrow> nat \<Rightarrow> unit fallible" where
  "enableAndWaitFrom s os c n =
     bnd (ask_os os ''stat'') (\<lambda>there.
       if there then wait_for_chip s os c n
       else bnd (ask_os os ''rescan'') (\<lambda>ok.
         if \<not> ok then ret (Inl (Fault ''rescanning the PCI bus: %w'')) else wait_for_chip s os c n))"

definition enableAndWait :: "SCD \<Rightarrow> os_acts \<Rightarrow> pci_config \<Rightarrow> nat \<Rightarrow> unit fallible" where
  "enableAndWait s os c n = bnd (read32 (bar_len s) resetBase) (\<lambda>_. enableAndWaitFrom s os c n)"

text \<open>Core first, then PCIe after a settle.\<close>

definition release_chip :: "SCD \<Rightarrow> os_acts \<Rightarrow> pci_config \<Rightarrow> nat \<Rightarrow> 32 word \<Rightarrow> unit fallible" where
  "release_chip s os c n before =
     bnd (write32 (bar_len s) resetClear (push_bit bitSwitchCore 1)) (\<lambda>_.
     bnd (read32 (bar_len s) resetBase) (\<lambda>_.
     bnd (ask_os os ''pcieResetDelay'') (\<lambda>ok.
       if \<not> ok then ret (Inl (Fault ''context''))
       else
         bnd (write32 (bar_len s) resetClear (push_bit bitSwitchPCIe 1)) (\<lambda>_.
         bnd (read32 (bar_len s) resetBase) (\<lambda>after.
         bnd (read32 (bar_len s) resetStatus) (\<lambda>_.
           if after = before then ret (Inl (Fault ''the reset register did not change: it read %#08x before and after both writes''))
           else bnd (ask_os os ''rescanDelay'') (\<lambda>ok.
             if \<not> ok then ret (Inl (Fault ''context'')) else enableAndWaitFrom s os c n)))))))"

definition ReleaseSwitchChip :: "SCD \<Rightarrow> os_acts \<Rightarrow> pci_config \<Rightarrow> nat \<Rightarrow> unit fallible" where
  "ReleaseSwitchChip s os c n =
     bnd (read32 (bar_len s) resetBase) (\<lambda>before.
     bnd (releaseBoardResets s before) (\<lambda>_.
       if before AND (push_bit bitSwitchCore 1 OR push_bit bitSwitchPCIe 1) = 0 then enableAndWait s os c n
       else release_chip s os c n before))"

section \<open>Power supplies\<close>

definition psuBase :: int where "psuBase = 20480"

definition PSUPresent :: "SCD \<Rightarrow> (string, bool) gomap fallible" where
  "PSUPresent s =
     (if psuBase + 4 > bar_len s then ret (Inl (Fault ''the PSU register at %#x is past the %d-byte BAR''))
      else bnd (read32 (bar_len s) psuBase) (\<lambda>v. ret (Inr [(''psu1?'', bit v 1), (''psu2?'', bit v 0)])))"

section \<open>Temperatures and fans\<close>

definition crowPresentReg :: int where "crowPresentReg = 33"

definition crowRevReg :: int where "crowRevReg = 64"

definition crowTachReg :: "int \<Rightarrow> int" where "crowTachReg n = n * 2"

definition crowPWMReg :: "int \<Rightarrow> int" where "crowPWMReg n = 16 + n"

definition crowIDReg :: "int \<Rightarrow> int" where "crowIDReg n = 24 + n"

definition fanController :: "SCD \<Rightarrow> hal_error + FanController" where
  "fanController s =
     (case smbusMap s of
        None \<Rightarrow> Inl (ErrUnsupported ''fan controller'')
      | Some m \<Rightarrow> (case map_Fans m of None \<Rightarrow> Inl (ErrUnsupported ''fan controller'') | Some f \<Rightarrow> Inr f))"

text \<open>A reading that fails is remembered as the first error and the others go on; the answer is the readings with the
  error, which is only given when there is no reading.\<close>

fun read_sensors :: "SCD \<Rightarrow> SMBusSensor list \<Rightarrow> (string, int) gomap \<Rightarrow> hal_error option \<Rightarrow> ((string, int) gomap \<times> hal_error option) driver" where
  "read_sensors s [] out firstErr = ret (out, if out = [] then firstErr else None)"
| "read_sensors s (sn # sns) out firstErr =
     (case mget SMBusParts (sn_Part sn) of
        None \<Rightarrow> ret (out, Some (Fault ''sensor %q: unknown part %q''))
      | Some reg \<Rightarrow> bnd (ReadReg (smb s) (Accel sn) (Bus sn) (Addr sn) reg) (\<lambda>r. case r of
          Inl e \<Rightarrow> read_sensors s sns out (if firstErr = None then Some (Within ''%s sensor (%s at a%d b%d %#02x): %w'' e) else firstErr)
        | Inr v \<Rightarrow> read_sensors s sns (mput (sn_Name sn) (sint v * 1000) out) firstErr))"

definition Temperatures :: "SCD \<Rightarrow> ((string, int) gomap \<times> hal_error option) driver" where
  "Temperatures s =
     (case smbusMap s of
        None \<Rightarrow> ret ([], Some (ErrUnsupported ''temperature sensors''))
      | Some m \<Rightarrow>
          (if Sensors m = [] then ret ([], Some (ErrUnsupported ''temperature sensors''))
           else read_sensors s (Sensors m) [] None))"

record Fan =
  fan_Index :: int
  Present :: bool
  RPM :: int
  Percent :: int
  fan_Raw :: "8 word \<times> int"

text \<open>One tray. The bit of the presence byte is a byte's bit: past the eighth bay there is none. A scale of zero,
  which the board check refuses, would divide by zero.\<close>

definition read_fan :: "SCD \<Rightarrow> FanController \<Rightarrow> 8 word \<Rightarrow> int \<Rightarrow> Fan driver" where
  "read_fan s fc present i =
     (let rr = ReadReg (smb s) (Accel fc) (Bus fc) (Addr fc)
      in bnd (rr (crowTachReg i)) (\<lambda>lo.
         bnd (rr (crowTachReg i + 1)) (\<lambda>hi.
         let tach = (case (lo, hi) of (Inr l, Inr h) \<Rightarrow> uint l + 256 * uint h | _ \<Rightarrow> 0);
             f = \<lparr>fan_Index = i + 1, Present = (present AND push_bit (nat i) 1 = 0),
                  RPM = (if tach > 0 \<and> tach \<noteq> 65535 then 6000000 div tach else 0), Percent = 0, fan_Raw = (present, tach)\<rparr>
         in bnd (rr (crowPWMReg i)) (\<lambda>pwm. case pwm of
              Inl _ \<Rightarrow> ret f
            | Inr v \<Rightarrow> (if MaxPWM fc = 0 then panic
                else ret (f\<lparr>Percent := min 100 ((uint v * 100) sdiv MaxPWM fc)\<rparr>))))))"

fun read_fans :: "SCD \<Rightarrow> FanController \<Rightarrow> 8 word \<Rightarrow> int list \<Rightarrow> Fan list driver" where
  "read_fans s fc present [] = ret []"
| "read_fans s fc present (i # is) =
     bnd (read_fan s fc present i) (\<lambda>f. bnd (read_fans s fc present is) (\<lambda>fs. ret (f # fs)))"

definition Fans :: "SCD \<Rightarrow> Fan list fallible" where
  "Fans s =
     (case fanController s of
        Inl e \<Rightarrow> ret (Inl e)
      | Inr fc \<Rightarrow> bnd (ReadReg (smb s) (Accel fc) (Bus fc) (Addr fc) crowPresentReg) (\<lambda>r. case r of
          Inl e \<Rightarrow> ret (Inl (Within ''fan controller (CPLD %#02x on a%d b%d): %w'' e))
        | Inr present \<Rightarrow> bnd (read_fans s fc present [0..Count fc - 1]) (\<lambda>fs. ret (Inr fs))))"

definition FanControllerRevision :: "SCD \<Rightarrow> 8 word fallible" where
  "FanControllerRevision s =
     (case fanController s of
        Inl e \<Rightarrow> ret (Inl e)
      | Inr fc \<Rightarrow> ReadReg (smb s) (Accel fc) (Bus fc) (Addr fc) crowRevReg)"

definition fan_percent :: "FanController \<Rightarrow> int \<Rightarrow> int" where
  "fan_percent fc pct = (let p = (if pct > 100 then 100 else pct) in if p < FloorPercent fc then FloorPercent fc else p)"

definition fan_duty :: "FanController \<Rightarrow> int \<Rightarrow> 8 word" where
  "fan_duty fc pct = word_of_int ((fan_percent fc pct * MaxPWM fc) sdiv 100)"

definition setOneFanPercent :: "SCD \<Rightarrow> int \<Rightarrow> int \<Rightarrow> bool fallible" where
  "setOneFanPercent s fan pct =
     (case fanController s of
        Inl e \<Rightarrow> ret (Inl e)
      | Inr fc \<Rightarrow>
          (if fan < 0 \<or> fan \<ge> Count fc then ret (Inl (Fault ''fan %d is outside 0..%d''))
           else bnd (WriteReg (smb s) (Accel fc) (Bus fc) (Addr fc) (crowPWMReg fan) (fan_duty fc pct)) (\<lambda>r. case r of
             Inl e \<Rightarrow> ret (Inl (Within ''setting fan %d to %d%% (pwm %d of %d): %w'' e))
           | Inr _ \<Rightarrow> ret (Inr (min pct 100 < FloorPercent fc)))))"

definition FanFloorPercent :: "SCD \<Rightarrow> int" where
  "FanFloorPercent s = (case fanController s of Inl _ \<Rightarrow> 100 | Inr fc \<Rightarrow> FloorPercent fc)"

definition FanCount :: "SCD \<Rightarrow> int" where
  "FanCount s = (case fanController s of Inl _ \<Rightarrow> 0 | Inr fc \<Rightarrow> Count fc)"

fun set_fans :: "SCD \<Rightarrow> int \<Rightarrow> int list \<Rightarrow> int \<Rightarrow> hal_error option \<Rightarrow> (int \<times> hal_error option) driver" where
  "set_fans s pct [] failed first = ret (failed, first)"
| "set_fans s pct (i # is) failed first =
     bnd (setOneFanPercent s i pct) (\<lambda>r. case r of
       Inl e \<Rightarrow> set_fans s pct is (failed + 1) (if first = None then Some e else first)
     | Inr _ \<Rightarrow> set_fans s pct is failed first)"

definition SCD_SetFanPercent :: "SCD \<Rightarrow> int \<Rightarrow> (int \<times> hal_error option) driver" where
  "SCD_SetFanPercent s pct =
     (case fanController s of
        Inl e \<Rightarrow> ret (0, Some e)
      | Inr fc \<Rightarrow> set_fans s pct [0..Count fc - 1] 0 None)"

section \<open>Transceiver cages\<close>

definition xcvrTXDisable :: "32 word" where "xcvrTXDisable = push_bit 6 1"

definition xcvrQSFPLowPower :: "32 word" where "xcvrQSFPLowPower = push_bit 5 1 OR push_bit 7 1"

definition xcvrModSel :: "32 word" where "xcvrModSel = push_bit 0 1"

datatype Presence = PresenceUnknown | PresenceEmpty | PresentLaserOff | PresentLaserOn

record Cage =
  cage_Index :: int
  cage_Kind :: string
  cage_Raw :: "32 word"
  State :: Presence

definition cageTable :: "SCD \<Rightarrow> hal_error + CageTable" where
  "cageTable s = (case cages s of None \<Rightarrow> Inl (ErrUnsupported ''cage table'') | Some t \<Rightarrow> Inr t)"

definition presence_of :: "32 word \<Rightarrow> Presence" where
  "presence_of v =
     (if v = 0x47 then PresenceEmpty else if v = 0x1c0 then PresentLaserOff else if v = 0x180 then PresentLaserOn
      else PresenceUnknown)"

fun read_cages :: "SCD \<Rightarrow> CageTable \<Rightarrow> int list \<Rightarrow> Cage list driver" where
  "read_cages s t [] = ret []"
| "read_cages s t (i # is) =
     bnd (read32 (bar_len s) (ct_Base t + i * Stride t)) (\<lambda>v.
     bnd (read_cages s t is) (\<lambda>cs.
       ret (\<lparr>cage_Index = i + 1, cage_Kind = (if i \<ge> SFPCount t then ''QSFP+'' else ''SFP+''), cage_Raw = v,
             State = presence_of v\<rparr> # cs)))"

definition Transceivers :: "SCD \<Rightarrow> Cage list fallible" where
  "Transceivers s =
     (case cageTable s of
        Inl e \<Rightarrow> ret (Inl e)
      | Inr t \<Rightarrow>
          (if ct_Base t + ct_Count t * Stride t > bar_len s then ret (Inl (Fault ''the cage table ends at %#x, past the %d-byte BAR''))
           else bnd (read_cages s t [0..ct_Count t - 1]) (\<lambda>cs. ret (Inr cs))))"

definition TXEnabled :: "Cage \<Rightarrow> bool" where
  "TXEnabled c \<longleftrightarrow> cage_Raw c AND xcvrTXDisable = 0"

definition tx_word :: "CageTable \<Rightarrow> int \<Rightarrow> bool \<Rightarrow> 32 word \<Rightarrow> 32 word" where
  "tx_word t cage on before =
     (if on then
        let v = before AND NOT xcvrTXDisable
        in if cage > SFPCount t then v AND NOT xcvrQSFPLowPower OR xcvrModSel else v
      else before OR xcvrTXDisable)"

definition SetTX :: "SCD \<Rightarrow> int \<Rightarrow> bool \<Rightarrow> (32 word \<times> 32 word) fallible" where
  "SetTX s cage on =
     (case cageTable s of
        Inl e \<Rightarrow> ret (Inl e)
      | Inr t \<Rightarrow>
          (if cage < 1 \<or> cage > ct_Count t then ret (Inl (Fault ''cage %d is outside 1..%d''))
           else let off = ct_Base t + (cage - 1) * Stride t
             in if off + 4 > bar_len s then ret (Inl (Fault ''cage %d is past the mapped BAR''))
                else
                  bnd (read32 (bar_len s) off) (\<lambda>before.
                  bnd (write32 (bar_len s) off (tx_word t cage on before)) (\<lambda>_.
                  bnd (read32 (bar_len s) off) (\<lambda>after.
                    if (after AND xcvrTXDisable = 0) \<noteq> on
                    then ret (Inl (Fault ''cage %d transmitter did not change: %#08x -> %#08x, TX_DISABLE still %v''))
                    else ret (Inr (before, after)))))))"

section \<open>Modules\<close>

definition opticsPageSelect :: int where "opticsPageSelect = 127"

definition CageCount :: "SCD \<Rightarrow> int" where
  "CageCount s = (case cageTable s of Inl _ \<Rightarrow> 0 | Inr t \<Rightarrow> ct_Count t)"

fun read_bytes :: "Master \<Rightarrow> int \<Rightarrow> int \<Rightarrow> int \<Rightarrow> int list \<Rightarrow> 8 word list fallible" where
  "read_bytes m accel bus addr [] = ret (Inr [])"
| "read_bytes m accel bus addr (i # is) =
     bnd (ReadReg m accel bus addr i) (\<lambda>r. case r of
       Inl e \<Rightarrow> ret (Inl (Within ''cage %d (accel %d bus %d addr %#02x): reading byte %d: %w'' e))
     | Inr v \<Rightarrow> go_on (read_bytes m accel bus addr is) (\<lambda>vs. ret (Inr (v # vs))))"

definition ReadModuleBytes :: "SCD \<Rightarrow> int \<Rightarrow> int \<Rightarrow> int \<Rightarrow> int \<Rightarrow> int \<Rightarrow> 8 word list fallible" where
  "ReadModuleBytes s cage addr page offset n =
     (case cageTable s of
        Inl e \<Rightarrow> ret (Inl e)
      | Inr t \<Rightarrow>
          (if cage < 1 \<or> cage > ct_Count t then ret (Inl (Fault ''cage %d: this board has %d''))
           else if n \<le> 0 \<or> offset < 0 \<or> offset + n > 256 then
             ret (Inl (Fault ''cage %d: %d bytes at offset %d is outside a 256-byte page''))
           else case CageSMBus t cage of (accel, bus) \<Rightarrow>
             go_on
               (if page \<ge> 0 then
                  bnd (WriteReg (smb s) accel bus addr opticsPageSelect (word_of_int page)) (\<lambda>r. case r of
                    Inl e \<Rightarrow> ret (Inl (Within ''cage %d: selecting page %d: %w'' e))
                  | Inr _ \<Rightarrow> ret (Inr ()))
                else ret (Inr ()))
               (\<lambda>_. read_bytes (smb s) accel bus addr [offset..offset + n - 1])))"

definition ModuleKindHint :: "SCD \<Rightarrow> int \<Rightarrow> Kind" where
  "ModuleKindHint s cage =
     (case cageTable s of
        Inl _ \<Rightarrow> UnknownKind
      | Inr t \<Rightarrow>
          (if cage < 1 \<or> cage > ct_Count t then UnknownKind else if cage > SFPCount t then QSFP else SFP))"

end
