(* ===== verification/Scd_Safety.thy ===== *)
theory Scd_Safety
  imports Scd "HOL-Library.Sublist"
begin

text \<open>
  What the board controller's driver can and cannot do to the board, for any behaviour of the hardware behind the
  registers: the fans, the watchdog, the transmitters and the reset lines.
\<close>

definition demo_fans :: FanController where
  "demo_fans = \<lparr>Accel = 0, Bus = 1, Addr = 96, fc_Part = ''crow'', Count = 4, MaxPWM = 180, FloorPercent = 30\<rparr>"

definition demo_cages :: CageTable where
  "demo_cages = \<lparr>ct_Base = 40976, Stride = 16, ct_Count = 54, SFPCount = 48,
     SFPEEPROM = Some \<lparr>AccelBase = 2, BusesPerAccel = 8\<rparr>, QSFPEEPROM = Some \<lparr>AccelBase = 8, BusesPerAccel = 6\<rparr>\<rparr>"

definition demo_board :: SCD where
  "demo_board = \<lparr>bar_len = 65536,
     smbusMap = Some \<lparr>Accelerators = [], Sensors = [\<lparr>Accel = 0, Bus = 0, Addr = 76, sn_Name = ''board'', sn_Part = ''max6658''\<rparr>],
       map_Fans = Some demo_fans, Retimer = None\<rparr>,
     cages = Some demo_cages, resets = [\<lparr>rl_Name = ''qsfp-retimer'', Bit = 8\<rparr>]\<rparr>"

lemmas demo_defs = demo_board_def demo_fans_def demo_cages_def

section \<open>What the fans are told\<close>

lemma fan_percent_bounds:
  "FloorPercent fc \<le> 100 \<Longrightarrow> FloorPercent fc \<le> fan_percent fc pct \<and> fan_percent fc pct \<le> 100"
  by (auto simp: fan_percent_def Let_def)

lemma fan_duty_value:
  assumes "validate_fans fc = None"
  shows "uint (fan_duty fc pct) = fan_percent fc pct * MaxPWM fc div 100"
proof -
  have b: "1 \<le> MaxPWM fc" "MaxPWM fc \<le> 255" "1 \<le> FloorPercent fc" "FloorPercent fc \<le> 100"
    using assms by (simp_all add: validate_fans_ok)
  have p: "0 \<le> fan_percent fc pct" "fan_percent fc pct \<le> 100"
    using fan_percent_bounds [OF b(4), of pct] b(3) by simp_all
  then have "fan_percent fc pct * MaxPWM fc \<le> 100 * 255" using b by (intro mult_mono) simp_all
  then have "fan_percent fc pct * MaxPWM fc div 100 \<le> 255" by simp
  moreover have "0 \<le> fan_percent fc pct * MaxPWM fc" using p b by simp
  ultimately show ?thesis
    by (simp add: fan_duty_def sdiv_int uint_word_of_int_eq take_bit_int_eq_self_iff)
qed

lemma fan_duty_bounds:
  assumes "validate_fans fc = None"
  shows "FloorPercent fc * MaxPWM fc div 100 \<le> uint (fan_duty fc pct)" and "uint (fan_duty fc pct) \<le> MaxPWM fc"
    and "pct \<le> pct' \<Longrightarrow> uint (fan_duty fc pct) \<le> uint (fan_duty fc pct')"
proof -
  have b: "1 \<le> MaxPWM fc" "FloorPercent fc \<le> 100" using assms by (simp_all add: validate_fans_ok)
  note f = fan_percent_bounds [OF b(2)]
  show "FloorPercent fc * MaxPWM fc div 100 \<le> uint (fan_duty fc pct)"
    unfolding fan_duty_value [OF assms] using f [of pct] b by (intro zdiv_mono1 mult_right_mono) simp_all
  have "fan_percent fc pct * MaxPWM fc div 100 \<le> 100 * MaxPWM fc div 100"
    using f [of pct] b by (intro zdiv_mono1 mult_right_mono) simp_all
  then show "uint (fan_duty fc pct) \<le> MaxPWM fc" unfolding fan_duty_value [OF assms] by simp
  show "uint (fan_duty fc pct) \<le> uint (fan_duty fc pct')" if "pct \<le> pct'"
  proof -
    have "fan_percent fc pct \<le> fan_percent fc pct'" using that by (auto simp: fan_percent_def Let_def)
    then show ?thesis unfolding fan_duty_value [OF assms] using b by (intro zdiv_mono1 mult_right_mono) simp_all
  qed
qed

definition pwm_writes :: "FanController \<Rightarrow> int \<Rightarrow> int list \<Rightarrow> 32 word list" where
  "pwm_writes fc pct is = concat (map (\<lambda>i. write_words (Bus fc) (Addr fc) (crowPWMReg i) (fan_duty fc pct)) is)"

lemma spec_setOne:
  assumes fc: "fanController s = Inr fc" and al: "aligned (smb s) (Accel fc)" and i: "0 \<le> i" "i < Count fc"
  shows "spec (setOneFanPercent s i pct) (\<lambda>r new. r \<noteq> None \<and> list_all (of_accelerator (base_of (smb s) (Accel fc))) new \<and>
     (sent (base_of (smb s) (Accel fc)) new = pwm_writes fc pct [i] \<or>
      sent (base_of (smb s) (Accel fc)) new = [] \<and> (\<exists>e. r = Some (Inl e))))"
  using keeps_to_WriteReg [OF al, of "Bus fc" "Addr fc" "crowPWMReg i" "fan_duty fc pct"] i
  unfolding keeps_to_def setOneFanPercent_def fc
  by (simp, elim spec_bnd) (auto split: sum.split intro!: spec_ret simp: pwm_writes_def)

lemma pwm_writes_append: "pwm_writes fc pct (is @ js) = pwm_writes fc pct is @ pwm_writes fc pct js"
  by (simp add: pwm_writes_def)

text \<open>Which fans a command reached, how many refused, and the error returned with that.\<close>

definition fans_told :: "SCD \<Rightarrow> FanController \<Rightarrow> int \<Rightarrow> int list \<Rightarrow> int \<Rightarrow> (int \<times> hal_error option) option \<Rightarrow> access list \<Rightarrow> bool" where
  "fans_told s fc pct bays failed r new \<longleftrightarrow>
     (\<exists>js failed' err. r = Some (failed', err) \<and> subseq js bays \<and>
       list_all (of_accelerator (base_of (smb s) (Accel fc))) new \<and> sent (base_of (smb s) (Accel fc)) new = pwm_writes fc pct js \<and>
       int (length bays) - int (length js) \<le> failed' - failed \<and> failed \<le> failed' \<and> (err = None) = (failed' = 0))"

lemma fans_told_Cons:
  assumes "fans_told s fc pct bays failed' r new'" and "list_all (of_accelerator (base_of (smb s) (Accel fc))) new"
    and "sent (base_of (smb s) (Accel fc)) new = pwm_writes fc pct [i] \<and> failed \<le> failed' \<or>
         sent (base_of (smb s) (Accel fc)) new = [] \<and> failed' = failed + 1"
  shows "fans_told s fc pct (i # bays) failed r (new @ new')"
proof -
  obtain js f err where js: "r = Some (f, err)" "subseq js bays" "list_all (of_accelerator (base_of (smb s) (Accel fc))) new'"
      "sent (base_of (smb s) (Accel fc)) new' = pwm_writes fc pct js" "int (length bays) - int (length js) \<le> f - failed'" "failed' \<le> f"
      "(err = None) = (f = 0)"
    using assms(1) unfolding fans_told_def by blast
  from assms(3) show ?thesis
  proof
    assume h: "sent (base_of (smb s) (Accel fc)) new = pwm_writes fc pct [i] \<and> failed \<le> failed'"
    then have "sent (base_of (smb s) (Accel fc)) (new @ new') = pwm_writes fc pct (i # js)"
      using js pwm_writes_append [of fc pct "[i]" js] by simp
    moreover have "subseq (i # js) (i # bays)" using js by simp
    ultimately show ?thesis using js h assms(2) unfolding fans_told_def
      by (intro exI [of _ "i # js"] exI [of _ f] exI [of _ err]) auto
  next
    assume h: "sent (base_of (smb s) (Accel fc)) new = [] \<and> failed' = failed + 1"
    moreover have "subseq js (i # bays)" using js by (simp add: list_emb_Cons)
    ultimately show ?thesis using js assms(2) unfolding fans_told_def
      by (intro exI [of _ js] exI [of _ f] exI [of _ err]) auto
  qed
qed

lemma spec_set_fans:
  assumes fc: "fanController s = Inr fc" and al: "aligned (smb s) (Accel fc)" and "\<forall>i \<in> set bays. 0 \<le> i \<and> i < Count fc"
    and "0 \<le> failed" "(first = None) = (failed = 0)"
  shows "spec (set_fans s pct bays failed first) (fans_told s fc pct bays failed)"
  using assms(3-)
proof (induction bays arbitrary: failed first)
  case Nil
  then show ?case by (auto intro!: spec_ret exI [of _ "[]"] simp: fans_told_def pwm_writes_def)
next
  case (Cons i bays)
  then have one: "spec (setOneFanPercent s i pct) (\<lambda>r new. r \<noteq> None \<and> list_all (of_accelerator (base_of (smb s) (Accel fc))) new \<and>
     (sent (base_of (smb s) (Accel fc)) new = pwm_writes fc pct [i] \<or>
      sent (base_of (smb s) (Accel fc)) new = [] \<and> (\<exists>e. r = Some (Inl e))))"
    by (intro spec_setOne [OF fc al]) simp_all
  have more: "spec (set_fans s pct bays f e) (fans_told s fc pct bays f)" if "0 \<le> f" "(e = None) = (f = 0)" for f e
    using Cons.IH [of f e] Cons.prems that by simp
  show ?case
    unfolding set_fans.simps
    by (rule spec_bnd [OF one]) (use Cons.prems in \<open>auto split: sum.split intro!: spec_weaken [OF more] fans_told_Cons\<close>)
qed



text \<open>The controller has eight bays' worth of registers: the board check accepts sixteen, and the ninth bay's PWM
  register is the first bay's identity register, its tachometer the first bay's PWM, and its presence bit is not in
  the byte that is read.\<close>

lemma ninth_bay:
  "crowPWMReg 8 = crowIDReg 0 \<and> crowTachReg 8 = crowPWMReg 0 \<and> present AND push_bit 8 (1 :: 8 word) = 0 \<and>
   validate_fans (demo_fans\<lparr>Count := 9\<rparr>) = None"
proof -
  have "push_bit 8 (1 :: 8 word) = 0" by (rule bit_word_eqI) (simp only: bit_push_bit_iff possible_bit_word bit_1_iff; auto)
  then show ?thesis
    by (simp only:) (simp add: crowPWMReg_def crowIDReg_def crowTachReg_def validate_fans_def SMBusAddr_validate_def demo_fans_def)
qed

section \<open>The watchdog\<close>

text \<open>A register that holds what was written to it.\<close>

definition holds :: "device \<Rightarrow> int \<Rightarrow> bool" where
  "holds dev off \<longleftrightarrow> (\<forall>tr v new. off \<notin> fst ` set (writes new) \<longrightarrow> dev (tr @ Wr off v # new) off = v)"

definition armed_word :: "int \<Rightarrow> 32 word \<Rightarrow> 32 word" where
  "armed_word t v = wdEnable OR wdActionPowerCycle OR word_of_int (t div 10) OR (v AND wdHighMask)"

lemma wd_masks: "wdTimeoutMask = mask 16" "wdHighMask = push_bit 16 (mask 13)" "(2 :: 32 word) = push_bit 1 1"
  by (simp_all add: wdTimeoutMask_def wdHighMask_def mask_eq_exp_minus_1)

lemma small_bits: "0 \<le> (k :: int) \<Longrightarrow> k < 2 ^ n \<Longrightarrow> bit k i \<Longrightarrow> i < n"
  by (metis bit_take_bit_iff take_bit_int_eq_self)

lemma armed_word_fields:
  assumes "10 \<le> t" "t \<le> 655350"
  shows "bit (armed_word t v) 31" and "armed_word t v AND wdTimeoutMask = word_of_int (t div 10)"
    and "bit (armed_word t v) 30" and "\<not> bit (armed_word t v) 29" and "armed_word t v AND wdHighMask = v AND wdHighMask"
    and "uint (word_of_int (t div 10) :: 32 word) = t div 10"
proof -
  have k: "0 \<le> t div 10" "t div 10 < 2 ^ 16" using assms by simp_all
  note low = small_bits [OF k]
  have b31: "bit wdEnable i \<longleftrightarrow> i = 31" for i unfolding wdEnable_def by (simp only: bit_push_bit_iff bit_1_iff possible_bit_word) auto
  have b30: "bit wdActionPowerCycle i \<longleftrightarrow> i = 30" for i unfolding wdActionPowerCycle_def wd_masks(3) by (simp only: bit_push_bit_iff bit_1_iff possible_bit_word) auto
  show "bit (armed_word t v) 31" by (simp add: armed_word_def bit_or_iff b31)
  show "armed_word t v AND wdTimeoutMask = word_of_int (t div 10)"
    by (rule bit_word_eqI) (auto simp: armed_word_def wd_masks(1,2) bit_simps b31 b30 dest: low)
  show "armed_word t v AND wdHighMask = v AND wdHighMask"
    by (rule bit_word_eqI) (auto simp: armed_word_def wd_masks(1,2) bit_simps b31 b30 dest: low)
  show "bit (armed_word t v) 30" by (simp add: armed_word_def bit_or_iff b30)
  show "\<not> bit (armed_word t v) 29"
    by (auto simp: armed_word_def wd_masks(2) bit_simps b31 b30 dest: low)
  show "uint (word_of_int (t div 10) :: 32 word) = t div 10"
    using k by (simp add: uint_word_of_int_eq take_bit_int_eq_self_iff)
qed

definition valid_timeout :: "int \<Rightarrow> bool" where
  "valid_timeout t \<longleftrightarrow> 10 \<le> t \<and> t \<le> 655350 \<and> t mod 10 = 0"

lemma Arm_cases:
  assumes "bar_check (bar_len s) watchdogReg"
  shows "Arm s t dev tr =
    (if valid_timeout t then
       let before = dev tr watchdogReg; tr' = tr @ [Rd watchdogReg before, Wr watchdogReg (armed_word t before)]; w = dev tr' watchdogReg
       in (Some (if w AND wdEnable = 0 then Inl (Fault ''the watchdog did not arm; it reads back disabled'')
                 else if uint (w AND wdTimeoutMask) * 10 \<noteq> t then Inl (Fault ''the watchdog armed with %d ms, not the %d ms asked for'')
                 else Inr ()), tr' @ [Rd watchdogReg w])
     else (Some (Inl (Fault (if t < 10 \<or> t > 655350 then ''watchdog timeout %d ms is outside %d..%d ms''
         else ''watchdog timeout %d ms is not a multiple of %d ms, which is this register's resolution''))), tr))"
proof -
  have "uint wdTimeoutMask * wdTimeoutUnitMS = 655350" by (simp add: wdTimeoutMask_def wdTimeoutUnitMS_def)
  then show ?thesis
    using assms
    by (simp add: Arm_def Armed_def Let_def bnd_def ret_def read32_def write32_def valid_timeout_def wdTimeoutUnitMS_def
        armed_word_def)
qed

lemma and_wdEnable: "w AND wdEnable = 0 \<longleftrightarrow> \<not> bit w 31"
  unfolding wdEnable_def bit_iff_and_push_bit_not_eq_0 by simp


definition kept_device :: device where
  "kept_device tr off = fold (\<lambda>(a, v) x. if a = off then v else x) (writes tr) 0"

lemma holds_kept: "holds kept_device off"
proof -
  have "off \<notin> fst ` set ws \<Longrightarrow> fold (\<lambda>(a, v) x. if a = off then v else x) ws y = y" for ws and y :: "32 word"
    by (induction ws arbitrary: y) auto
  then show ?thesis by (simp add: holds_def kept_device_def)
qed


section \<open>Transmitters\<close>

lemma xcvr_bits: "bit xcvrTXDisable n \<longleftrightarrow> n = 6" "bit xcvrQSFPLowPower n \<longleftrightarrow> n = 5 \<or> n = 7" "bit xcvrModSel n \<longleftrightarrow> n = 0"
  unfolding xcvrTXDisable_def xcvrQSFPLowPower_def xcvrModSel_def
  by (simp only: bit_or_iff bit_push_bit_iff bit_1_iff possible_bit_word; auto)+

lemma tx_word_bits:
  assumes "n < 32"
  shows "bit (tx_word t cage on v) n \<longleftrightarrow>
    (if n = 6 then \<not> on
     else if on \<and> cage > SFPCount t \<and> n \<in> {0, 5, 7} then n = 0 else bit v n)"
  using assms by (auto simp: tx_word_def Let_def bit_simps xcvr_bits)

text \<open>Turning a transmitter on or off touches one register. Whatever the hardware answers, the only access but reads
  is at most one write, to the cage's own word, of the word just read with bit 6 changed to what was asked; on a
  QSFP cage that is turned on the low-power and reset bits are cleared and module select is set as well, and every
  other bit is as it was. Success is reported exactly when the word then reads with bit 6 as asked.\<close>

theorem SetTX_one_word:
  assumes "cages s = Some t" and "CageTable_Validate (Some t) = None" and "ct_Base t mod 4 = 0" and "Stride t mod 4 = 0"
    and "1 \<le> cage" and "cage \<le> ct_Count t"
  shows "(\<exists>e. SetTX s cage on dev tr = (Some (Inl e), tr)) \<or>
    (\<exists>r v w after. let off = ct_Base t + (cage - 1) * Stride t in
       SetTX s cage on dev tr = (Some r, tr @ [Rd off v, Wr off w, Rd off after]) \<and>
       (\<forall>n < 32. bit w n \<longleftrightarrow> (if n = 6 then \<not> on
          else if on \<and> cage > SFPCount t \<and> n \<in> {0, 5, 7} then n = 0 else bit v n)) \<and>
       (r = Inr (v, after) \<longleftrightarrow> (\<not> bit after 6) = on))"
proof (cases "ct_Base t + (cage - 1) * Stride t + 4 > bar_len s")
  case False
  let ?off = "ct_Base t + (cage - 1) * Stride t"
  have b: "0 < ct_Base t" "0 < Stride t" using assms(2) by (auto simp: CageTable_Validate_def split: if_splits)
  have "?off mod 4 = 0" using assms(3,4) by (metis add_0 mod_add_left_eq mod_add_right_eq mod_mult_right_eq mult_zero_right mod_0)
  moreover have "0 \<le> ?off" using b assms(5) by simp
  ultimately have bar: "bar_check (bar_len s) ?off" using False by (simp add: bar_check_def)
  have six: "x AND xcvrTXDisable = 0 \<longleftrightarrow> \<not> bit x 6" for x
    unfolding xcvrTXDisable_def bit_iff_and_push_bit_not_eq_0 by simp
  show ?thesis
    using False assms(1,5,6) bar
    by (intro disjI2) (auto simp: SetTX_def cageTable_def Let_def bnd_def ret_def read32_def write32_def six tx_word_bits)
qed (use assms in \<open>simp add: SetTX_def cageTable_def Let_def ret_def\<close>)

theorem SetTX_one_word_witness:
  "\<exists>r v w after. SetTX demo_board 49 True (\<lambda>_ _. 255) [] = (Some r, [Rd 41744 v, Wr 41744 w, Rd 41744 after]) \<and>
     bit w 0 \<and> \<not> bit w 5 \<and> \<not> bit w 6 \<and> \<not> bit w 7"
proof -
  have "\<not> (\<exists>e. SetTX demo_board 49 True (\<lambda>_ _. 255) [] = (Some (Inl e), []))"
    by (simp add: SetTX_def demo_defs cageTable_def bnd_def read32_def write32_def bar_check_def ret_def)
  then show ?thesis
    using SetTX_one_word [of demo_board demo_cages 49 True "\<lambda>_ _. 255" "[]"]
    by (fastforce simp: demo_defs CageTable_Validate_def validate_eeprom_def Let_def)
qed

section \<open>Reset lines\<close>

lemma quiet_look: "quiet absent \<Longrightarrow> quiet (look_for_chip os c absent)"
  unfolding look_for_chip_def by (auto intro!: quiet_bnd quiet_ask_os quiet_ret split: sum.split)

lemma reset_block: "16420 \<le> len \<Longrightarrow> bar_check len resetBase \<and> bar_check len resetClear \<and> bar_check len resetStatus"
  by (simp add: bar_check_def resetBase_def resetClear_def resetStatus_def)

lemma quiet_wait: "16420 \<le> bar_len s \<Longrightarrow> quiet (wait_for_chip s os c n)"
  by (induction n) (auto intro!: quiet_look quiet_bnd quiet_read32 quiet_ask_os quiet_ret simp: reset_block)

lemma quiet_enable: "16420 \<le> bar_len s \<Longrightarrow> quiet (enableAndWaitFrom s os c n)" "16420 \<le> bar_len s \<Longrightarrow> quiet (enableAndWait s os c n)"
  unfolding enableAndWait_def enableAndWaitFrom_def
  by (auto intro!: quiet_bnd quiet_read32 quiet_ask_os quiet_wait quiet_ret simp: reset_block)

lemma release_lines_run:
  assumes "16420 \<le> bar_len s"
  shows "\<exists>new. release_lines s before rs dev tr = (Some (), tr @ new) \<and>
    writes new = map (\<lambda>l. (resetClear, push_bit (Bit l) 1)) (filter (\<lambda>l. before AND push_bit (Bit l) 1 \<noteq> 0) rs)"
proof (induction rs arbitrary: tr)
  case (Cons r rs)
  show ?case
  proof (cases "before AND push_bit (Bit r) 1 = 0")
    case False
    let ?tr = "tr @ [Wr resetClear (push_bit (Bit r) 1), Rd resetBase (dev (tr @ [Wr resetClear (push_bit (Bit r) 1)]) resetBase)]"
    obtain new where "release_lines s before rs dev ?tr = (Some (), ?tr @ new)"
      "writes new = map (\<lambda>l. (resetClear, push_bit (Bit l) 1)) (filter (\<lambda>l. before AND push_bit (Bit l) 1 \<noteq> 0) rs)"
      using Cons by blast
    then show ?thesis using False reset_block [OF assms] by (auto simp: bnd_def write32_def read32_def)
  qed (use Cons in simp)
qed (simp add: ret_def)

lemma release_chip_run:
  assumes "16420 \<le> bar_len s"
  shows "\<exists>r v rest. release_chip s os c n before dev tr =
      (Some r, tr @ [Wr resetClear (push_bit bitSwitchCore 1), Rd resetBase v, Act ''pcieResetDelay''] @ rest) \<and>
    (rest = [] \<and> isl r \<or> (\<exists>rest'. rest = Wr resetClear (push_bit bitSwitchPCIe 1) # rest' \<and> writes rest' = []))"
proof -
  note bars = reset_block [OF assms]
  define tail where "tail = bnd (read32 (bar_len s) resetBase) (\<lambda>after. bnd (read32 (bar_len s) resetStatus) (\<lambda>_.
      if after = before then ret (Inl (Fault ''the reset register did not change: it read %#08x before and after both writes''))
      else bnd (ask_os os ''rescanDelay'') (\<lambda>ok. if \<not> ok then ret (Inl (Fault ''context'')) else enableAndWaitFrom s os c n)))"
  have "quiet tail"
    unfolding tail_def using assms bars by (auto intro!: quiet_bnd quiet_read32 quiet_ask_os quiet_enable quiet_ret)
  let ?v = "dev (tr @ [Wr resetClear (push_bit bitSwitchCore 1)]) resetBase"
  let ?tr = "tr @ [Wr resetClear (push_bit bitSwitchCore 1), Rd resetBase ?v, Act ''pcieResetDelay'']"
  obtain r new where "tail dev (?tr @ [Wr resetClear (push_bit bitSwitchPCIe 1)]) = (Some r, (?tr @ [Wr resetClear (push_bit bitSwitchPCIe 1)]) @ new)"
      "writes new = []"
    using quietD [OF \<open>quiet tail\<close>] by blast
  moreover have "release_chip s os c n before dev tr =
      (if os (tr @ [Wr resetClear (push_bit bitSwitchCore 1), Rd resetBase ?v]) ''pcieResetDelay''
       then tail dev (?tr @ [Wr resetClear (push_bit bitSwitchPCIe 1)]) else (Some (Inl (Fault ''context'')), ?tr))"
    using bars by (simp add: release_chip_def tail_def [symmetric] bnd_def [of "write32 _ _ _"] bnd_def [of "ask_os _ ''pcieResetDelay''"]
        bnd_def [of "read32 _ _" "\<lambda>_. bnd (ask_os _ _) _"] write32_def read32_def ask_os_def ret_def)
  ultimately show ?thesis by auto
qed



section \<open>Temperatures\<close>

lemma in_mput: "p \<in> set (mput k v m) \<Longrightarrow> p = (k, v) \<or> p \<in> set m"
  by (induction m) (auto split: if_splits)

text \<open>Reading the sensors never panics, and every reading is a sensor of the board's, in whole degrees of a signed byte.\<close>

lemma read_sensors_total:
  assumes "\<forall>sn \<in> set sns. aligned (smb s) (Accel sn)" and "\<forall>n t. (n, t) \<in> set out \<longrightarrow> n \<in> names \<and> - 128000 \<le> t \<and> t \<le> 127000"
    and "sn_Name ` set sns \<subseteq> names"
  shows "\<exists>temps err. fst (read_sensors s sns out e dev tr) = Some (temps, err) \<and>
    (\<forall>n t. (n, t) \<in> set temps \<longrightarrow> n \<in> names \<and> - 128000 \<le> t \<and> t \<le> 127000)"
  using assms
proof (induction sns arbitrary: out e tr)
  case (Cons sn sns)
  have byte: "- 128000 \<le> sint (v :: 8 word) * 1000 \<and> sint v * 1000 \<le> 127000" for v
    using sint_ge [of v] sint_lt [of v] by simp
  show ?case
  proof (cases "mget SMBusParts (sn_Part sn)")
    case (Some reg)
    obtain r new where r: "ReadReg (smb s) (Accel sn) (Bus sn) (Addr sn) reg dev tr = (Some r, tr @ new)"
      using keeps_toD [OF keeps_to_ReadReg] Cons.prems(1) by (metis list.set_intros(1))
    have put: "\<forall>n t. (n, t) \<in> set (mput (sn_Name sn) (sint v * 1000) out) \<longrightarrow> n \<in> names \<and> - 128000 \<le> t \<and> t \<le> 127000" for v :: "8 word"
      using Cons.prems(2,3) byte [of v] by (auto dest!: in_mput)
    show ?thesis
      using r Some Cons.IH [OF _ Cons.prems(2)] Cons.IH [OF _ put] Cons.prems(1,3) by (cases r) (auto simp: bnd_def)
  qed (use Cons.prems(2) in \<open>auto simp: ret_def\<close>)
qed (auto simp: ret_def)

section \<open>The chip's command register\<close>

text \<open>Enabling the chip's memory decoding writes at most one word, the command register with that one bit set: in
  particular bus mastering is as it was.\<close>

lemma enableMemorySpace_one_bit:
  assumes "snd (enableMemorySpace c) = Some v"
  shows "\<exists>before. cfg_before c = Some before \<and> \<not> bit before 1 \<and> (\<forall>n < 16. bit v n \<longleftrightarrow> n = 1 \<or> bit before n)"
proof -
  have m: "bit pciCmdMemorySpace n \<longleftrightarrow> n = 1" for n
    unfolding pciCmdMemorySpace_def by (simp only: bit_push_bit_iff bit_1_iff possible_bit_word) auto
  have z: "x AND pciCmdMemorySpace = 0 \<longleftrightarrow> \<not> bit x 1" for x
    unfolding pciCmdMemorySpace_def bit_iff_and_push_bit_not_eq_0 by simp
  show ?thesis
    using assms by (auto simp: enableMemorySpace_def Let_def bit_or_iff m z split: if_splits option.splits)
qed

end
