(* ===== verification/Scd_Panel.thy ===== *)
theory Scd_Panel
  imports Scd Site_Config
begin

text \<open>
  The parts of the board controller's driver that need data generated on the switch: the chassis lamps,
  \<^verbatim>\<open>scd/statusled.go\<close>, and the signal repeater, \<^verbatim>\<open>scd/retimer.go\<close>. A file is its bytes, or \<open>None\<close> where it does
  not open; both readers skip what is not a definition as the source does. \<open>ParseUint\<close> is \<^verbatim>\<open>strconv.ParseUint\<close>, its
  two errors told apart by no caller here.
\<close>

section \<open>Unsigned numbers\<close>

definition lower :: "char \<Rightarrow> nat" where
  "lower c = (of_char c :: nat) OR 32"

definition digit_of :: "char \<Rightarrow> int option" where
  "digit_of c =
     (if isDigit c then Some (int (digit_val c))
      else if 97 \<le> lower c \<and> lower c \<le> 122 then Some (int (lower c) - 97 + 10)
      else None)"

fun parse_digits :: "bool \<Rightarrow> int \<Rightarrow> int \<Rightarrow> string \<Rightarrow> int \<Rightarrow> int option" where
  "parse_digits base0 base limit [] n = Some n"
| "parse_digits base0 base limit (c # cs) n =
     (if c = CHR ''_'' \<and> base0 then parse_digits base0 base limit cs n
      else case digit_of c of
        None \<Rightarrow> None
      | Some d \<Rightarrow> (if d \<ge> base \<or> n * base + d > limit then None else parse_digits base0 base limit cs (n * base + d)))"

text \<open>\<^verbatim>\<open>underscoreOK\<close>: an underscore stands between digits, or a base prefix and a digit.\<close>

fun underscores_between :: "bool \<Rightarrow> char \<Rightarrow> string \<Rightarrow> bool" where
  "underscores_between hex i [] = (i \<noteq> CHR ''_'')"
| "underscores_between hex i (c # cs) =
     (if isDigit c \<or> hex \<and> 97 \<le> lower c \<and> lower c \<le> 102 then underscores_between hex (CHR ''0'') cs
      else if c = CHR ''_'' then i = CHR ''0'' \<and> underscores_between hex (CHR ''_'') cs
      else i \<noteq> CHR ''_'' \<and> underscores_between hex (CHR ''!'') cs)"

definition base_prefix :: "string \<Rightarrow> int option" where
  "base_prefix s =
     (case s of
        z # b # _ \<Rightarrow>
          (if z \<noteq> CHR ''0'' then None else if lower b = 98 then Some 2 else if lower b = 111 then Some 8 else if lower b = 120 then Some 16 else None)
      | _ \<Rightarrow> None)"

definition underscoreOK :: "string \<Rightarrow> bool" where
  "underscoreOK s0 =
     (let s = (if s0 \<noteq> [] \<and> hd s0 \<in> {CHR ''-'', CHR ''+''} then tl s0 else s0)
      in case base_prefix s of
        Some b \<Rightarrow> underscores_between (b = 16) (CHR ''0'') (drop 2 s)
      | None \<Rightarrow> underscores_between False (CHR ''^'') s)"

definition ParseUint :: "string \<Rightarrow> int \<Rightarrow> nat \<Rightarrow> int option" where
  "ParseUint s base bits =
     (if s = [] then None
      else if base \<noteq> 0 then parse_digits False base (2 ^ bits - 1) s 0
      else
        let (b, rest) =
          (case (base_prefix s, length s \<ge> 3) of
             (Some b, True) \<Rightarrow> (b, drop 2 s)
           | _ \<Rightarrow> if hd s = CHR ''0'' then (8, tl s) else (10, s))
        in if CHR ''_'' \<in> set rest \<and> \<not> underscoreOK s then None else parse_digits True b (2 ^ bits - 1) rest 0)"

text \<open>\<^verbatim>\<open>bufio.Scanner\<close>: the lines up to one that is too long, and whether it came to that.\<close>

definition scanned :: "string \<Rightarrow> string list \<times> bool" where
  "scanned b = (let ls = scan_lines b in (map drop_cr (takeWhile (\<lambda>l. \<not> too_long l) ls), list_ex too_long ls))"

section \<open>The repeater\<close>

definition retimerPowerDown :: int where "retimerPowerDown = 1"

definition retimerRegCtl :: int where "retimerRegCtl = 6"

definition retimerPinCtl :: int where "retimerPinCtl = 8"

definition retimerChannelBase :: "int list" where
  "retimerChannelBase = [0x0f, 0x16, 0x1d, 0x24, 0x2c, 0x33, 0x3a, 0x41]"

record RetimerTuning =
  PinControl :: "8 word"
  DisableCRC :: "8 word"
  VODLow :: "8 word"
  VODHigh :: "8 word"
  DEMLow :: "8 word"
  DEMHigh :: "8 word"
  EQ :: "8 word"

definition TrimPrefix :: "string \<Rightarrow> string \<Rightarrow> string" where
  "TrimPrefix s p = (if prefix p s then drop (length p) s else s)"

definition tuning_value :: "string \<Rightarrow> int option" where
  "tuning_value v =
     (case ParseUint (TrimSpace (TrimPrefix (TrimSpace v) ''0x'')) 16 8 of
        Some n \<Rightarrow> Some n
      | None \<Rightarrow> ParseUint (TrimSpace v) 10 8)"

definition tuning_pair :: "string \<Rightarrow> (string \<times> string) option" where
  "tuning_pair line =
     (case Cut (CHR ''='') line of
        (k, v, True) \<Rightarrow> Some (k, v)
      | _ \<Rightarrow> (case Cut (CHR '' '') line of (k, v, True) \<Rightarrow> Some (k, v) | _ \<Rightarrow> None))"

fun tuning_lines :: "string list \<Rightarrow> (string, 8 word) gomap \<Rightarrow> hal_error + (string, 8 word) gomap" where
  "tuning_lines [] got = Inr got"
| "tuning_lines (l # ls) got =
     (let line = TrimSpace l
      in if line = [] \<or> HasPrefix line ''#'' then tuning_lines ls got
         else case tuning_pair line of
           None \<Rightarrow> tuning_lines ls got
         | Some (k, v) \<Rightarrow>
             (case tuning_value v of
                None \<Rightarrow> Inl (Fault ''%s: %q is not a byte'')
              | Some n \<Rightarrow> tuning_lines ls (mput (TrimSpace k) (word_of_int n) got)))"

definition tuning_keys :: "string list" where
  "tuning_keys = [''pin_control'', ''disable_crc'', ''vod_low'', ''vod_high'', ''dem_low'', ''dem_high'', ''eq'']"

definition LoadRetimerTuning :: "string option \<Rightarrow> hal_error + RetimerTuning" where
  "LoadRetimerTuning file =
     (case file of
        None \<Rightarrow> Inl (Fault ''%w: no %s'')
      | Some b \<Rightarrow>
          (case tuning_lines (fst (scanned b)) [] of
             Inl e \<Rightarrow> Inl e
           | Inr got \<Rightarrow>
               (if list_ex (\<lambda>k. mget got k = None) tuning_keys then Inl (Fault ''%s: no %s'')
                else let at = (\<lambda>k. the (mget got k))
                  in Inr \<lparr>PinControl = at ''pin_control'', DisableCRC = at ''disable_crc'', VODLow = at ''vod_low'', VODHigh = at ''vod_high'',
                          DEMLow = at ''dem_low'', DEMHigh = at ''dem_high'', EQ = at ''eq''\<rparr>)))"

definition retimer_of :: "SCD \<Rightarrow> hal_error + SMBusAddr" where
  "retimer_of s =
     (case smbusMap s of
        None \<Rightarrow> Inl (ErrUnsupported ''repeater'')
      | Some m \<Rightarrow> (case Retimer m of None \<Rightarrow> Inl (ErrUnsupported ''repeater'') | Some a \<Rightarrow> Inr a))"

fun write_registers :: "Master \<Rightarrow> SMBusAddr \<Rightarrow> (int \<times> 8 word) list \<Rightarrow> unit fallible" where
  "write_registers m a [] = ret (Inr ())"
| "write_registers m a ((reg, v) # ws) =
     bnd (WriteReg m (Accel a) (Bus a) (Addr a) reg v) (\<lambda>r. case r of
       Inl e \<Rightarrow> ret (Inl (Within ''repeater %#02x reg %#02x (%s): %w'' e))
     | Inr _ \<Rightarrow> write_registers m a ws)"

definition channel_writes :: "RetimerTuning \<Rightarrow> nat \<Rightarrow> int \<Rightarrow> (int \<times> 8 word) list" where
  "channel_writes t i base =
     [(base, EQ t), (base + 1, if i \<ge> 4 then VODHigh t else VODLow t), (base + 2, if i \<ge> 4 then DEMHigh t else DEMLow t)]"

definition retimer_writes :: "RetimerTuning \<Rightarrow> (int \<times> 8 word) list" where
  "retimer_writes t =
     [(retimerRegCtl, DisableCRC t), (retimerPinCtl, PinControl t), (retimerPowerDown, 0)] @
     concat (map (\<lambda>(i, base). channel_writes t i base) (enumerate 0 retimerChannelBase))"

definition ProgramRetimer :: "SCD \<Rightarrow> RetimerTuning \<Rightarrow> unit fallible" where
  "ProgramRetimer s t = (case retimer_of s of Inl e \<Rightarrow> ret (Inl e) | Inr a \<Rightarrow> write_registers (smb s) a (retimer_writes t))"

section \<open>The chassis lamps\<close>

datatype Colour = LampOff | LampRed | LampGreen | LampAmber

definition Colour_String :: "Colour \<Rightarrow> string" where
  "Colour_String c = (case c of LampOff \<Rightarrow> ''off'' | LampRed \<Rightarrow> ''red'' | LampGreen \<Rightarrow> ''green'' | LampAmber \<Rightarrow> ''amber'')"

record Lamp =
  lamp_Name :: string
  lamp_Reg :: int

record lampMap =
  order :: "Lamp list"
  beacon :: int
  green :: nat
  red :: nat
  blue :: nat
  on_scd :: bool
  palette :: "(Colour, 32 word) gomap"

definition colour_bits :: "lampMap \<Rightarrow> Colour \<Rightarrow> 8 word" where
  "colour_bits m c =
     (if c = LampGreen \<or> c = LampAmber then push_bit (green m) 1 else 0) OR
     (if c = LampRed \<or> c = LampAmber then push_bit (red m) 1 else 0)"

definition colour_of :: "lampMap \<Rightarrow> 8 word \<Rightarrow> Colour" where
  "colour_of m v =
     (let c = (if v AND push_bit (green m) 1 \<noteq> 0 then LampGreen else LampOff)
      in if v AND push_bit (red m) 1 \<noteq> 0 then (if c = LampGreen then LampAmber else LampRed) else c)"

definition lamp_mask :: "lampMap \<Rightarrow> 8 word" where
  "lamp_mask m = push_bit (green m) 1 OR push_bit (red m) 1"

text \<open>What the generated file has said so far: registers, bits, colour words and which backend.\<close>

record lamp_conf =
  lc_reg :: "(string, int) gomap"
  lc_bit :: "(string, int) gomap"
  lc_word :: "(Colour, 32 word) gomap"
  lc_scd :: bool

definition empty_conf :: lamp_conf where
  "empty_conf = \<lparr>lc_reg = [(''status'', - 1), (''psu1'', - 1), (''psu2'', - 1), (''fan'', - 1), (''beacon'', - 1)],
     lc_bit = [(''green_bit'', - 1), (''red_bit'', - 1), (''blue_bit'', 0)], lc_word = [], lc_scd = False\<rparr>"

definition word_keys :: "(string, Colour) gomap" where
  "word_keys = [(''off_word'', LampOff), (''green_word'', LampGreen), (''red_word'', LampRed), (''amber_word'', LampAmber)]"

definition lamp_key :: "string \<Rightarrow> int \<Rightarrow> lamp_conf \<Rightarrow> hal_error + lamp_conf" where
  "lamp_key k n c =
     (if k \<in> {''status'', ''psu1'', ''psu2'', ''fan'', ''beacon''} then Inr (c\<lparr>lc_reg := mput k n (lc_reg c)\<rparr>)
      else if k \<in> {''green_bit'', ''red_bit'', ''blue_bit''} then Inr (c\<lparr>lc_bit := mput k n (lc_bit c)\<rparr>)
      else case mget word_keys k of
        Some col \<Rightarrow> Inr (c\<lparr>lc_word := mput col (word_of_int n) (lc_word c)\<rparr>)
      | None \<Rightarrow> Inl (Fault ''%s:%d: unknown key %q''))"

definition lamp_line :: "string \<Rightarrow> lamp_conf \<Rightarrow> hal_error + lamp_conf" where
  "lamp_line raw c =
     (let line = TrimSpace (takeWhile (\<lambda>x. x \<noteq> CHR ''#'') raw)
      in if line = [] then Inr c
         else case Cut (CHR ''='') line of (k0, v0, ok) \<Rightarrow>
           (if \<not> ok then Inl (Fault ''%s:%d: not key=value: %q'')
            else let k = TrimSpace k0; v = TrimSpace v0
              in if k = ''driver'' then
                   (if v = ''scd'' then Inr (c\<lparr>lc_scd := True\<rparr>)
                    else if v = ''cpld'' then Inr (c\<lparr>lc_scd := False\<rparr>)
                    else Inl (Fault ''%s:%d: driver %q is not cpld or scd''))
                 else case ParseUint v 0 32 of
                   None \<Rightarrow> Inl (Fault ''%s:%d: %s: %w'')
                 | Some n \<Rightarrow> lamp_key k n c))"

fun lamp_lines :: "string list \<Rightarrow> lamp_conf \<Rightarrow> hal_error + lamp_conf" where
  "lamp_lines [] c = Inr c"
| "lamp_lines (l # ls) c = (case lamp_line l c of Inl e \<Rightarrow> Inl e | Inr c' \<Rightarrow> lamp_lines ls c')"

text \<open>What the whole file must have said.\<close>

definition lamp_map :: "lamp_conf \<Rightarrow> hal_error + lampMap" where
  "lamp_map c =
     (let at = (\<lambda>m k. the (mget m k));
          word = (if lc_scd c \<and> mget (lc_word c) LampAmber = None then mput LampAmber (the (mget (lc_word c) LampRed)) (lc_word c) else lc_word c);
          m = \<lparr>order = map (\<lambda>n. \<lparr>lamp_Name = n, lamp_Reg = at (lc_reg c) n\<rparr>)
                 (filter (\<lambda>n. at (lc_reg c) n \<ge> 0) [''status'', ''psu1'', ''psu2'', ''fan'']),
               beacon = at (lc_reg c) ''beacon'', green = nat (at (lc_bit c) ''green_bit''), red = nat (at (lc_bit c) ''red_bit''),
               blue = nat (at (lc_bit c) ''blue_bit''), on_scd = lc_scd c, palette = word\<rparr>
      in if lc_scd c \<and> (mget (lc_word c) LampOff = None \<or> mget (lc_word c) LampGreen = None \<or> mget (lc_word c) LampRed = None)
         then Inl (Fault ''%s: driver scd needs %s'')
         else if \<not> lc_scd c \<and> (at (lc_bit c) ''green_bit'' < 0 \<or> at (lc_bit c) ''red_bit'' < 0)
         then Inl (Fault ''%s: green_bit and red_bit are required'')
         else if order m = [] \<and> beacon m < 0 then Inl (Fault ''%s: names no lamps'')
         else Inr m)"

definition loadLamps :: "string option \<Rightarrow> hal_error + lampMap" where
  "loadLamps file =
     (case file of
        None \<Rightarrow> Inl (Fault ''this board's status-lamp map is not configured'')
      | Some b \<Rightarrow>
          (case scanned b of (ls, failed) \<Rightarrow>
            (case lamp_lines ls empty_conf of
               Inl e \<Rightarrow> Inl e
             | Inr c \<Rightarrow> if failed then Inl (Fault ''%s: %w'') else lamp_map c)))"

text \<open>A register of the fan controller, read, changed and written back.\<close>

definition change_register :: "SCD \<Rightarrow> FanController \<Rightarrow> int \<Rightarrow> (8 word \<Rightarrow> 8 word) \<Rightarrow> string \<Rightarrow> unit fallible" where
  "change_register s fc reg f what =
     bnd (ReadReg (smb s) (Accel fc) (Bus fc) (Addr fc) reg) (\<lambda>r. case r of
       Inl e \<Rightarrow> ret (Inl (Within what e))
     | Inr v \<Rightarrow> bnd (WriteReg (smb s) (Accel fc) (Bus fc) (Addr fc) reg (f v)) (\<lambda>r. case r of
         Inl e \<Rightarrow> ret (Inl (Within what e))
       | Inr _ \<Rightarrow> ret (Inr ())))"

definition light :: "lampMap \<Rightarrow> Colour \<Rightarrow> 8 word \<Rightarrow> 8 word" where
  "light m c v = v AND NOT (lamp_mask m) OR colour_bits m c"

definition SetLamp :: "SCD \<Rightarrow> lampMap \<Rightarrow> Lamp \<Rightarrow> Colour \<Rightarrow> unit fallible" where
  "SetLamp s m l c =
     (if on_scd m then
        (case mget (palette m) c of
           None \<Rightarrow> ret (Inl (Fault ''status lamp %s: no word for colour %v''))
         | Some w \<Rightarrow>
             (if lamp_Reg l + 4 > bar_len s then ret (Inl (Fault ''status lamp %s: register %#x is past the mapped BAR''))
              else bnd (write32 (bar_len s) (lamp_Reg l) w) (\<lambda>_. ret (Inr ()))))
      else case fanController s of
        Inl e \<Rightarrow> ret (Inl e)
      | Inr fc \<Rightarrow> change_register s fc (lamp_Reg l) (light m c) ''status lamp %s (CPLD %#02x reg %#02x): %w'')"

fun read_lamps :: "SCD \<Rightarrow> lampMap \<Rightarrow> FanController \<Rightarrow> Lamp list \<Rightarrow> (string, Colour) gomap \<Rightarrow> hal_error option \<Rightarrow>
    ((string, Colour) gomap \<times> hal_error option) driver" where
  "read_lamps s m fc [] out firstErr = ret (out, if out = [] then firstErr else None)"
| "read_lamps s m fc (l # ls) out firstErr =
     bnd (ReadReg (smb s) (Accel fc) (Bus fc) (Addr fc) (lamp_Reg l)) (\<lambda>r. case r of
       Inl e \<Rightarrow> read_lamps s m fc ls out (if firstErr = None then Some (Within ''status lamp %s: %w'' e) else firstErr)
     | Inr v \<Rightarrow> read_lamps s m fc ls (mput (lamp_Name l) (colour_of m v) out) firstErr)"

definition Lamps :: "SCD \<Rightarrow> lampMap \<Rightarrow> ((string, Colour) gomap \<times> hal_error option) driver" where
  "Lamps s m =
     (if on_scd m then ret ([], Some (ErrUnsupported ''this board's lamp registers are write-only''))
      else case fanController s of
        Inl e \<Rightarrow> ret ([], Some e)
      | Inr fc \<Rightarrow> read_lamps s m fc (order m) [] None)"

definition SetBeacon :: "SCD \<Rightarrow> lampMap \<Rightarrow> bool \<Rightarrow> unit fallible" where
  "SetBeacon s m on =
     (if beacon m < 0 then ret (Inl (Fault ''this board has no locator beacon''))
      else if on_scd m then ret (Inl (ErrUnsupported ''this board's locator beacon is at %#x but the value that lights it has not been established''))
      else case fanController s of
        Inl e \<Rightarrow> ret (Inl e)
      | Inr fc \<Rightarrow> change_register s fc (beacon m)
          (\<lambda>v. if on then v OR push_bit (blue m) 1 else v AND NOT (push_bit (blue m) 1)) ''beacon (CPLD %#02x reg %#02x): %w'')"

definition BeaconOn :: "SCD \<Rightarrow> lampMap \<Rightarrow> bool fallible" where
  "BeaconOn s m =
     (if beacon m < 0 then ret (Inl (Fault ''this board has no locator beacon''))
      else if on_scd m then ret (Inl (ErrUnsupported ''this board's lamp registers are write-only''))
      else case fanController s of
        Inl e \<Rightarrow> ret (Inl e)
      | Inr fc \<Rightarrow> bnd (ReadReg (smb s) (Accel fc) (Bus fc) (Addr fc) (beacon m)) (\<lambda>r. case r of
          Inl e \<Rightarrow> ret (Inl (Within ''beacon (CPLD %#02x reg %#02x): %w'' e))
        | Inr v \<Rightarrow> ret (Inr (v AND push_bit (blue m) 1 \<noteq> 0))))"

text \<open>The colours health asks for: of the status lamp and of the fan lamp.\<close>

definition fan_step :: "Fan \<Rightarrow> Colour \<times> Colour \<Rightarrow> Colour \<times> Colour" where
  "fan_step f = (\<lambda>(status, fan).
     if \<not> Present f then (if status = LampGreen then LampAmber else status, if fan = LampGreen then LampAmber else fan)
     else if RPM f = 0 then (LampRed, LampRed)
     else (status, fan))"

definition health_colours :: "Fan list \<Rightarrow> int \<Rightarrow> int \<Rightarrow> hal_error option \<Rightarrow> Colour \<times> Colour" where
  "health_colours fans hottestC maxC fanErr =
     (let (status, fan) = (if fanErr \<noteq> None \<or> fans = [] then (LampRed, LampRed) else fold fan_step fans (LampGreen, LampGreen))
      in (if hottestC < 0 \<and> status = LampGreen then LampAmber else if hottestC \<ge> maxC then LampRed else status, fan))"

definition lampFor :: "bool \<Rightarrow> Colour" where
  "lampFor present = (if present then LampGreen else LampOff)"

fun set_lamps :: "SCD \<Rightarrow> lampMap \<Rightarrow> (string, Colour) gomap \<Rightarrow> Lamp list \<Rightarrow> hal_error option \<Rightarrow> unit fallible" where
  "set_lamps s m want [] firstErr = ret (case firstErr of None \<Rightarrow> Inr () | Some e \<Rightarrow> Inl e)"
| "set_lamps s m want (l # ls) firstErr =
     (case mget want (lamp_Name l) of
        None \<Rightarrow> set_lamps s m want ls firstErr
      | Some c \<Rightarrow> bnd (SetLamp s m l c) (\<lambda>r. set_lamps s m want ls
          (case (r, firstErr) of (Inl e, None) \<Rightarrow> Some e | _ \<Rightarrow> firstErr)))"

definition HealthLamps :: "SCD \<Rightarrow> lampMap \<Rightarrow> Fan list \<Rightarrow> int \<Rightarrow> int \<Rightarrow> hal_error option \<Rightarrow> unit fallible" where
  "HealthLamps s m fans hottestC maxC fanErr =
     (let (status, fan) = health_colours fans hottestC maxC fanErr; want = [(''fan'', fan), (''status'', status)]
      in bnd (PSUPresent s) (\<lambda>r. case r of
           Inl _ \<Rightarrow> set_lamps s m want (order m) None
         | Inr p \<Rightarrow> set_lamps s m (want @ [(''psu1'', lampFor (mget p ''psu1?'' = Some True)), (''psu2'', lampFor (mget p ''psu2?'' = Some True))])
             (order m) None))"

definition LampsUnmanaged :: "SCD \<Rightarrow> lampMap \<Rightarrow> unit fallible" where
  "LampsUnmanaged s m =
     (case find (\<lambda>l. lamp_Name l = ''status'') (order m) of None \<Rightarrow> ret (Inr ()) | Some l \<Rightarrow> SetLamp s m l LampAmber)"

section \<open>What the panel shows\<close>

lemma fan_steps:
  "fold fan_step fans (c, c) =
     (let c' = (if \<exists>f \<in> set fans. Present f \<and> RPM f = 0 then LampRed
                else if (\<exists>f \<in> set fans. \<not> Present f) \<and> c = LampGreen then LampAmber else c)
      in (c', c'))"
  by (induction fans arbitrary: c) (auto simp: fan_step_def Let_def)

text \<open>C33: The panel is green only on measured health. The status lamp is green exactly when the fans were read, there
  are some, every bay is filled and turning, and the hottest sensor was read and is below the limit; it is red exactly
  when the fans could not be read, a fitted fan has stopped, or the limit is reached, amber otherwise and never off.\<close>

theorem status_lamp_honest:
  assumes "0 \<le> maxC"
  shows "let status = fst (health_colours fans hottestC maxC fanErr) in
    (status = LampGreen \<longleftrightarrow>
       fanErr = None \<and> fans \<noteq> [] \<and> (\<forall>f \<in> set fans. Present f \<and> RPM f \<noteq> 0) \<and> 0 \<le> hottestC \<and> hottestC < maxC) \<and>
    (status = LampRed \<longleftrightarrow>
       fanErr \<noteq> None \<or> fans = [] \<or> (\<exists>f \<in> set fans. Present f \<and> RPM f = 0) \<or> hottestC \<ge> maxC) \<and>
    status \<noteq> LampOff"
  using assms by (auto simp: health_colours_def fan_steps Let_def split: if_splits)

theorem status_lamp_honest_witness:
  "fst (health_colours [\<lparr>fan_Index = 1, Present = True, RPM = 9000, Percent = 40, fan_Raw = (0, 666)\<rparr>] 41 65 None) = LampGreen \<and>
   fst (health_colours [\<lparr>fan_Index = 1, Present = True, RPM = 9000, Percent = 40, fan_Raw = (0, 666)\<rparr>] (- 1) 65 None) = LampAmber"
  using status_lamp_honest [of 65 "[\<lparr>fan_Index = 1, Present = True, RPM = 9000, Percent = 40, fan_Raw = (0, 666)\<rparr>]" 41 None]
    status_lamp_honest [of 65 "[\<lparr>fan_Index = 1, Present = True, RPM = 9000, Percent = 40, fan_Raw = (0, 666)\<rparr>]" "- 1" None]
  by (simp add: Let_def) (metis Colour.exhaust)

lemma light_bits:
  assumes "n < 8" "green m \<noteq> red m"
  shows "bit (light m c v) n \<longleftrightarrow>
    (if n = green m then c = LampGreen \<or> c = LampAmber else if n = red m then c = LampRed \<or> c = LampAmber else bit v n)"
  using assms by (auto simp: light_def lamp_mask_def colour_bits_def bit_simps)

lemma colour_of_light:
  assumes "green m \<noteq> red m" "green m < 8" "red m < 8"
  shows "colour_of m (light m c v) = c"
  using assms light_bits [OF assms(2,1), of c v] light_bits [OF assms(3,1), of c v]
  unfolding colour_of_def Let_def bit_iff_and_push_bit_not_eq_0 [symmetric] by (cases c) simp_all

lemma change_register_run:
  assumes al: "aligned (smb s) (Accel fc)"
  shows "\<exists>r new. change_register s fc reg f what dev tr = (Some r, tr @ new) \<and>
    list_all (of_accelerator (base_of (smb s) (Accel fc))) new \<and>
    (case fst (ReadReg (smb s) (Accel fc) (Bus fc) (Addr fc) reg dev tr) of
       Some (Inr v) \<Rightarrow> \<exists>ws. sent (base_of (smb s) (Accel fc)) new = read_words (Bus fc) (Addr fc) reg @ ws \<and>
         (ws = write_words (Bus fc) (Addr fc) reg (f v) \<or> ws = [] \<and> isl r)
     | _ \<Rightarrow> sent (base_of (smb s) (Accel fc)) new \<in> {[], read_words (Bus fc) (Addr fc) reg} \<and> isl r)"
proof -
  let ?b = "base_of (smb s) (Accel fc)"
  obtain r new where r: "ReadReg (smb s) (Accel fc) (Bus fc) (Addr fc) reg dev tr = (Some r, tr @ new)" "list_all (of_accelerator ?b) new"
      "sent ?b new = read_words (Bus fc) (Addr fc) reg \<or> sent ?b new = [] \<and> isl r"
    using keeps_toD [OF keeps_to_ReadReg [OF al]] by blast
  show ?thesis
  proof (cases r)
    case (Inl e)
    then show ?thesis using r by (auto simp: change_register_def bnd_def ret_def)
  next
    case (Inr v)
    obtain r' new' where w: "WriteReg (smb s) (Accel fc) (Bus fc) (Addr fc) reg (f v) dev (tr @ new) = (Some r', (tr @ new) @ new')"
        "list_all (of_accelerator ?b) new'" "sent ?b new' = write_words (Bus fc) (Addr fc) reg (f v) \<or> sent ?b new' = [] \<and> isl r'"
      using keeps_toD [OF keeps_to_WriteReg [OF al]] by blast
    then show ?thesis
      using r Inr by (cases r') (auto simp: change_register_def bnd_def ret_def)
  qed
qed

text \<open>Lighting a lamp changes its two colour bits and nothing else. On a board whose lamps sit on the fan
  controller, whatever the hardware answers: the register is read once, and only if that read gave a byte is it
  written, once, with that byte in which the bits of the two dies show the colour asked for and every other bit is as
  it was, so that the colour reads back.\<close>

theorem SetLamp_colour_bits_only:
  assumes "fanController s = Inr fc" and "aligned (smb s) (Accel fc)" and "\<not> on_scd m" and "green m \<noteq> red m" and "green m < 8" and "red m < 8"
  shows "\<exists>r new. SetLamp s m l c dev tr = (Some r, tr @ new) \<and> list_all (of_accelerator (base_of (smb s) (Accel fc))) new \<and>
    (case fst (ReadReg (smb s) (Accel fc) (Bus fc) (Addr fc) (lamp_Reg l) dev tr) of
       Some (Inr v) \<Rightarrow> \<exists>w ws. sent (base_of (smb s) (Accel fc)) new = read_words (Bus fc) (Addr fc) (lamp_Reg l) @ ws \<and>
         (ws = write_words (Bus fc) (Addr fc) (lamp_Reg l) w \<or> ws = [] \<and> isl r) \<and>
         (\<forall>n < 8. n \<noteq> green m \<and> n \<noteq> red m \<longrightarrow> bit w n = bit v n) \<and> colour_of m w = c
     | _ \<Rightarrow> sent (base_of (smb s) (Accel fc)) new \<in> {[], read_words (Bus fc) (Addr fc) (lamp_Reg l)} \<and> isl r)"
proof -
  have others: "\<forall>n < 8. n \<noteq> green m \<and> n \<noteq> red m \<longrightarrow> bit (light m c v) n = bit v n" for v
    using light_bits [OF _ assms(4)] by simp
  have again: "colour_of m (light m c v) = c" for v using assms(4-6) by (rule colour_of_light)
  let ?b = "base_of (smb s) (Accel fc)" and ?read = "ReadReg (smb s) (Accel fc) (Bus fc) (Addr fc) (lamp_Reg l) dev tr"
  have eq: "SetLamp s m l c = change_register s fc (lamp_Reg l) (light m c) ''status lamp %s (CPLD %#02x reg %#02x): %w''"
    using assms(1,3) by (simp add: SetLamp_def)
  from change_register_run [OF assms(2)]
  obtain r new where run: "SetLamp s m l c dev tr = (Some r, tr @ new)" "list_all (of_accelerator ?b) new"
      "case fst ?read of
         Some (Inr v) \<Rightarrow> \<exists>ws. sent ?b new = read_words (Bus fc) (Addr fc) (lamp_Reg l) @ ws \<and>
           (ws = write_words (Bus fc) (Addr fc) (lamp_Reg l) (light m c v) \<or> ws = [] \<and> isl r)
       | _ \<Rightarrow> sent ?b new \<in> {[], read_words (Bus fc) (Addr fc) (lamp_Reg l)} \<and> isl r"
    unfolding eq by blast
  show ?thesis
  proof (intro exI conjI)
    show "case fst ?read of
       Some (Inr v) \<Rightarrow> \<exists>w ws. sent ?b new = read_words (Bus fc) (Addr fc) (lamp_Reg l) @ ws \<and>
         (ws = write_words (Bus fc) (Addr fc) (lamp_Reg l) w \<or> ws = [] \<and> isl r) \<and>
         (\<forall>n < 8. n \<noteq> green m \<and> n \<noteq> red m \<longrightarrow> bit w n = bit v n) \<and> colour_of m w = c
     | _ \<Rightarrow> sent ?b new \<in> {[], read_words (Bus fc) (Addr fc) (lamp_Reg l)} \<and> isl r"
    proof (cases "\<exists>v. fst ?read = Some (Inr v)")
      case True
      then obtain v where v: "fst ?read = Some (Inr v)" by (elim exE)
      show ?thesis using run(3) others [of v] again [of v] unfolding v option.case sum.case
        by (elim exE, intro exI [of _ "light m c v"]) simp
    qed (use run(3) in \<open>simp split: option.splits sum.splits\<close>)
  qed (rule run)+
qed

section \<open>What the repeater is told\<close>

lemma write_registers_run:
  assumes al: "aligned m (Accel a)"
  shows "\<exists>r new k. write_registers m a ws dev tr = (Some r, tr @ new) \<and> list_all (of_accelerator (base_of m (Accel a))) new \<and>
    sent (base_of m (Accel a)) new = concat (map (\<lambda>(reg, v). write_words (Bus a) (Addr a) reg v) (take k ws)) \<and>
    (r = Inr () \<longrightarrow> k = length ws)"
proof (induction ws arbitrary: tr)
  case (Cons w ws)
  obtain reg v where w: "w = (reg, v)" by fastforce
  let ?b = "base_of m (Accel a)"
  obtain r new where r: "WriteReg m (Accel a) (Bus a) (Addr a) reg v dev tr = (Some r, tr @ new)" "list_all (of_accelerator ?b) new"
      "sent ?b new = write_words (Bus a) (Addr a) reg v \<or> sent ?b new = [] \<and> isl r"
    using keeps_toD [OF keeps_to_WriteReg [OF al]] by blast
  show ?case
  proof (cases r)
    case (Inl e)
    then have "write_registers m a (w # ws) dev tr = (Some (Inl (Within ''repeater %#02x reg %#02x (%s): %w'' e)), tr @ new)"
      using r w by (simp add: bnd_def ret_def)
    moreover have "\<exists>k. sent ?b new = concat (map (\<lambda>(reg, v). write_words (Bus a) (Addr a) reg v) (take k (w # ws)))"
      using r(3) w by (metis (no_types, lifting) concat.simps(1) list.simps(8) take0 append_Nil2 case_prod_conv concat.simps(2) list.simps(9) take0 take_Suc_Cons)
    ultimately show ?thesis using r(2) by blast
  next
    case (Inr u)
    obtain r' new' k where k: "write_registers m a ws dev (tr @ new) = (Some r', (tr @ new) @ new')" "list_all (of_accelerator ?b) new'"
        "sent ?b new' = concat (map (\<lambda>(reg, v). write_words (Bus a) (Addr a) reg v) (take k ws))" "r' = Inr () \<longrightarrow> k = length ws"
      using Cons.IH [of "tr @ new"] by blast
    then have "write_registers m a (w # ws) dev tr = (Some r', tr @ new @ new')" using r Inr w by (simp add: bnd_def)
    moreover have "sent ?b (new @ new') = concat (map (\<lambda>(reg, v). write_words (Bus a) (Addr a) reg v) (take (Suc k) (w # ws)))"
      using r(3) Inr w k(3) by simp
    ultimately show ?thesis
      using r(2) k by (intro exI [of _ r'] exI [of _ "new @ new'"] exI [of _ "Suc k"]) simp
  qed
qed (auto simp: ret_def intro!: exI [of _ "[]"])

lemma retimer_registers: "distinct (map fst (retimer_writes t)) \<and> length (retimer_writes t) = 27 \<and>
    map fst (take 3 (retimer_writes t)) = [retimerRegCtl, retimerPinCtl, retimerPowerDown]"
  by (simp add: retimer_writes_def channel_writes_def retimerChannelBase_def retimerRegCtl_def retimerPinCtl_def retimerPowerDown_def
      enumerate_eq_zip numeral_eq_Suc)

lemma digit_of_digit: "a < 10 \<Longrightarrow> digit_of (digit_char a) = Some (int a)"
  by (simp add: digit_of_def isDigit_digit_char digit_val_digit_char)

lemma two_digits:
  assumes "a < 10" "b < 10"
  shows "tuning_value [digit_char a, digit_char b] = Some (16 * int a + int b)"
proof -
  have d: "isDigit (digit_char a)" "isDigit (digit_char b)" using assms by (simp_all add: isDigit_digit_char)
  then have t: "TrimSpace [digit_char a, digit_char b] = [digit_char a, digit_char b]"
    by (intro trimmed_TrimSpace trimmed_all_solid) (auto intro: isDigit_solid)
  have "digit_char b \<noteq> CHR ''x''" using d(2) by (auto simp: isDigit_def)
  then have p: "TrimPrefix [digit_char a, digit_char b] ''0x'' = [digit_char a, digit_char b]" by (simp add: TrimPrefix_def)
  show ?thesis
    using assms by (simp add: tuning_value_def t p ParseUint_def digit_of_digit)
qed

text \<open>The repeater is programmed in one order, whatever the hardware answers: register control and the pins first, then
  the power, then each channel's three registers, no register twice; what is sent is the first so many of these
  writes, and all of them when success is reported.\<close>

lemma ProgramRetimer_in_order:
  assumes "retimer_of s = Inr a" and "aligned (smb s) (Accel a)"
  shows "\<exists>r new k. ProgramRetimer s t dev tr = (Some r, tr @ new) \<and> list_all (of_accelerator (base_of (smb s) (Accel a))) new \<and>
    sent (base_of (smb s) (Accel a)) new = concat (map (\<lambda>(reg, v). write_words (Bus a) (Addr a) reg v) (take k (retimer_writes t))) \<and>
    (r = Inr () \<longrightarrow> k = 27) \<and> distinct (map fst (retimer_writes t)) \<and>
    map fst (take 3 (retimer_writes t)) = [retimerRegCtl, retimerPinCtl, retimerPowerDown]"
  using write_registers_run [OF assms(2), of "retimer_writes t" dev tr] retimer_registers [of t] assms(1)
  by (simp add: ProgramRetimer_def)

text \<open>C39: A plain decimal is not read as one. The source says that a value without a prefix is also accepted as a decimal,
  as the board's own description states them; a two-digit decimal is read as the hexadecimal number with those
  digits, so every such value reaches the repeater as another one.\<close>

theorem decimal_tuning_misread:
  assumes "10 \<le> n" and "n \<le> 99"
  shows "tuning_value (Itoa n) = Some (16 * (n div 10) + n mod 10) \<and> 16 * (n div 10) + n mod 10 \<noteq> n"
proof -
  define a b where "a = nat (n div 10)" and "b = nat (n mod 10)"
  have ab: "a < 10" "b < 10" "int a = n div 10" "int b = n mod 10" using assms by (auto simp: a_def b_def)
  have "nat n div 10 = a" "nat n mod 10 = b" using assms by (simp_all add: a_def b_def nat_div_distrib nat_mod_distrib)
  then have "Itoa n = [digit_char a, digit_char b]"
    using assms ab by (simp add: Itoa_def nat_dec.simps [of "nat n"] nat_dec.simps [of a])
  then show ?thesis
    using two_digits [OF ab(1,2)] ab(3,4) assms by (simp add: minus_mult_div_eq_mod [symmetric])
qed

theorem decimal_tuning_misread_witness: "tuning_value (Itoa 16) = Some 22"
  using decimal_tuning_misread [of 16] by simp

end
