(* ===== verification/Schan.thy ===== *)
theory Schan
  imports Registers
begin

text \<open>
  The command path into the switch chip, \<^verbatim>\<open>internal/platformhal/scd/schan.go\<close>: composing a command word, the
  one transaction the driver makes, and what it reports. The chip's registers are the parameter of \<open>Registers\<close>, at
  offsets of the whole mapping; an access past the mapping panics as a Go slice does. The clock is the number of polls
  that fit before the deadline.
\<close>

definition cmc0Base :: int where "cmc0Base = 0x031000"

definition cmcStride :: int where "cmcStride = 0x1000"

definition schanCtrl :: int where "schanCtrl = 0"

definition schanErr :: int where "schanErr = 8"

definition schanMsg0 :: int where "schanMsg0 = 12"

definition schanMsgCount :: int where "schanMsgCount = 23"

definition schanMsgStart :: "32 word" where "schanMsgStart = push_bit 0 1"

definition schanMsgDone :: "32 word" where "schanMsgDone = push_bit 1 1"

definition schanSERCheckFail :: "32 word" where "schanSERCheckFail = push_bit 20 1"

definition schanNACK :: "32 word" where "schanNACK = push_bit 21 1"

definition schanTimeout :: "32 word" where "schanTimeout = push_bit 22 1"

definition schanError :: "32 word" where "schanError = push_bit 23 1"

definition OpcodeReadMem :: "32 word" where "OpcodeReadMem = 7"

definition OpcodeReadReg :: "32 word" where "OpcodeReadReg = 11"

definition readOpcodes :: "32 word list" where "readOpcodes = [OpcodeReadMem, OpcodeReadReg]"

record SChan =
  sc_len :: int
  sc_base :: int

text \<open>The size is that of the mapped file, if it opens and maps.\<close>

definition OpenSChan :: "int \<Rightarrow> int option \<Rightarrow> hal_error + SChan" where
  "OpenSChan cmc sz =
     (if cmc < 0 \<or> cmc > 2 then Inl (Fault ''CMC %d is out of range 0..2'')
      else case sz of
        None \<Rightarrow> Inl (Fault ''mapping the switch chip's BAR0: %w (is it released from reset?)'')
      | Some n \<Rightarrow>
          (let base = cmc0Base + cmc * cmcStride
           in if base + 0x100 > n then Inl (Fault ''CMC%d at %#x is beyond the %d-byte BAR'') else Inr \<lparr>sc_len = n, sc_base = base\<rparr>))"

definition sc_mapped :: "SChan \<Rightarrow> int \<Rightarrow> bool" where
  "sc_mapped c off \<longleftrightarrow> 0 \<le> sc_base c + off \<and> sc_base c + off + 4 \<le> sc_len c"

definition sc_rd :: "SChan \<Rightarrow> int \<Rightarrow> 32 word driver" where
  "sc_rd c off dev tr =
     (let a = sc_base c + off in if sc_mapped c off then (Some (dev tr a), tr @ [Rd a (dev tr a)]) else (None, tr))"

definition sc_wr :: "SChan \<Rightarrow> int \<Rightarrow> 32 word \<Rightarrow> unit driver" where
  "sc_wr c off v dev tr = (if sc_mapped c off then (Some (), tr @ [Wr (sc_base c + off) v]) else (None, tr))"

definition Header :: "32 word \<Rightarrow> 32 word \<Rightarrow> 32 word \<Rightarrow> 32 word \<Rightarrow> 32 word" where
  "Header opc dport acc dlen =
     push_bit 26 (opc AND 63) OR push_bit 20 (dport AND 63) OR push_bit 14 (acc AND 7) OR push_bit 7 (dlen AND 127)"

definition HeaderWide :: "32 word \<Rightarrow> 32 word \<Rightarrow> 32 word \<Rightarrow> 32 word \<Rightarrow> 32 word" where
  "HeaderWide opc dport acc dlen =
     push_bit 26 (opc AND 63) OR push_bit 19 (dport AND 127) OR push_bit 14 (acc AND 31) OR push_bit 7 (dlen AND 127)"

datatype HeaderVariant = VariantNarrow | VariantWide

definition compose_header :: "HeaderVariant \<Rightarrow> 32 word \<Rightarrow> 32 word \<Rightarrow> 32 word \<Rightarrow> 32 word \<Rightarrow> 32 word" where
  "compose_header v = (case v of VariantWide \<Rightarrow> HeaderWide | VariantNarrow \<Rightarrow> Header)"

record schan_result =
  Ctrl :: "32 word"
  sc_Err :: "32 word"
  Response :: "32 word list"
  Polls :: nat

definition Failed :: "schan_result \<Rightarrow> hal_error option" where
  "Failed r =
     (if Ctrl r AND schanTimeout \<noteq> 0 then Some (Fault ''S-Channel TIMEOUT: the addressed block did not answer'')
      else if Ctrl r AND schanNACK \<noteq> 0 then Some (Fault ''S-Channel NACK: the block refused the command'')
      else if Ctrl r AND schanSERCheckFail \<noteq> 0 then Some (Fault ''S-Channel SER check failed'')
      else if Ctrl r AND schanError \<noteq> 0 then Some (Fault ''S-Channel error'')
      else None)"

text \<open>The polls: the control word that reported done and how many reads it took, or the abort at the deadline.\<close>

fun poll_done :: "SChan \<Rightarrow> nat \<Rightarrow> nat \<Rightarrow> (32 word \<times> nat) fallible" where
  "poll_done c 0 polls =
     bnd (sc_rd c schanCtrl) (\<lambda>ctrl.
       if ctrl AND schanMsgDone \<noteq> 0 then ret (Inr (ctrl, Suc polls))
       else bnd (sc_wr c schanCtrl 0) (\<lambda>_. ret (Inl (Fault ''S-Channel did not complete within %s''))))"
| "poll_done c (Suc n) polls =
     bnd (sc_rd c schanCtrl) (\<lambda>ctrl.
       if ctrl AND schanMsgDone \<noteq> 0 then ret (Inr (ctrl, Suc polls)) else poll_done c n (Suc polls))"

fun read_response :: "SChan \<Rightarrow> int list \<Rightarrow> 32 word list driver" where
  "read_response c [] = ret []"
| "read_response c (i # is) = bnd (sc_rd c (schanMsg0 + 4 * i)) (\<lambda>w. bnd (read_response c is) (\<lambda>ws. ret (w # ws)))"

text \<open>The command is in the message registers: start the engine, wait, and leave it idle.\<close>

definition run_engine :: "SChan \<Rightarrow> int \<Rightarrow> nat \<Rightarrow> schan_result fallible" where
  "run_engine c words n =
     bnd (sc_wr c schanCtrl 0) (\<lambda>_. bnd (sc_wr c schanCtrl schanMsgStart) (\<lambda>_.
     go_on (poll_done c n 0) (\<lambda>(ctrl, polls).
     bnd (sc_rd c schanErr) (\<lambda>err.
     bnd (read_response c [0..words - 1]) (\<lambda>resp.
     bnd (sc_wr c schanCtrl 0) (\<lambda>_. ret (Inr \<lparr>Ctrl = ctrl, sc_Err = err, Response = resp, Polls = polls\<rparr>)))))))"

text \<open>The command and its address, read back before anything is started.\<close>

definition send_command :: "SChan \<Rightarrow> 32 word \<Rightarrow> 32 word \<Rightarrow> int \<Rightarrow> nat \<Rightarrow> schan_result fallible" where
  "send_command c hdr addr words n =
     bnd (sc_wr c schanMsg0 hdr) (\<lambda>_. bnd (sc_wr c (schanMsg0 + 4) addr) (\<lambda>_.
     bnd (sc_rd c schanMsg0) (\<lambda>got.
       if got \<noteq> hdr then ret (Inl (Fault ''the command word did not reach MESSAGE0''))
       else bnd (sc_rd c (schanMsg0 + 4)) (\<lambda>got1.
         if got1 \<noteq> addr then ret (Inl (Fault ''the address did not reach MESSAGE1''))
         else run_engine c words n))))"

definition ReadVariant :: "SChan \<Rightarrow> HeaderVariant \<Rightarrow> 32 word \<Rightarrow> 32 word \<Rightarrow> 32 word \<Rightarrow> 32 word \<Rightarrow> 32 word \<Rightarrow> int \<Rightarrow> nat \<Rightarrow> schan_result fallible" where
  "ReadVariant c v opc dport acc dlen addr words n =
     (if opc \<notin> set readOpcodes then ret (Inl (Fault ''opcode %d is not a read opcode''))
      else if words < 1 \<or> words > schanMsgCount then ret (Inl (Fault ''response length %d is outside 1..%d''))
      else
        bnd (sc_rd c schanCtrl) (\<lambda>ctrl.
          if ctrl AND schanMsgStart \<noteq> 0 then ret (Inl (Fault ''S-Channel is busy: SCHAN_CTRL=%#08x has MSG_START set''))
          else send_command c (compose_header v opc dport acc dlen) addr words n))"

definition Read :: "SChan \<Rightarrow> 32 word \<Rightarrow> 32 word \<Rightarrow> 32 word \<Rightarrow> 32 word \<Rightarrow> 32 word \<Rightarrow> int \<Rightarrow> nat \<Rightarrow> schan_result fallible" where
  "Read c = ReadVariant c VariantNarrow"

section \<open>Properties\<close>

lemma OpenSChan_base: "OpenSChan cmc sz = Inr c \<Longrightarrow> 0 \<le> sc_base c \<and> sc_base c + 0x100 \<le> sc_len c"
  by (auto simp: OpenSChan_def cmc0Base_def cmcStride_def Let_def split: if_splits option.splits)

lemma opened_mapped: "OpenSChan cmc sz = Inr c \<Longrightarrow> 0 \<le> off \<Longrightarrow> off \<le> 252 \<Longrightarrow> sc_mapped c off"
  using OpenSChan_base [of cmc sz c] by (simp add: sc_mapped_def)

definition idle_word :: "SChan \<Rightarrow> int \<times> 32 word" where
  "idle_word c = (sc_base c + schanCtrl, 0)"

lemma spec_rd: "sc_mapped c off \<Longrightarrow> (\<And>v. Q (Some v) [Rd (sc_base c + off) v]) \<Longrightarrow> spec (sc_rd c off) Q"
  by (auto simp: spec_def sc_rd_def Let_def)

lemma spec_wr: "sc_mapped c off \<Longrightarrow> Q (Some ()) [Wr (sc_base c + off) v] \<Longrightarrow> spec (sc_wr c off v) Q"
  by (auto simp: spec_def sc_wr_def)

text \<open>The polls end, with nothing written but the abort.\<close>

lemma spec_poll:
  assumes "sc_mapped c schanCtrl"
  shows "spec (poll_done c n polls) (\<lambda>r new. (\<exists>x. r = Some (Inr x) \<and> writes new = []) \<or> (\<exists>e. r = Some (Inl e) \<and> writes new = [idle_word c]))"
proof (induction n arbitrary: polls)
  case 0
  show ?case
    by (auto intro!: spec_bnd [OF spec_rd [OF assms, where Q = "\<lambda>r new. r \<noteq> None \<and> writes new = []"]]
        spec_bnd [OF spec_wr [OF assms, where Q = "\<lambda>r new. r \<noteq> None \<and> writes new = [idle_word c]"]] spec_ret simp: idle_word_def)
next
  case (Suc n)
  show ?case
    by (auto intro!: spec_bnd [OF spec_rd [OF assms, where Q = "\<lambda>r new. r \<noteq> None \<and> writes new = []"]] spec_ret spec_weaken [OF Suc])
qed

lemma quiet_rd: "sc_mapped c off \<Longrightarrow> quiet (sc_rd c off)"
  unfolding quiet_def by (rule spec_rd) auto

lemma spec_response:
  assumes "\<And>i. i \<in> set is \<Longrightarrow> sc_mapped c (schanMsg0 + 4 * i)"
  shows "spec (read_response c is) (\<lambda>r new. r \<noteq> None \<and> writes new = [])"
proof -
  have "quiet (read_response c is)"
    using assms by (induction "is") (auto intro!: quiet_ret quiet_bnd quiet_rd)
  then show ?thesis by (simp add: quiet_def)
qed

lemma spec_engine:
  assumes "OpenSChan cmc sz = Inr c" "words \<le> schanMsgCount"
  shows "spec (run_engine c words n) (\<lambda>r new. r \<noteq> None \<and> writes new = [idle_word c, (sc_base c + schanCtrl, schanMsgStart), idle_word c])"
proof -
  note m = opened_mapped [OF assms(1)]
  have ctrl: "sc_mapped c schanCtrl" and err: "sc_mapped c schanErr" by (auto intro!: m simp: schanCtrl_def schanErr_def)
  have resp: "sc_mapped c (schanMsg0 + 4 * i)" if "i \<in> set [0..words - 1]" for i
    using that assms(2) by (auto intro!: m simp: schanMsg0_def schanMsgCount_def)
  have "spec (case x of (ctrl, polls) \<Rightarrow> bnd (sc_rd c schanErr) (\<lambda>err. bnd (read_response c [0..words - 1]) (\<lambda>resp.
      bnd (sc_wr c schanCtrl 0) (\<lambda>_. ret (Inr \<lparr>Ctrl = ctrl, sc_Err = err, Response = resp, Polls = polls\<rparr>)))))
      (\<lambda>r new. r \<noteq> None \<and> writes new = [idle_word c])" for x
    by (auto split: prod.split intro!: spec_bnd [OF spec_rd [OF err, where Q = "\<lambda>r new. r \<noteq> None \<and> writes new = []"]]
        spec_bnd [OF spec_response [OF resp]] spec_bnd [OF spec_wr [OF ctrl, where Q = "\<lambda>r new. r \<noteq> None \<and> writes new = [idle_word c]"]]
        spec_ret simp: idle_word_def)
  then have "spec (go_on (poll_done c n 0) (\<lambda>(ctrl, polls). bnd (sc_rd c schanErr) (\<lambda>err. bnd (read_response c [0..words - 1]) (\<lambda>resp.
      bnd (sc_wr c schanCtrl 0) (\<lambda>_. ret (Inr \<lparr>Ctrl = ctrl, sc_Err = err, Response = resp, Polls = polls\<rparr>))))))
      (\<lambda>r new. r \<noteq> None \<and> writes new = [idle_word c])"
    unfolding go_on_def
    by (intro spec_bnd [OF spec_poll [OF ctrl]]) (auto split: sum.split intro!: spec_ret)
  then show ?thesis
    unfolding run_engine_def
    by (intro spec_bnd [OF spec_wr [OF ctrl, where Q = "\<lambda>r new. r \<noteq> None \<and> writes new = [idle_word c]"]]
        spec_bnd [OF spec_wr [OF ctrl, where Q = "\<lambda>r new. r \<noteq> None \<and> writes new = [(sc_base c + schanCtrl, schanMsgStart)]"]])
       (auto simp: idle_word_def elim: spec_weaken)
qed

lemma spec_command:
  assumes "OpenSChan cmc sz = Inr c" "words \<le> schanMsgCount"
  shows "spec (send_command c hdr addr words n) (\<lambda>r new. \<exists>x rest. r = Some x \<and>
     writes new = [(sc_base c + schanMsg0, hdr), (sc_base c + schanMsg0 + 4, addr)] @ rest \<and>
     (rest = [] \<and> isl x \<or> rest = [idle_word c, (sc_base c + schanCtrl, schanMsgStart), idle_word c]))"
proof -
  note m = opened_mapped [OF assms(1)]
  have m0: "sc_mapped c schanMsg0" and m1: "sc_mapped c (schanMsg0 + 4)" by (auto intro!: m simp: schanMsg0_def)
  have "spec (bnd (sc_rd c schanMsg0) (\<lambda>got.
       if got \<noteq> hdr then ret (Inl (Fault ''the command word did not reach MESSAGE0''))
       else bnd (sc_rd c (schanMsg0 + 4)) (\<lambda>got1.
         if got1 \<noteq> addr then ret (Inl (Fault ''the address did not reach MESSAGE1'')) else run_engine c words n)))
     (\<lambda>r new. \<exists>x. r = Some x \<and> (writes new = [] \<and> isl x \<or> writes new = [idle_word c, (sc_base c + schanCtrl, schanMsgStart), idle_word c]))"
    by (auto intro!: spec_bnd [OF spec_rd [OF m0, where Q = "\<lambda>r new. r \<noteq> None \<and> writes new = []"]]
        spec_bnd [OF spec_rd [OF m1, where Q = "\<lambda>r new. r \<noteq> None \<and> writes new = []"]] spec_ret
        spec_weaken [OF spec_engine [OF assms]])
  then show ?thesis
    unfolding send_command_def
    by (intro spec_bnd [OF spec_wr [OF m0, where Q = "\<lambda>r new. r \<noteq> None \<and> writes new = [(sc_base c + schanMsg0, hdr)]"]]
        spec_bnd [OF spec_wr [OF m1, where Q = "\<lambda>r new. r \<noteq> None \<and> writes new = [(sc_base c + schanMsg0 + 4, addr)]"]])
       (auto simp: add.assoc elim: spec_weaken)
qed

text \<open>A command word carries its opcode in its top six bits, whichever the layout.\<close>

lemma compose_opcode: "opc \<in> set readOpcodes \<Longrightarrow> drop_bit 26 (compose_header v opc dport acc dlen) = opc"
proof -
  have m: "(63 :: 32 word) = mask 6" "(7 :: 32 word) = mask 3" "(127 :: 32 word) = mask 7" "(31 :: 32 word) = mask 5"
    by (simp_all add: mask_eq_exp_minus_1)
  have "drop_bit 26 (compose_header v opc dport acc dlen) = opc AND 63"
    by (rule bit_word_eqI) (auto simp: compose_header_def Header_def HeaderWide_def bit_simps m split: HeaderVariant.split)
  moreover assume "opc \<in> set readOpcodes"
  then have "opc AND 63 = opc" by (auto simp: readOpcodes_def OpcodeReadMem_def OpcodeReadReg_def)
  ultimately show ?thesis by simp
qed

text \<open>C17: The command path only reads, and never breaks a transaction. Whatever the chip answers, a command that is not a
  read, or a response of the wrong length, is refused before any access, and one that finds the engine busy without a
  write. Otherwise the only writes are the command word, whose opcode is a read, and the address, and then, if the
  engine is started at all, a clear of the status, one start and a final clear: it is never left running, not even
  at the deadline. Nothing panics and nothing is written anywhere else.\<close>

theorem schan_reads_only:
  assumes "OpenSChan cmc sz = Inr c"
  shows "\<exists>r new. ReadVariant c v opc dport acc dlen addr words n dev tr = (Some r, tr @ new) \<and>
    (if opc \<notin> set readOpcodes \<or> words < 1 \<or> words > schanMsgCount then new = [] \<and> isl r
     else if bit (dev tr (sc_base c + schanCtrl)) 0 then writes new = [] \<and> isl r
     else \<exists>hdr rest. drop_bit 26 hdr = opc \<and>
       writes new = [(sc_base c + schanMsg0, hdr), (sc_base c + schanMsg0 + 4, addr)] @ rest \<and>
       (rest = [] \<and> isl r \<or> rest = [idle_word c, (sc_base c + schanCtrl, schanMsgStart), idle_word c]))"
proof -
  note m = opened_mapped [OF assms]
  have ctrl: "sc_mapped c schanCtrl" by (auto intro!: m simp: schanCtrl_def)
  have busy: "w AND schanMsgStart \<noteq> 0 \<longleftrightarrow> bit w 0" for w
    unfolding schanMsgStart_def bit_iff_and_push_bit_not_eq_0 by simp
  show ?thesis
  proof (cases "opc \<notin> set readOpcodes \<or> words < 1 \<or> words > schanMsgCount")
    case True
    then show ?thesis by (auto simp: ReadVariant_def ret_def)
  next
    case False
    let ?hdr = "compose_header v opc dport acc dlen"
    have hdr: "drop_bit 26 ?hdr = opc" using compose_opcode False by blast
    let ?tr = "tr @ [Rd (sc_base c + schanCtrl) (dev tr (sc_base c + schanCtrl))]"
    have "words \<le> schanMsgCount" using False by simp
    from specD [OF spec_command [OF assms this], of ?hdr addr n dev ?tr]
    obtain r new where new: "send_command c ?hdr addr words n dev ?tr = (Some r, ?tr @ new)"
        "\<exists>rest. writes new = [(sc_base c + schanMsg0, ?hdr), (sc_base c + schanMsg0 + 4, addr)] @ rest \<and>
           (rest = [] \<and> isl r \<or> rest = [idle_word c, (sc_base c + schanCtrl, schanMsgStart), idle_word c])"
      by (elim exE conjE) (rule that, simp only:, intro exI conjI)
    have run: "ReadVariant c v opc dport acc dlen addr words n dev tr =
        (if bit (dev tr (sc_base c + schanCtrl)) 0
         then (Some (Inl (Fault ''S-Channel is busy: SCHAN_CTRL=%#08x has MSG_START set'')), tr @ [Rd (sc_base c + schanCtrl) (dev tr (sc_base c + schanCtrl))])
         else (Some r, tr @ Rd (sc_base c + schanCtrl) (dev tr (sc_base c + schanCtrl)) # new))"
      using False ctrl new(1) by (simp add: ReadVariant_def bnd_def sc_rd_def Let_def busy ret_def)
    show ?thesis
    proof (cases "bit (dev tr (sc_base c + schanCtrl)) 0")
      case True
      then show ?thesis using False run by auto
    next
      case idle: False
      obtain rest where rest: "writes new = [(sc_base c + schanMsg0, ?hdr), (sc_base c + schanMsg0 + 4, addr)] @ rest"
          "rest = [] \<and> isl r \<or> rest = [idle_word c, (sc_base c + schanCtrl, schanMsgStart), idle_word c]"
        using new(2) by (elim exE conjE)
      show ?thesis
        unfolding if_not_P [OF False] if_not_P [OF idle] run
        by (intro exI [of _ r] exI [of _ "Rd (sc_base c + schanCtrl) (dev tr (sc_base c + schanCtrl)) # new"] conjI refl
            exI [of _ ?hdr] exI [of _ rest] hdr rest(2)) (simp only: writes_simps rest(1))
    qed
  qed
qed

text \<open>The captured command of the source's comment.\<close>

theorem schan_reads_only_witness:
  "Header 7 1 3 4 = 0x1c10c200 \<and>
   (\<exists>c r new. OpenSChan 0 (Some 0x40000) = Inr c \<and> ReadVariant c VariantNarrow 15 1 3 4 0 1 9 (\<lambda>_ _. 0) [] = (Some r, new) \<and> new = [] \<and> isl r)"
proof -
  obtain c where c: "OpenSChan 0 (Some 0x40000) = Inr c" by (simp add: OpenSChan_def cmc0Base_def cmcStride_def)
  have "Header 7 1 3 4 = 0x1c10c200" by code_simp
  moreover have "15 \<notin> set readOpcodes" by (simp add: readOpcodes_def OpcodeReadMem_def OpcodeReadReg_def)
  ultimately show ?thesis
    using c schan_reads_only [OF c, of VariantNarrow 15 1 3 4 0 1 9 "\<lambda>_ _. 0" "[]"] by auto
qed

end
