(* ===== verification/Spec2Isabelle.thy ===== *)
theory Spec2Isabelle
  imports Depsolve Nospkg Acl Mem_Spec Conformance_Mem Upgrade_Safety Site_Config Thermal Health Identity_Eeprom Wire_Spec
    Scd_Safety Scd_Panel Schan
begin

text \<open>
  The core logic of the \<^verbatim>\<open>nosaic\<close> switch operating system, as its Go sources have it (paths below are
  under \<^verbatim>\<open>src/\<close>).

  \<^bold>\<open>The program.\<close> \<^verbatim>\<open>nosd\<close> owns a switch's datapath and answers the calls of one contract,
  \<^verbatim>\<open>internal/switchapi\<close>, over a socket; the command line and everything else talk to it through a client that
  implements the same contract. Around it stand the tools of an appliance: A/B upgrades that survive a
  power cut, the switch's own configuration, a cooling loop, the health check that decides whether a new image
  stays, decoders for what the hardware says of itself, the driver of a board controller, and packages with a
  resolver for building images.

  \<^bold>\<open>Shared.\<close> \<open>Go_Prelude\<close> models what the sources use of Go and its library (strings as bytes, maps as
  association lists without duplicate keys, \<^verbatim>\<open>strings\<close>, \<^verbatim>\<open>strconv\<close>); \<open>Netip\<close> models \<^verbatim>\<open>net/netip\<close> and proves that
  addresses and prefixes read back from their text. \<open>Three_Way\<close> is the contract of a comparison and \<open>Machine\<close>
  that of a state machine whose refused calls have no effect; \<open>Filesystem\<close> is a disk with faults and power
  cuts and a weakest precondition over everything a cut can leave. \<open>Paths\<close> models the parts of \<^verbatim>\<open>path\<close> and
  \<^verbatim>\<open>path/filepath\<close> the package code rests its confinement on.

  \<^bold>\<open>Packages.\<close> \<open>Vercmp\<close> (\<^verbatim>\<open>internal/vercmp\<close>) proves that \<open>Compare\<close> is a total preorder on all strings and
  interprets \<open>three_way\<close>. \<open>Depsolve\<close> (\<^verbatim>\<open>internal/depsolve\<close>) models parsing, the depth-first search of
  \<open>Resolve\<close> and the conflict check. The search carries fuel, the number of packages that can still be
  entered, which is proved to be enough for every input, so resolution is total; its result is an installation
  order of exactly the packages needed, and a cycle is reported only where there is one. \<open>Nospkg\<close>
  (\<^verbatim>\<open>internal/nospkg\<close>) builds, reads, verifies and unpacks packages. The archive and compression formats and the
  digest are parameters, and the only law asked of an archiver is that it reads back what it wrote; over it a built
  package verifies, the order in which files were found does not reach the bytes, an accepted package is what its
  manifest records, and an unpacking stays below its target whatever the package holds.

  \<^bold>\<open>The contract and the reference datapath.\<close> \<open>Switchapi\<close> has the contract's values and shared checks,
  \<open>Acl\<close> the access-list rules, their grammar and their text form. \<open>Mem\<close> is every method of
  \<^verbatim>\<open>internal/nosd/mem\<close> over an explicit heap of ports, because the code reaches the same port through several
  maps. \<open>Mem_Inv\<close> has the invariant and a lemma per method, \<open>Mem_Calls\<close> the machine of all calls: every
  run keeps the state consistent, a refused call leaves no trace, no call follows a nil pointer, and a call is
  unsupported exactly where the capabilities say so. \<open>Mem_Spec\<close> refines an abstract table of VLAN memberships
  and states what each listing shows. \<open>Health\<close> (\<^verbatim>\<open>internal/health\<close>) is the health check over any datapath and over
  this one. \<open>Conformance\<close> (\<^verbatim>\<open>switchapi/conformance.go\<close>) is the suite every datapath is run through, as a
  program over the calls of any datapath, its problems as formats with values; \<open>Conformance_Mem\<close> proves
  what a clean report is evidence of, for any datapath, and for which configurations of the reference datapath with
  four ports the report is clean.

  \<^bold>\<open>The socket.\<close> \<open>Json\<close> models reading and writing of JSON values as \<^verbatim>\<open>encoding/json\<close> does it;
  \<open>Wire_Values\<close> and \<open>Proto\<close> (\<^verbatim>\<open>internal/nosd/proto\<close>) have every structure, its keys and what is left out
  when empty, each an instance of the locale \<open>codec\<close>. \<open>Server\<close> (\<^verbatim>\<open>internal/nosd/server\<close>) dispatches requests to
  any datapath and answers whatever JSON arrives; \<open>Client\<close> (\<^verbatim>\<open>internal/nosd/client\<close>) makes the calls of the
  contract. \<open>Wire_Spec\<close> puts them together: through the socket the reference datapath behaves as it does in
  its own process. The locales \<open>served\<close> and \<open>wired\<close> say what that needs of a datapath.

  \<^bold>\<open>The appliance.\<close> \<open>Upgrade\<close> models both layouts of \<^verbatim>\<open>internal/upgrade\<close>; \<open>Upgrade_Safety\<close> proves that a power
  cut or an I/O error anywhere in an install or a commit leaves a boot pointer to a whole image, that the
  running slot is not written, and that an upgrade in which nothing fails goes through. \<open>Site_Config\<close>
  (\<^verbatim>\<open>internal/config\<close>) proves that the last definition of a key wins, that setting one is atomic, and that what is
  set reads back. \<open>Thermal\<close> (\<^verbatim>\<open>internal/thermal\<close>) proves that the fans start and end at full, never run below
  what the temperature asks and settle. \<open>Sff\<close> (\<^verbatim>\<open>internal/platformhal/sff\<close>, \<^verbatim>\<open>optics.go\<close>) and
  \<open>Identity_Eeprom\<close> (the ONIE and Cisco EEPROM decoders) bound what any bytes can decode to.

  \<^bold>\<open>The board.\<close> \<open>Registers\<close> has programs over memory-mapped registers (\<^verbatim>\<open>platformhal/scd/mmio.go\<close>): the
  hardware is a parameter, any function of the accesses made so far, and a program's result is its value, or
  that the Go code panics, with every access it made. Waiting loops are bounded by their number of polls; the clock
  is not modelled, so a loop may poll at most as often as its deadline allows. \<open>Smbus\<close>
  (\<^verbatim>\<open>platformhal/scdsmbus\<close>) is the SMBus accelerator, \<open>Board_Map\<close> (\<^verbatim>\<open>platformhal/smbus.go\<close>) the wiring of a board and its
  checks, \<open>Scd\<close> (\<^verbatim>\<open>platformhal/scd\<close>) the controller: watchdog, reset lines, power supplies, sensors, fans,
  cages and module memory. \<open>Scd_Safety\<close> proves of it, whatever the hardware answers, that fans are never
  set below their floor, that the watchdog is armed with what was asked or refused, and that the switch chip is
  released in order. \<open>Scd_Panel\<close> has the lamps and the signal repeater with the files that describe
  them, \<open>Schan\<close> the command path into the switch chip, which issues reads only. The theorem at the end of
  this theory joins sensors, cooling loop and fan controller.

  \<^bold>\<open>Conventions.\<close> A Go error is a value: \<open>sw_error\<close>, \<open>io_error\<close>, \<open>client_error\<close>, or the left of a sum. A
  message is its format and its values; how package \<^verbatim>\<open>fmt\<close> renders them is a parameter where the text travels.
  A Go \<^verbatim>\<open>int\<close> is an \<open>int\<close>, with the range checked where a number enters from text and wrap-around
  written out where sizes are multiplied. A method that holds the datapath's lock is one step.
  What is not this program is a parameter: \<^verbatim>\<open>sfdisk\<close>, \<^verbatim>\<open>debugfs\<close>, \<^verbatim>\<open>mount\<close>, the kernel's tables, sensors, fans and
  the i2c bus.

  \<^bold>\<open>Assumptions of the crash model.\<close> Writes reach the disk in the order they are made, a file grows byte by
  byte, a rename is atomic. A disk that reorders unsynced writes is not covered.

  \<^bold>\<open>Not modelled.\<close> The text of JSON and the socket itself (values are exchanged); the vendor diagnostics of the
  client; the datapath \<^verbatim>\<open>internal/nosd/virt\<close>, whose state is the Linux kernel's, reached by running commands;
  \<^verbatim>\<open>cmd/\<close>, which parses flags and prints; the image and package builders, which run external tools over the
  build host's file system and write shell scripts; the drivers of the other boards (\<^verbatim>\<open>as4610\<close>, \<^verbatim>\<open>n3172tq\<close>), which
  go through the kernel's i2c and sysfs files; mapping a PCI device into memory and the probes and reports of the
  controller that only print (\<^verbatim>\<open>ProbeASIC\<close>, \<^verbatim>\<open>LampSummary\<close>, \<^verbatim>\<open>RetimerReport\<close>); the readers of YAML descriptions, built
  on a third-party parser; \<^verbatim>\<open>DBm\<close> and \<^verbatim>\<open>FormatDBm\<close>, floating point for display. The C datapaths and shell scripts of the repository are
  outside this development.
\<close>



end
